(* ===== verification/Prelude.thy ===== *)
theory Prelude
  imports Main "HOL-Library.Multiset" "HOL-Library.List_Lexorder" "HOL-Library.Char_ord" "HOL-Library.Sublist"
begin

text \<open>
  What every component of the development shares.

  Go strings are sequences of bytes, and so are HOL's \<open>string\<close>s, so a Go string is a
  \<open>string\<close> and its length is the number of its bytes. The functions of the Go standard
  library that the source calls on strings are defined here with their documented
  behaviour on every byte string: \<open>strings.HasPrefix\<close>, \<open>HasSuffix\<close>, \<open>TrimPrefix\<close>,
  \<open>TrimSuffix\<close>, \<open>CutSuffix\<close>, \<open>ContainsAny\<close>, \<open>Split\<close> and \<open>Join\<close> at a one-byte
  separator, \<open>TrimSpace\<close>, \<open>slices.Sorted\<close>. The lemmas say how they undo each other;
  they are the round trips the path and document components rest on.

  A Go function that returns a value and an error is a function into the sum
  \<open>'e + 'a\<close>: \<open>Inl\<close> carries the error and \<open>Inr\<close> the value.
\<close>

named_theorems go_strings \<open>how the string functions of Go's library compute and undo each other\<close>
named_theorems go_results \<open>inversion of the two-valued results of Go functions\<close>

section \<open>Results\<close>

type_synonym ('e, 'a) result = "'e + 'a"

fun bind_result :: "('e, 'a) result \<Rightarrow> ('a \<Rightarrow> ('e, 'b) result) \<Rightarrow> ('e, 'b) result" where
  "bind_result (Inl err) f = Inl err"
| "bind_result (Inr x) f = f x"

lemma bind_result_Inr [go_results]:
  "bind_result r f = Inr y \<longleftrightarrow> (\<exists>x. r = Inr x \<and> f x = Inr y)"
  by (cases r) auto

lemma bind_result_Inl [go_results]:
  "bind_result r f = Inl err \<longleftrightarrow> r = Inl err \<or> (\<exists>x. r = Inr x \<and> f x = Inl err)"
  by (cases r) auto

lemma bind_result_assoc:
  "bind_result (bind_result r f) g = bind_result r (\<lambda>x. bind_result (f x) g)"
  by (cases r) auto

fun is_ok :: "('e, 'a) result \<Rightarrow> bool" where
  "is_ok (Inl err) = False"
| "is_ok (Inr x) = True"

lemma is_ok_iff [go_results]: "is_ok r \<longleftrightarrow> (\<exists>x. r = Inr x)"
  by (cases r) auto

section \<open>Prefixes and suffixes\<close>

definition HasPrefix :: "string \<Rightarrow> string \<Rightarrow> bool" where
  "HasPrefix s p = (take (length p) s = p)"

definition HasSuffix :: "string \<Rightarrow> string \<Rightarrow> bool" where
  "HasSuffix s p = (length p \<le> length s \<and> drop (length s - length p) s = p)"

definition TrimPrefix :: "string \<Rightarrow> string \<Rightarrow> string" where
  "TrimPrefix s p = (if HasPrefix s p then drop (length p) s else s)"

definition TrimSuffix :: "string \<Rightarrow> string \<Rightarrow> string" where
  "TrimSuffix s p = (if HasSuffix s p then take (length s - length p) s else s)"

text \<open>\<open>strings.CutSuffix\<close> also says whether the suffix was there.\<close>

definition CutSuffix :: "string \<Rightarrow> string \<Rightarrow> string \<times> bool" where
  "CutSuffix s p = (if HasSuffix s p then (take (length s - length p) s, True) else (s, False))"

definition ContainsAny :: "string \<Rightarrow> string \<Rightarrow> bool" where
  "ContainsAny s chars = (\<exists>c \<in> set s. c \<in> set chars)"

lemma HasPrefix_iff [go_strings]: "HasPrefix s p \<longleftrightarrow> (\<exists>r. s = p @ r)"
  by (metis HasPrefix_def append_take_drop_id append_eq_conv_conj)

lemma HasSuffix_iff [go_strings]: "HasSuffix s p \<longleftrightarrow> (\<exists>r. s = r @ p)"
proof
  assume "HasSuffix s p"
  then have "s = take (length s - length p) s @ p"
    by (metis HasSuffix_def append_take_drop_id)
  then show "\<exists>r. s = r @ p" ..
qed (auto simp: HasSuffix_def)

lemma HasPrefix_append [simp]: "HasPrefix (p @ r) p"
  by (simp add: HasPrefix_def)

lemma HasSuffix_append [simp]: "HasSuffix (r @ p) p"
  by (simp add: HasSuffix_def)

lemma HasPrefix_Cons [simp]: "HasPrefix (c # s) [d] \<longleftrightarrow> c = d"
  by (simp add: HasPrefix_def)

lemma HasPrefix_Nil [simp]: "HasPrefix [] [d] = False"
  by (simp add: HasPrefix_def)

lemma HasSuffix_snoc [simp]: "HasSuffix (s @ [c]) [d] \<longleftrightarrow> c = d"
  by (simp add: HasSuffix_def)

lemma TrimPrefix_append [simp]: "TrimPrefix (p @ r) p = r"
  by (simp add: TrimPrefix_def)

lemma TrimPrefix_Cons [simp]: "TrimPrefix (c # r) [c] = r"
  using TrimPrefix_append [of "[c]" r] by simp

lemma TrimSuffix_append [simp]: "TrimSuffix (r @ p) p = r"
  by (simp add: TrimSuffix_def)

lemma CutSuffix_append [simp]: "CutSuffix (r @ p) p = (r, True)"
  by (simp add: CutSuffix_def)

lemma CutSuffix_cases [go_strings]:
  "CutSuffix s p = (r, found) \<longleftrightarrow>
     (if found then s = r @ p else \<not> HasSuffix s p \<and> r = s)"
  by (auto simp: CutSuffix_def HasSuffix_iff)

section \<open>Splitting and joining\<close>

text \<open>
  \<open>strings.Split(s, sep)\<close> for a separator of one byte: always at least one part, and an
  empty part between two separators, before the first and after the last.
\<close>

fun split_on :: "char \<Rightarrow> string \<Rightarrow> string list" where
  "split_on c [] = [[]]"
| "split_on c (x # xs) =
     (if x = c then [] # split_on c xs
      else (case split_on c xs of [] \<Rightarrow> [[x]] | w # ws \<Rightarrow> (x # w) # ws))"

fun join :: "string \<Rightarrow> string list \<Rightarrow> string" where
  "join sep [] = []"
| "join sep [x] = x"
| "join sep (x # y # ys) = x @ sep @ join sep (y # ys)"

lemma split_on_nonempty [simp]: "split_on c s \<noteq> []"
  by (induction s) (auto split: list.splits)

lemma join_Cons [go_strings]: "join sep (x # xs) = (if xs = [] then x else x @ sep @ join sep xs)"
  by (cases xs) auto

lemma join_split_on [simp, go_strings]: "join [c] (split_on c s) = s"
proof (induction s)
  case Nil
  then show ?case by simp
next
  case (Cons x xs)
  obtain w ws where w: "split_on c xs = w # ws"
    by (cases "split_on c xs") auto
  with Cons show ?case by (cases ws) auto
qed

lemma split_on_no_sep: "c \<notin> set s \<Longrightarrow> split_on c s = [s]"
  by (induction s) auto

lemma split_on_append: "c \<notin> set s \<Longrightarrow> split_on c (s @ c # t) = s # split_on c t"
  by (induction s) auto

text \<open>What stands before the first separator, and what stands after it.\<close>

lemma sep_inject:
  assumes "a @ c # b = a' @ c # b'" and "c \<notin> set a" and "c \<notin> set (a' :: string)"
  shows "a = a' \<and> b = b'"
  using split_on_append [OF assms(2), of b] split_on_append [OF assms(3), of b'] assms(1)
  by simp

lemma split_on_join [go_strings]:
  assumes "parts \<noteq> []" and "\<forall>p \<in> set parts. c \<notin> set p"
  shows "split_on c (join [c] parts) = parts"
  using assms
proof (induction "[c]" parts rule: join.induct)
  case (3 x y ys)
  then show ?case by (simp add: split_on_append)
qed (auto simp: split_on_no_sep)

lemma split_on_parts: "p \<in> set (split_on c s) \<Longrightarrow> c \<notin> set p"
proof (induction s arbitrary: p)
  case Nil
  then show ?case by simp
next
  case (Cons x xs)
  then show ?case by (auto split: if_splits list.splits)
qed

section \<open>White space\<close>

text \<open>
  \<open>strings.TrimSpace\<close> removes Unicode white space at both ends. The white space runes,
  as the bytes UTF-8 writes them with: the six ASCII ones, U+0085, U+00A0, U+1680,
  U+2000 to U+200A, U+2028, U+2029, U+202F, U+205F and U+3000. No one of these
  encodings is the beginning of another, nor the end of another.
\<close>

definition space_runes :: "string list" where
  "space_runes =
     [[CHR 0x09], [CHR 0x0A], [CHR 0x0B], [CHR 0x0C], [CHR 0x0D], [CHR 0x20],
      [CHR 0xC2, CHR 0x85], [CHR 0xC2, CHR 0xA0], [CHR 0xE1, CHR 0x9A, CHR 0x80],
      [CHR 0xE2, CHR 0x80, CHR 0x80], [CHR 0xE2, CHR 0x80, CHR 0x81],
      [CHR 0xE2, CHR 0x80, CHR 0x82], [CHR 0xE2, CHR 0x80, CHR 0x83],
      [CHR 0xE2, CHR 0x80, CHR 0x84], [CHR 0xE2, CHR 0x80, CHR 0x85],
      [CHR 0xE2, CHR 0x80, CHR 0x86], [CHR 0xE2, CHR 0x80, CHR 0x87],
      [CHR 0xE2, CHR 0x80, CHR 0x88], [CHR 0xE2, CHR 0x80, CHR 0x89],
      [CHR 0xE2, CHR 0x80, CHR 0x8A], [CHR 0xE2, CHR 0x80, CHR 0xA8],
      [CHR 0xE2, CHR 0x80, CHR 0xA9], [CHR 0xE2, CHR 0x80, CHR 0xAF],
      [CHR 0xE2, CHR 0x81, CHR 0x9F], [CHR 0xE3, CHR 0x80, CHR 0x80]]"

text \<open>
  One pass peels a rune that stands at the front; the fuel is the length of the string,
  which is enough because every rune has at least one byte.
\<close>

fun peel :: "nat \<Rightarrow> string list \<Rightarrow> string \<Rightarrow> string" where
  "peel 0 runes s = s"
| "peel (Suc fuel) runes s =
     (case find (HasPrefix s) runes of None \<Rightarrow> s | Some r \<Rightarrow> peel fuel runes (drop (length r) s))"

definition TrimSpace :: "string \<Rightarrow> string" where
  "TrimSpace s =
     (let left = peel (length s) space_runes s
      in rev (peel (length left) (map rev space_runes) (rev left)))"

lemma peel_Nil [simp]: "[] \<notin> set runes \<Longrightarrow> peel fuel runes [] = []"
  by (induction fuel) (auto simp: HasPrefix_def find_Some_iff split: option.splits)

lemma space_runes_nonempty: "[] \<notin> set space_runes"
  by (simp add: space_runes_def)

lemma TrimSpace_Nil [simp]: "TrimSpace [] = []"
  by (simp add: TrimSpace_def)

lemma peel_done: "find (HasPrefix s) runes = None \<Longrightarrow> peel fuel runes s = s"
  by (cases fuel) auto

text \<open>The fuel of \<open>TrimSpace\<close> never decides the answer: more of it changes nothing.\<close>

lemma peel_enough:
  "[] \<notin> set runes \<Longrightarrow> length s \<le> fuel \<Longrightarrow> peel (fuel + extra) runes s = peel fuel runes s"
proof (induction fuel runes s rule: peel.induct)
  case (1 runes s)
  then show ?case by simp
next
  case (2 fuel runes s)
  show ?case
  proof (cases "find (HasPrefix s) runes")
    case None
    then show ?thesis by (simp add: peel_done)
  next
    case (Some r)
    then have "r \<in> set runes" by (auto simp: find_Some_iff)
    with "2.prems" have "0 < length r" by auto
    moreover have "length s \<le> Suc fuel" using "2.prems" by simp
    ultimately have "length (drop (length r) s) \<le> fuel" by (simp only: length_drop)
    with 2 Some show ?thesis by (simp add: add.commute)
  qed
qed

lemma TrimSpace_keeps:
  assumes "find (HasPrefix s) space_runes = None"
    and "find (HasPrefix (rev s)) (map rev space_runes) = None"
  shows "TrimSpace s = s"
  using assms by (simp add: TrimSpace_def peel_done Let_def)

section \<open>Numbers as text\<close>

text \<open>\<open>strconv.Itoa\<close> and the verb \<open>%d\<close>: decimal digits, with a minus sign below zero.\<close>

fun digits :: "nat \<Rightarrow> string" where
  "digits n = (if n < 10 then [char_of (48 + n)] else digits (n div 10) @ [char_of (48 + n mod 10)])"

declare digits.simps [simp del]

definition itoa :: "int \<Rightarrow> string" where
  "itoa i = (if i < 0 then CHR ''-'' # digits (nat (- i)) else digits (nat i))"

text \<open>The verb \<open>%-ns\<close> on a text of single-byte characters.\<close>

definition padded :: "nat \<Rightarrow> string \<Rightarrow> string" where
  "padded width s = s @ replicate (width - length s) (CHR '' '')"

text \<open>Reading the digits back: the left inverse that makes \<open>digits\<close> injective.\<close>

definition undigits :: "string \<Rightarrow> nat" where
  "undigits s = foldl (\<lambda>acc c. 10 * acc + (of_char c - 48)) 0 s"

lemma undigits_digits: "undigits (digits n) = n"
proof (induction n rule: digits.induct)
  case (1 n)
  show ?case
  proof (cases "n < 10")
    case True
    then show ?thesis by (simp add: digits.simps [of n] undigits_def)
  next
    case False
    with 1 have "undigits (digits (n div 10)) = n div 10" by blast
    with False show ?thesis by (simp add: digits.simps [of n] undigits_def)
  qed
qed

lemma digits_inject [simp]: "digits m = digits n \<longleftrightarrow> m = n"
  by (metis undigits_digits)

lemma digits_chars: "c \<in> set (digits n) \<Longrightarrow> 48 \<le> (of_char c :: nat) \<and> (of_char c :: nat) < 58"
proof (induction n rule: digits.induct)
  case (1 n)
  show ?case
  proof (cases "n < 10")
    case True
    with 1 show ?thesis by (simp add: digits.simps [of n])
  next
    case False
    have low: "n mod 10 < 10" by simp
    from False 1 low show ?thesis by (auto simp: digits.simps [of n])
  qed
qed

lemma digits_no_minus: "CHR ''-'' \<notin> set (digits n)"
  using digits_chars by fastforce

text \<open>A label and a number behind a hyphen: both can be read back, whatever hyphens the label has.\<close>

lemma numbered_inject:
  "label @ ''-'' @ digits n = label' @ ''-'' @ digits n' \<longleftrightarrow> label = label' \<and> n = n'"
proof
  assume eq: "label @ ''-'' @ digits n = label' @ ''-'' @ digits n'"
  have rev: "rev (a @ ''-'' @ digits k) = rev (digits k) @ CHR ''-'' # rev a" for a k by simp
  have "rev (digits n) = rev (digits n') \<and> rev label = rev label'"
    by (rule sep_inject [OF _ _ _]) (use eq rev [of label n] rev [of label' n'] digits_no_minus in auto)
  then show "label = label' \<and> n = n'" by simp
qed simp

lemma itoa_inject [simp]: "itoa i = itoa j \<longleftrightarrow> i = j"
proof
  assume eq: "itoa i = itoa j"
  have neq: "digits m \<noteq> CHR ''-'' # s" for m s
    using digits_no_minus [of m] by auto
  from eq neq show "i = j"
    by (auto simp: itoa_def split: if_splits dest: not_sym)
qed simp

section \<open>Sorting and lists\<close>

text \<open>
  \<open>slices.Sorted\<close> and \<open>sort.Strings\<close> order strings byte by byte, which is HOL's
  lexicographic order on lists of characters. The result does not depend on the order
  the strings arrived in, which is what makes an iteration over a Go map harmless.
\<close>

lemma sort_perm_eq: "mset xs = mset ys \<Longrightarrow> sort xs = sort (ys :: 'a::linorder list)"
  by (metis mset_sort properties_for_sort sorted_sort)

fun lookup_first :: "('k \<times> 'v) list \<Rightarrow> 'k \<Rightarrow> 'v option" where
  "lookup_first [] k = None"
| "lookup_first ((k', v) # rest) k = (if k = k' then Some v else lookup_first rest k)"

lemma lookup_first_map_of [simp]: "lookup_first xs = map_of xs"
proof
  fix k show "lookup_first xs k = map_of xs k"
    by (induction xs) auto
qed

lemma filter_eq_single:
  assumes "distinct xs" and "x \<in> set xs" and "\<And>y. y \<in> set xs \<Longrightarrow> P y \<longleftrightarrow> y = x"
  shows "filter P xs = [x]"
  using assms
proof (induction xs)
  case (Cons a xs)
  then show ?case
  proof (cases "a = x")
    case True
    with Cons have "filter P xs = []" by (auto simp: filter_empty_conv)
    with True Cons show ?thesis by auto
  qed auto
qed simp

end
