(* ===== verification/Web_Fault.thy ===== *)
theory Web_Fault
  imports Prelude
begin

text \<open>
  What the package \<open>web\<close> fails with (\<open>web/fault.go\<close>), the refusal a client reads
  (\<open>web/call.go\<close>) and the classification of both.

  A Go \<open>error\<close> is one of the kinds of value the package makes: a sentinel that states its
  kind, a plain text made by \<open>errors.New\<close> or \<open>fmt.Errorf\<close>, a \<open>Fault\<close>, a \<open>Refusal\<close>, or an
  error of another package, of which only the text and what it unwraps to are visible. A
  \<open>nil\<close> error is \<open>None\<close>. The function \<open>fault.KindOf\<close> of the runtime is a parameter of the
  definitions that call it.
\<close>

section \<open>Faults, sentinels and refusals\<close>

text \<open>The kinds this package states; the runtime may know others.\<close>

datatype faultKind = Unreadable | Unacceptable | Missing | Unavailable | OtherKind string

type_synonym http_header = "string \<Rightarrow> string list option"

record Refusal =
  Refusal_Status :: int
  Refusal_Entity :: string
  Refusal_header :: http_header

datatype error =
    Sentinel string faultKind
  | Reason string
  | FaultErr Fault
  | RefusalErr Refusal
  | Foreign string "error option"
  and Fault = Fault (Op: string) (Err: "error option")

fun Refusal_Error :: "Refusal \<Rightarrow> string" where
  "Refusal_Error refusal =
     (let detail = (if Refusal_Entity refusal \<noteq> [] then '': '' @ Refusal_Entity refusal else [])
      in ''the server answered '' @ itoa (Refusal_Status refusal) @ detail)"

fun Error :: "error \<Rightarrow> string" and Fault_Error :: "Fault \<Rightarrow> string" where
  "Error (Sentinel reason k) = reason"
| "Error (Reason txt) = txt"
| "Error (FaultErr f) = Fault_Error f"
| "Error (RefusalErr r) = Refusal_Error r"
| "Error (Foreign txt inner) = txt"
| "Fault_Error (Fault op None) = ''web: '' @ op"
| "Fault_Error (Fault op (Some err)) = ''web: '' @ op @ '': '' @ Error err"

fun Unwrap :: "error \<Rightarrow> error option" where
  "Unwrap (FaultErr f) = Err f"
| "Unwrap (Foreign txt inner) = inner"
| "Unwrap err = None"

definition declarationMistake :: "string \<Rightarrow> error" where
  "declarationMistake reason = Sentinel reason Unreadable"

definition unreadableValue :: "string \<Rightarrow> error" where
  "unreadableValue reason = Sentinel reason Unreadable"

definition requestMistake :: "string \<Rightarrow> error" where
  "requestMistake reason = Sentinel reason Unacceptable"

definition faultOf :: "string \<Rightarrow> error option \<Rightarrow> error option" where
  "faultOf op err = (case err of None \<Rightarrow> None | Some e \<Rightarrow> Some (FaultErr (Fault op (Some e))))"

text \<open>
  The same for an error already known to be there, which is how most of the package uses it.
\<close>

definition fault_at :: "string \<Rightarrow> error \<Rightarrow> error" where
  "fault_at op err = FaultErr (Fault op (Some err))"

lemma faultOf_Some [simp]: "faultOf op (Some err) = Some (fault_at op err)"
  by (simp add: faultOf_def fault_at_def)

lemma faultOf_None [simp]: "faultOf op None = None"
  by (simp add: faultOf_def)

lemma faultOf_eq_None [simp]: "faultOf op err = None \<longleftrightarrow> err = None"
  by (cases err) auto

section \<open>Looking inside an error\<close>

text \<open>
  \<open>errors.As\<close> walks the chain that \<open>Unwrap\<close> makes and stops at the first error of the type
  asked for.
\<close>

fun as_Fault :: "error \<Rightarrow> Fault option" where
  "as_Fault (FaultErr f) = Some f"
| "as_Fault (Foreign txt (Some inner)) = as_Fault inner"
| "as_Fault err = None"

fun as_Refusal :: "error \<Rightarrow> Refusal option" and as_Refusal_Fault :: "Fault \<Rightarrow> Refusal option" where
  "as_Refusal (RefusalErr r) = Some r"
| "as_Refusal (FaultErr f) = as_Refusal_Fault f"
| "as_Refusal (Foreign txt (Some inner)) = as_Refusal inner"
| "as_Refusal (Foreign txt None) = None"
| "as_Refusal (Sentinel reason k) = None"
| "as_Refusal (Reason txt) = None"
| "as_Refusal_Fault (Fault op None) = None"
| "as_Refusal_Fault (Fault op (Some err)) = as_Refusal err"

definition asFault :: "string \<Rightarrow> error \<Rightarrow> Fault" where
  "asFault op err = (case as_Fault err of Some already \<Rightarrow> already | None \<Rightarrow> Fault op (Some err))"

definition Refusal_Kind :: "Refusal \<Rightarrow> faultKind" where
  "Refusal_Kind refusal =
     (if Refusal_Status refusal = 404 \<or> Refusal_Status refusal = 410 then Missing
      else if Refusal_Status refusal = 408 \<or> Refusal_Status refusal = 429
              \<or> Refusal_Status refusal \<ge> 500 then Unavailable
      else Unacceptable)"

definition Fault_Kind :: "(error option \<Rightarrow> faultKind) \<Rightarrow> Fault \<Rightarrow> faultKind" where
  "Fault_Kind KindOf failure =
     (case as_Refusal_Fault failure of
        Some refusal \<Rightarrow> Refusal_Kind refusal
      | None \<Rightarrow> KindOf (Err failure))"

section \<open>Lemmas\<close>

lemma fault_at_text: "Error (fault_at op err) = ''web: '' @ op @ '': '' @ Error err"
  by (simp add: fault_at_def)

lemma as_Refusal_asFault [simp]: "as_Refusal_Fault (asFault op err) = as_Refusal err"
proof (induction err rule: as_Fault.induct)
  case (1 f)
  then show ?case by (simp add: asFault_def)
next
  case (2 reason inner)
  then show ?case by (auto simp: asFault_def split: option.splits)
qed (auto simp: asFault_def)

lemma asFault_fault_at [simp]: "asFault op (fault_at op' err) = Fault op' (Some err)"
  by (simp add: asFault_def fault_at_def)

lemma asFault_idem: "asFault op (FaultErr (asFault op' err)) = asFault op' err"
  by (simp add: asFault_def)

lemma Refusal_Kind_range: "Refusal_Kind r \<in> {Missing, Unavailable, Unacceptable}"
  by (simp add: Refusal_Kind_def)

end
