(* ===== verification/Web_Message.thy ===== *)
theory Web_Message
  imports Web_Fault
begin

text \<open>
  Requests and responses (\<open>web/request.go\<close>, \<open>web/response.go\<close>, \<open>web/response_browser.go\<close>).

  The types of \<open>net/http\<close> are modelled as far as the package uses them: a header is a map
  from canonical names to values, a request is what was received, and a response writer is
  the state that \<open>Header\<close>, \<open>WriteHeader\<close> and \<open>Write\<close> change. The first status written is the
  one sent, with the header as it stands then; writing an entity first sends 200, and a status
  that allows no entity takes none. \<open>WriteHeader\<close> of a status below 100 or above 999 panics, which
  is not modelled. A connection that has gone away makes every write report its error. The naming strategy of
  a surface is a value of another module and has no structure here; no strategy is \<open>None\<close>.
\<close>

section \<open>Headers\<close>

text \<open>The bytes a field name is made of: letters, digits and a few marks.\<close>

abbreviation byte :: "char \<Rightarrow> nat" where
  "byte c \<equiv> of_char c"

definition is_capital :: "char \<Rightarrow> bool" where
  "is_capital c \<longleftrightarrow> 65 \<le> byte c \<and> byte c \<le> 90"

definition is_small :: "char \<Rightarrow> bool" where
  "is_small c \<longleftrightarrow> 97 \<le> byte c \<and> byte c \<le> 122"

definition validHeaderFieldByte :: "char \<Rightarrow> bool" where
  "validHeaderFieldByte c \<longleftrightarrow>
     is_capital c \<or> is_small c \<or> (48 \<le> byte c \<and> byte c \<le> 57) \<or>
     byte c \<in> {33, 35, 36, 37, 38, 39, 42, 43, 45, 46, 94, 95, 96, 124, 126}"

definition to_upper :: "char \<Rightarrow> char" where
  "to_upper c = (if is_small c then char_of (byte c - 32) else c)"

definition to_lower :: "char \<Rightarrow> char" where
  "to_lower c = (if is_capital c then char_of (byte c + 32) else c)"

fun canonical_case :: "bool \<Rightarrow> string \<Rightarrow> string" where
  "canonical_case upper [] = []"
| "canonical_case upper (c # cs) =
     (if upper then to_upper c else to_lower c) # canonical_case (c = CHR ''-'') cs"

text \<open>\<open>textproto.CanonicalMIMEHeaderKey\<close>: a name with a byte no name has is left alone.\<close>

definition CanonicalMIMEHeaderKey :: "string \<Rightarrow> string" where
  "CanonicalMIMEHeaderKey name =
     (if list_all validHeaderFieldByte name then canonical_case True name else name)"

definition header_Set :: "http_header \<Rightarrow> string \<Rightarrow> string \<Rightarrow> http_header" where
  "header_Set header name value = header(CanonicalMIMEHeaderKey name \<mapsto> [value])"

definition header_Get :: "http_header \<Rightarrow> string \<Rightarrow> string" where
  "header_Get header name =
     (case header (CanonicalMIMEHeaderKey name) of Some (v # vs) \<Rightarrow> v | _ \<Rightarrow> [])"

definition header_Values :: "http_header \<Rightarrow> string \<Rightarrow> string list" where
  "header_Values header name =
     (case header (CanonicalMIMEHeaderKey name) of Some vs \<Rightarrow> vs | None \<Rightarrow> [])"

section \<open>Canonical names\<close>

lemma byte_eq: "c = d \<longleftrightarrow> byte c = byte d"
  by simp

lemma byte_to_upper: "byte (to_upper c) = (if is_small c then byte c - 32 else byte c)"
  by (auto simp: to_upper_def is_small_def take_bit_eq_mod)

lemma byte_to_lower: "byte (to_lower c) = (if is_capital c then byte c + 32 else byte c)"
  by (auto simp: to_lower_def is_capital_def take_bit_eq_mod)

lemma case_dash [simp]:
  "to_upper c = CHR ''-'' \<longleftrightarrow> c = CHR ''-''" "to_lower c = CHR ''-'' \<longleftrightarrow> c = CHR ''-''"
  unfolding byte_eq [of _ "CHR ''-''"] byte_to_upper byte_to_lower
  by (auto simp: is_small_def is_capital_def)

lemma case_idem [simp]: "to_upper (to_upper c) = to_upper c" "to_lower (to_lower c) = to_lower c"
  unfolding byte_eq byte_to_upper byte_to_lower is_small_def is_capital_def by auto

lemma to_upper_cases: "is_small c \<and> is_capital (to_upper c) \<or> to_upper c = c"
proof (cases "is_small c")
  case True
  then have "byte (to_upper c) = byte c - 32" by (simp add: byte_to_upper)
  with True show ?thesis unfolding is_small_def is_capital_def by auto
qed (simp add: to_upper_def)

lemma to_lower_cases: "is_capital c \<and> is_small (to_lower c) \<or> to_lower c = c"
proof (cases "is_capital c")
  case True
  then have "byte (to_lower c) = byte c + 32" by (simp add: byte_to_lower)
  with True show ?thesis unfolding is_small_def is_capital_def by auto
qed (simp add: to_lower_def)

lemma case_valid [simp]:
  "validHeaderFieldByte c \<Longrightarrow> validHeaderFieldByte (to_upper c)"
  "validHeaderFieldByte c \<Longrightarrow> validHeaderFieldByte (to_lower c)"
  using to_upper_cases [of c] to_lower_cases [of c] by (metis validHeaderFieldByte_def)+

lemma canonical_case_idem [simp]: "canonical_case u (canonical_case u s) = canonical_case u s"
  by (induction u s rule: canonical_case.induct) auto

lemma canonical_case_valid: "list_all validHeaderFieldByte s \<Longrightarrow> list_all validHeaderFieldByte (canonical_case u s)"
  by (induction u s rule: canonical_case.induct) auto

lemma CanonicalMIMEHeaderKey_idem [simp]:
  "CanonicalMIMEHeaderKey (CanonicalMIMEHeaderKey name) = CanonicalMIMEHeaderKey name"
  by (simp add: CanonicalMIMEHeaderKey_def canonical_case_valid)

lemma header_Get_Set [simp]: "header_Get (header_Set header name value) name = value"
  by (simp add: header_Get_def header_Set_def)

lemma header_Get_Set_other:
  "CanonicalMIMEHeaderKey other \<noteq> CanonicalMIMEHeaderKey name \<Longrightarrow>
   header_Get (header_Set header name value) other = header_Get header other"
  by (simp add: header_Get_def header_Set_def)

section \<open>Requests\<close>

typedecl Strategy

record http_request =
  req_Method :: string
  URL_Path :: string
  URL_Query :: http_header
  req_Header :: http_header
  req_Body :: "string option"

record Request =
  req_source :: http_request
  captures :: "string \<Rightarrow> string option"
  strategy :: "Strategy option"

definition RequestFrom :: "http_request \<Rightarrow> Request" where
  "RequestFrom source = \<lparr>req_source = source, captures = Map.empty, strategy = None\<rparr>"

definition NamingStrategy :: "Request \<Rightarrow> Strategy option" where
  "NamingStrategy request = strategy request"

definition request_withNaming :: "Request \<Rightarrow> Strategy option \<Rightarrow> Request" where
  "request_withNaming request naming = request\<lparr>strategy := naming\<rparr>"

definition WithCaptures :: "Request \<Rightarrow> (string \<Rightarrow> string option) \<Rightarrow> Request" where
  "WithCaptures request values = request\<lparr>captures := values\<rparr>"

definition Capture :: "Request \<Rightarrow> string \<Rightarrow> string option" where
  "Capture request name = captures request name"

definition Method :: "Request \<Rightarrow> string" where
  "Method request = req_Method (req_source request)"

definition Path :: "Request \<Rightarrow> string" where
  "Path request = URL_Path (req_source request)"

definition Query :: "Request \<Rightarrow> http_header" where
  "Query request = URL_Query (req_source request)"

definition Header :: "Request \<Rightarrow> http_header" where
  "Header request = req_Header (req_source request)"

definition Source :: "Request \<Rightarrow> http_request" where
  "Source request = req_source request"

section \<open>Response writers\<close>

record writer =
  w_header :: http_header
  w_sent :: "(int \<times> http_header) option"
  w_body :: string
  w_broken :: "error option"

text \<open>An informational status is sent ahead of the response and is not its status.\<close>

definition informational :: "int \<Rightarrow> bool" where
  "informational code \<longleftrightarrow> 100 \<le> code \<and> code < 200 \<and> code \<noteq> 101"

definition bodyAllowedForStatus :: "int \<Rightarrow> bool" where
  "bodyAllowedForStatus code \<longleftrightarrow> \<not> (100 \<le> code \<and> code < 200) \<and> code \<noteq> 204 \<and> code \<noteq> 304"

definition ErrBodyNotAllowed :: error where
  "ErrBodyNotAllowed = Foreign ''http: request method or response status code does not allow body'' None"

definition WriteHeader :: "writer \<Rightarrow> int \<Rightarrow> writer" where
  "WriteHeader w code =
     (if w_sent w \<noteq> None \<or> informational code then w else w\<lparr>w_sent := Some (code, w_header w)\<rparr>)"

definition Write :: "writer \<Rightarrow> string \<Rightarrow> writer \<times> error option" where
  "Write w bytes =
     (let w' = WriteHeader w 200 in
      if bytes = [] then (w', None)
      else if \<not> bodyAllowedForStatus (fst (the (w_sent w'))) then (w', Some ErrBodyNotAllowed)
      else (case w_broken w' of
              Some err \<Rightarrow> (w', Some err)
            | None \<Rightarrow> (w'\<lparr>w_body := w_body w' @ bytes\<rparr>, None)))"

lemma body_allowed_final [simp]: "bodyAllowedForStatus code \<Longrightarrow> \<not> informational code"
  by (auto simp: bodyAllowedForStatus_def informational_def)

definition newWriter :: writer where
  "newWriter = \<lparr>w_header = Map.empty, w_sent = None, w_body = [], w_broken = None\<rparr>"

lemma Write_fresh:
  "Write newWriter bytes =
     (\<lparr>w_header = Map.empty, w_sent = Some (200, Map.empty), w_body = bytes, w_broken = None\<rparr>, None)"
  by (simp add: Write_def WriteHeader_def newWriter_def informational_def bodyAllowedForStatus_def Let_def)

section \<open>Responses\<close>

record Response =
  status :: int
  resp_header :: http_header
  resp_write :: "(writer \<Rightarrow> http_request \<Rightarrow> writer \<times> error option) option"

definition writeNothing :: "writer \<Rightarrow> http_request \<Rightarrow> writer \<times> error option" where
  "writeNothing w request = (w, None)"

definition Empty :: "int \<Rightarrow> Response" where
  "Empty code = \<lparr>status = code, resp_header = Map.empty, resp_write = Some writeNothing\<rparr>"

definition Bytes :: "int \<Rightarrow> string \<Rightarrow> string \<Rightarrow> Response" where
  "Bytes code contentType body =
     \<lparr>status = code,
      resp_header = header_Set (header_Set Map.empty ''Content-Type'' contentType)
                      ''Content-Length'' (itoa (int (length body))),
      resp_write = Some (\<lambda>w _. Write w body)\<rparr>"

definition Text :: "int \<Rightarrow> string \<Rightarrow> Response" where
  "Text code body = Bytes code ''text/plain; charset=utf-8'' body"

definition Stream :: "int \<Rightarrow> string \<Rightarrow> (writer \<Rightarrow> writer \<times> error option) \<Rightarrow> Response" where
  "Stream code contentType body =
     \<lparr>status = code, resp_header = header_Set Map.empty ''Content-Type'' contentType,
      resp_write = Some (\<lambda>w _. body w)\<rparr>"

text \<open>An \<open>http.Handler\<close> is what it does to the writer it is given.\<close>

type_synonym http_handler = "writer \<Rightarrow> http_request \<Rightarrow> writer"

definition Delegate :: "http_handler \<Rightarrow> Response" where
  "Delegate handler =
     \<lparr>status = 0, resp_header = Map.empty, resp_write = Some (\<lambda>w request. (handler w request, None))\<rparr>"

definition WithStatus :: "Response \<Rightarrow> int \<Rightarrow> Response" where
  "WithStatus response code = response\<lparr>status := code\<rparr>"

definition WithHeader :: "Response \<Rightarrow> string \<Rightarrow> string \<Rightarrow> Response" where
  "WithHeader response name value =
     response\<lparr>resp_header := header_Set (resp_header response) name value\<rparr>"

definition WriteTo :: "Response \<Rightarrow> writer \<Rightarrow> http_request \<Rightarrow> writer \<times> error option" where
  "WriteTo response w request =
     (let w1 = w\<lparr>w_header := w_header w ++ resp_header response\<rparr>;
          w2 = (if status response \<noteq> 0 then WriteHeader w1 (status response) else w1)
      in case resp_write response of None \<Rightarrow> (w2, None) | Some f \<Rightarrow> f w2 request)"

section \<open>What a browser acts on\<close>

definition Redirect :: "string \<Rightarrow> Response" where
  "Redirect location =
     \<lparr>status = 302, resp_header = header_Set Map.empty ''Location'' location,
      resp_write = Some writeNothing\<rparr>"

definition ErrUnwritableCookie :: error where
  "ErrUnwritableCookie = Reason ''web: a cookie has a name and a value net/http can write''"

text \<open>
  A cookie is \<open>net/http\<close>'s: what the package does not touch is kept in \<open>more\<close>, and what
  \<open>Valid\<close> says of it and \<open>String\<close> writes for it are parameters. \<open>errors.Join\<close> makes an error
  with both texts, one to a line, of which only the first is ever looked for.
\<close>

record cookie =
  cookie_Name :: string
  cookie_Value :: string
  cookie_MaxAge :: int
  cookie_Expires :: "int option"
  cookie_more :: "(string \<times> string) list"

definition WithCookie ::
  "(cookie \<Rightarrow> error option) \<Rightarrow> (cookie \<Rightarrow> string) \<Rightarrow> Response \<Rightarrow> cookie option \<Rightarrow>
   (error, Response) result" where
  "WithCookie Valid String response given =
     (case given of
        None \<Rightarrow> Inl ErrUnwritableCookie
      | Some cookie \<Rightarrow>
          (case Valid cookie of
             Some err \<Rightarrow>
               Inl (Foreign (Error ErrUnwritableCookie @ [CHR 0x0A] @ Error err)
                      (Some ErrUnwritableCookie))
           | None \<Rightarrow>
               Inr (response\<lparr>resp_header := (resp_header response)
                      (''Set-Cookie'' \<mapsto>
                         (case resp_header response ''Set-Cookie'' of None \<Rightarrow> [] | Some lines \<Rightarrow> lines) @
                         [String cookie])\<rparr>)))"

definition ExpireCookie ::
  "(cookie \<Rightarrow> error option) \<Rightarrow> (cookie \<Rightarrow> string) \<Rightarrow> Response \<Rightarrow> cookie \<Rightarrow>
   (error, Response) result" where
  "ExpireCookie Valid String response cookie =
     WithCookie Valid String response
       (Some (cookie\<lparr>cookie_Value := [], cookie_MaxAge := -1, cookie_Expires := Some 0\<rparr>))"

end
