(* ===== verification/Web_Codec.thy ===== *)
theory Web_Codec
  imports Web_Message
begin

text \<open>
  Codecs: reading parts of a request (\<open>web/codec.go\<close>, \<open>codec_parameter.go\<close>, \<open>codec_entity.go\<close>,
  \<open>codec_struct.go\<close>, \<open>codec_page.go\<close>) and the source a parameter's schema is driven with
  (\<open>web/text_source.go\<close>).

  A \<open>schema.Schema[A]\<close> belongs to another module: it is a record of the operations the package
  calls on it, and any record of that type may stand there. So are \<open>strconv.Quote\<close>,
  \<open>strconv.ParseFloat\<close>, \<open>base64\<close> and \<open>time.Parse\<close>, whose results only pass through. A codec
  whose \<open>decode\<close> is nil is \<open>None\<close> there, and calling it is a panic, kept as an error of its own
  so that it can be shown never to happen.

  The contract is that a codec reads what it declares: two requests that agree on the
  declared parameters and, if one is declared, on the body are read alike.
\<close>

section \<open>Sources and schemas\<close>

typedecl Node
typedecl float64
typedecl timestamp

record Source =
  src_Text :: "(error, string) result"
  src_Integer :: "(error, int) result"
  src_Number :: "(error, float64) result"
  src_Boolean :: "(error, bool) result"
  src_Bytes :: "(error, string) result"
  src_Timestamp :: "(error, timestamp) result"
  src_Null :: "(error, bool) result"
  src_ReadObject :: "(string \<Rightarrow> error option) \<Rightarrow> error option"
  src_ReadList :: "(unit \<Rightarrow> error option) \<Rightarrow> error option"
  src_Skip :: "error option"

record 'a Schema =
  Structure :: "Node option"
  schema_Validate :: "error option"
  schema_Decode :: "Source \<Rightarrow> (error, 'a) result"
  schema_DecodeJSONFrom :: "Strategy option \<Rightarrow> string \<Rightarrow> (error, 'a) result"
  schema_DecodeJSON :: "Strategy option \<Rightarrow> string \<Rightarrow> (error, 'a) result"
  schema_EncodeJSON :: "Strategy option \<Rightarrow> 'a \<Rightarrow> (error, string) result"

record text_library =
  Quote :: "string \<Rightarrow> string"
  ParseFloat :: "string \<Rightarrow> float64 option"
  DecodeBase64 :: "string \<Rightarrow> string option"
  ParseRFC3339 :: "string \<Rightarrow> timestamp option"

text \<open>\<open>strconv.ParseInt\<close> in base 10 at 64 bits: a sign, digits, and a value that fits.\<close>

definition is_digit :: "char \<Rightarrow> bool" where
  "is_digit c \<longleftrightarrow> 48 \<le> byte c \<and> byte c < 58"

definition signed_text :: "string \<Rightarrow> bool \<times> string" where
  "signed_text s =
     (case s of
        [] \<Rightarrow> (False, [])
      | c # rest \<Rightarrow>
          if c = CHR ''-'' then (True, rest) else if c = CHR ''+'' then (False, rest) else (False, s))"

definition ParseInt :: "string \<Rightarrow> int option" where
  "ParseInt s =
     (case signed_text s of (negative, ds) \<Rightarrow>
        if ds = [] \<or> \<not> list_all is_digit ds then None
        else
          (let v = (if negative then - int (undigits ds) else int (undigits ds))
           in if - (2 ^ 63) \<le> v \<and> v < 2 ^ 63 then Some v else None))"

text \<open>\<open>strconv.ParseBool\<close>.\<close>

definition ParseBool :: "string \<Rightarrow> bool option" where
  "ParseBool s =
     (if s \<in> {''1'', ''t'', ''T'', ''TRUE'', ''true'', ''True''} then Some True
      else if s \<in> {''0'', ''f'', ''F'', ''FALSE'', ''false'', ''False''} then Some False
      else None)"

definition errCompoundParameter :: error where
  "errCompoundParameter = declarationMistake
     ''a parameter carries a single value, and this schema describes a compound one''"

definition read_as :: "text_library \<Rightarrow> string \<Rightarrow> string \<Rightarrow> 'a option \<Rightarrow> (error, 'a) result" where
  "read_as lib expected text parsed =
     (case parsed of
        None \<Rightarrow> Inl (unreadableValue (''expected '' @ expected @ '', found '' @ Quote lib text))
      | Some v \<Rightarrow> Inr v)"

definition textSource :: "text_library \<Rightarrow> string \<Rightarrow> Source" where
  "textSource lib value =
     \<lparr>src_Text = Inr value,
      src_Integer = read_as lib ''a whole number'' value (ParseInt value),
      src_Number = read_as lib ''a number'' value (ParseFloat lib value),
      src_Boolean =
        (if value = [] then Inr True else read_as lib ''true or false'' value (ParseBool value)),
      src_Bytes = read_as lib ''base64'' value (DecodeBase64 lib value),
      src_Timestamp = read_as lib ''an RFC 3339 timestamp'' value (ParseRFC3339 lib value),
      src_Null = Inr False,
      src_ReadObject = (\<lambda>_. Some errCompoundParameter),
      src_ReadList = (\<lambda>_. Some errCompoundParameter),
      src_Skip = None\<rparr>"

lemma digits_digit: "list_all is_digit (digits n)" "digits n \<noteq> []"
  using digits_chars [of _ n] by (auto simp: list_all_iff is_digit_def digits.simps [of n])

lemma signed_itoa: "signed_text (itoa i) = (i < 0, digits (nat \<bar>i\<bar>))"
proof (cases "i < 0")
  case True
  then show ?thesis by (simp add: signed_text_def itoa_def)
next
  case False
  obtain c cs where c: "digits (nat i) = c # cs" using digits_digit(2) by (cases "digits (nat i)") auto
  with digits_digit(1) [of "nat i"] have "is_digit c" by simp
  then have "c \<noteq> CHR ''-''" "c \<noteq> CHR ''+''" by (auto simp: is_digit_def)
  with False c show ?thesis by (simp add: signed_text_def itoa_def)
qed

lemma ParseInt_itoa: "ParseInt (itoa i) = (if - (2 ^ 63) \<le> i \<and> i < 2 ^ 63 then Some i else None)"
  by (simp add: ParseInt_def signed_itoa digits_digit undigits_digits)

section \<open>Codecs\<close>

type_synonym Location = string

definition InPath :: Location where "InPath = ''path''"
definition InQuery :: Location where "InQuery = ''query''"
definition InHeader :: Location where "InHeader = ''header''"

record Parameter =
  param_Name :: string
  In :: Location
  Required :: bool
  param_Description :: string
  param_Node :: "Node option"

record Content =
  MediaType :: string
  content_Node :: "Node option"

record 'a Codec =
  parameters :: "Parameter list"
  entity :: "Content option"
  codec_decode :: "(Request \<Rightarrow> (error, 'a) result) option"
  codec_fault :: "error option"

definition errZeroCodec :: error where
  "errZeroCodec = declarationMistake ''the zero Codec reads nothing and cannot be used''"

definition errTwoEntities :: error where
  "errTwoEntities = declarationMistake ''a request has one body, and two codecs both read it''"

definition ValidateCodec :: "'a Codec \<Rightarrow> error option" where
  "ValidateCodec codec =
     (case codec_fault codec of
        Some fault \<Rightarrow> Some fault
      | None \<Rightarrow> if codec_decode codec = None then faultOf ''use a codec'' (Some errZeroCodec) else None)"

text \<open>Calling a nil function panics; \<open>run\<close> is a call that may.\<close>

definition nil_call :: error where
  "nil_call = Reason ''runtime error: invalid memory address or nil pointer dereference''"

fun run :: "('x \<Rightarrow> (error, 'a) result) option \<Rightarrow> 'x \<Rightarrow> (error, 'a) result" where
  "run (Some f) x = f x"
| "run None x = Inl nil_call"

definition Decode :: "'a Codec \<Rightarrow> Request \<Rightarrow> (error, 'a) result" where
  "Decode codec request =
     (case ValidateCodec codec of
        Some err \<Rightarrow> Inl err
      | None \<Rightarrow> run (codec_decode codec) request)"

definition Nothing :: "unit Codec" where
  "Nothing =
     \<lparr>parameters = [], entity = None, codec_decode = Some (\<lambda>_. Inr ()), codec_fault = None\<rparr>"

definition parameter_key :: "Parameter \<Rightarrow> string" where
  "parameter_key p = In p @ '' '' @ param_Name p"

fun duplicates :: "Parameter list \<Rightarrow> string set \<Rightarrow> error option" where
  "duplicates [] seen = None"
| "duplicates (p # ps) seen =
     (if parameter_key p \<in> seen
      then faultOf ''combine codecs'' (Some (declarationMistake
             (''two codecs read the '' @ In p @ '' parameter '' @ param_Name p)))
      else duplicates ps (insert (parameter_key p) seen))"

definition duplicateParameterFault :: "Parameter list \<Rightarrow> error option" where
  "duplicateParameterFault ps = duplicates ps {}"

definition firstEntity :: "Content option \<Rightarrow> Content option \<Rightarrow> Content option" where
  "firstEntity first second = (if first \<noteq> None then first else second)"

definition firstCodecFault :: "'a Codec \<Rightarrow> 'b Codec \<Rightarrow> error option" where
  "firstCodecFault first second =
     (case ValidateCodec first of
        Some fault \<Rightarrow> Some fault
      | None \<Rightarrow>
          (case ValidateCodec second of
             Some fault \<Rightarrow> Some fault
           | None \<Rightarrow>
               if entity first \<noteq> None \<and> entity second \<noteq> None
               then faultOf ''combine codecs'' (Some errTwoEntities)
               else duplicateParameterFault (parameters first @ parameters second)))"

definition Zip :: "'a Codec \<Rightarrow> 'b Codec \<Rightarrow> ('a \<times> 'b) Codec" where
  "Zip first second =
     (let fault = firstCodecFault first second in
      \<lparr>parameters = parameters first @ parameters second,
       entity = firstEntity (entity first) (entity second),
       codec_decode =
         (if fault \<noteq> None then None
          else Some (\<lambda>request.
            bind_result (run (codec_decode first) request) (\<lambda>value.
              bind_result (run (codec_decode second) request) (\<lambda>also. Inr (value, also))))),
       codec_fault = fault\<rparr>)"

definition Convert :: "'a Codec \<Rightarrow> ('a \<Rightarrow> (error, 'b) result) \<Rightarrow> 'b Codec" where
  "Convert inner convert =
     (case ValidateCodec inner of
        Some fault \<Rightarrow>
          \<lparr>parameters = parameters inner, entity = entity inner, codec_decode = None,
           codec_fault = Some fault\<rparr>
      | None \<Rightarrow>
          \<lparr>parameters = parameters inner, entity = entity inner,
           codec_decode = Some (\<lambda>request. bind_result (run (codec_decode inner) request) convert),
           codec_fault = None\<rparr>)"

section \<open>Parameters\<close>

definition errAbsentParameter :: error where
  "errAbsentParameter = requestMistake ''it is required and was not given''"

definition errNamelessParameter :: error where
  "errNamelessParameter = declarationMistake ''a parameter has no name''"

definition errNotOneParameter :: error where
  "errNotOneParameter =
     declarationMistake ''prose applies to a codec that reads exactly one parameter''"

definition parameterFault :: "string \<Rightarrow> 'a Schema \<Rightarrow> error option" where
  "parameterFault name shape =
     (if TrimSpace name = [] then faultOf ''declare a parameter'' (Some errNamelessParameter)
      else faultOf (''declare the parameter '' @ name) (schema_Validate shape))"

definition parameterRefusal :: "Parameter \<Rightarrow> error \<Rightarrow> error" where
  "parameterRefusal parameter err =
     fault_at (''read the '' @ In parameter @ '' parameter '' @ param_Name parameter) err"

definition queryValue :: "string \<Rightarrow> Request \<Rightarrow> string option" where
  "queryValue name request =
     (case Query request name of Some (v # vs) \<Rightarrow> Some v | _ \<Rightarrow> None)"

definition headerValue :: "string \<Rightarrow> Request \<Rightarrow> string option" where
  "headerValue name request =
     (if Header request (CanonicalMIMEHeaderKey name) = None then None
      else Some (header_Get (Header request) name))"

definition requiredParameter ::
  "text_library \<Rightarrow> string \<Rightarrow> Location \<Rightarrow> 'a Schema \<Rightarrow> (Request \<Rightarrow> string option) \<Rightarrow> 'a Codec" where
  "requiredParameter lib name location shape read =
     (let parameter = \<lparr>param_Name = name, In = location, Required = True, param_Description = [],
                       param_Node = Structure shape\<rparr> in
      case parameterFault name shape of
        Some fault \<Rightarrow>
          \<lparr>parameters = [parameter], entity = None, codec_decode = None, codec_fault = Some fault\<rparr>
      | None \<Rightarrow>
          \<lparr>parameters = [parameter], entity = None,
           codec_decode = Some (\<lambda>request.
             case read request of
               None \<Rightarrow> Inl (parameterRefusal parameter errAbsentParameter)
             | Some text_value \<Rightarrow>
                 (case schema_Decode shape (textSource lib text_value) of
                    Inl err \<Rightarrow> Inl (parameterRefusal parameter err)
                  | Inr value \<Rightarrow> Inr value)),
           codec_fault = None\<rparr>)"

definition optionalParameter ::
  "text_library \<Rightarrow> string \<Rightarrow> Location \<Rightarrow> 'a Schema \<Rightarrow> (Request \<Rightarrow> string option) \<Rightarrow>
   'a option Codec" where
  "optionalParameter lib name location shape read =
     (let parameter = \<lparr>param_Name = name, In = location, Required = False, param_Description = [],
                       param_Node = Structure shape\<rparr> in
      case parameterFault name shape of
        Some fault \<Rightarrow>
          \<lparr>parameters = [parameter], entity = None, codec_decode = None, codec_fault = Some fault\<rparr>
      | None \<Rightarrow>
          \<lparr>parameters = [parameter], entity = None,
           codec_decode = Some (\<lambda>request.
             case read request of
               None \<Rightarrow> Inr None
             | Some text_value \<Rightarrow>
                 (case schema_Decode shape (textSource lib text_value) of
                    Inl err \<Rightarrow> Inl (parameterRefusal parameter err)
                  | Inr value \<Rightarrow> Inr (Some value))),
           codec_fault = None\<rparr>)"

definition PathParam :: "text_library \<Rightarrow> string \<Rightarrow> 'a Schema \<Rightarrow> 'a Codec" where
  "PathParam lib name shape =
     requiredParameter lib name InPath shape (\<lambda>request. Capture request name)"

definition QueryParam :: "text_library \<Rightarrow> string \<Rightarrow> 'a Schema \<Rightarrow> 'a Codec" where
  "QueryParam lib name shape = requiredParameter lib name InQuery shape (queryValue name)"

definition OptionalQueryParam :: "text_library \<Rightarrow> string \<Rightarrow> 'a Schema \<Rightarrow> 'a option Codec" where
  "OptionalQueryParam lib name shape = optionalParameter lib name InQuery shape (queryValue name)"

definition HeaderParam :: "text_library \<Rightarrow> string \<Rightarrow> 'a Schema \<Rightarrow> 'a Codec" where
  "HeaderParam lib name shape = requiredParameter lib name InHeader shape (headerValue name)"

definition OptionalHeaderParam :: "text_library \<Rightarrow> string \<Rightarrow> 'a Schema \<Rightarrow> 'a option Codec" where
  "OptionalHeaderParam lib name shape = optionalParameter lib name InHeader shape (headerValue name)"

definition OrElse :: "'a option Codec \<Rightarrow> 'a \<Rightarrow> 'a Codec" where
  "OrElse codec fallback =
     Convert codec (\<lambda>value. case value of None \<Rightarrow> Inr fallback | Some v \<Rightarrow> Inr v)"

definition WithDescription :: "'a Codec \<Rightarrow> string \<Rightarrow> 'a Codec" where
  "WithDescription codec doc =
     (case parameters codec of
        [parameter] \<Rightarrow> codec\<lparr>parameters := [parameter\<lparr>param_Description := doc\<rparr>]\<rparr>
      | _ \<Rightarrow> codec\<lparr>codec_fault := faultOf ''describe a parameter'' (Some errNotOneParameter)\<rparr>)"

section \<open>The entity\<close>

definition errNoEntity :: error where
  "errNoEntity = requestMistake ''it is required and the request carried none''"

definition Entity :: "'a Schema \<Rightarrow> 'a Codec" where
  "Entity shape =
     (let content = \<lparr>MediaType = ''application/json'', content_Node = Structure shape\<rparr> in
      case schema_Validate shape of
        Some fault \<Rightarrow>
          \<lparr>parameters = [], entity = Some content, codec_decode = None,
           codec_fault = faultOf ''declare the request body'' (Some fault)\<rparr>
      | None \<Rightarrow>
          \<lparr>parameters = [], entity = Some content,
           codec_decode = Some (\<lambda>request.
             case req_Body (Web_Message.Source request) of
               None \<Rightarrow> Inl (fault_at ''read the request body'' errNoEntity)
             | Some body \<Rightarrow>
                 (case schema_DecodeJSONFrom shape (NamingStrategy request) body of
                    Inl err \<Rightarrow> Inl (fault_at ''read the request body'' err)
                  | Inr value \<Rightarrow> Inr value)),
           codec_fault = None\<rparr>)"

section \<open>Structs\<close>

record 's Field =
  field_parameters :: "Parameter list"
  field_entity :: "Content option"
  field_fault :: "error option"
  field_decode :: "(Request \<times> 's \<Rightarrow> (error, 's) result) option"

definition FieldOf :: "'a Codec \<Rightarrow> ('s \<Rightarrow> 'a \<Rightarrow> 's) \<Rightarrow> 's Field" where
  "FieldOf codec assign =
     \<lparr>field_parameters = parameters codec, field_entity = entity codec,
      field_fault = ValidateCodec codec,
      field_decode = Some (\<lambda>(request, into).
        bind_result (run (codec_decode codec) request) (\<lambda>value. Inr (assign into value)))\<rparr>"

definition secondEntityFault :: "Content option \<Rightarrow> Content option \<Rightarrow> error option" where
  "secondEntityFault first second =
     (if first \<noteq> None \<and> second \<noteq> None then faultOf ''combine codecs'' (Some errTwoEntities)
      else None)"

text \<open>\<open>cmp.Or\<close>: the first of its arguments that is not zero.\<close>

fun cmp_Or :: "'a option list \<Rightarrow> 'a option" where
  "cmp_Or [] = None"
| "cmp_Or (Some x # xs) = Some x"
| "cmp_Or (None # xs) = cmp_Or xs"

definition add_field :: "'s Codec \<Rightarrow> 's Field \<Rightarrow> 's Codec" where
  "add_field codec field =
     codec\<lparr>parameters := parameters codec @ field_parameters field,
           codec_fault := cmp_Or [codec_fault codec, field_fault field,
                                  secondEntityFault (entity codec) (field_entity field)],
           entity := firstEntity (entity codec) (field_entity field)\<rparr>"

fun decode_fields :: "'s Field list \<Rightarrow> Request \<Rightarrow> 's \<Rightarrow> (error, 's) result" where
  "decode_fields [] request value = Inr value"
| "decode_fields (f # fs) request value =
     bind_result (run (field_decode f) (request, value)) (decode_fields fs request)"

text \<open>The zero value of the struct type is a parameter of the codec that builds one.\<close>

definition Struct :: "'s \<Rightarrow> 's Field list \<Rightarrow> 's Codec" where
  "Struct zero fs =
     (let codec = foldl add_field
            \<lparr>parameters = [], entity = None, codec_decode = None, codec_fault = None\<rparr> fs;
          fault = cmp_Or [codec_fault codec, duplicateParameterFault (parameters codec)]
      in if fault \<noteq> None then codec\<lparr>codec_fault := fault\<rparr>
         else codec\<lparr>codec_fault := None,
                    codec_decode := Some (\<lambda>request. decode_fields fs request zero)\<rparr>)"

section \<open>Pages\<close>

record PageRequest =
  Sort :: string
  After :: string
  Before :: string
  Number :: int
  Size :: int

definition errTwoPositions :: error where
  "errTwoPositions =
     requestMistake ''a page is after a cursor, before one, or numbered, and not two of those''"

definition given :: "'a \<Rightarrow> 'a option \<Rightarrow> 'a" where
  "given zero value = (case value of None \<Rightarrow> zero | Some v \<Rightarrow> v)"

definition emptyPage :: PageRequest where
  "emptyPage = \<lparr>Sort = [], After = [], Before = [], Number = 0, Size = 0\<rparr>"

definition offered_text :: "string list \<Rightarrow> string" where
  "offered_text sorts =
     ''one of '' @ join '', '' sorts @ (if sorts \<noteq> [] then ''; '' @ hd sorts @ '' unless asked'' else [])"

definition check_page :: "text_library \<Rightarrow> string list \<Rightarrow> PageRequest \<Rightarrow> (error, PageRequest) result" where
  "check_page lib sorts request =
     (if Sort request \<noteq> [] \<and> Sort request \<notin> set sorts
      then Inl (Reason (''no sort is called '' @ Quote lib (Sort request) @
                        ''; the list offers '' @ offered_text sorts))
      else if length (filter id [After request \<noteq> [], Before request \<noteq> [], Number request \<noteq> 0]) > 1
      then Inl errTwoPositions
      else Inr request)"

text \<open>
  The schemas of the text and of a positive number are the schema module's \<open>schema.Text()\<close>
  and \<open>schema.Int().Check(schema.AtLeast(1))\<close>, so they are parameters.
\<close>

definition page_fields ::
  "text_library \<Rightarrow> string Schema \<Rightarrow> int Schema \<Rightarrow> string list \<Rightarrow> PageRequest Field list" where
  "page_fields lib text_schema positive sorts =
     [FieldOf (WithDescription (OptionalQueryParam lib ''sort'' text_schema)
                 (''the order to read in: '' @ offered_text sorts))
        (\<lambda>page sort. page\<lparr>Sort := given [] sort\<rparr>),
      FieldOf (WithDescription (OptionalQueryParam lib ''after'' text_schema)
                 ''the cursor a page gave as its next'')
        (\<lambda>page after. page\<lparr>After := given [] after\<rparr>),
      FieldOf (WithDescription (OptionalQueryParam lib ''before'' text_schema)
                 ''the cursor a page gave as its previous'')
        (\<lambda>page before. page\<lparr>Before := given [] before\<rparr>),
      FieldOf (WithDescription (OptionalQueryParam lib ''page'' positive)
                 ''a numbered page, counted from 1'')
        (\<lambda>page number. page\<lparr>Number := given 0 number\<rparr>),
      FieldOf (WithDescription (OptionalQueryParam lib ''size'' positive)
                 ''how many rows a page holds'')
        (\<lambda>page size. page\<lparr>Size := given 0 size\<rparr>)]"

definition PageParams ::
  "text_library \<Rightarrow> string Schema \<Rightarrow> int Schema \<Rightarrow> string list \<Rightarrow> PageRequest Codec" where
  "PageParams lib text_schema positive sorts =
     Convert (Struct emptyPage (page_fields lib text_schema positive sorts)) (check_page lib sorts)"

section \<open>When a codec can be used\<close>

lemma ValidateCodec_None: "ValidateCodec c = None \<longleftrightarrow> codec_fault c = None \<and> codec_decode c \<noteq> None"
  by (simp add: ValidateCodec_def split: option.splits)

lemma ValidateCodec_simps [simp]:
  "ValidateCodec \<lparr>parameters = ps, entity = e, codec_decode = Some d, codec_fault = None\<rparr> = None"
  "ValidateCodec \<lparr>parameters = ps, entity = e, codec_decode = d', codec_fault = Some err\<rparr> = Some err"
  by (simp_all add: ValidateCodec_def)

lemma Decode_valid: "ValidateCodec c = None \<Longrightarrow> Decode c request = run (codec_decode c) request"
  by (simp add: Decode_def)

lemma Decode_fault: "ValidateCodec c = Some err \<Longrightarrow> Decode c request = Inl err"
  by (simp add: Decode_def)

lemma duplicates_None:
  "duplicates ps seen = None \<longleftrightarrow> distinct (map parameter_key ps) \<and> set (map parameter_key ps) \<inter> seen = {}"
  by (induction ps seen rule: duplicates.induct) auto

lemma duplicateParameterFault_None:
  "duplicateParameterFault ps = None \<longleftrightarrow> distinct (map parameter_key ps)"
  by (simp add: duplicateParameterFault_def duplicates_None)

text \<open>
  Distinct keys are distinct pairs of a location and a name: none of the three locations
  holds a space.
\<close>

lemma parameter_key_inject:
  assumes "In p \<in> {InPath, InQuery, InHeader}" and "In q \<in> {InPath, InQuery, InHeader}"
  shows "parameter_key p = parameter_key q \<longleftrightarrow> In p = In q \<and> param_Name p = param_Name q"
  using assms by (auto simp: parameter_key_def InPath_def InQuery_def InHeader_def)

lemma firstCodecFault_None:
  "firstCodecFault a b = None \<longleftrightarrow>
     ValidateCodec a = None \<and> ValidateCodec b = None \<and> (entity a = None \<or> entity b = None) \<and>
     distinct (map parameter_key (parameters a @ parameters b))"
  by (auto simp: firstCodecFault_def duplicateParameterFault_None split: option.splits)

lemma Zip_valid:
  "ValidateCodec (Zip a b) = None \<longleftrightarrow>
     ValidateCodec a = None \<and> ValidateCodec b = None \<and> (entity a = None \<or> entity b = None) \<and>
     distinct (map parameter_key (parameters a @ parameters b))"
  unfolding firstCodecFault_None [symmetric]
  by (simp add: Zip_def Let_def ValidateCodec_None)

lemma Decode_Zip:
  assumes "ValidateCodec (Zip a b) = None"
  shows "Decode (Zip a b) request =
           bind_result (Decode a request) (\<lambda>x. bind_result (Decode b request) (\<lambda>y. Inr (x, y)))"
proof -
  have "firstCodecFault a b = None" "ValidateCodec a = None" "ValidateCodec b = None"
    using assms unfolding Zip_valid firstCodecFault_None by blast+
  with assms show ?thesis by (simp add: Decode_valid Zip_def)
qed

lemma Convert_valid [simp]: "ValidateCodec (Convert c f) = ValidateCodec c"
  by (simp add: Convert_def split: option.splits)

lemma Convert_declares [simp]: "parameters (Convert c f) = parameters c" "entity (Convert c f) = entity c"
  by (simp_all add: Convert_def split: option.splits)

lemma Decode_Convert: "Decode (Convert c f) request = bind_result (Decode c request) f"
  by (simp add: Decode_def Convert_def split: option.splits)

lemma Zip_declares [simp]:
  "parameters (Zip a b) = parameters a @ parameters b"
  "entity (Zip a b) = firstEntity (entity a) (entity b)"
  by (simp_all add: Zip_def Let_def)

text \<open>A struct of fields, read off the loop that collects their declarations.\<close>

lemma cmp_Or_None [simp]: "cmp_Or xs = None \<longleftrightarrow> (\<forall>x \<in> set xs. x = None)"
  by (induction xs rule: cmp_Or.induct) auto

lemma add_field_simps [simp]:
  "parameters (add_field c f) = parameters c @ field_parameters f"
  "entity (add_field c f) = firstEntity (entity c) (field_entity f)"
  "codec_decode (add_field c f) = codec_decode c"
  by (simp_all add: add_field_def)

lemma firstEntity_None [simp]: "firstEntity a b = None \<longleftrightarrow> a = None \<and> b = None"
  by (auto simp: firstEntity_def)

lemma firstEntity_simps [simp]: "firstEntity None b = b" "firstEntity (Some x) b = Some x"
  by (simp_all add: firstEntity_def)

lemma foldl_add_field:
  "parameters (foldl add_field c fs) = parameters c @ concat (map field_parameters fs)"
  "codec_decode (foldl add_field c fs) = codec_decode c"
  "entity (foldl add_field c fs) = cmp_Or (entity c # map field_entity fs)"
proof -
  show "parameters (foldl add_field c fs) = parameters c @ concat (map field_parameters fs)"
    "codec_decode (foldl add_field c fs) = codec_decode c"
    by (induction fs arbitrary: c) simp_all
  have or: "cmp_Or (firstEntity e e' # es) = cmp_Or (e # e' # es)" for e e' es
    by (cases e) simp_all
  have "cmp_Or [e] = e" for e :: "Content option" by (cases e) simp_all
  then show "entity (foldl add_field c fs) = cmp_Or (entity c # map field_entity fs)"
    by (induction fs arbitrary: c) (simp_all add: or)
qed

text \<open>How many of a list of declarations have a body.\<close>

definition bodies :: "Content option list \<Rightarrow> nat" where
  "bodies es = length (filter (\<lambda>e. e \<noteq> None) es)"

lemma bodies_simps [simp]:
  "bodies [] = 0" "bodies (None # es) = bodies es" "bodies (Some e # es) = Suc (bodies es)"
  by (simp_all add: bodies_def)

lemma foldl_add_field_fault:
  "codec_fault (foldl add_field c fs) = None \<longleftrightarrow>
     codec_fault c = None \<and> (\<forall>f \<in> set fs. field_fault f = None) \<and>
     (bodies (map field_entity fs) = 0 \<or> bodies (entity c # map field_entity fs) \<le> 1)"
proof (induction fs arbitrary: c)
  case (Cons f fs)
  have "codec_fault (add_field c f) = None \<longleftrightarrow>
      codec_fault c = None \<and> field_fault f = None \<and> (entity c = None \<or> field_entity f = None)"
    by (auto simp: add_field_def secondEntityFault_def)
  then show ?case
    using Cons [of "add_field c f"] by (cases "entity c"; cases "field_entity f") auto
qed auto

definition struct_fault :: "'s Field list \<Rightarrow> error option" where
  "struct_fault fs =
     (let codec = foldl add_field
            \<lparr>parameters = [], entity = None, codec_decode = None, codec_fault = None\<rparr> fs
      in cmp_Or [codec_fault codec, duplicateParameterFault (parameters codec)])"

lemma Struct_eq:
  "Struct zero fs =
     \<lparr>parameters = concat (map field_parameters fs), entity = cmp_Or (map field_entity fs),
      codec_decode =
        (if struct_fault fs = None then Some (\<lambda>request. decode_fields fs request zero) else None),
      codec_fault = struct_fault fs\<rparr>"
  by (rule Codec.equality) (simp_all add: Struct_def struct_fault_def Let_def foldl_add_field)

lemma Struct_valid:
  "ValidateCodec (Struct zero fs) = None \<longleftrightarrow>
     (\<forall>f \<in> set fs. field_fault f = None) \<and> bodies (map field_entity fs) \<le> 1 \<and>
     distinct (map parameter_key (concat (map field_parameters fs)))"
proof -
  have "ValidateCodec (Struct zero fs) = None \<longleftrightarrow> struct_fault fs = None"
    by (simp add: Struct_eq ValidateCodec_None)
  also have "\<dots> \<longleftrightarrow> (\<forall>f \<in> set fs. field_fault f = None) \<and> bodies (map field_entity fs) \<le> 1 \<and>
      distinct (map parameter_key (concat (map field_parameters fs)))"
    unfolding struct_fault_def Let_def cmp_Or_None
    by (auto simp: foldl_add_field_fault foldl_add_field duplicateParameterFault_None)
  finally show ?thesis .
qed

lemma Struct_declares:
  "parameters (Struct zero fs) = concat (map field_parameters fs)"
  "entity (Struct zero fs) = cmp_Or (map field_entity fs)"
  by (simp_all add: Struct_eq)

lemma Decode_Struct:
  "ValidateCodec (Struct zero fs) = None \<Longrightarrow> Decode (Struct zero fs) request = decode_fields fs request zero"
  unfolding Decode_def by (auto simp: Struct_eq ValidateCodec_None)

section \<open>Concrete schemas, for examples\<close>

text \<open>Instances of the two parameters: a schema that takes any text as it is, and a text library
that reads no number, base64 or timestamp.\<close>

definition verbatim :: "string Schema" where
  "verbatim = \<lparr>Structure = None, schema_Validate = None, schema_Decode = src_Text,
               schema_DecodeJSONFrom = (\<lambda>_ s. Inr s), schema_DecodeJSON = (\<lambda>_ s. Inr s),
               schema_EncodeJSON = (\<lambda>_ s. Inr s)\<rparr>"

definition whole_number :: "int Schema" where
  "whole_number = \<lparr>Structure = None, schema_Validate = None, schema_Decode = src_Integer,
               schema_DecodeJSONFrom = (\<lambda>_ _. Inr 0), schema_DecodeJSON = (\<lambda>_ _. Inr 0),
               schema_EncodeJSON = (\<lambda>_ i. Inr (itoa i))\<rparr>"

definition plain_library :: text_library where
  "plain_library = \<lparr>Quote = (\<lambda>s. s), ParseFloat = (\<lambda>_. None), DecodeBase64 = (\<lambda>_. None),
                    ParseRFC3339 = (\<lambda>_. None)\<rparr>"

lemma example_schema_simps [simp]:
  "schema_Validate verbatim = None" "schema_Decode verbatim source = src_Text source"
  "Structure verbatim = None" "schema_EncodeJSON verbatim naming s = Inr s"
  "schema_DecodeJSON verbatim naming s = Inr s" "schema_DecodeJSONFrom verbatim naming s = Inr s"
  "schema_Validate whole_number = None" "schema_Decode whole_number source = src_Integer source"
  "Structure whole_number = None"
  by (simp_all add: verbatim_def whole_number_def)

section \<open>What codecs promise\<close>

text \<open>Two codecs zip into a usable one exactly when both are usable, at most one reads the body and
no parameter is named twice.\<close>

theorem zip_usable:
  "ValidateCodec (Zip a b) = None \<longleftrightarrow>
     ValidateCodec a = None \<and> ValidateCodec b = None \<and> (entity a = None \<or> entity b = None) \<and>
     distinct (map parameter_key (parameters a @ parameters b))"
  by (rule Zip_valid)

text \<open>A usable zip decodes the first codec, then the second, and answers with the pair or with the
first refusal.\<close>

theorem zip_decodes_both:
  assumes "ValidateCodec (Zip a b) = None"
  shows "Decode (Zip a b) request =
           bind_result (Decode a request) (\<lambda>x. bind_result (Decode b request) (\<lambda>y. Inr (x, y)))"
  by (rule Decode_Zip [OF assms])

theorem zip_decodes_both_witness:
  "Decode (Zip (QueryParam plain_library ''a'' verbatim) (QueryParam plain_library ''n'' whole_number))
     (RequestFrom \<lparr>req_Method = ''GET'', URL_Path = ''/'', URL_Query = [''a'' \<mapsto> [''x''], ''n'' \<mapsto> [''12'']],
                   req_Header = Map.empty, req_Body = None\<rparr>) = Inr (''x'', 12)"
proof (subst zip_decodes_both)
  let ?a = "QueryParam plain_library ''a'' verbatim" and ?n = "QueryParam plain_library ''n'' whole_number"
  let ?r = "RequestFrom \<lparr>req_Method = ''GET'', URL_Path = ''/'', URL_Query = [''a'' \<mapsto> [''x''], ''n'' \<mapsto> [''12'']],
                   req_Header = Map.empty, req_Body = None\<rparr>"
  have n: "TrimSpace ''a'' = ''a''" "TrimSpace ''n'' = ''n''" by code_simp+
  show "ValidateCodec (Zip ?a ?n) = None"
    unfolding Zip_valid
    by (simp add: QueryParam_def requiredParameter_def ValidateCodec_def parameterFault_def
        n parameter_key_def Let_def)
  have twelve: "ParseInt ''12'' = Some 12" by code_simp
  show "bind_result (Decode ?a ?r) (\<lambda>x. bind_result (Decode ?n ?r) (\<lambda>y. Inr (x, y))) = Inr (''x'', 12)"
    by (simp add: Decode_def QueryParam_def requiredParameter_def ValidateCodec_def parameterFault_def n
        queryValue_def Query_def RequestFrom_def textSource_def read_as_def twelve Let_def)
qed

text \<open>A struct of fields is usable exactly when every field is, at most one reads the body and no
parameter is named twice.\<close>

theorem struct_usable:
  "ValidateCodec (Struct zero fs) = None \<longleftrightarrow>
     list_all (\<lambda>f. field_fault f = None) fs \<and> bodies (map field_entity fs) \<le> 1 \<and>
     distinct (map parameter_key (concat (map field_parameters fs)))"
  by (simp add: Struct_valid list_all_iff)

text \<open>A whole number printed as a request would carry it is read back when it fits 64 signed bits,
and refused otherwise.\<close>

theorem number_roundtrip:
  "ParseInt (itoa i) = (if - (2 ^ 63) \<le> i \<and> i < 2 ^ 63 then Some i else None)"
  by (rule ParseInt_itoa)

end
