(* ===== verification/Web_Codec_Laws.thy ===== *)
theory Web_Codec_Laws
  imports Web_Codec
begin

text \<open>
  The contract of codecs: what is read is what is declared, a struct reads its fields in
  order, an optional parameter is read as its fallback exactly when it is absent, and what
  \<open>PageParams\<close> accepts.
\<close>

section \<open>A codec reads what it declares\<close>

definition parameter_text :: "Parameter \<Rightarrow> Request \<Rightarrow> string option" where
  "parameter_text p request =
     (if In p = InPath then Capture request (param_Name p)
      else if In p = InQuery then queryValue (param_Name p) request
      else headerValue (param_Name p) request)"

text \<open>The part of a request the declared parameters and body are about.\<close>

definition agree :: "Parameter list \<Rightarrow> Content option \<Rightarrow> Request \<Rightarrow> Request \<Rightarrow> bool" where
  "agree ps e r1 r2 \<longleftrightarrow>
     (\<forall>p \<in> set ps. parameter_text p r1 = parameter_text p r2) \<and>
     (e \<noteq> None \<longrightarrow> req_Body (Web_Message.Source r1) = req_Body (Web_Message.Source r2) \<and>
                  NamingStrategy r1 = NamingStrategy r2)"

definition reads_declared :: "'a Codec \<Rightarrow> bool" where
  "reads_declared c \<longleftrightarrow>
     (\<forall>r1 r2. agree (parameters c) (entity c) r1 r2 \<longrightarrow> Decode c r1 = Decode c r2)"

definition field_reads_declared :: "'s Field \<Rightarrow> bool" where
  "field_reads_declared f \<longleftrightarrow>
     (\<forall>r1 r2 v. agree (field_parameters f) (field_entity f) r1 r2 \<longrightarrow>
        run (field_decode f) (r1, v) = run (field_decode f) (r2, v))"

lemma agree_append:
  "agree (ps @ qs) (firstEntity e e') r1 r2 \<Longrightarrow> agree ps e r1 r2 \<and> agree qs e' r1 r2"
  unfolding agree_def firstEntity_None by auto

lemma reads_declared_invalid: "ValidateCodec c \<noteq> None \<Longrightarrow> reads_declared c"
  by (auto simp: reads_declared_def Decode_def)

lemma reads_declared_Nothing: "reads_declared Nothing"
  by (simp add: reads_declared_def Nothing_def Decode_def)

lemma reads_declared_Convert: "reads_declared c \<Longrightarrow> reads_declared (Convert c f)"
  by (simp add: reads_declared_def Decode_Convert)

lemma reads_declared_OrElse: "reads_declared c \<Longrightarrow> reads_declared (OrElse c fallback)"
  by (simp add: OrElse_def reads_declared_Convert)

lemma reads_declared_Zip:
  assumes "reads_declared a" and "reads_declared b"
  shows "reads_declared (Zip a b)"
proof (cases "ValidateCodec (Zip a b) = None")
  case True
  show ?thesis
    unfolding reads_declared_def
  proof (intro allI impI)
    fix r1 r2
    assume "agree (parameters (Zip a b)) (entity (Zip a b)) r1 r2"
    then have "agree (parameters a @ parameters b) (firstEntity (entity a) (entity b)) r1 r2"
      by simp
    from agree_append [OF this] assms
    have "Decode a r1 = Decode a r2" "Decode b r1 = Decode b r2"
      unfolding reads_declared_def by blast+
    then show "Decode (Zip a b) r1 = Decode (Zip a b) r2"
      unfolding Decode_Zip [OF True] by simp
  qed
qed (rule reads_declared_invalid)

lemma reads_declared_Entity: "reads_declared (Entity shape)"
  by (auto simp: reads_declared_def agree_def Decode_def Entity_def Let_def split: option.splits)

lemma reads_declared_required:
  "reads_declared (PathParam lib name shape)"
  "reads_declared (QueryParam lib name shape)"
  "reads_declared (HeaderParam lib name shape)"
  by (auto simp: reads_declared_def agree_def Decode_def PathParam_def QueryParam_def HeaderParam_def
      requiredParameter_def parameter_text_def InPath_def InQuery_def InHeader_def Let_def
      split: option.split)

lemma reads_declared_optional:
  "reads_declared (OptionalQueryParam lib name shape)"
  "reads_declared (OptionalHeaderParam lib name shape)"
  by (auto simp: reads_declared_def agree_def Decode_def OptionalQueryParam_def
      OptionalHeaderParam_def optionalParameter_def parameter_text_def InPath_def InQuery_def
      InHeader_def Let_def split: option.split)

lemma Decode_WithDescription:
  "Decode (WithDescription c doc) request =
     (if \<exists>p. parameters c = [p] then Decode c request
      else Inl (fault_at ''describe a parameter'' errNotOneParameter))"
  by (auto simp: WithDescription_def Decode_def ValidateCodec_def split: option.splits list.splits)

lemma parameter_text_description [simp]:
  "parameter_text (p\<lparr>param_Description := doc\<rparr>) request = parameter_text p request"
  by (simp add: parameter_text_def)

lemma reads_declared_WithDescription: "reads_declared c \<Longrightarrow> reads_declared (WithDescription c doc)"
proof -
  assume c: "reads_declared c"
  show ?thesis
  proof (cases "\<exists>p. parameters c = [p]")
    case True
    then obtain p where p: "parameters c = [p]" by blast
    then have "agree (parameters (WithDescription c doc)) (entity (WithDescription c doc)) r1 r2 =
        agree (parameters c) (entity c) r1 r2" for r1 r2
      by (simp add: WithDescription_def agree_def)
    with c True show ?thesis by (simp add: reads_declared_def Decode_WithDescription)
  qed (simp add: reads_declared_def Decode_WithDescription)
qed

lemma run_FieldOf:
  "ValidateCodec c = None \<Longrightarrow>
   run (field_decode (FieldOf c assign)) (request, v) =
     bind_result (Decode c request) (\<lambda>x. Inr (assign v x))"
  by (simp add: FieldOf_def Decode_valid)

lemma field_reads_declared_FieldOf:
  "reads_declared c \<Longrightarrow> ValidateCodec c = None \<Longrightarrow> field_reads_declared (FieldOf c assign)"
  unfolding field_reads_declared_def run_FieldOf reads_declared_def
  by (auto simp: FieldOf_def)

lemma agree_firstEntity:
  assumes "agree (concat (map field_parameters fs)) (cmp_Or (map field_entity fs)) r1 r2" "f \<in> set fs"
  shows "agree (field_parameters f) (field_entity f) r1 r2"
proof -
  have "field_entity f \<noteq> None \<longrightarrow> cmp_Or (map field_entity fs) \<noteq> None"
    using assms(2) by (auto simp del: not_None_eq)
  with assms show ?thesis by (auto simp: agree_def)
qed

lemma decode_fields_agree:
  assumes "\<And>f v. f \<in> set fs \<Longrightarrow> run (field_decode f) (r1, v) = run (field_decode f) (r2, v)"
  shows "decode_fields fs r1 v = decode_fields fs r2 v"
  using assms
proof (induction fs arbitrary: v)
  case (Cons f fs)
  then show ?case by (cases "run (field_decode f) (r2, v)") auto
qed simp

lemma reads_declared_Struct:
  assumes "\<And>f. f \<in> set fs \<Longrightarrow> field_fault f = None \<Longrightarrow> field_reads_declared f"
  shows "reads_declared (Struct zero fs)"
proof (cases "ValidateCodec (Struct zero fs) = None")
  case True
  then have "\<And>f. f \<in> set fs \<Longrightarrow> field_fault f = None" by (simp add: Struct_valid)
  with assms have fs: "\<And>f. f \<in> set fs \<Longrightarrow> field_reads_declared f" by blast
  show ?thesis
    unfolding reads_declared_def Struct_declares Decode_Struct [OF True]
  proof (intro allI impI decode_fields_agree)
    fix r1 r2 f v
    assume "agree (concat (map field_parameters fs)) (cmp_Or (map field_entity fs)) r1 r2"
      and "f \<in> set fs"
    from agree_firstEntity [OF this] fs [OF this(2)]
    show "run (field_decode f) (r1, v) = run (field_decode f) (r2, v)"
      by (simp add: field_reads_declared_def)
  qed
qed (rule reads_declared_invalid)

section \<open>Optional parameters\<close>

lemma optional_valid:
  "ValidateCodec (OptionalQueryParam lib name shape) = parameterFault name shape"
  by (simp add: OptionalQueryParam_def optionalParameter_def Let_def ValidateCodec_def split: option.splits)

lemma Decode_OptionalQueryParam:
  assumes "parameterFault name shape = None"
  shows "Decode (OptionalQueryParam lib name shape) request =
           (case queryValue name request of
              None \<Rightarrow> Inr None
            | Some t \<Rightarrow>
                (case schema_Decode shape (textSource lib t) of
                   Inl err \<Rightarrow> Inl (fault_at (''read the query parameter '' @ name) err)
                 | Inr v \<Rightarrow> Inr (Some v)))"
  using assms
  by (simp add: OptionalQueryParam_def optionalParameter_def Let_def Decode_def parameterRefusal_def
      InQuery_def split: option.splits sum.splits)

lemma OptionalQueryParam_declares:
  "parameters (OptionalQueryParam lib name shape) =
     [\<lparr>param_Name = name, In = InQuery, Required = False, param_Description = [],
       param_Node = Structure shape\<rparr>]"
  "entity (OptionalQueryParam lib name shape) = None"
  by (simp_all add: OptionalQueryParam_def optionalParameter_def Let_def split: option.splits)

lemma WithDescription_valid:
  "parameters c = [p] \<Longrightarrow> ValidateCodec (WithDescription c doc) = ValidateCodec c"
  by (simp add: WithDescription_def ValidateCodec_def split: option.splits)

lemma WithDescription_declares:
  "parameters c = [p] \<Longrightarrow> parameters (WithDescription c doc) = [p\<lparr>param_Description := doc\<rparr>]"
  "entity (WithDescription c doc) = entity c"
  by (simp_all add: WithDescription_def split: list.splits)

section \<open>Pages\<close>

lemma TrimSpace_visible:
  assumes "s \<noteq> []" and "\<forall>c \<in> set s. 33 \<le> byte c \<and> byte c < 128"
  shows "TrimSpace s = s"
proof -
  have hd: "find (HasPrefix w) runes = None"
    if "w \<noteq> []" "33 \<le> byte (hd w) \<and> byte (hd w) < 128"
      "\<forall>r \<in> set runes. r \<noteq> [] \<and> (byte (hd r) < 33 \<or> 128 \<le> byte (hd r))" for w runes
    using that by (cases w) (fastforce simp: find_None_iff HasPrefix_def neq_Nil_conv take_Cons')+
  show ?thesis
  proof (rule TrimSpace_keeps)
    show "find (HasPrefix s) space_runes = None"
      by (rule hd) (use assms in \<open>auto simp: space_runes_def hd_in_set\<close>)
    show "find (HasPrefix (rev s)) (map rev space_runes) = None"
      by (rule hd) (use assms in \<open>auto simp: space_runes_def hd_rev\<close>)
  qed
qed

lemma page_valid:
  assumes "schema_Validate text_schema = None" and "schema_Validate positive = None"
  shows "ValidateCodec (PageParams lib text_schema positive sorts) = None"
proof -
  have names: "TrimSpace ''sort'' \<noteq> []" "TrimSpace ''after'' \<noteq> []" "TrimSpace ''before'' \<noteq> []"
    "TrimSpace ''page'' \<noteq> []" "TrimSpace ''size'' \<noteq> []"
    by (simp_all add: TrimSpace_visible)
  show ?thesis
    unfolding PageParams_def Convert_valid Struct_valid
    using assms names
    by (simp add: page_fields_def FieldOf_def WithDescription_valid [OF OptionalQueryParam_declares(1)]
        WithDescription_declares(1) [OF OptionalQueryParam_declares(1)] WithDescription_declares(2)
        OptionalQueryParam_declares optional_valid parameterFault_def parameter_key_def)
qed

lemma Decode_page_field:
  assumes "parameterFault name shape = None"
  shows "run (field_decode (FieldOf (WithDescription (OptionalQueryParam lib name shape) doc) assign)) (r, v) =
           bind_result (Decode (OptionalQueryParam lib name shape) r) (\<lambda>x. Inr (assign v x))"
  using assms
  by (simp add: run_FieldOf WithDescription_valid [OF OptionalQueryParam_declares(1)] optional_valid
      Decode_WithDescription OptionalQueryParam_declares)

lemma page_names:
  assumes "schema_Validate shape = None" and "name \<in> {''sort'', ''after'', ''before'', ''page'', ''size''}"
  shows "parameterFault name shape = None"
proof -
  have "TrimSpace name \<noteq> []" using assms(2) by (auto simp: TrimSpace_visible)
  with assms(1) show ?thesis by (simp add: parameterFault_def)
qed

text \<open>The page a query asks for, before it is checked, and how many positions it states.\<close>

definition asked_page :: "Request \<Rightarrow> int option \<Rightarrow> int option \<Rightarrow> PageRequest" where
  "asked_page r number rows =
     \<lparr>Sort = given [] (queryValue ''sort'' r), After = given [] (queryValue ''after'' r),
      Before = given [] (queryValue ''before'' r), Number = given 0 number, Size = given 0 rows\<rparr>"

definition positions :: "PageRequest \<Rightarrow> nat" where
  "positions page =
     (if After page \<noteq> [] then 1 else 0) + (if Before page \<noteq> [] then 1 else 0) +
     (if Number page \<noteq> 0 then 1 else 0)"

lemma check_page_Inr:
  "check_page lib sorts page = Inr page' \<longleftrightarrow>
     page' = page \<and> (Sort page = [] \<or> Sort page \<in> set sorts) \<and> positions page \<le> 1"
  by (auto simp: check_page_def positions_def)

lemma Decode_text_parameter:
  assumes "schema_Validate T = None" and "\<And>t. schema_Decode T (textSource lib t) = Inr t"
    and "name \<in> {''sort'', ''after'', ''before''}"
  shows "Decode (OptionalQueryParam lib name T) r = Inr (queryValue name r)"
proof -
  have "parameterFault name T = None" using assms by (intro page_names) auto
  with assms(2) show ?thesis by (simp add: Decode_OptionalQueryParam split: option.splits)
qed

lemma Decode_PageParams:
  assumes T: "schema_Validate T = None" "\<And>t. schema_Decode T (textSource lib t) = Inr t"
    and P: "schema_Validate P = None"
  shows "Decode (PageParams lib T P sorts) r =
           bind_result (Decode (OptionalQueryParam lib ''page'' P) r) (\<lambda>number.
             bind_result (Decode (OptionalQueryParam lib ''size'' P) r) (\<lambda>rows.
               check_page lib sorts (asked_page r number rows)))"
proof -
  have faults: "parameterFault ''sort'' T = None" "parameterFault ''after'' T = None"
    "parameterFault ''before'' T = None" "parameterFault ''page'' P = None" "parameterFault ''size'' P = None"
    using T(1) P by (simp_all add: page_names)
  have valid: "ValidateCodec (Struct emptyPage (page_fields lib T P sorts)) = None"
    using page_valid [OF T(1) P] by (simp add: PageParams_def)
  show ?thesis
    unfolding PageParams_def Decode_Convert Decode_Struct [OF valid]
    unfolding page_fields_def decode_fields.simps
    using T by (simp add: Decode_page_field faults Decode_text_parameter bind_result_assoc
        emptyPage_def asked_page_def)
qed

section \<open>What structs and pages promise\<close>

lemma FieldOf_fault: "field_fault (FieldOf c assign) = ValidateCodec c"
  by (simp add: FieldOf_def)

lemma FieldOf_reads_declared:
  "reads_declared c \<Longrightarrow> field_fault (FieldOf c assign) = None \<Longrightarrow> field_reads_declared (FieldOf c assign)"
  by (simp add: FieldOf_fault field_reads_declared_FieldOf)

text \<open>What a struct decodes depends on nothing in a request but the parameters and the body it
declares, if each usable field keeps to what it declares.\<close>

theorem struct_reads_declared:
  assumes "\<And>f. f \<in> set fs \<Longrightarrow> field_fault f = None \<Longrightarrow> field_reads_declared f"
  shows "reads_declared (Struct zero fs)"
  by (rule reads_declared_Struct [OF assms])

theorem struct_reads_declared_witness:
  "reads_declared (Struct ('''', 0) [
     FieldOf (QueryParam plain_library ''a'' verbatim) (\<lambda>(_, n) a. (a, n)),
     FieldOf (PathParam plain_library ''n'' whole_number) (\<lambda>(a, _) n. (a, n))])"
  by (rule struct_reads_declared) (auto intro!: FieldOf_reads_declared reads_declared_required)

text \<open>A page codec reads only the five parameters it declares, whatever schemas it is given.\<close>

theorem page_reads_declared: "reads_declared (PageParams lib T P sorts)"
  unfolding PageParams_def page_fields_def
  by (intro reads_declared_Convert reads_declared_Struct)
    (auto intro!: FieldOf_reads_declared reads_declared_WithDescription reads_declared_optional)

text \<open>C31: A page is accepted exactly when its numbers are, its sort is one the list offers and it states
at most one position; and then it is the page the query asked for.\<close>

theorem page_accepted:
  assumes "schema_Validate T = None" and "\<And>t. schema_Decode T (textSource lib t) = Inr t"
    and "schema_Validate P = None"
  shows "Decode (PageParams lib T P sorts) r = Inr page \<longleftrightarrow>
           (\<exists>number rows.
              Decode (OptionalQueryParam lib ''page'' P) r = Inr number \<and>
              Decode (OptionalQueryParam lib ''size'' P) r = Inr rows \<and>
              page = asked_page r number rows \<and>
              (Sort page = [] \<or> Sort page \<in> set sorts) \<and> positions page \<le> 1)"
  unfolding Decode_PageParams [OF assms]
  by (auto simp: check_page_Inr go_results)

theorem page_accepted_witness:
  "\<exists>page. Decode (PageParams plain_library verbatim whole_number [''name'', ''age''])
     (RequestFrom \<lparr>req_Method = ''GET'', URL_Path = ''/'',
                   URL_Query = [''sort'' \<mapsto> [''age''], ''page'' \<mapsto> [''3'']],
                   req_Header = Map.empty, req_Body = None\<rparr>) = Inr page \<and> Number page = 3"
proof -
  let ?r = "RequestFrom \<lparr>req_Method = ''GET'', URL_Path = ''/'',
                   URL_Query = [''sort'' \<mapsto> [''age''], ''page'' \<mapsto> [''3'']],
                   req_Header = Map.empty, req_Body = None\<rparr>"
  have taken: "schema_Decode verbatim (textSource plain_library t) = Inr t" for t by (simp add: textSource_def)
  have names: "parameterFault ''page'' whole_number = None" "parameterFault ''size'' whole_number = None"
    by (simp_all add: page_names)
  have "ParseInt ''3'' = Some 3" by code_simp
  then have numbers: "Decode (OptionalQueryParam plain_library ''page'' whole_number) ?r = Inr (Some 3)"
    "Decode (OptionalQueryParam plain_library ''size'' whole_number) ?r = Inr None"
    by (simp_all add: Decode_OptionalQueryParam [OF names(1)] Decode_OptionalQueryParam [OF names(2)]
        queryValue_def Query_def RequestFrom_def textSource_def read_as_def)
  have "Decode (PageParams plain_library verbatim whole_number [''name'', ''age'']) ?r =
      Inr (asked_page ?r (Some 3) None)"
    by (rule page_accepted [THEN iffD2])
      (use numbers taken in \<open>simp_all add: asked_page_def positions_def given_def queryValue_def Query_def RequestFrom_def\<close>)
  then show ?thesis by (simp add: asked_page_def given_def)
qed

end
