(* ===== verification/Web_Path.thy ===== *)
theory Web_Path
  imports Web_Fault
begin

text \<open>
  Route patterns (\<open>web/path.go\<close>): reading one, writing it back, splitting the path of a
  request the same way, and filling a pattern's captures from the calling side
  (\<open>fillPattern\<close> of \<open>web/call.go\<close>).

  The main results: an accepted pattern is written back exactly as it was read, the
  segment lists a pattern can denote are exactly the well-formed ones, and filling a
  pattern produces a path the pattern matches.
\<close>

section \<open>Segments\<close>

datatype segmentKind = literalSegment | captureSegment | wildcardSegment

text \<open>The order the kinds are tried in, from the most specific to the least.\<close>

instantiation segmentKind :: linorder
begin

fun kind_rank :: "segmentKind \<Rightarrow> nat" where
  "kind_rank literalSegment = 0"
| "kind_rank captureSegment = 1"
| "kind_rank wildcardSegment = 2"

definition less_eq_segmentKind :: "segmentKind \<Rightarrow> segmentKind \<Rightarrow> bool" where
  "less_eq_segmentKind k l \<longleftrightarrow> kind_rank k \<le> kind_rank l"

definition less_segmentKind :: "segmentKind \<Rightarrow> segmentKind \<Rightarrow> bool" where
  "less_segmentKind k l \<longleftrightarrow> kind_rank k < kind_rank l"

instance
proof
  fix k l :: segmentKind
  show "k \<le> l \<Longrightarrow> l \<le> k \<Longrightarrow> k = l"
    by (cases k; cases l) (auto simp: less_eq_segmentKind_def)
qed (auto simp: less_eq_segmentKind_def less_segmentKind_def)

end

lemma segmentKind_order [simp]:
  "literalSegment < captureSegment" "captureSegment < wildcardSegment"
  "literalSegment < wildcardSegment" "literalSegment \<le> k" "k \<le> wildcardSegment"
  by (cases k; simp add: less_segmentKind_def less_eq_segmentKind_def)+

record segment =
  kind :: segmentKind
  seg_text :: string

abbreviation literal :: "string \<Rightarrow> segment" where
  "literal t \<equiv> \<lparr>kind = literalSegment, seg_text = t\<rparr>"

abbreviation capturing :: "string \<Rightarrow> segment" where
  "capturing n \<equiv> \<lparr>kind = captureSegment, seg_text = n\<rparr>"

abbreviation wild :: "string \<Rightarrow> segment" where
  "wild n \<equiv> \<lparr>kind = wildcardSegment, seg_text = n\<rparr>"

section \<open>Reading a pattern\<close>

definition errUnrootedPath :: error where
  "errUnrootedPath = declarationMistake ''a path begins with /''"

definition errNamelessCapture :: error where
  "errNamelessCapture = declarationMistake ''a capture has no name''"

definition newCapture :: "segmentKind \<Rightarrow> string \<Rightarrow> (error, segment) result" where
  "newCapture k name =
     (if TrimSpace name = [] then Inl errNamelessCapture
      else Inr \<lparr>kind = k, seg_text = name\<rparr>)"

definition parseSegment :: "string \<Rightarrow> bool \<Rightarrow> (error, segment) result" where
  "parseSegment part isLast =
     (if \<not> HasPrefix part ''{'' then
        (if ContainsAny part ''{}''
         then Inl (Reason (''a capture takes the whole segment: '' @ part))
         else Inr (literal part))
      else if \<not> HasSuffix part ''}'' then Inl (Reason (''a capture is not closed: '' @ part))
      else
        (let name = butlast (tl part) in
         case CutSuffix name ''...'' of (rest, wildcard) \<Rightarrow>
           if wildcard then
             (if \<not> isLast
              then Inl (Reason (''a wildcard captures the rest and so comes last: '' @ part))
              else newCapture wildcardSegment rest)
           else newCapture captureSegment name))"

text \<open>The loop over the parts, with the names captured so far.\<close>

fun parseParts :: "string \<Rightarrow> string list \<Rightarrow> string set \<Rightarrow> (error, segment list) result" where
  "parseParts path [] captured = Inr []"
| "parseParts path (part # parts) captured =
     (case parseSegment part (parts = []) of
        Inl err \<Rightarrow> Inl (fault_at (''read the path '' @ path) err)
      | Inr element \<Rightarrow>
          if kind element \<noteq> literalSegment \<and> seg_text element \<in> captured
          then Inl (fault_at (''read the path '' @ path)
                      (Reason (''two segments are captured as '' @ seg_text element)))
          else bind_result
                 (parseParts path parts
                    (if kind element \<noteq> literalSegment then insert (seg_text element) captured
                     else captured))
                 (\<lambda>rest. Inr (element # rest)))"

definition pathSegments :: "string \<Rightarrow> string list" where
  "pathSegments path = split_on (CHR ''/'') (TrimPrefix path ''/'')"

definition parsePattern :: "string \<Rightarrow> (error, segment list) result" where
  "parsePattern path =
     (if \<not> HasPrefix path ''/'' then Inl (fault_at (''read the path '' @ path) errUnrootedPath)
      else parseParts path (split_on (CHR ''/'') (TrimPrefix path ''/'')) {})"

section \<open>Writing a pattern\<close>

definition renderSegment :: "segment \<Rightarrow> string" where
  "renderSegment part =
     (case kind part of
        captureSegment \<Rightarrow> ''{'' @ seg_text part @ ''}''
      | wildcardSegment \<Rightarrow> ''{'' @ seg_text part @ ''...}''
      | literalSegment \<Rightarrow> seg_text part)"

lemma renderSegment_kind [simp]:
  "kind s = literalSegment \<Longrightarrow> renderSegment s = seg_text s"
  "kind s = captureSegment \<Longrightarrow> renderSegment s = ''{'' @ seg_text s @ ''}''"
  "kind s = wildcardSegment \<Longrightarrow> renderSegment s = ''{'' @ seg_text s @ ''...}''"
  by (simp_all add: renderSegment_def)

definition renderPattern :: "segment list \<Rightarrow> string" where
  "renderPattern segments = ''/'' @ join ''/'' (map renderSegment segments)"

section \<open>Filling a pattern\<close>

definition errUnpatternedEndpoint :: error where
  "errUnpatternedEndpoint = declarationMistake ''the endpoint has no path''"

fun fillParts :: "segment list \<Rightarrow> (string \<Rightarrow> string option) \<Rightarrow> (error, string list) result" where
  "fillParts [] captures = Inr []"
| "fillParts (part # segments) captures =
     (if kind part = literalSegment
      then bind_result (fillParts segments captures) (\<lambda>parts. Inr (seg_text part # parts))
      else (case captures (seg_text part) of
              None \<Rightarrow> Inl (Reason (''the path captures '' @ seg_text part @
                                 '' and nothing was given for it''))
            | Some value \<Rightarrow>
                bind_result (fillParts segments captures) (\<lambda>parts. Inr (value # parts))))"

definition fillPattern :: "segment list \<Rightarrow> (string \<Rightarrow> string option) \<Rightarrow> (error, string) result" where
  "fillPattern segments captures =
     (if segments = [] then Inl errUnpatternedEndpoint
      else bind_result (fillParts segments captures) (\<lambda>parts. Inr (''/'' @ join ''/'' parts)))"

section \<open>What a pattern can denote\<close>

text \<open>
  The contract of the reader, stated without it: the text of a literal holds no brace, the
  name of a capture is not blank and does not look like a wildcard's, no text holds a
  slash, a wildcard is last, and no two segments are captured under one name.
\<close>

definition wf_segment :: "segment \<Rightarrow> bool" where
  "wf_segment s \<longleftrightarrow>
     CHR ''/'' \<notin> set (seg_text s) \<and>
     (case kind s of
        literalSegment \<Rightarrow> \<not> ContainsAny (seg_text s) ''{}''
      | captureSegment \<Rightarrow> TrimSpace (seg_text s) \<noteq> [] \<and> \<not> HasSuffix (seg_text s) ''...''
      | wildcardSegment \<Rightarrow> TrimSpace (seg_text s) \<noteq> [])"

definition capture_names :: "segment list \<Rightarrow> string list" where
  "capture_names segs = map seg_text (filter (\<lambda>s. kind s \<noteq> literalSegment) segs)"

definition wf_segments :: "segment list \<Rightarrow> bool" where
  "wf_segments segs \<longleftrightarrow>
     segs \<noteq> [] \<and> (\<forall>s \<in> set segs. wf_segment s) \<and>
     (\<forall>s \<in> set (butlast segs). kind s \<noteq> wildcardSegment) \<and> distinct (capture_names segs)"

text \<open>The same, in the order the reader's loop meets the segments.\<close>

fun wf_parts :: "segment list \<Rightarrow> string set \<Rightarrow> bool" where
  "wf_parts [] captured = True"
| "wf_parts (s # segs) captured =
     (wf_segment s \<and> (kind s = wildcardSegment \<longrightarrow> segs = []) \<and>
      (if kind s = literalSegment then wf_parts segs captured
       else seg_text s \<notin> captured \<and> wf_parts segs (insert (seg_text s) captured)))"

lemma capture_names_simps [simp]:
  "capture_names [] = []"
  "capture_names (s # segs) =
     (if kind s = literalSegment then capture_names segs else seg_text s # capture_names segs)"
  by (simp_all add: capture_names_def)

lemma wf_parts_iff:
  "wf_parts segs captured \<longleftrightarrow>
     (\<forall>s \<in> set segs. wf_segment s) \<and> (\<forall>s \<in> set (butlast segs). kind s \<noteq> wildcardSegment) \<and>
     distinct (capture_names segs) \<and> set (capture_names segs) \<inter> captured = {}"
  by (induction segs captured rule: wf_parts.induct) auto

lemma wf_segments_parts: "wf_segments segs \<longleftrightarrow> segs \<noteq> [] \<and> wf_parts segs {}"
  by (auto simp: wf_segments_def wf_parts_iff)

section \<open>Reading undoes writing and writing undoes reading\<close>

lemma brace_split:
  assumes "HasPrefix part ''{''" and "HasSuffix part ''}''"
  obtains name where "part = CHR ''{'' # name @ ''}''" and "butlast (tl part) = name"
proof -
  from assms(1) obtain r where r: "part = CHR ''{'' # r" by (auto simp: HasPrefix_iff)
  from assms(2) obtain q where q: "part = q @ ''}''" by (auto simp: HasSuffix_iff)
  from r q obtain name where "q = CHR ''{'' # name" by (cases q) auto
  with q that [of name] show thesis by simp
qed

lemma newCapture_Inr [simp]:
  "newCapture k name = Inr s \<longleftrightarrow> TrimSpace name \<noteq> [] \<and> s = \<lparr>kind = k, seg_text = name\<rparr>"
  by (auto simp: newCapture_def)

lemma parseSegment_render:
  assumes "parseSegment part isLast = Inr s"
  shows "renderSegment s = part"
proof (cases "HasPrefix part ''{''")
  case False
  with assms show ?thesis by (auto simp: parseSegment_def split: if_splits)
next
  case True
  with assms have suf: "HasSuffix part ''}''" by (auto simp: parseSegment_def split: if_splits)
  from True suf obtain name where name: "part = CHR ''{'' # name @ ''}''" "butlast (tl part) = name"
    by (rule brace_split)
  obtain rest w where cut: "CutSuffix name ''...'' = (rest, w)" by fastforce
  from assms True suf cut name(2) have
    "(if w
      then if \<not> isLast
           then Inl (Reason (''a wildcard captures the rest and so comes last: '' @ part))
           else newCapture wildcardSegment rest
      else newCapture captureSegment name) = Inr s"
    by (simp add: parseSegment_def)
  then show ?thesis using cut by (auto simp: CutSuffix_cases name(1) split: if_splits)
qed

lemma parseSegment_wf:
  assumes "parseSegment part isLast = Inr s" and "CHR ''/'' \<notin> set part"
  shows "wf_segment s" and "kind s = wildcardSegment \<longrightarrow> isLast"
proof -
  have "renderSegment s = part" using assms(1) by (rule parseSegment_render)
  with assms(2) have "CHR ''/'' \<notin> set (seg_text s)" by (cases "kind s") auto
  with assms(1) show "wf_segment s"
    by (auto simp: parseSegment_def Let_def wf_segment_def CutSuffix_cases
        split: if_splits prod.splits)
  from assms(1) show "kind s = wildcardSegment \<longrightarrow> isLast"
    by (auto simp: parseSegment_def Let_def split: if_splits prod.splits)
qed

lemma renderSegment_no_slash: "wf_segment s \<Longrightarrow> CHR ''/'' \<notin> set (renderSegment s)"
  by (cases "kind s") (auto simp: wf_segment_def)

lemma parseSegment_of_render:
  assumes "wf_segment s" and "kind s = wildcardSegment \<longrightarrow> isLast"
  shows "parseSegment (renderSegment s) isLast = Inr s"
proof (cases "kind s")
  case literalSegment
  with assms have "\<not> ContainsAny (seg_text s) ''{}''" by (simp add: wf_segment_def)
  moreover from this have "\<not> HasPrefix (seg_text s) ''{''"
    by (cases "seg_text s") (auto simp: ContainsAny_def)
  ultimately show ?thesis using literalSegment by (simp add: parseSegment_def)
next
  case captureSegment
  have "HasSuffix (CHR ''{'' # seg_text s @ ''}'') ''}''"
    using HasSuffix_append [of "CHR ''{'' # seg_text s" "''}''"] by simp
  with captureSegment assms show ?thesis
    by (auto simp: parseSegment_def wf_segment_def Let_def CutSuffix_def butlast_append)
next
  case wildcardSegment
  have "HasSuffix (CHR ''{'' # seg_text s @ ''...}'') ''}''"
    using HasSuffix_append [of "CHR ''{'' # seg_text s @ ''...''" "''}''"] by simp
  moreover have "butlast (seg_text s @ ''...}'') = seg_text s @ ''...''"
    by (simp add: butlast_append)
  ultimately show ?thesis using wildcardSegment assms
    by (auto simp: parseSegment_def wf_segment_def Let_def)
qed

lemma parseParts_iff:
  assumes "\<forall>part \<in> set parts. CHR ''/'' \<notin> set part"
  shows "parseParts path parts captured = Inr segs \<longleftrightarrow>
           parts = map renderSegment segs \<and> wf_parts segs captured"
  using assms
proof (induction path parts captured arbitrary: segs rule: parseParts.induct)
  case (1 path captured)
  then show ?case by auto
next
  case (2 path part parts captured)
  show ?case
  proof (cases "parseSegment part (parts = [])")
    case (Inl err)
    have False if "part # parts = map renderSegment segs" and "wf_parts segs captured"
    proof -
      from that obtain s ss where "segs = s # ss" "part = renderSegment s" by auto
      with that Inl show False by (auto simp: parseSegment_of_render)
    qed
    with Inl show ?thesis by auto
  next
    case (Inr el)
    from "2.prems" have noslash: "CHR ''/'' \<notin> set part" by simp
    note el = parseSegment_render [OF Inr] parseSegment_wf [OF Inr noslash]
    have head: "s = el" if "wf_parts (s # ss) captured" "part = renderSegment s" "parts = map renderSegment ss"
      for s ss
      using that Inr parseSegment_of_render [of s "parts = []"] by auto
    let ?clash = "kind el \<noteq> literalSegment \<and> seg_text el \<in> captured"
    let ?captured = "if kind el \<noteq> literalSegment then insert (seg_text el) captured else captured"
    have IH: "parseParts path parts ?captured = Inr ss \<longleftrightarrow>
            parts = map renderSegment ss \<and> wf_parts ss ?captured" if "\<not> ?clash" for ss
      by (rule "2.IH" [OF Inr that]) (use "2.prems" in simp)
    have "parseParts path (part # parts) captured = Inr segs \<longleftrightarrow>
            \<not> ?clash \<and> (\<exists>ss. parseParts path parts ?captured = Inr ss \<and> segs = el # ss)"
      using Inr by (auto simp: bind_result_Inr)
    also have "\<dots> \<longleftrightarrow>
            \<not> ?clash \<and> (\<exists>ss. parts = map renderSegment ss \<and> wf_parts ss ?captured \<and> segs = el # ss)"
      using IH by blast
    also have "\<dots> \<longleftrightarrow> part # parts = map renderSegment segs \<and> wf_parts segs captured"
    proof (cases segs)
      case (Cons s ss)
      show ?thesis
      proof
        assume right: "part # parts = map renderSegment segs \<and> wf_parts segs captured"
        have "s = el" by (rule head [of s ss]) (use right Cons in auto)
        with right Cons show "\<not> ?clash \<and>
            (\<exists>ss. parts = map renderSegment ss \<and> wf_parts ss ?captured \<and> segs = el # ss)"
          by (auto split: if_splits)
      next
        assume "\<not> ?clash \<and>
            (\<exists>ss. parts = map renderSegment ss \<and> wf_parts ss ?captured \<and> segs = el # ss)"
        with Cons el show "part # parts = map renderSegment segs \<and> wf_parts segs captured"
          by (auto split: if_splits)
      qed
    qed auto
    finally show ?thesis .
  qed
qed

lemma parsePattern_iff:
  "parsePattern path = Inr segs \<longleftrightarrow> wf_segments segs \<and> path = renderPattern segs"
proof (cases "HasPrefix path ''/''")
  case False
  then show ?thesis by (auto simp: parsePattern_def renderPattern_def)
next
  case True
  then obtain r where r: "path = CHR ''/'' # r" by (auto simp: HasPrefix_iff)
  have parts: "\<forall>part \<in> set (split_on (CHR ''/'') r). CHR ''/'' \<notin> set part"
    by (auto dest: split_on_parts)
  have "parsePattern path = Inr segs \<longleftrightarrow>
        split_on (CHR ''/'') r = map renderSegment segs \<and> wf_parts segs {}"
    using True r parseParts_iff [OF parts] by (simp add: parsePattern_def)
  also have "\<dots> \<longleftrightarrow> wf_segments segs \<and> path = renderPattern segs"
  proof
    assume split: "split_on (CHR ''/'') r = map renderSegment segs \<and> wf_parts segs {}"
    then have "segs \<noteq> []" by auto
    moreover have "join ''/'' (map renderSegment segs) = r"
      using split join_split_on [of "CHR ''/''" r] by simp
    ultimately show "wf_segments segs \<and> path = renderPattern segs"
      using split r by (simp add: wf_segments_parts renderPattern_def)
  next
    assume wf: "wf_segments segs \<and> path = renderPattern segs"
    then have "r = join ''/'' (map renderSegment segs)" using r by (simp add: renderPattern_def)
    moreover have "\<forall>p \<in> set (map renderSegment segs). CHR ''/'' \<notin> set p"
      using wf by (auto simp: wf_segments_def renderSegment_no_slash)
    ultimately show "split_on (CHR ''/'') r = map renderSegment segs \<and> wf_parts segs {}"
      using wf by (simp add: split_on_join wf_segments_parts)
  qed
  finally show ?thesis .
qed

lemma renderPattern_inject:
  "wf_segments s \<Longrightarrow> wf_segments t \<Longrightarrow> renderPattern s = renderPattern t \<longleftrightarrow> s = t"
  using parsePattern_iff [of "renderPattern s" s] parsePattern_iff [of "renderPattern s" t] by auto

lemma pathSegments_nonempty [simp]: "pathSegments path \<noteq> []"
  by (simp add: pathSegments_def)

section \<open>The grammar of patterns\<close>

text \<open>C20: A path is accepted exactly when it is the text of a well-formed pattern, and parsing it gives
that pattern back.\<close>

theorem pattern_grammar:
  "parsePattern path = Inr segs \<longleftrightarrow> wf_segments segs \<and> path = renderPattern segs"
  by (rule parsePattern_iff)

end
