(* ===== verification/Web_Endpoint.thy ===== *)
theory Web_Endpoint
  imports Web_Codec_Laws Web_Path
begin

text \<open>
  Endpoints: outputs (\<open>web/endpoint.go\<close>, \<open>web/endpoint_rendered.go\<close>), declarations, the checks
  made where an endpoint is declared (\<open>web/endpoint_validation.go\<close>), and the parts of the
  calling side that an endpoint decides (\<open>web/call.go\<close>, \<open>WithEntity\<close>, \<open>Dial\<close> of \<open>web/client.go\<close>).

  The main results: an endpoint is usable exactly when its pattern, method, codec, output,
  status and path parameters are, and then its path is the one it was declared with; a value
  a server encodes is the value a client decodes, where the schema round-trips.
\<close>

section \<open>Outputs\<close>

record 'out Output =
  out_status :: int
  content :: "Content option"
  encode :: "('out \<Rightarrow> Strategy option \<Rightarrow> (error, Response) result) option"
  out_decode :: "(string \<Rightarrow> Strategy option \<Rightarrow> (error, 'out) result) option"
  out_fault :: "error option"

definition JSON :: "int \<Rightarrow> 'a Schema \<Rightarrow> 'a \<Rightarrow> Strategy option \<Rightarrow> (error, Response) result" where
  "JSON code shape value naming =
     (case schema_EncodeJSON shape naming value of
        Inl err \<Rightarrow> Inl (fault_at ''encode the response body'' err)
      | Inr document \<Rightarrow> Inr (Bytes code ''application/json'' document))"

definition Returns :: "int \<Rightarrow> 'out Schema \<Rightarrow> 'out Output" where
  "Returns code shape =
     (let described = \<lparr>MediaType = ''application/json'', content_Node = Structure shape\<rparr> in
      case schema_Validate shape of
        Some fault \<Rightarrow>
          \<lparr>out_status = code, content = Some described, encode = None, out_decode = None,
           out_fault = faultOf ''declare the response body'' (Some fault)\<rparr>
      | None \<Rightarrow>
          \<lparr>out_status = code, content = Some described,
           encode = Some (JSON code shape),
           out_decode = Some (\<lambda>document naming. schema_DecodeJSON shape naming document),
           out_fault = None\<rparr>)"

definition ReturnsRaw :: "int \<Rightarrow> string \<Rightarrow> string Output" where
  "ReturnsRaw code mediaType =
     \<lparr>out_status = code, content = Some \<lparr>MediaType = mediaType, content_Node = None\<rparr>,
      encode = Some (\<lambda>document _. Inr (Bytes code mediaType document)),
      out_decode = Some (\<lambda>document _. Inr document),
      out_fault = None\<rparr>"

definition ReturnsNothing :: "int \<Rightarrow> unit Output" where
  "ReturnsNothing code =
     \<lparr>out_status = code, content = None,
      encode = Some (\<lambda>_ _. Inr (Empty code)),
      out_decode = Some (\<lambda>_ _. Inr ()),
      out_fault = None\<rparr>"

definition errNoRendering :: error where
  "errNoRendering = declarationMistake ''a rendered output says how its value is rendered''"

definition ErrUnreadableOutput :: error where
  "ErrUnreadableOutput = Reason ''web: a rendered response is not read back through its endpoint''"

definition ReturnsResponse ::
  "int \<Rightarrow> string \<Rightarrow> ('out \<Rightarrow> (error, Response) result) option \<Rightarrow> 'out Output" where
  "ReturnsResponse code mediaType render =
     (let described = Some \<lparr>MediaType = mediaType, content_Node = None\<rparr> in
      case render of
        None \<Rightarrow>
          \<lparr>out_status = code, content = described, encode = None, out_decode = None,
           out_fault = faultOf ''declare the response'' (Some errNoRendering)\<rparr>
      | Some rendering \<Rightarrow>
          \<lparr>out_status = code, content = described,
           encode = Some (\<lambda>value _. rendering value),
           out_decode = Some (\<lambda>_ _. Inl ErrUnreadableOutput),
           out_fault = None\<rparr>)"

section \<open>Declarations and endpoints\<close>

record FailureResponse =
  failure_Status :: int
  failure_Description :: string

record Alternative =
  alternative_Status :: int
  alternative_Description :: string

record Declaration =
  decl_Method :: string
  decl_Path :: string
  Summary :: string
  Description :: string
  Parameters :: "Parameter list"
  decl_Entity :: "Content option"
  decl_Status :: int
  decl_Content :: "Content option"
  Failures :: "FailureResponse list"
  Alternatives :: "Alternative list"

record ('i, 'out) Endpoint =
  end_method :: string
  segments :: "segment list"
  end_input :: "'i Codec"
  end_output :: "'out Output"
  summary :: string
  doc :: string
  failures :: "FailureResponse list"
  alternatives :: "Alternative list"
  end_fault :: "error option"

definition errZeroEndpoint :: error where
  "errZeroEndpoint = declarationMistake ''the zero Endpoint declares nothing and cannot be used''"

definition errNamelessMethod :: error where
  "errNamelessMethod = declarationMistake ''an endpoint has a method''"

definition errNoOutput :: error where
  "errNoOutput = declarationMistake
     ''an endpoint says what it answers with; use Returns or ReturnsNothing''"

definition errUnstatusedOutput :: error where
  "errUnstatusedOutput = declarationMistake
     ''an endpoint answers with a status between 100 and 599''"

definition captured_names :: "segment list \<Rightarrow> string set" where
  "captured_names segs = set (map seg_text (filter (\<lambda>part. kind part \<noteq> literalSegment) segs))"

fun validateParameters :: "string set \<Rightarrow> Parameter list \<Rightarrow> error option" where
  "validateParameters captured [] = None"
| "validateParameters captured (p # ps) =
     (if In p = InPath \<and> param_Name p \<notin> captured
      then faultOf ''declare an endpoint''
             (Some (Reason (''the path parameter '' @ param_Name p @
                            '' is not captured by the path'')))
      else validateParameters captured ps)"

definition validateCaptures :: "segment list \<Rightarrow> Parameter list \<Rightarrow> error option" where
  "validateCaptures segs ps = validateParameters (captured_names segs) ps"

definition firstEndpointFault ::
  "string \<Rightarrow> error option \<Rightarrow> segment list \<Rightarrow> 'i Codec \<Rightarrow> 'out Output \<Rightarrow> error option" where
  "firstEndpointFault method pathErr segs inp outp =
     (if method = [] then faultOf ''declare an endpoint'' (Some errNamelessMethod)
      else if pathErr \<noteq> None then pathErr
      else if ValidateCodec inp \<noteq> None then ValidateCodec inp
      else if out_fault outp \<noteq> None then out_fault outp
      else if encode outp = None then faultOf ''declare an endpoint'' (Some errNoOutput)
      else if out_status outp < 100 \<or> out_status outp > 599
      then faultOf ''declare an endpoint'' (Some errUnstatusedOutput)
      else validateCaptures segs (parameters inp))"

text \<open>On an error \<open>parsePattern\<close> returns no segments.\<close>

definition Declare :: "string \<Rightarrow> string \<Rightarrow> 'i Codec \<Rightarrow> 'out Output \<Rightarrow> ('i, 'out) Endpoint" where
  "Declare method path inp outp =
     (let (segs, err) = (case parsePattern path of Inl e \<Rightarrow> ([], Some e) | Inr ss \<Rightarrow> (ss, None)) in
      \<lparr>end_method = method, segments = segs, end_input = inp, end_output = outp, summary = [], doc = [],
       failures = [], alternatives = [],
       end_fault = firstEndpointFault method err segs inp outp\<rparr>)"

definition GET :: "string \<Rightarrow> 'i Codec \<Rightarrow> 'out Output \<Rightarrow> ('i, 'out) Endpoint" where
  "GET path inp outp = Declare ''GET'' path inp outp"

definition POST :: "string \<Rightarrow> 'i Codec \<Rightarrow> 'out Output \<Rightarrow> ('i, 'out) Endpoint" where
  "POST path inp outp = Declare ''POST'' path inp outp"

definition PUT :: "string \<Rightarrow> 'i Codec \<Rightarrow> 'out Output \<Rightarrow> ('i, 'out) Endpoint" where
  "PUT path inp outp = Declare ''PUT'' path inp outp"

definition PATCH :: "string \<Rightarrow> 'i Codec \<Rightarrow> 'out Output \<Rightarrow> ('i, 'out) Endpoint" where
  "PATCH path inp outp = Declare ''PATCH'' path inp outp"

definition DELETE :: "string \<Rightarrow> 'i Codec \<Rightarrow> 'out Output \<Rightarrow> ('i, 'out) Endpoint" where
  "DELETE path inp outp = Declare ''DELETE'' path inp outp"

definition WithSummary :: "('i, 'out) Endpoint \<Rightarrow> string \<Rightarrow> ('i, 'out) Endpoint" where
  "WithSummary endpoint line = endpoint\<lparr>summary := line\<rparr>"

definition endpoint_WithDescription :: "('i, 'out) Endpoint \<Rightarrow> string \<Rightarrow> ('i, 'out) Endpoint" where
  "endpoint_WithDescription endpoint prose = endpoint\<lparr>doc := prose\<rparr>"

definition WithFailure :: "('i, 'out) Endpoint \<Rightarrow> int \<Rightarrow> string \<Rightarrow> ('i, 'out) Endpoint" where
  "WithFailure endpoint code prose =
     endpoint\<lparr>failures := failures endpoint @
                [\<lparr>failure_Status = code, failure_Description = prose\<rparr>]\<rparr>"

definition WithAlternative :: "('i, 'out) Endpoint \<Rightarrow> int \<Rightarrow> string \<Rightarrow> ('i, 'out) Endpoint" where
  "WithAlternative endpoint code prose =
     endpoint\<lparr>alternatives := alternatives endpoint @
                [\<lparr>alternative_Status = code, alternative_Description = prose\<rparr>]\<rparr>"

definition endpoint_Declaration :: "('i, 'out) Endpoint \<Rightarrow> Declaration" where
  "endpoint_Declaration endpoint =
     \<lparr>decl_Method = end_method endpoint, decl_Path = renderPattern (segments endpoint),
      Summary = summary endpoint, Description = doc endpoint,
      Parameters = parameters (end_input endpoint), decl_Entity = entity (end_input endpoint),
      decl_Status = out_status (end_output endpoint), decl_Content = content (end_output endpoint),
      Failures = failures endpoint, Alternatives = alternatives endpoint\<rparr>"

definition ValidateEndpoint :: "('i, 'out) Endpoint \<Rightarrow> error option" where
  "ValidateEndpoint endpoint =
     (if end_fault endpoint \<noteq> None then end_fault endpoint
      else if end_method endpoint = [] \<or> encode (end_output endpoint) = None
      then faultOf ''use an endpoint'' (Some errZeroEndpoint)
      else None)"

section \<open>The calling side\<close>

text \<open>
  An \<open>http.Client\<close> is not looked into: a client that has one is \<open>True\<close>. The query and the header
  of a request are maps in Go: here their entries, in the order a loop happens to visit them.
\<close>

record Client =
  has_http_client :: bool
  address :: string
  client_strategy :: "Strategy option"

definition Dial :: "bool \<Rightarrow> string \<Rightarrow> Client" where
  "Dial client base = \<lparr>has_http_client = client, address = TrimSuffix base ''/'', client_strategy = None\<rparr>"

definition client_WithNaming :: "Client \<Rightarrow> Strategy option \<Rightarrow> Client" where
  "client_WithNaming client naming = client\<lparr>client_strategy := naming\<rparr>"

record ClientRequest =
  cr_Path :: "string \<Rightarrow> string option"
  cr_Query :: "(string \<times> string list) list"
  cr_Header :: "(string \<times> string list) list"
  cr_Entity :: string
  cr_MediaType :: string
  About :: string

record ClientResponse =
  resp_Status :: int
  resp_Header :: http_header
  resp_Entity :: string

definition WithEntity ::
  "ClientRequest \<Rightarrow> 'a Schema \<Rightarrow> 'a \<Rightarrow> Strategy option \<Rightarrow> (error, ClientRequest) result" where
  "WithEntity request shape value naming =
     (case schema_EncodeJSON shape naming value of
        Inl err \<Rightarrow> Inl (fault_at ''encode the request body'' err)
      | Inr document \<Rightarrow> Inr (request\<lparr>cr_Entity := document, cr_MediaType := ''application/json''\<rparr>))"

definition decodeResponse ::
  "'out Output \<Rightarrow> ClientResponse \<Rightarrow> string \<Rightarrow> Strategy option \<Rightarrow> (Fault, 'out) result" where
  "decodeResponse outp response target naming =
     (if resp_Status response \<noteq> out_status outp
      then Inl (Fault (''call '' @ target)
             (Some (RefusalErr \<lparr>Refusal_Status = resp_Status response,
                                Refusal_Entity = resp_Entity response,
                                Refusal_header = Map.empty\<rparr>)))
      else (case out_decode outp of
              None \<Rightarrow> Inl (Fault ''read the response body'' (Some nil_call))
            | Some decoder \<Rightarrow>
                (case decoder (resp_Entity response) naming of
                   Inl err \<Rightarrow> Inl (Fault ''read the response body'' (Some err))
                 | Inr value \<Rightarrow> Inr value)))"

section \<open>When an endpoint is usable\<close>

lemma validateParameters_None:
  "validateParameters captured ps = None \<longleftrightarrow>
     (\<forall>p \<in> set ps. In p = InPath \<longrightarrow> param_Name p \<in> captured)"
  by (induction ps) auto

lemma captured_names_eq: "captured_names segs = set (capture_names segs)"
  by (simp add: captured_names_def capture_names_def)

lemma validateCaptures_None:
  "validateCaptures segs ps = None \<longleftrightarrow>
     (\<forall>p \<in> set ps. In p = InPath \<longrightarrow> param_Name p \<in> set (capture_names segs))"
  by (simp add: validateCaptures_def validateParameters_None captured_names_eq)

lemma firstEndpointFault_None:
  "firstEndpointFault method err segs inp outp = None \<longleftrightarrow>
     method \<noteq> [] \<and> err = None \<and> ValidateCodec inp = None \<and> out_fault outp = None \<and>
     encode outp \<noteq> None \<and> 100 \<le> out_status outp \<and> out_status outp \<le> 599 \<and>
     (\<forall>p \<in> set (parameters inp). In p = InPath \<longrightarrow> param_Name p \<in> set (capture_names segs))"
  by (auto simp: firstEndpointFault_def validateCaptures_None)

lemma Declare_valid:
  "ValidateEndpoint (Declare method path inp outp) = None \<longleftrightarrow>
     (\<exists>segs. wf_segments segs \<and> path = renderPattern segs \<and>
        method \<noteq> [] \<and> ValidateCodec inp = None \<and> out_fault outp = None \<and> encode outp \<noteq> None \<and>
        100 \<le> out_status outp \<and> out_status outp \<le> 599 \<and>
        (\<forall>p \<in> set (parameters inp). In p = InPath \<longrightarrow> param_Name p \<in> set (capture_names segs)))"
proof (cases "parsePattern path")
  case (Inl err)
  then have "\<not> (\<exists>segs. wf_segments segs \<and> path = renderPattern segs)"
    using parsePattern_iff [of path] by auto
  moreover have "firstEndpointFault method (Some err) [] inp outp \<noteq> None"
    using firstEndpointFault_None [of "method" "Some err"] by simp
  ultimately show ?thesis
    using Inl by (auto simp: ValidateEndpoint_def Declare_def)
next
  case (Inr segs)
  then have segs: "wf_segments segs" "path = renderPattern segs" by (simp_all add: parsePattern_iff)
  have "ValidateEndpoint (Declare method path inp outp) = None \<longleftrightarrow>
      firstEndpointFault method None segs inp outp = None"
    using Inr firstEndpointFault_None [of "method" None segs inp outp]
    by (auto simp: ValidateEndpoint_def Declare_def)
  also have "\<dots> \<longleftrightarrow> (\<exists>s. wf_segments s \<and> path = renderPattern s \<and> firstEndpointFault method None s inp outp = None)"
    using segs renderPattern_inject by metis
  finally show ?thesis unfolding firstEndpointFault_None by simp
qed

lemma Declare_simps [simp]:
  "end_method (Declare method path inp outp) = method"
  "end_input (Declare method path inp outp) = inp" "end_output (Declare method path inp outp) = outp"
  by (simp_all add: Declare_def split: sum.splits prod.splits)

lemma Declare_path:
  "ValidateEndpoint (Declare method path inp outp) = None \<Longrightarrow>
   decl_Path (endpoint_Declaration (Declare method path inp outp)) = path"
  unfolding Declare_valid
  by (auto simp: Declare_def endpoint_Declaration_def parsePattern_iff split: sum.splits)
    (metis parsePattern_iff sum.distinct(1))

lemma Declare_segments:
  assumes "ValidateEndpoint (Declare method path inp outp) = None"
  shows "wf_segments (segments (Declare method path inp outp))"
proof -
  from assms obtain segs where segs: "wf_segments segs" "path = renderPattern segs"
    unfolding Declare_valid by blast
  then have "parsePattern path = Inr segs" by (simp add: parsePattern_iff)
  with segs(1) show ?thesis by (simp add: Declare_def)
qed

section \<open>What a server encodes a client decodes\<close>

text \<open>The response a server made, as the client's side receives it from a fresh writer.\<close>

definition received :: "Response \<Rightarrow> http_request \<Rightarrow> ClientResponse option" where
  "received response request =
     (case WriteTo response newWriter request of (w, err) \<Rightarrow>
        (case w_sent w of
           Some (code, hdr) \<Rightarrow>
             Some \<lparr>resp_Status = code, resp_Header = hdr, resp_Entity = w_body w\<rparr>
         | None \<Rightarrow> None))"

lemma received_Bytes:
  assumes "code \<noteq> 0" and "bodyAllowedForStatus code"
  shows "received (Bytes code ct body) request =
           Some \<lparr>resp_Status = code, resp_Header = resp_header (Bytes code ct body), resp_Entity = body\<rparr>"
  using assms
  by (simp add: received_def WriteTo_def Bytes_def Write_def WriteHeader_def newWriter_def Let_def)

lemma received_Empty:
  "code \<noteq> 0 \<Longrightarrow> \<not> informational code \<Longrightarrow> received (Empty code) request =
     Some \<lparr>resp_Status = code, resp_Header = Map.empty, resp_Entity = []\<rparr>"
  by (simp add: received_def WriteTo_def Empty_def writeNothing_def WriteHeader_def newWriter_def Let_def)

section \<open>What endpoints promise\<close>

text \<open>An endpoint is usable exactly when its path is the text of a well-formed pattern, it has a
method, its codec and its output are usable, its status is one HTTP has, and every path parameter
its codec declares is captured by its path.\<close>

theorem endpoint_usable:
  "ValidateEndpoint (Declare method path inp outp) = None \<longleftrightarrow>
     (\<exists>segs. wf_segments segs \<and> path = renderPattern segs \<and>
        method \<noteq> [] \<and> ValidateCodec inp = None \<and> out_fault outp = None \<and> encode outp \<noteq> None \<and>
        100 \<le> out_status outp \<and> out_status outp \<le> 599 \<and>
        {param_Name p | p. p \<in> set (parameters inp) \<and> In p = InPath} \<subseteq> set (capture_names segs))"
  unfolding Declare_valid by (intro ex_cong1) blast

text \<open>A value a server encodes as its output is the value a client decodes from the response, where
the schema reads back the document it writes and the status is one that takes an entity.\<close>

theorem output_roundtrip:
  assumes "schema_Validate shape = None" and "code \<noteq> 0" and "bodyAllowedForStatus code"
    and "schema_EncodeJSON shape naming value = Inr document"
    and "schema_DecodeJSON shape naming document = Inr value"
  shows "\<exists>enc response got.
           encode (Returns code shape) = Some enc \<and> enc value naming = Inr response \<and>
           received response request = Some got \<and>
           decodeResponse (Returns code shape) got target naming = Inr value"
  using assms
  by (simp add: Returns_def Let_def JSON_def received_Bytes decodeResponse_def)

theorem output_roundtrip_witness:
  "\<exists>enc response got.
     encode (Returns 201 verbatim) = Some enc \<and> enc ''made'' None = Inr response \<and>
     received response \<lparr>req_Method = ''PUT'', URL_Path = ''/'', URL_Query = Map.empty,
                        req_Header = Map.empty, req_Body = None\<rparr> = Some got \<and>
     decodeResponse (Returns 201 verbatim) got ''PUT /'' None = Inr ''made''"
  by (rule output_roundtrip) (simp_all add: bodyAllowedForStatus_def)

end
