(* ===== verification/Web_Route.thy ===== *)
theory Web_Route
  imports Web_Endpoint
begin

text \<open>
  Routes: an endpoint with a handler (\<open>web/route.go\<close>), the naming and measuring of its phases
  (\<open>web/phase.go\<close>), the spelling of its documents (\<open>web/naming.go\<close>), upgrades
  (\<open>web/route_upgrade.go\<close>), files (\<open>web/route_files.go\<close>), spans (\<open>web/route_spans.go\<close>), handlers
  and middleware (\<open>web/handler.go\<close>, \<open>web/middleware.go\<close>).

  Effects belong to the runtime, another module: the types of effects are type variables
  and the operations the source calls on them are the fields of \<open>effect_ops\<close> and \<open>phase_ops\<close>.
  What is proved of them rests on \<open>lawful\<close>, which states what their documentation promises of
  the order things happen in: it is about \<open>observe\<close>, what running an effect does to a world
  that leaves out spans and samples.
\<close>

section \<open>Effects\<close>

record 'i decodeResult =
  dr_value :: "'i option"
  dr_refusal :: "error option"

text \<open>The operations on an effect of one type that name and measure a phase.\<close>

record ('fx, 'fin) phase_ops =
  WithSpan :: "'fx \<Rightarrow> string \<Rightarrow> 'fx"
  Ensuring :: "'fx \<Rightarrow> 'fin \<Rightarrow> 'fx"
  Suspend :: "(unit \<Rightarrow> 'fx) \<Rightarrow> 'fx"

text \<open>
  The operations a route composes with: on effects of a response (\<open>'fr\<close>), of the handler's
  output (\<open>'fo\<close>) and of a decoding's result (\<open>'fd\<close>).
\<close>

record ('fr, 'fo, 'fd, 'fin, 'i, 'out) effect_ops =
  Succeed :: "Response \<Rightarrow> 'fr"
  Die :: "error \<Rightarrow> 'fr"
  LogWarn_As :: "string \<Rightarrow> (string \<times> string) list \<Rightarrow> Response \<Rightarrow> 'fr"
  FlatMap :: "'fo \<Rightarrow> ('out \<Rightarrow> 'fr) \<Rightarrow> 'fr"
  Succeed_decoded :: "'i decodeResult \<Rightarrow> 'fd"
  FlatMap_decoded :: "'fd \<Rightarrow> ('i decodeResult \<Rightarrow> 'fr) \<Rightarrow> 'fr"
  on_response :: "('fr, 'fin) phase_ops"
  on_output :: "('fo, 'fin) phase_ops"
  on_decoded :: "('fd, 'fin) phase_ops"

section \<open>Phases\<close>

text \<open>
  A sampler is called with the phase's name and gives back what to do when it ends, or nil.
\<close>

type_synonym 'fin PhaseSampler = "string \<Rightarrow> 'fin option"

record 'fin phases =
  decodeSpan :: string
  handleSpan :: string
  encodeSpan :: string
  sampler :: "'fin PhaseSampler option"

definition noPhases :: "'fin phases" where
  "noPhases = \<lparr>decodeSpan = [], handleSpan = [], encodeSpan = [], sampler = None\<rparr>"

definition isQuiet :: "'fin phases \<Rightarrow> bool" where
  "isQuiet ph \<longleftrightarrow>
     sampler ph = None \<and> decodeSpan ph = [] \<and> handleSpan ph = [] \<and> encodeSpan ph = []"

definition PhaseNames :: "string list" where
  "PhaseNames = [''decode'', ''handle'', ''encode'']"

definition phaseNames :: "'fin phases" where
  "phaseNames =
     \<lparr>decodeSpan = ''decode'', handleSpan = ''handle'', encodeSpan = ''encode'', sampler = None\<rparr>"

definition withSpan :: "('fx, 'fin) phase_ops \<Rightarrow> 'fx \<Rightarrow> string \<Rightarrow> 'fx" where
  "withSpan ops fx name = (if name = [] then fx else WithSpan ops fx name)"

definition measurePhase ::
  "('fx, 'fin) phase_ops \<Rightarrow> 'fx \<Rightarrow> string \<Rightarrow> 'fin PhaseSampler option \<Rightarrow> 'fx" where
  "measurePhase ops fx name sample =
     (case sample of
        None \<Rightarrow> fx
      | Some start \<Rightarrow>
          if name = [] then fx
          else Suspend ops (\<lambda>_. case start name of
                 None \<Rightarrow> fx | Some finish \<Rightarrow> Ensuring ops fx finish))"

definition instrumentPhase ::
  "('fx, 'fin) phase_ops \<Rightarrow> 'fx \<Rightarrow> string \<Rightarrow> 'fin PhaseSampler option \<Rightarrow> 'fx" where
  "instrumentPhase ops fx name sample = withSpan ops (measurePhase ops fx name sample) name"

section \<open>Routes\<close>

record ('h, 'fin) Route =
  route_declaration :: Declaration
  route_segments :: "segment list"
  build :: "((error \<Rightarrow> Response) \<Rightarrow> 'fin phases \<Rightarrow> Strategy option \<Rightarrow> 'h) option"
  phases :: "'fin phases"
  route_strategy :: "Strategy option"
  route_fault :: "error option"

type_synonym 'fr Handler = "Request \<Rightarrow> 'fr"

definition errNoHandler :: error where
  "errNoHandler = declarationMistake ''a route has a handler''"

definition firstRouteFault :: "('i, 'out) Endpoint \<Rightarrow> ('i \<Rightarrow> 'fo) option \<Rightarrow> error option" where
  "firstRouteFault endpoint handle =
     (case ValidateEndpoint endpoint of
        Some fault \<Rightarrow> Some fault
      | None \<Rightarrow>
          if handle = None
          then faultOf (''handle '' @ end_method endpoint @ '' '' @ renderPattern (segments endpoint))
                 (Some errNoHandler)
          else None)"

definition rejectRequest :: "error \<Rightarrow> Response" where
  "rejectRequest err = Text 400 (Error err)"

definition encodeOutput ::
  "('fr, 'fo, 'fd, 'fin, 'i, 'out) effect_ops \<Rightarrow> 'out Output \<Rightarrow> Strategy option \<Rightarrow> 'out \<Rightarrow> 'fr" where
  "encodeOutput ops outp naming value =
     (case (case encode outp of None \<Rightarrow> Inl nil_call | Some enc \<Rightarrow> enc value naming) of
        Inl err \<Rightarrow> Die ops err
      | Inr response \<Rightarrow> Succeed ops response)"

definition logRefusal ::
  "('fr, 'fo, 'fd, 'fin, 'i, 'out) effect_ops \<Rightarrow> Declaration \<Rightarrow> error \<Rightarrow> Response \<Rightarrow> 'fr" where
  "logRefusal ops decl refusal response =
     LogWarn_As ops ''a request was refused by this route's codecs; the client was told why''
       [(''method'', decl_Method decl), (''route'', decl_Path decl), (''refusal'', Error refusal)]
       response"

definition phaseHandler ::
  "('fr, 'fo, 'fd, 'fin, 'i, 'out) effect_ops \<Rightarrow> ('i, 'out) Endpoint \<Rightarrow> ('i \<Rightarrow> 'fo) \<Rightarrow>
   (error \<Rightarrow> Response) \<Rightarrow> 'fin phases \<Rightarrow> Strategy option \<Rightarrow> 'fr Handler" where
  "phaseHandler ops endpoint handle reject ph naming request =
     (let decode = Suspend (on_decoded ops) (\<lambda>_.
            Succeed_decoded ops
              (case Decode (end_input endpoint) (request_withNaming request naming) of
                 Inl err \<Rightarrow> \<lparr>dr_value = None, dr_refusal = Some err\<rparr>
               | Inr v \<Rightarrow> \<lparr>dr_value = Some v, dr_refusal = None\<rparr>))
      in FlatMap_decoded ops (instrumentPhase (on_decoded ops) decode (decodeSpan ph) (sampler ph))
           (\<lambda>result.
              case dr_refusal result of
                Some refusal \<Rightarrow>
                  logRefusal ops (endpoint_Declaration endpoint) refusal (reject refusal)
              | None \<Rightarrow>
                  FlatMap ops
                    (instrumentPhase (on_output ops) (handle (the (dr_value result)))
                       (handleSpan ph) (sampler ph))
                    (\<lambda>value. instrumentPhase (on_response ops)
                       (encodeOutput ops (end_output endpoint) naming value)
                       (encodeSpan ph) (sampler ph))))"

definition plainHandler ::
  "('fr, 'fo, 'fd, 'fin, 'i, 'out) effect_ops \<Rightarrow> ('i, 'out) Endpoint \<Rightarrow> ('i \<Rightarrow> 'fo) \<Rightarrow>
   (error \<Rightarrow> Response) \<Rightarrow> Strategy option \<Rightarrow> 'fr Handler" where
  "plainHandler ops endpoint handle reject naming request =
     Suspend (on_response ops) (\<lambda>_.
       case Decode (end_input endpoint) (request_withNaming request naming) of
         Inl err \<Rightarrow> logRefusal ops (endpoint_Declaration endpoint) err (reject err)
       | Inr v \<Rightarrow> FlatMap ops (handle v) (encodeOutput ops (end_output endpoint) naming))"

definition Handle ::
  "('fr, 'fo, 'fd, 'fin, 'i, 'out) effect_ops \<Rightarrow> ('i, 'out) Endpoint \<Rightarrow> ('i \<Rightarrow> 'fo) option \<Rightarrow>
   ('fr Handler, 'fin) Route" where
  "Handle ops endpoint handle =
     \<lparr>route_declaration = endpoint_Declaration endpoint,
      route_segments = segments endpoint,
      build =
        (case firstRouteFault endpoint handle of
           Some fault \<Rightarrow> None
         | None \<Rightarrow> Some (\<lambda>reject ph naming.
             if isQuiet ph then plainHandler ops endpoint (the handle) reject naming
             else phaseHandler ops endpoint (the handle) reject ph naming)),
      phases = noPhases, route_strategy = None,
      route_fault = firstRouteFault endpoint handle\<rparr>"

section \<open>Settings of one route\<close>

type_synonym 'h RouteMiddleware = "Declaration \<Rightarrow> 'h \<Rightarrow> 'h"

definition withMiddleware :: "'h RouteMiddleware \<Rightarrow> ('h, 'fin) Route \<Rightarrow> ('h, 'fin) Route" where
  "withMiddleware each route =
     (case build route of
        None \<Rightarrow> route
      | Some built \<Rightarrow>
          if route_fault route \<noteq> None then route
          else route\<lparr>build := Some (\<lambda>reject ph naming. each (route_declaration route) (built reject ph naming))\<rparr>)"

definition withPhases :: "'fin PhaseSampler option \<Rightarrow> ('h, 'fin) Route \<Rightarrow> ('h, 'fin) Route" where
  "withPhases sample route =
     (if route_fault route \<noteq> None then route
      else route\<lparr>phases := phaseNames\<lparr>sampler := sample\<rparr>\<rparr>)"

text \<open>\<open>structure.Spell\<close>, which writes a described shape as a strategy spells it, is a parameter.\<close>

definition content_withNaming ::
  "(Node \<Rightarrow> Strategy option \<Rightarrow> Node) \<Rightarrow> Strategy option \<Rightarrow> Content option \<Rightarrow> Content option" where
  "content_withNaming Spell naming given_content =
     (case given_content of
        None \<Rightarrow> None
      | Some c \<Rightarrow>
          (case content_Node c of
             None \<Rightarrow> Some c
           | Some node \<Rightarrow> Some (c\<lparr>content_Node := Some (Spell node naming)\<rparr>)))"

definition declaration_withNaming ::
  "(Node \<Rightarrow> Strategy option \<Rightarrow> Node) \<Rightarrow> Strategy option \<Rightarrow> Declaration \<Rightarrow> Declaration" where
  "declaration_withNaming Spell naming decl =
     decl\<lparr>decl_Entity := content_withNaming Spell naming (decl_Entity decl),
          decl_Content := content_withNaming Spell naming (decl_Content decl)\<rparr>"

definition withNaming ::
  "(Node \<Rightarrow> Strategy option \<Rightarrow> Node) \<Rightarrow> Strategy option \<Rightarrow> ('h, 'fin) Route \<Rightarrow> ('h, 'fin) Route" where
  "withNaming Spell naming route =
     (if route_fault route \<noteq> None then route
      else route\<lparr>route_strategy := naming,
                 route_declaration := declaration_withNaming Spell naming (route_declaration route)\<rparr>)"

section \<open>Upgrades, spans and files\<close>

definition Upgrade :: "string \<Rightarrow> string \<Rightarrow> 'fr Handler option \<Rightarrow> ('fr Handler, 'fin) Route" where
  "Upgrade path line handler =
     (let nothing = \<lparr>decl_Method = [], decl_Path = [], Summary = [], Description = [],
                     Parameters = [], decl_Entity = None, decl_Status = 0, decl_Content = None,
                     Failures = [], Alternatives = []\<rparr>;
          refused = (\<lambda>err. \<lparr>route_declaration = nothing, route_segments = [], build = None,
                     phases = noPhases, route_strategy = None, route_fault = Some err\<rparr>)
      in case parsePattern path of
           Inl err \<Rightarrow> refused err
         | Inr segs \<Rightarrow>
             (case handler of
                None \<Rightarrow> refused (fault_at (''upgrade '' @ path) errNoHandler)
              | Some handle \<Rightarrow>
                  \<lparr>route_declaration = nothing\<lparr>decl_Method := ''GET'', decl_Path := renderPattern segs,
                                       Summary := line, decl_Status := 101\<rparr>,
                   route_segments = segs,
                   build = Some (\<lambda>reject ph naming request. handle (request_withNaming request naming)),
                   phases = noPhases, route_strategy = None, route_fault = None\<rparr>))"

definition RouteName :: "Declaration \<Rightarrow> string" where
  "RouteName decl = decl_Method decl @ '' '' @ decl_Path decl"

definition RouteSpans ::
  "('fr \<Rightarrow> string \<Rightarrow> 'fr) \<Rightarrow> ('fr \<Rightarrow> string \<Rightarrow> 'fr) \<Rightarrow> ('fr \<Rightarrow> (string \<times> string) list \<Rightarrow> 'fr) \<Rightarrow>
   'fr Handler RouteMiddleware" where
  "RouteSpans WithName with_span Annotate decl handler request =
     Annotate (with_span (WithName (handler request) (RouteName decl)) (RouteName decl))
       [(''method'', decl_Method decl), (''route'', decl_Path decl)]"

text \<open>
  A file system is \<open>fs.Stat\<close>: nothing at a name, a directory, or a file. Serving one is
  \<open>net/http\<close>'s, so it is a parameter.
\<close>

datatype file_info = regular_file | file_directory

definition fileResponse ::
  "(string \<Rightarrow> file_info option) \<Rightarrow> (string \<Rightarrow> http_handler) \<Rightarrow> string \<Rightarrow> (error, Response) result" where
  "fileResponse Stat ServeFileFS name =
     (case Stat name of
        Some regular_file \<Rightarrow> Inr (Delegate (ServeFileFS name))
      | _ \<Rightarrow> Inr (Empty 404))"

definition files_endpoint ::
  "text_library \<Rightarrow> string Schema \<Rightarrow> string \<Rightarrow> (string \<Rightarrow> file_info option) \<Rightarrow>
   (string \<Rightarrow> http_handler) \<Rightarrow> (string, string) Endpoint" where
  "files_endpoint lib text_schema beneath Stat ServeFileFS =
     (let base = TrimSuffix beneath ''/'' in
      WithFailure
        (WithSummary
           (GET (base @ ''/{file...}'')
              (WithDescription (PathParam lib ''file'' text_schema)
                 (''the file's path beneath '' @ base))
              (ReturnsResponse 200 ''application/octet-stream'' (Some (fileResponse Stat ServeFileFS))))
           (''A file served from '' @ base))
        404 ''no such file'')"

definition Files ::
  "('fr, 'fo, 'fd, 'fin, string, string) effect_ops \<Rightarrow> (string \<Rightarrow> 'fo) \<Rightarrow> text_library \<Rightarrow>
   string Schema \<Rightarrow> string \<Rightarrow> (string \<Rightarrow> file_info option) \<Rightarrow> (string \<Rightarrow> http_handler) \<Rightarrow>
   ('fr Handler, 'fin) Route" where
  "Files ops succeed_output lib text_schema beneath Stat ServeFileFS =
     Handle ops (files_endpoint lib text_schema beneath Stat ServeFileFS) (Some succeed_output)"

section \<open>Handlers and middleware\<close>

definition Respond :: "(Response \<Rightarrow> 'fr) \<Rightarrow> Response \<Rightarrow> 'fr Handler" where
  "Respond succeed response request = succeed response"

definition FromHTTP :: "(Response \<Rightarrow> 'fr) \<Rightarrow> http_handler \<Rightarrow> 'fr Handler" where
  "FromHTTP succeed handler = Respond succeed (Delegate handler)"

definition Transform ::
  "('fr \<Rightarrow> (Response \<Rightarrow> Response) \<Rightarrow> 'fr) \<Rightarrow> 'fr Handler \<Rightarrow> (Response \<Rightarrow> Response) \<Rightarrow> 'fr Handler" where
  "Transform map_effect handler rewrite request = map_effect (handler request) rewrite"

type_synonym 'h Middleware = "'h \<Rightarrow> 'h"

text \<open>The loop runs from the last middleware to the first and skips the nil ones.\<close>

fun Wrap :: "'h \<Rightarrow> 'h Middleware option list \<Rightarrow> 'h" where
  "Wrap handler [] = handler"
| "Wrap handler (m # ms) =
     (case m of None \<Rightarrow> Wrap handler ms | Some derive \<Rightarrow> derive (Wrap handler ms))"

end
