(* ===== verification/Web_Tree.thy ===== *)
theory Web_Tree
  imports Web_Path "HOL-Library.AList"
begin

text \<open>
  The route tree (\<open>web/route_tree.go\<close>): inserting a route, or refusing it because another
  could match the same request, and resolving a path and a method with backtracking.

  A node is a datatype, because Go's \<open>treeNode\<close> points to its children; the children under
  literals are a map from the literal. The handlers and the patterns of a node are kept as
  association lists: \<open>here\<close> ranges over the keys of a Go map in an unspecified order, and the
  order of the list stands for whichever order that is. Inserting changes the tree in place
  in Go; here it returns the new tree, and a refusal returns no tree, because the only
  caller gives up the whole surface then.

  The contract is stated without the tree: \<open>entries\<close> reads a tree as the table of routes it
  holds, \<open>match_path\<close> says what one pattern matches, and \<open>resolve\<close> is shown to find the most
  specific matching route, or else exactly the methods the path allows.
\<close>

section \<open>Nodes\<close>

datatype 'h treeNode = treeNode
  (literals: "string \<Rightarrow> 'h treeNode option")
  (node_capture: "'h treeNode option")
  (node_wildcard: "'h treeNode option")
  (node_name: string)
  (handlers: "(string \<times> 'h) list")
  (patterns: "(string \<times> string) list")

definition newTreeNode :: "string \<Rightarrow> 'h treeNode" where
  "newTreeNode name = treeNode (\<lambda>_. None) None None name [] []"

record binding =
  binding_name :: string
  binding_value :: string

record 'h resolution =
  res_handler :: "'h option"
  found :: bool
  res_captures :: "binding list"
  methods :: "string list"

section \<open>Inserting\<close>

definition claimSlot :: "'h treeNode option \<Rightarrow> string \<Rightarrow> string \<Rightarrow> (error, 'h treeNode) result" where
  "claimSlot slot name pattern =
     (case slot of
        None \<Rightarrow> Inr (newTreeNode name)
      | Some node \<Rightarrow>
          if node_name node \<noteq> name
          then Inl (Reason (pattern @ '' captures a segment as '' @ name @
                            '' where another route captures it as '' @ node_name node))
          else Inr node)"

definition childFor :: "'h treeNode \<Rightarrow> segment \<Rightarrow> string \<Rightarrow> (error, 'h treeNode) result" where
  "childFor node part pattern =
     (case kind part of
        literalSegment \<Rightarrow>
          Inr (case literals node (seg_text part) of
                 None \<Rightarrow> newTreeNode [] | Some child \<Rightarrow> child)
      | captureSegment \<Rightarrow> claimSlot (node_capture node) (seg_text part) pattern
      | wildcardSegment \<Rightarrow> claimSlot (node_wildcard node) (seg_text part) pattern)"

text \<open>
  \<open>childFor\<close> hands out a pointer into the node, so what the recursive call does to the child
  is done inside the node: the changed child is put back where it came from.
\<close>

definition put_child :: "'h treeNode \<Rightarrow> segment \<Rightarrow> 'h treeNode \<Rightarrow> 'h treeNode" where
  "put_child node part child =
     (case kind part of
        literalSegment \<Rightarrow>
          treeNode ((literals node)(seg_text part := Some child)) (node_capture node)
            (node_wildcard node) (node_name node) (handlers node) (patterns node)
      | captureSegment \<Rightarrow>
          treeNode (literals node) (Some child)
            (node_wildcard node) (node_name node) (handlers node) (patterns node)
      | wildcardSegment \<Rightarrow>
          treeNode (literals node) (node_capture node)
            (Some child) (node_name node) (handlers node) (patterns node))"

fun tree_insert ::
  "'h treeNode \<Rightarrow> segment list \<Rightarrow> string \<Rightarrow> 'h \<Rightarrow> string \<Rightarrow> (error, 'h treeNode) result" where
  "tree_insert node [] method handler pattern =
     (case map_of (patterns node) method of
        Some prior \<Rightarrow>
          Inl (Reason (method @ '' '' @ prior @ '' and '' @ method @ '' '' @ pattern @
                       '' could match the same request''))
      | None \<Rightarrow>
          Inr (treeNode (literals node) (node_capture node) (node_wildcard node) (node_name node)
                 (AList.update method handler (handlers node))
                 (AList.update method pattern (patterns node))))"
| "tree_insert node (part # segments) method handler pattern =
     (case childFor node part pattern of
        Inl err \<Rightarrow> Inl err
      | Inr child \<Rightarrow>
          bind_result (tree_insert child segments method handler pattern)
            (\<lambda>child'. Inr (put_child node part child')))"

section \<open>Resolving\<close>

definition bind_capture :: "binding list \<Rightarrow> string \<Rightarrow> string \<Rightarrow> binding list" where
  "bind_capture bindings name value = bindings @ [\<lparr>binding_name = name, binding_value = value\<rparr>]"

definition here :: "'h treeNode \<Rightarrow> string \<Rightarrow> binding list \<Rightarrow> 'h resolution" where
  "here node method bindings =
     (case map_of (handlers node) method of
        Some handler \<Rightarrow>
          \<lparr>res_handler = Some handler, found = True, res_captures = bindings, methods = []\<rparr>
      | None \<Rightarrow>
          \<lparr>res_handler = None, found = False, res_captures = [], methods = map fst (handlers node)\<rparr>)"

text \<open>
  One branch of the walk: what it found ends the walk; otherwise the methods it could have
  served are kept and the next branch is tried.
\<close>

definition try_branch ::
  "'h resolution option \<Rightarrow> string list \<Rightarrow> (string list \<Rightarrow> 'h resolution) \<Rightarrow> 'h resolution" where
  "try_branch attempt collected next_branch =
     (case attempt of
        None \<Rightarrow> next_branch collected
      | Some match \<Rightarrow> if found match then match else next_branch (collected @ methods match))"

fun resolve :: "'h treeNode \<Rightarrow> string list \<Rightarrow> string \<Rightarrow> binding list \<Rightarrow> 'h resolution" where
  "resolve node [] method bindings = here node method bindings"
| "resolve node (part # path) method bindings =
     try_branch
       (case literals node part of
          None \<Rightarrow> None | Some child \<Rightarrow> Some (resolve child path method bindings)) []
       (\<lambda>collected. try_branch
          (case node_capture node of
             None \<Rightarrow> None
           | Some child \<Rightarrow>
               Some (resolve child path method (bind_capture bindings (node_name child) part))) collected
          (\<lambda>collected. try_branch
             (case node_wildcard node of
                None \<Rightarrow> None
              | Some child \<Rightarrow>
                  Some (here child method
                    (bind_capture bindings (node_name child) (join ''/'' (part # path))))) collected
             (\<lambda>collected.
                \<lparr>res_handler = None, found = False, res_captures = [], methods = collected\<rparr>)))"

definition captureValues :: "binding list \<Rightarrow> (string \<Rightarrow> string option)" where
  "captureValues bindings =
     foldl (\<lambda>values one. values(binding_name one \<mapsto> binding_value one)) Map.empty bindings"

section \<open>The contract\<close>

text \<open>What one pattern matches, and what it captures then.\<close>

fun match_path :: "segment list \<Rightarrow> string list \<Rightarrow> binding list option" where
  "match_path [] [] = Some []"
| "match_path (s # ss) (p # ps) =
     (case kind s of
        literalSegment \<Rightarrow> if seg_text s = p then match_path ss ps else None
      | captureSegment \<Rightarrow>
          map_option (\<lambda>bs. \<lparr>binding_name = seg_text s, binding_value = p\<rparr> # bs) (match_path ss ps)
      | wildcardSegment \<Rightarrow>
          if ss = []
          then Some [\<lparr>binding_name = seg_text s, binding_value = join ''/'' (p # ps)\<rparr>] else None)"
| "match_path ss ps = None"

text \<open>The child one segment leads to, the node a pattern leads to, and the table of a tree.\<close>

definition child_at :: "'h treeNode \<Rightarrow> segment \<Rightarrow> 'h treeNode option" where
  "child_at node s =
     (case kind s of
        literalSegment \<Rightarrow> literals node (seg_text s)
      | captureSegment \<Rightarrow>
          (case node_capture node of
             Some child \<Rightarrow> if node_name child = seg_text s then Some child else None | None \<Rightarrow> None)
      | wildcardSegment \<Rightarrow>
          (case node_wildcard node of
             Some child \<Rightarrow> if node_name child = seg_text s then Some child else None | None \<Rightarrow> None))"

fun node_at :: "'h treeNode \<Rightarrow> segment list \<Rightarrow> 'h treeNode option" where
  "node_at node [] = Some node"
| "node_at node (s # ss) =
     (case child_at node s of None \<Rightarrow> None | Some child \<Rightarrow> node_at child ss)"

definition entries :: "'h treeNode \<Rightarrow> segment list \<Rightarrow> string \<Rightarrow> 'h option" where
  "entries node segs method =
     (case node_at node segs of None \<Rightarrow> None | Some n \<Rightarrow> map_of (handlers n) method)"

text \<open>The methods some route of the tree serves the path with.\<close>

definition allowed :: "'h treeNode \<Rightarrow> string list \<Rightarrow> string set" where
  "allowed node path = {m. \<exists>segs. entries node segs m \<noteq> None \<and> match_path segs path \<noteq> None}"

text \<open>
  The route that should answer: it serves the method, it matches, and every other route that
  does both is later in the order of specificity, compared segment by segment.
\<close>

definition best_entry ::
  "'h treeNode \<Rightarrow> string \<Rightarrow> string list \<Rightarrow> segment list \<Rightarrow> binding list \<Rightarrow> 'h \<Rightarrow> bool" where
  "best_entry node method path segs caps h \<longleftrightarrow>
     entries node segs method = Some h \<and> match_path segs path = Some caps \<and>
     (\<forall>segs'. entries node segs' method \<noteq> None \<longrightarrow> match_path segs' path \<noteq> None \<longrightarrow>
        map kind segs \<le> map kind segs')"

section \<open>Entries\<close>

lemma entries_Nil [simp]: "entries node [] m = map_of (handlers node) m"
  by (simp add: entries_def)

lemma entries_Cons [simp]:
  "entries node (s # ss) m =
     (case child_at node s of None \<Rightarrow> None | Some child \<Rightarrow> entries child ss m)"
  by (simp add: entries_def split: option.splits)

lemma child_at_data [simp]:
  "child_at (treeNode (literals node) (node_capture node) (node_wildcard node) n hs ps) s = child_at node s"
  by (cases "kind s") (simp_all add: child_at_def)

lemma child_at_new [simp]: "child_at (newTreeNode n) s = None"
  by (simp add: child_at_def newTreeNode_def split: segmentKind.splits)

lemma handlers_new [simp]: "handlers (newTreeNode n) = []" "patterns (newTreeNode n) = []"
  "node_name (newTreeNode n) = n"
  by (simp_all add: newTreeNode_def)

lemma entries_new [simp]: "entries (newTreeNode n) segs m = None"
  by (cases segs) simp_all

lemma put_child_data [simp]:
  "handlers (put_child node s c) = handlers node" "patterns (put_child node s c) = patterns node"
  "node_name (put_child node s c) = node_name node"
  by (simp_all add: put_child_def split: segmentKind.splits)

text \<open>What \<open>childFor\<close> hands out: the child that is there, or a fresh node with the right name.\<close>

lemma childFor_Inr:
  assumes "childFor node s pattern = Inr child"
  shows "child_at node s = Some child \<or>
         (child_at node s = None \<and> child = newTreeNode (if kind s = literalSegment then [] else seg_text s))"
    and "kind s \<noteq> literalSegment \<Longrightarrow> node_name child = seg_text s"
  using assms
  by (auto simp: childFor_def claimSlot_def child_at_def split: segmentKind.splits option.splits if_splits)

text \<open>Putting a child back changes what its own segment leads to and nothing else.\<close>

lemma child_at_put:
  assumes "childFor node s pattern = Inr child" and "node_name child' = node_name child"
  shows "child_at (put_child node s child') s' = (if s' = s then Some child' else child_at node s')"
proof (cases "kind s")
  case literalSegment
  then show ?thesis
    by (cases "kind s'") (auto simp: child_at_def put_child_def intro: segment.equality)
next
  case captureSegment
  with assms childFor_Inr(2) [OF assms(1)] show ?thesis
    by (cases "kind s'")
      (auto simp: child_at_def put_child_def childFor_def claimSlot_def
         intro: segment.equality split: option.splits if_splits)
next
  case wildcardSegment
  with assms childFor_Inr(2) [OF assms(1)] show ?thesis
    by (cases "kind s'")
      (auto simp: child_at_def put_child_def childFor_def claimSlot_def
         intro: segment.equality split: option.splits if_splits)
qed

lemma tree_insert_name: "tree_insert node segs m h p = Inr node' \<Longrightarrow> node_name node' = node_name node"
  by (cases segs) (auto simp: go_results split: option.splits sum.splits)

section \<open>Inserting adds one entry\<close>

text \<open>
  The handlers and the patterns of a node have the same keys, and every node below the root
  is there for the sake of some entry. Both hold of a new tree and are kept by inserting;
  they are what makes a refusal exact.
\<close>

definition tree_inv :: "'h treeNode \<Rightarrow> bool" where
  "tree_inv node \<longleftrightarrow>
     (\<forall>segs n. node_at node segs = Some n \<longrightarrow>
        dom (map_of (handlers n)) = dom (map_of (patterns n)) \<and> distinct (map fst (handlers n)) \<and>
        (segs \<noteq> [] \<longrightarrow> (\<exists>ss m. entries n ss m \<noteq> None)))"

lemma tree_inv_new [simp]: "tree_inv (newTreeNode n)"
proof -
  have "node_at (newTreeNode n) segs = Some k \<Longrightarrow> segs = [] \<and> k = newTreeNode n" for segs and k :: "'a treeNode"
    by (cases segs) auto
  then show ?thesis by (fastforce simp: tree_inv_def)
qed

lemma tree_inv_dom: "tree_inv node \<Longrightarrow> dom (map_of (handlers node)) = dom (map_of (patterns node))"
  unfolding tree_inv_def by (erule allE [of _ "[]"]) simp

lemma tree_inv_distinct: "tree_inv node \<Longrightarrow> distinct (map fst (handlers node))"
  unfolding tree_inv_def by (erule allE [of _ "[]"]) simp

lemma tree_inv_child:
  assumes "tree_inv node" and "child_at node s = Some child"
  shows "tree_inv child" and "\<exists>ss m. entries child ss m \<noteq> None"
proof -
  have "node_at node (s # segs) = node_at child segs" for segs
    using assms(2) by simp
  with assms(1) show "tree_inv child"
    by (metis (no_types, lifting) tree_inv_def list.distinct(1))
  have "node_at node [s] = Some child" using assms(2) by simp
  with assms(1) show "\<exists>ss m. entries child ss m \<noteq> None"
    by (metis (no_types, lifting) tree_inv_def list.distinct(1))
qed

text \<open>The invariant of a node from that of its children.\<close>

lemma tree_invI:
  assumes "dom (map_of (handlers node)) = dom (map_of (patterns node))"
    and "distinct (map fst (handlers node))"
    and "\<And>s child. child_at node s = Some child \<Longrightarrow>
           tree_inv child \<and> (\<exists>ss m. entries child ss m \<noteq> None)"
  shows "tree_inv node"
  unfolding tree_inv_def
proof (intro allI impI)
  fix segs n
  assume at: "node_at node segs = Some n"
  show "dom (map_of (handlers n)) = dom (map_of (patterns n)) \<and> distinct (map fst (handlers n)) \<and>
        (segs \<noteq> [] \<longrightarrow> (\<exists>ss m. entries n ss m \<noteq> None))"
  proof (cases segs)
    case Nil
    with at assms(1,2) show ?thesis by simp
  next
    case (Cons s ss)
    with at obtain child where c: "child_at node s = Some child" "node_at child ss = Some n"
      by (auto split: option.splits)
    from assms(3) [OF c(1)] c(2) show ?thesis
      using tree_inv_dom [of child] tree_inv_distinct [of child]
      by (cases "ss = []") (simp_all add: tree_inv_def)
  qed
qed

lemma tree_insert_entries:
  assumes "tree_insert node segs m h p = Inr node'"
  shows "entries node' segs' m' =
           (if segs' = segs \<and> m' = m then Some h else entries node segs' m')"
  using assms
proof (induction segs arbitrary: node node' segs')
  case Nil
  then have node': "node' = treeNode (literals node) (node_capture node) (node_wildcard node)
      (node_name node) (AList.update m h (handlers node)) (AList.update m p (patterns node))"
    by (auto split: option.splits)
  then have "child_at node' s = child_at node s" for s
    by simp
  with node' show ?case by (cases segs') (simp_all add: update_conv')
next
  case (Cons s segs)
  from Cons.prems obtain child child' where
    c: "childFor node s p = Inr child" "tree_insert child segs m h p = Inr child'"
       "node' = put_child node s child'"
    by (auto simp: go_results split: sum.splits)
  have at: "child_at node' s' = (if s' = s then Some child' else child_at node s')" for s'
    using child_at_put [OF c(1) tree_insert_name [OF c(2)]] c(3) by simp
  have old: "entries child ss m' = (case child_at node s of None \<Rightarrow> None | Some n \<Rightarrow> entries n ss m')" for ss
    using childFor_Inr(1) [OF c(1)] by auto
  show ?case
  proof (cases segs')
    case Nil
    with c(3) show ?thesis by simp
  next
    case (Cons s' ss)
    with at old Cons.IH [OF c(2), of ss] show ?thesis by auto
  qed
qed

lemma tree_insert_inv:
  assumes "tree_insert node segs m h p = Inr node'" and "tree_inv node"
  shows "tree_inv node'"
  using assms
proof (induction segs arbitrary: node node')
  case Nil
  then have node': "node' = treeNode (literals node) (node_capture node) (node_wildcard node)
      (node_name node) (AList.update m h (handlers node)) (AList.update m p (patterns node))"
    by (auto split: option.splits)
  have dom: "dom (map_of (handlers node)) = dom (map_of (patterns node))"
    using Nil.prems(2) by (rule tree_inv_dom)
  show ?case
  proof (rule tree_invI)
    show "dom (map_of (handlers node')) = dom (map_of (patterns node'))"
      using node' dom by (simp add: update_conv')
    show "distinct (map fst (handlers node'))"
      using node' tree_inv_distinct [OF Nil.prems(2)] by (simp add: distinct_update)
    fix s child
    assume "child_at node' s = Some child"
    with node' have "child_at node s = Some child" by simp
    then show "tree_inv child \<and> (\<exists>ss m. entries child ss m \<noteq> None)"
      using tree_inv_child [OF Nil.prems(2)] by blast
  qed
next
  case (Cons s segs)
  from Cons.prems(1) obtain child child' where
    c: "childFor node s p = Inr child" "tree_insert child segs m h p = Inr child'"
       "node' = put_child node s child'"
    by (auto simp: go_results split: sum.splits)
  have "tree_inv child"
    using childFor_Inr(1) [OF c(1)] tree_inv_child(1) [OF Cons.prems(2)] by auto
  then have child': "tree_inv child'" by (rule Cons.IH [OF c(2)])
  have at: "child_at node' s' = (if s' = s then Some child' else child_at node s')" for s'
    using child_at_put [OF c(1) tree_insert_name [OF c(2)]] c(3) by simp
  have entry: "entries child' segs m \<noteq> None"
    using tree_insert_entries [OF c(2), of segs m] by simp
  show ?case
  proof (rule tree_invI)
    show "dom (map_of (handlers node')) = dom (map_of (patterns node'))"
      using c(3) tree_inv_dom [OF Cons.prems(2)] by simp
    show "distinct (map fst (handlers node'))"
      using c(3) tree_inv_distinct [OF Cons.prems(2)] by simp
    fix s' child''
    assume c'': "child_at node' s' = Some child''"
    show "tree_inv child'' \<and> (\<exists>ss m. entries child'' ss m \<noteq> None)"
    proof (cases "s' = s")
      case True
      with c'' at child' entry show ?thesis by auto
    next
      case False
      with c'' at have "child_at node s' = Some child''" by simp
      then show ?thesis using tree_inv_child [OF Cons.prems(2)] by blast
    qed
  qed
qed

section \<open>When inserting is refused\<close>

text \<open>
  Two routes clash when they are the same pattern for the same method, or when they capture
  the same position, after the same beginning, under different names.
\<close>

fun clash :: "bool \<Rightarrow> segment list \<Rightarrow> segment list \<Rightarrow> bool" where
  "clash same_method [] [] = same_method"
| "clash same_method (s # ss) (t # ts) =
     (kind s = kind t \<and>
      (if seg_text s = seg_text t then clash same_method ss ts else kind s \<noteq> literalSegment))"
| "clash same_method ss ts = False"

lemma segment_eqI: "kind s = kind t \<Longrightarrow> seg_text s = seg_text t \<Longrightarrow> s = (t :: segment)"
  by (auto intro: segment.equality)

lemma clash_sym: "clash b ss ts = clash b ts ss"
  by (induction b ss ts rule: clash.induct) auto

lemma tree_insert_refused:
  assumes "tree_inv node"
  shows "(\<exists>err. tree_insert node segs m h p = Inl err) \<longleftrightarrow>
           (\<exists>segs' m'. entries node segs' m' \<noteq> None \<and> clash (m' = m) segs segs')"
  using assms
proof (induction segs arbitrary: node)
  case Nil
  then have dom: "dom (map_of (handlers node)) = dom (map_of (patterns node))"
    by (rule tree_inv_dom)
  have "(\<exists>err. tree_insert node [] m h p = Inl err) \<longleftrightarrow> map_of (patterns node) m \<noteq> None"
    by (auto split: option.splits)
  also have "\<dots> \<longleftrightarrow> entries node [] m \<noteq> None"
    using dom by (auto simp: dom_def set_eq_iff)
  also have "\<dots> \<longleftrightarrow> (\<exists>segs' m'. entries node segs' m' \<noteq> None \<and> clash (m' = m) [] segs')"
  proof
    assume "entries node [] m \<noteq> None"
    then show "\<exists>segs' m'. entries node segs' m' \<noteq> None \<and> clash (m' = m) [] segs'"
      by (intro exI [of _ "[]"] exI [of _ m]) simp
  next
    assume "\<exists>segs' m'. entries node segs' m' \<noteq> None \<and> clash (m' = m) [] segs'"
    then obtain segs' m' where "entries node segs' m' \<noteq> None" "clash (m' = m) [] segs'" by blast
    then show "entries node [] m \<noteq> None" by (cases segs') auto
  qed
  finally show ?case .
next
  case (Cons s segs)
  let ?Q = "\<lambda>s'. \<exists>segs' m'. entries node (s' # segs') m' \<noteq> None \<and> clash (m' = m) (s # segs) (s' # segs')"
  have split: "(\<exists>segs' m'. entries node segs' m' \<noteq> None \<and> clash (m' = m) (s # segs) segs') \<longleftrightarrow> (\<exists>s'. ?Q s')"
  proof
    assume "\<exists>segs' m'. entries node segs' m' \<noteq> None \<and> clash (m' = m) (s # segs) segs'"
    then obtain segs' m' where some: "entries node segs' m' \<noteq> None" "clash (m' = m) (s # segs) segs'"
      by blast
    then obtain s' ss where "segs' = s' # ss" by (cases segs') auto
    with some show "\<exists>s'. ?Q s'" by blast
  qed blast
  show ?case
  proof (cases "childFor node s p")
    case (Inl err)
    then obtain other where other: "kind s \<noteq> literalSegment" "node_name other \<noteq> seg_text s"
      "child_at node \<lparr>kind = kind s, seg_text = node_name other\<rparr> = Some other"
      by (auto simp: childFor_def claimSlot_def child_at_def split: segmentKind.splits option.splits if_splits)
    then obtain ss m' where "entries other ss m' \<noteq> None"
      using tree_inv_child(2) [OF Cons.prems] by blast
    with other have "?Q \<lparr>kind = kind s, seg_text = node_name other\<rparr>" by auto
    then have "\<exists>segs' m'. entries node segs' m' \<noteq> None \<and> clash (m' = m) (s # segs) segs'"
      unfolding split by (rule exI)
    moreover have "\<exists>err. tree_insert node (s # segs) m h p = Inl err" using Inl by simp
    ultimately show ?thesis by blast
  next
    case (Inr child)
    have "?Q s' \<longleftrightarrow> s' = s \<and> (\<exists>segs' m'. entries child segs' m' \<noteq> None \<and> clash (m' = m) segs segs')" for s'
    proof (cases "s' = s")
      case True
      from childFor_Inr(1) [OF Inr] True show ?thesis
        by (elim disjE conjE) simp_all
    next
      case False
      have "child_at node s' = None" if "kind s' = kind s" "kind s \<noteq> literalSegment"
      proof -
        from that False have "seg_text s' \<noteq> seg_text s" by (auto intro: segment_eqI)
        with that Inr show ?thesis
          by (auto simp: childFor_def claimSlot_def child_at_def split: segmentKind.splits option.splits if_splits)
      qed
      with False show ?thesis by (auto dest: segment_eqI split: if_splits)
    qed
    moreover have "tree_inv child"
      using childFor_Inr(1) [OF Inr] tree_inv_child(1) [OF Cons.prems] by auto
    moreover have "(\<exists>err. tree_insert node (s # segs) m h p = Inl err) \<longleftrightarrow>
        (\<exists>err. tree_insert child segs m h p = Inl err)"
      using Inr by (simp add: go_results)
    moreover note Cons.IH [of child]
    ultimately show ?thesis unfolding split by simp
  qed
qed

section \<open>Resolving finds the most specific route\<close>

text \<open>What a walk may answer for a path, whatever the bindings it started with.\<close>

definition resolves ::
  "'h treeNode \<Rightarrow> string list \<Rightarrow> string \<Rightarrow> binding list \<Rightarrow> 'h resolution \<Rightarrow> bool" where
  "resolves node path method bindings r \<longleftrightarrow>
     (if found r
      then \<exists>segs caps h. best_entry node method path segs caps h \<and>
             res_handler r = Some h \<and> res_captures r = bindings @ caps
      else method \<notin> allowed node path \<and> set (methods r) = allowed node path)"

text \<open>A matching entry begins with one of the three kinds of segment.\<close>

lemma match_path_Nil [simp]: "match_path segs [] = Some caps \<longleftrightarrow> segs = [] \<and> caps = []"
  by (cases segs) auto

lemma entry_literal:
  "entries node (literal p # ss) m = Some h \<longleftrightarrow>
     (\<exists>child. literals node p = Some child \<and> entries child ss m = Some h)"
  by (auto simp: child_at_def split: option.splits)

lemma entry_capture:
  "entries node (capturing n # ss) m = Some h \<longleftrightarrow>
     (\<exists>child. node_capture node = Some child \<and> node_name child = n \<and> entries child ss m = Some h)"
  by (auto simp: child_at_def split: option.splits)

lemma entry_wild:
  "entries node [wild n] m = Some h \<longleftrightarrow>
     (\<exists>child. node_wildcard node = Some child \<and> node_name child = n \<and> map_of (handlers child) m = Some h)"
  by (auto simp: child_at_def split: option.splits)

lemma match_first:
  assumes "match_path segs (p # ps) = Some caps"
  obtains ss where "segs = literal p # ss" and "match_path ss ps = Some caps"
  | n ss bs where "segs = capturing n # ss" and "match_path ss ps = Some bs"
      and "caps = \<lparr>binding_name = n, binding_value = p\<rparr> # bs"
  | n where "segs = [wild n]" and "caps = [\<lparr>binding_name = n, binding_value = join ''/'' (p # ps)\<rparr>]"
proof -
  from assms obtain s ss where s: "segs = s # ss" by (cases segs) auto
  show thesis
  proof (cases "kind s")
    case literalSegment
    with assms s have "s = literal p" "match_path ss ps = Some caps"
      by (auto split: if_splits intro: segment_eqI)
    with s that(1) show thesis by blast
  next
    case captureSegment
    then have "s = capturing (seg_text s)" by (auto intro: segment_eqI)
    with assms s captureSegment that(2) [of "seg_text s" ss] show thesis by auto
  next
    case wildcardSegment
    then have "s = wild (seg_text s)" by (auto intro: segment_eqI)
    with assms s wildcardSegment that(3) [of "seg_text s"] show thesis by (auto split: if_splits)
  qed
qed

definition allowed_option :: "'h treeNode option \<Rightarrow> string list \<Rightarrow> string set" where
  "allowed_option child path = (case child of None \<Rightarrow> {} | Some c \<Rightarrow> allowed c path)"

lemma allowed_iff:
  "m \<in> allowed node path \<longleftrightarrow>
     (\<exists>segs h caps. entries node segs m = Some h \<and> match_path segs path = Some caps)"
  by (simp add: allowed_def)

lemma allowed_Nil: "allowed node [] = dom (map_of (handlers node))"
  by (auto simp: allowed_iff)

lemma allowed_option_iff:
  "m \<in> allowed_option child path \<longleftrightarrow>
     (\<exists>c segs h caps. child = Some c \<and> entries c segs m = Some h \<and> match_path segs path = Some caps)"
  by (cases child) (simp_all add: allowed_option_def allowed_iff)

lemma allowed_optionI:
  "child = Some c \<Longrightarrow> entries c segs m = Some h \<Longrightarrow> match_path segs path = Some caps \<Longrightarrow>
   m \<in> allowed_option child path"
  unfolding allowed_option_iff by blast

lemma allowed_option_here:
  "m \<in> allowed_option child [] \<longleftrightarrow> (\<exists>c h. child = Some c \<and> map_of (handlers c) m = Some h)"
  by (cases child) (auto simp: allowed_option_def allowed_Nil)

lemma allowed_Cons:
  "allowed node (p # ps) =
     allowed_option (literals node p) ps \<union> allowed_option (node_capture node) ps \<union>
     allowed_option (node_wildcard node) []"
proof (intro set_eqI iffI)
  fix m
  assume "m \<in> allowed node (p # ps)"
  then obtain segs h caps where
    e: "entries node segs m = Some h" and c: "match_path segs (p # ps) = Some caps"
    by (auto simp: allowed_iff)
  from c show "m \<in> allowed_option (literals node p) ps \<union> allowed_option (node_capture node) ps \<union>
    allowed_option (node_wildcard node) []"
  proof (cases rule: match_first)
    case (1 ss)
    from e [unfolded 1(1) entry_literal] obtain child where slot: "literals node p = Some child" "entries child ss m = Some h"
      by blast
    have "m \<in> allowed_option (literals node p) ps" by (rule allowed_optionI [OF slot 1(2)])
    then show ?thesis by blast
  next
    case (2 n ss bs)
    from e [unfolded 2(1) entry_capture] obtain child where slot: "node_capture node = Some child" "entries child ss m = Some h"
      by blast
    have "m \<in> allowed_option (node_capture node) ps" by (rule allowed_optionI [OF slot 2(2)])
    then show ?thesis by blast
  next
    case (3 n)
    from e [unfolded 3(1) entry_wild] obtain child where "node_wildcard node = Some child" "map_of (handlers child) m = Some h"
      by blast
    then have "m \<in> allowed_option (node_wildcard node) []" unfolding allowed_option_here by blast
    then show ?thesis by blast
  qed
next
  fix m
  assume "m \<in> allowed_option (literals node p) ps \<union> allowed_option (node_capture node) ps \<union>
    allowed_option (node_wildcard node) []"
  then consider
      child ss h caps where "literals node p = Some child" "entries child ss m = Some h" "match_path ss ps = Some caps"
    | child ss h caps where "node_capture node = Some child" "entries child ss m = Some h" "match_path ss ps = Some caps"
    | child h where "node_wildcard node = Some child" "map_of (handlers child) m = Some h"
    unfolding Un_iff allowed_option_here unfolding allowed_option_iff by blast
  then show "m \<in> allowed node (p # ps)"
  proof cases
    case (1 child ss h caps)
    then have "entries node (literal p # ss) m = Some h" unfolding entry_literal by blast
    moreover have "match_path (literal p # ss) (p # ps) = Some caps" using 1 by simp
    ultimately show ?thesis unfolding allowed_iff by blast
  next
    case (2 child ss h caps)
    then have "entries node (capturing (node_name child) # ss) m = Some h" unfolding entry_capture by blast
    moreover have "\<exists>bs. match_path (capturing (node_name child) # ss) (p # ps) = Some bs" using 2 by simp
    ultimately show ?thesis unfolding allowed_iff by blast
  next
    case (3 child h)
    then have "entries node [wild (node_name child)] m = Some h" unfolding entry_wild by blast
    moreover have "\<exists>bs. match_path [wild (node_name child)] (p # ps) = Some bs" by simp
    ultimately show ?thesis unfolding allowed_iff by blast
  qed
qed

text \<open>Extending the best entry of a child, when no more specific branch serves the method.\<close>

lemma best_literal:
  assumes "literals node p = Some child" and "best_entry child method ps segs caps h"
  shows "best_entry node method (p # ps) (literal p # segs) caps h"
  unfolding best_entry_def
proof (intro conjI allI impI)
  show "entries node (literal p # segs) method = Some h" "match_path (literal p # segs) (p # ps) = Some caps"
    using assms by (simp_all add: best_entry_def child_at_def)
  fix segs'
  assume "entries node segs' method \<noteq> None" and "match_path segs' (p # ps) \<noteq> None"
  then obtain h' caps' where e: "entries node segs' method = Some h'"
    and "match_path segs' (p # ps) = Some caps'" by blast
  from this(2) show "map kind (literal p # segs) \<le> map kind segs'"
  proof (cases rule: match_first)
    case (1 ss)
    with e assms have "map kind segs \<le> map kind ss"
      by (auto simp: best_entry_def child_at_def)
    with 1 show ?thesis by simp
  qed simp_all
qed

lemma best_capture:
  assumes "node_capture node = Some child" and "best_entry child method ps segs caps h"
    and "method \<notin> allowed_option (literals node p) ps"
  shows "best_entry node method (p # ps) (capturing (node_name child) # segs)
           (\<lparr>binding_name = node_name child, binding_value = p\<rparr> # caps) h"
  unfolding best_entry_def
proof (intro conjI allI impI)
  show "entries node (capturing (node_name child) # segs) method = Some h"
    "match_path (capturing (node_name child) # segs) (p # ps) =
       Some (\<lparr>binding_name = node_name child, binding_value = p\<rparr> # caps)"
    using assms by (simp_all add: best_entry_def child_at_def)
  fix segs'
  assume "entries node segs' method \<noteq> None" and "match_path segs' (p # ps) \<noteq> None"
  then obtain h' caps' where e: "entries node segs' method = Some h'"
    and "match_path segs' (p # ps) = Some caps'" by blast
  from this(2) show "map kind (capturing (node_name child) # segs) \<le> map kind segs'"
  proof (cases rule: match_first)
    case (1 ss)
    from e [unfolded 1(1) entry_literal] obtain l where slot: "literals node p = Some l" "entries l ss method = Some h'"
      by blast
    have "method \<in> allowed_option (literals node p) ps" by (rule allowed_optionI [OF slot 1(2)])
    with assms(3) show ?thesis by contradiction
  next
    case (2 n ss bs)
    with e assms have "map kind segs \<le> map kind ss"
      by (auto simp: best_entry_def child_at_def split: if_splits)
    with 2 show ?thesis by simp
  qed simp_all
qed

lemma best_wild:
  assumes "node_wildcard node = Some child" and "map_of (handlers child) method = Some h"
    and "method \<notin> allowed_option (literals node p) ps"
    and "method \<notin> allowed_option (node_capture node) ps"
  shows "best_entry node method (p # ps) [wild (node_name child)]
           [\<lparr>binding_name = node_name child, binding_value = join ''/'' (p # ps)\<rparr>] h"
  unfolding best_entry_def
proof (intro conjI allI impI)
  show "entries node [wild (node_name child)] method = Some h"
    "match_path [wild (node_name child)] (p # ps) =
       Some [\<lparr>binding_name = node_name child, binding_value = join ''/'' (p # ps)\<rparr>]"
    using assms by (simp_all add: child_at_def)
  fix segs'
  assume "entries node segs' method \<noteq> None" and "match_path segs' (p # ps) \<noteq> None"
  then obtain h' caps' where e: "entries node segs' method = Some h'"
    and "match_path segs' (p # ps) = Some caps'" by blast
  from this(2) show "map kind [wild (node_name child)] \<le> map kind segs'"
  proof (cases rule: match_first)
    case (1 ss)
    from e [unfolded 1(1) entry_literal] obtain l where slot: "literals node p = Some l" "entries l ss method = Some h'"
      by blast
    have "method \<in> allowed_option (literals node p) ps" by (rule allowed_optionI [OF slot 1(2)])
    with assms(3) show ?thesis by contradiction
  next
    case (2 n ss bs)
    from e [unfolded 2(1) entry_capture] obtain l where slot: "node_capture node = Some l" "entries l ss method = Some h'"
      by blast
    have "method \<in> allowed_option (node_capture node) ps" by (rule allowed_optionI [OF slot 2(2)])
    with assms(4) show ?thesis by contradiction
  qed simp
qed

lemma here_resolves:
  "found (here node method bindings) \<Longrightarrow>
     \<exists>h. map_of (handlers node) method = Some h \<and>
         here node method bindings = \<lparr>res_handler = Some h, found = True, res_captures = bindings, methods = []\<rparr>"
  "\<not> found (here node method bindings) \<Longrightarrow>
     method \<notin> allowed node [] \<and> set (methods (here node method bindings)) = allowed node []"
  by (auto simp: here_def allowed_Nil domIff dom_map_of_conv_image_fst [symmetric] split: option.splits)

lemma try_branch_found: "attempt = Some r \<Longrightarrow> found r \<Longrightarrow> try_branch attempt collected next_branch = r"
  by (simp add: try_branch_def)

lemma try_branch_next:
  "\<forall>r. attempt = Some r \<longrightarrow> \<not> found r \<Longrightarrow>
   try_branch attempt collected next_branch =
     next_branch (collected @ (case attempt of None \<Rightarrow> [] | Some match \<Rightarrow> methods match))"
  by (auto simp: try_branch_def split: option.splits)

lemmas try_branch_steps = try_branch_found try_branch_next

lemma resolve_resolves: "resolves node path method bindings (resolve node path method bindings)"
proof (induction path arbitrary: node bindings)
  case Nil
  show ?case
  proof (cases "found (here node method bindings)")
    case True
    from here_resolves(1) [OF True] obtain h where
      h: "map_of (handlers node) method = Some h"
        "here node method bindings =
           \<lparr>res_handler = Some h, found = True, res_captures = bindings, methods = []\<rparr>"
      by blast
    then have "best_entry node method [] [] [] h" by (simp add: best_entry_def)
    with h(2) show ?thesis by (simp add: resolves_def) blast
  next
    case False
    with here_resolves(2) [OF False] show ?thesis by (simp add: resolves_def)
  qed
next
  case (Cons p ps)
  let ?lit = "case literals node p of None \<Rightarrow> None | Some child \<Rightarrow> Some (resolve child ps method bindings)"
  let ?cap = "case node_capture node of None \<Rightarrow> None
      | Some child \<Rightarrow> Some (resolve child ps method (bind_capture bindings (node_name child) p))"
  let ?wild = "case node_wildcard node of None \<Rightarrow> None
      | Some child \<Rightarrow> Some (here child method (bind_capture bindings (node_name child) (join ''/'' (p # ps))))"
  let ?names = "\<lambda>a. case a of None \<Rightarrow> [] | Some match \<Rightarrow> methods match"
  have lit: "(\<forall>r. ?lit = Some r \<longrightarrow> \<not> found r) \<Longrightarrow>
      method \<notin> allowed_option (literals node p) ps \<and> set (?names ?lit) = allowed_option (literals node p) ps"
    using Cons.IH by (auto simp: resolves_def allowed_option_def split: option.splits)
  have cap: "(\<forall>r. ?cap = Some r \<longrightarrow> \<not> found r) \<Longrightarrow>
      method \<notin> allowed_option (node_capture node) ps \<and> set (?names ?cap) = allowed_option (node_capture node) ps"
    using Cons.IH by (auto simp: resolves_def allowed_option_def split: option.splits)
  have wild: "(\<forall>r. ?wild = Some r \<longrightarrow> \<not> found r) \<Longrightarrow>
      method \<notin> allowed_option (node_wildcard node) [] \<and> set (?names ?wild) = allowed_option (node_wildcard node) []"
    using here_resolves(2) by (auto simp: allowed_option_def split: option.splits)
  consider
      (literal) r where "?lit = Some r" "found r"
    | (capture) r where "\<forall>r. ?lit = Some r \<longrightarrow> \<not> found r" "?cap = Some r" "found r"
    | (wildcard) r where "\<forall>r. ?lit = Some r \<longrightarrow> \<not> found r" "\<forall>r. ?cap = Some r \<longrightarrow> \<not> found r"
        "?wild = Some r" "found r"
    | (none) "\<forall>r. ?lit = Some r \<longrightarrow> \<not> found r" "\<forall>r. ?cap = Some r \<longrightarrow> \<not> found r"
        "\<forall>r. ?wild = Some r \<longrightarrow> \<not> found r"
    by blast
  then show ?case
  proof cases
    case (literal r)
    then obtain child where child: "literals node p = Some child" "r = resolve child ps method bindings"
      by (auto split: option.splits)
    with Cons.IH [of child bindings] literal(2) obtain segs caps h where
      "best_entry child method ps segs caps h" "res_handler r = Some h" "res_captures r = bindings @ caps"
      by (auto simp: resolves_def)
    note best = this
    have "resolve node (p # ps) method bindings = r"
      unfolding resolve.simps by (rule try_branch_found [OF literal])
    with best_literal [OF child(1) best(1)] best literal(2) show ?thesis
      unfolding resolves_def by auto
  next
    case (capture r)
    then obtain child where child: "node_capture node = Some child"
      "r = resolve child ps method (bind_capture bindings (node_name child) p)"
      by (auto split: option.splits)
    with Cons.IH [of child "bind_capture bindings (node_name child) p"] capture(3) obtain segs caps h where
      best: "best_entry child method ps segs caps h" "res_handler r = Some h"
        "res_captures r = bindings @ \<lparr>binding_name = node_name child, binding_value = p\<rparr> # caps"
      by (auto simp: resolves_def bind_capture_def)
    have "resolve node (p # ps) method bindings = r"
      unfolding resolve.simps try_branch_next [OF capture(1)] by (rule try_branch_found [OF capture(2,3)])
    with best_capture [OF child(1) best(1)] best lit [OF capture(1)] capture(3) show ?thesis
      unfolding resolves_def by auto
  next
    case (wildcard r)
    then obtain child where child: "node_wildcard node = Some child"
      "r = here child method (bind_capture bindings (node_name child) (join ''/'' (p # ps)))"
      by (auto split: option.splits)
    with here_resolves(1) wildcard(4) obtain h where
      h: "map_of (handlers child) method = Some h" "res_handler r = Some h"
        "res_captures r = bindings @ [\<lparr>binding_name = node_name child, binding_value = join ''/'' (p # ps)\<rparr>]"
      by (fastforce simp: bind_capture_def)
    have "resolve node (p # ps) method bindings = r"
      unfolding resolve.simps try_branch_next [OF wildcard(1)] try_branch_next [OF wildcard(2)]
      by (rule try_branch_found [OF wildcard(3,4)])
    with best_wild [OF child(1) h(1)] h lit [OF wildcard(1)] cap [OF wildcard(2)] wildcard(4) show ?thesis
      unfolding resolves_def by auto
  next
    case none
    have "resolve node (p # ps) method bindings =
        \<lparr>res_handler = None, found = False, res_captures = [],
         methods = ?names ?lit @ ?names ?cap @ ?names ?wild\<rparr>"
      unfolding resolve.simps try_branch_next [OF none(1)] try_branch_next [OF none(2)]
        try_branch_next [OF none(3)] by simp
    with lit [OF none(1)] cap [OF none(2)] wild [OF none(3)] show ?thesis
      by (simp add: resolves_def allowed_Cons Un_assoc)
  qed
qed

section \<open>What the tree promises\<close>

text \<open>C21: Resolving a path finds, of all the patterns in the tree that match it and serve the method, one
that prefers literals to captures to wildcards from the left; it fails only when none serves the
method, and then names the methods the path is served with.\<close>

theorem resolution_is_best:
  "resolves node path method bindings (resolve node path method bindings)"
  by (rule resolve_resolves)

text \<open>A pattern is refused by the tree exactly when it clashes with one already in it.\<close>

theorem insertion_refused_iff_clash:
  assumes "tree_inv node"
  shows "(\<exists>err. tree_insert node segs m h p = Inl err) \<longleftrightarrow>
           (\<exists>segs' m'. entries node segs' m' \<noteq> None \<and> clash (m' = m) segs segs')"
  by (rule tree_insert_refused [OF assms])

theorem insertion_refused_iff_clash_witness:
  "\<exists>err. tree_insert (case tree_insert (newTreeNode []) [capturing ''a''] ''GET'' (0 :: nat) ''/{a}'' of Inr t \<Rightarrow> t)
     [capturing ''b''] ''PUT'' 1 ''/{b}'' = Inl err"
proof -
  obtain t where t: "tree_insert (newTreeNode []) [capturing ''a''] ''GET'' (0 :: nat) ''/{a}'' = Inr t"
    using tree_insert_refused [OF tree_inv_new, of "[]" "[capturing ''a'']" "''GET''" "0::nat" "''/{a}''"]
    by (cases "tree_insert (newTreeNode []) [capturing ''a''] ''GET'' (0 :: nat) ''/{a}''") auto
  have "entries t [capturing ''a''] ''GET'' = Some 0" unfolding tree_insert_entries [OF t] by simp
  moreover have "clash (''GET'' = ''PUT'') [capturing ''b''] [capturing ''a'']" by simp
  ultimately have "\<exists>segs' m'. entries t segs' m' \<noteq> None \<and> clash (m' = ''PUT'') [capturing ''b''] segs'"
    by fastforce
  then show ?thesis
    unfolding t sum.case
    using insertion_refused_iff_clash [OF tree_insert_inv [OF t tree_inv_new], of "[capturing ''b'']" "''PUT''"]
    by blast
qed

text \<open>Adding a route changes what the tree answers for that route alone.\<close>

theorem insertion_adds_one:
  assumes "tree_insert node segs m h p = Inr node'"
  shows "entries node' segs' m' = (if segs' = segs \<and> m' = m then Some h else entries node segs' m')"
  by (rule tree_insert_entries [OF assms])

theorem insertion_adds_one_witness:
  "entries (case tree_insert (newTreeNode []) [literal ''b''] ''GET'' (7 :: nat) ''/b'' of Inr t \<Rightarrow> t)
     [literal ''b''] ''GET'' = Some 7"
  by (subst insertion_adds_one [of "newTreeNode []" "[literal ''b'']" "''GET''" 7 "''/b''"])
    (simp_all add: newTreeNode_def childFor_def put_child_def go_results)

end
