(* ===== verification/Web_Routes.thy ===== *)
theory Web_Routes
  imports Web_Route Web_Tree
begin

text \<open>
  An assembled surface (\<open>web/routes.go\<close>): assembling, the settings that rebuild it, dispatching.

  The contract is stated on the list of routes, without the tree: assembling succeeds exactly
  when every route is usable and no two clash, and dispatching answers with the most
  specific route that serves the path and the method, with 405 and the methods that some
  route serves the path with, or with 404. The settings share one interface, the locale
  \<open>surface_setting\<close>: what changes neither a route's pattern, nor its method, nor whether it
  is usable, cannot make reassembling fail.
\<close>

section \<open>Assembling\<close>

record ('h, 'fin) Routes =
  declarations :: "Declaration list"
  tree :: "'h treeNode"
  routes :: "('h, 'fin) Route list"
  reject :: "(error \<Rightarrow> Response) option"

definition errNoRoutes :: error where
  "errNoRoutes = declarationMistake ''a surface serves at least one route''"

definition errNoRejection :: error where
  "errNoRejection =
     declarationMistake ''a rejection format is required; use NewRoutes for the default''"

text \<open>One round of the loop. A route that has neither a fault nor a build is the zero route.\<close>

definition add_route ::
  "(error \<Rightarrow> Response) \<Rightarrow> ('h, 'fin) Routes \<Rightarrow> ('h, 'fin) Route \<Rightarrow> (error, ('h, 'fin) Routes) result" where
  "add_route rejection surface route =
     (case route_fault route of
        Some fault \<Rightarrow> Inl fault
      | None \<Rightarrow>
          (case build route of
             None \<Rightarrow> Inl nil_call
           | Some built \<Rightarrow>
               (case tree_insert (tree surface) (route_segments route)
                       (decl_Method (route_declaration route))
                       (built rejection (phases route) (route_strategy route))
                       (renderPattern (route_segments route)) of
                  Inl err \<Rightarrow> Inl (fault_at ''assemble routes'' err)
                | Inr tree' \<Rightarrow>
                    Inr (surface\<lparr>tree := tree',
                                declarations := declarations surface @ [route_declaration route]\<rparr>))))"

fun add_routes ::
  "(error \<Rightarrow> Response) \<Rightarrow> ('h, 'fin) Routes \<Rightarrow> ('h, 'fin) Route list \<Rightarrow> (error, ('h, 'fin) Routes) result" where
  "add_routes rejection surface [] = Inr surface"
| "add_routes rejection surface (r # rs) =
     bind_result (add_route rejection surface r) (\<lambda>surface'. add_routes rejection surface' rs)"

definition NewRoutesWithRejection ::
  "(error \<Rightarrow> Response) option \<Rightarrow> ('h, 'fin) Route list \<Rightarrow> (error, ('h, 'fin) Routes) result" where
  "NewRoutesWithRejection rejection rs =
     (case rejection of
        None \<Rightarrow> Inl (fault_at ''assemble routes'' errNoRejection)
      | Some rejects \<Rightarrow>
          if rs = [] then Inl (fault_at ''assemble routes'' errNoRoutes)
          else add_routes rejects
                 \<lparr>declarations = [], tree = newTreeNode [], routes = rs, reject = rejection\<rparr> rs)"

definition NewRoutes :: "('h, 'fin) Route list \<Rightarrow> (error, ('h, 'fin) Routes) result" where
  "NewRoutes rs = NewRoutesWithRejection (Some rejectRequest) rs"

definition DeclarationsOf :: "('h, 'fin) Route list \<Rightarrow> Declaration list" where
  "DeclarationsOf rs = map route_declaration rs"

section \<open>Settings\<close>

definition rebuild ::
  "(('h, 'fin) Route \<Rightarrow> ('h, 'fin) Route) \<Rightarrow> ('h, 'fin) Routes \<Rightarrow> ('h, 'fin) Routes" where
  "rebuild setting surface =
     (if routes surface = [] then surface
      else (case NewRoutesWithRejection (reject surface) (map setting (routes surface)) of
              Inl err \<Rightarrow> surface
            | Inr rebuilt \<Rightarrow> rebuilt))"

definition WithMiddleware ::
  "('h, 'fin) Routes \<Rightarrow> 'h RouteMiddleware option \<Rightarrow> ('h, 'fin) Routes" where
  "WithMiddleware surface each =
     (case each of None \<Rightarrow> surface | Some wrapper \<Rightarrow> rebuild (withMiddleware wrapper) surface)"

definition WithPhaseSampler ::
  "('h, 'fin) Routes \<Rightarrow> 'fin PhaseSampler option \<Rightarrow> ('h, 'fin) Routes" where
  "WithPhaseSampler surface sample = rebuild (withPhases sample) surface"

definition WithPhaseSpans :: "('h, 'fin) Routes \<Rightarrow> ('h, 'fin) Routes" where
  "WithPhaseSpans surface = rebuild (withPhases None) surface"

definition WithNaming ::
  "(Node \<Rightarrow> Strategy option \<Rightarrow> Node) \<Rightarrow> ('h, 'fin) Routes \<Rightarrow> Strategy option \<Rightarrow> ('h, 'fin) Routes" where
  "WithNaming Spell surface naming = rebuild (withNaming Spell naming) surface"

section \<open>Dispatching\<close>

definition methodNotAllowed :: "string list \<Rightarrow> Response" where
  "methodNotAllowed names = WithHeader (Empty 405) ''Allow'' (join '', '' (sort names))"

definition Routes_Handler :: "(Response \<Rightarrow> 'fr) \<Rightarrow> ('fr Handler, 'fin) Routes \<Rightarrow> 'fr Handler" where
  "Routes_Handler succeed surface request =
     (let match = resolve (tree surface) (pathSegments (Path request)) (Method request) [] in
      if found match
      then the (res_handler match) (WithCaptures request (captureValues (res_captures match)))
      else if length (methods match) > 0 then succeed (methodNotAllowed (methods match))
      else succeed (Empty 404))"

section \<open>The contract of assembling\<close>

definition usable :: "('h, 'fin) Route \<Rightarrow> bool" where
  "usable r \<longleftrightarrow> route_fault r = None \<and> build r \<noteq> None"

definition route_handler :: "(error \<Rightarrow> Response) \<Rightarrow> ('h, 'fin) Route \<Rightarrow> 'h" where
  "route_handler rejection r = the (build r) rejection (phases r) (route_strategy r)"

abbreviation route_method :: "('h, 'fin) Route \<Rightarrow> string" where
  "route_method r \<equiv> decl_Method (route_declaration r)"

definition clashing :: "('h, 'fin) Route \<Rightarrow> ('h, 'fin) Route \<Rightarrow> bool" where
  "clashing r s \<longleftrightarrow> clash (route_method r = route_method s) (route_segments r) (route_segments s)"

fun no_clash :: "('h, 'fin) Route list \<Rightarrow> bool" where
  "no_clash [] = True"
| "no_clash (r # rs) = (list_all (\<lambda>s. \<not> clashing r s) rs \<and> no_clash rs)"

text \<open>The tree holds exactly the routes that were added.\<close>

definition holds :: "(error \<Rightarrow> Response) \<Rightarrow> 'h treeNode \<Rightarrow> ('h, 'fin) Route list \<Rightarrow> bool" where
  "holds rejection node rs \<longleftrightarrow>
     tree_inv node \<and>
     (\<forall>segs m h. entries node segs m = Some h \<longleftrightarrow>
        (\<exists>r \<in> set rs. route_segments r = segs \<and> route_method r = m \<and> h = route_handler rejection r))"

lemma clashing_sym: "clashing r s = clashing s r"
  by (simp add: clashing_def clash_sym [of _ "route_segments r"] eq_commute)

lemma no_clash_append:
  "no_clash (rs @ ss) \<longleftrightarrow> no_clash rs \<and> no_clash ss \<and> (\<forall>r \<in> set rs. \<forall>s \<in> set ss. \<not> clashing r s)"
  by (induction rs) (auto simp: list_all_iff)

lemma no_clash_perm: "mset rs = mset ss \<Longrightarrow> no_clash rs \<Longrightarrow> no_clash ss"
proof (induction rs arbitrary: ss)
  case (Cons r rs)
  then have "r \<in> set ss" using mset_eq_setD by fastforce
  then obtain us vs where ss: "ss = us @ r # vs" by (meson split_list)
  with Cons.prems(1) have m: "mset rs = mset (us @ vs)" by simp
  then have "no_clash (us @ vs)" using Cons by simp
  moreover have "set rs = set (us @ vs)" using m by (metis set_mset_mset)
  ultimately have "\<forall>s \<in> set us \<union> set vs. \<not> clashing r s"
    using Cons.prems(2) by (simp add: list_all_iff)
  with \<open>no_clash (us @ vs)\<close> show ?case
    unfolding ss no_clash_append by (auto simp: list_all_iff clashing_sym [of _ r])
qed simp

lemma clash_refl: "clash True segs segs"
  by (induction segs) auto

lemma clashing_same:
  "route_segments r = route_segments s \<Longrightarrow> route_method r = route_method s \<Longrightarrow> clashing r s"
  by (simp add: clashing_def clash_refl)

lemma holds_clash:
  assumes "holds rejection node rs"
  shows "(\<exists>segs m. entries node segs m \<noteq> None \<and> clash (m = route_method r) (route_segments r) segs) \<longleftrightarrow>
           (\<exists>s \<in> set rs. clashing r s)"
proof -
  have "entries node segs m \<noteq> None \<longleftrightarrow>
      (\<exists>s \<in> set rs. route_segments s = segs \<and> route_method s = m)" for segs m
    using assms unfolding holds_def by auto
  then show ?thesis unfolding clashing_def by (auto simp: eq_commute)
qed

lemma holds_new [simp]: "holds rejection (newTreeNode n) []"
  by (simp add: holds_def)

lemma add_route_Inr:
  assumes "holds rejection (tree surface) done_routes"
    and "add_route rejection surface r = Inr surface'"
  shows "usable r" and "\<forall>s \<in> set done_routes. \<not> clashing r s"
    and "holds rejection (tree surface') (done_routes @ [r])"
    and "declarations surface' = declarations surface @ [route_declaration r]"
    and "routes surface' = routes surface" and "reject surface' = reject surface"
proof -
  from assms(2) obtain built node where
    built: "route_fault r = None" "build r = Some built" and
    ins: "tree_insert (tree surface) (route_segments r) (route_method r) (route_handler rejection r)
            (renderPattern (route_segments r)) = Inr node" and
    s': "surface' = surface\<lparr>tree := node,
           declarations := declarations surface @ [route_declaration r]\<rparr>"
    by (auto simp: add_route_def route_handler_def split: option.splits sum.splits)
  from built show "usable r" by (simp add: usable_def)
  have inv: "tree_inv (tree surface)" using assms(1) by (simp add: holds_def)
  have "\<not> (\<exists>segs m. entries (tree surface) segs m \<noteq> None \<and>
              clash (m = route_method r) (route_segments r) segs)"
    using tree_insert_refused [OF inv, of "route_segments r" "route_method r"
        "route_handler rejection r" "renderPattern (route_segments r)"] ins by auto
  then show fresh: "\<forall>s \<in> set done_routes. \<not> clashing r s"
    unfolding holds_clash [OF assms(1)] by blast
  show "holds rejection (tree surface') (done_routes @ [r])"
    unfolding holds_def
  proof (intro conjI allI)
    show "tree_inv (tree surface')" using tree_insert_inv [OF ins inv] s' by simp
    fix segs m h
    have "\<not> (\<exists>s \<in> set done_routes. route_segments s = route_segments r \<and> route_method s = route_method r)"
      using fresh clashing_same [of r] by metis
    with assms(1) show "entries (tree surface') segs m = Some h \<longleftrightarrow>
        (\<exists>r \<in> set (done_routes @ [r]). route_segments r = segs \<and> route_method r = m \<and>
           h = route_handler rejection r)"
      unfolding s' holds_def by (auto simp: tree_insert_entries [OF ins])
  qed
  from s' show "declarations surface' = declarations surface @ [route_declaration r]"
    "routes surface' = routes surface" "reject surface' = reject surface"
    by simp_all
qed

lemma add_route_accepts:
  assumes "holds rejection (tree surface) done_routes" and "usable r"
    and "\<forall>s \<in> set done_routes. \<not> clashing r s"
  shows "\<exists>surface'. add_route rejection surface r = Inr surface'"
proof -
  have inv: "tree_inv (tree surface)" using assms(1) by (simp add: holds_def)
  have "\<not> (\<exists>segs m. entries (tree surface) segs m \<noteq> None \<and>
              clash (m = route_method r) (route_segments r) segs)"
    unfolding holds_clash [OF assms(1)] using assms(3) by blast
  then have "\<nexists>err. tree_insert (tree surface) (route_segments r) (route_method r)
      (route_handler rejection r) (renderPattern (route_segments r)) = Inl err"
    unfolding tree_insert_refused [OF inv] by blast
  then obtain node where "tree_insert (tree surface) (route_segments r) (route_method r)
      (route_handler rejection r) (renderPattern (route_segments r)) = Inr node"
    by (metis sum.exhaust)
  with assms(2) show ?thesis
    by (auto simp: add_route_def usable_def route_handler_def)
qed

lemma add_routes_Inr:
  assumes "holds rejection (tree surface) done_routes" and "no_clash done_routes"
    and "add_routes rejection surface rs = Inr surface'"
  shows "(\<forall>r \<in> set rs. usable r) \<and> no_clash (done_routes @ rs) \<and>
         holds rejection (tree surface') (done_routes @ rs) \<and>
         declarations surface' = declarations surface @ map route_declaration rs \<and>
         routes surface' = routes surface \<and> reject surface' = reject surface"
  using assms
proof (induction rs arbitrary: surface done_routes)
  case (Cons r rs)
  then obtain mid where mid: "add_route rejection surface r = Inr mid"
    "add_routes rejection mid rs = Inr surface'"
    by (auto simp: bind_result_Inr)
  note r = add_route_Inr [OF Cons.prems(1) mid(1)]
  have "no_clash (done_routes @ [r])"
    using Cons.prems(2) r(2) by (auto simp: no_clash_append clashing_sym)
  from Cons.IH [OF r(3) this mid(2)] r show ?case by auto
qed simp

lemma add_routes_accepts:
  assumes "holds rejection (tree surface) done_routes" and "\<forall>r \<in> set rs. usable r"
    and "no_clash (done_routes @ rs)"
  shows "\<exists>surface'. add_routes rejection surface rs = Inr surface'"
  using assms
proof (induction rs arbitrary: surface done_routes)
  case (Cons r rs)
  have "\<forall>s \<in> set done_routes. \<not> clashing r s"
    using Cons.prems(3) by (auto simp: no_clash_append clashing_sym)
  with Cons.prems obtain mid where mid: "add_route rejection surface r = Inr mid"
    using add_route_accepts by (metis list.set_intros(1))
  note add_route_Inr [OF Cons.prems(1) mid]
  with Cons mid show ?case by simp
qed simp

lemma NewRoutesWithRejection_ok:
  "(\<exists>surface. NewRoutesWithRejection rejection rs = Inr surface) \<longleftrightarrow>
     rejection \<noteq> None \<and> rs \<noteq> [] \<and> (\<forall>r \<in> set rs. usable r) \<and> no_clash rs"
proof (cases "\<exists>rejects. rejection = Some rejects \<and> rs \<noteq> []")
  case True
  then obtain rejects where r: "rejection = Some rejects" "rs \<noteq> []" by blast
  let ?start = "\<lparr>declarations = [], tree = newTreeNode [], routes = rs, reject = rejection\<rparr>"
  have "(\<exists>surface. add_routes rejects ?start rs = Inr surface) \<longleftrightarrow>
      (\<forall>r \<in> set rs. usable r) \<and> no_clash rs"
    using add_routes_Inr [of rejects ?start "[]" rs] add_routes_accepts [of rejects ?start "[]" rs]
    by auto
  with r show ?thesis by (simp add: NewRoutesWithRejection_def)
qed (auto simp: NewRoutesWithRejection_def split: option.splits)

lemma NewRoutesWithRejection_Inr:
  assumes "NewRoutesWithRejection (Some rejects) rs = Inr surface"
  shows "holds rejects (tree surface) rs" and "declarations surface = map route_declaration rs"
    and "routes surface = rs" and "reject surface = Some rejects"
proof -
  from assms have "add_routes rejects
      \<lparr>declarations = [], tree = newTreeNode [], routes = rs, reject = Some rejects\<rparr> rs = Inr surface"
    by (simp add: NewRoutesWithRejection_def split: if_splits)
  from add_routes_Inr [OF _ _ this, of "[]"]
  show "holds rejects (tree surface) rs" "declarations surface = map route_declaration rs"
    "routes surface = rs" "reject surface = Some rejects" by simp_all
qed

section \<open>A setting cannot refuse what was accepted\<close>

text \<open>A surface is assembled when it is what its own routes assemble to.\<close>

definition assembled :: "('h, 'fin) Routes \<Rightarrow> bool" where
  "assembled surface \<longleftrightarrow> NewRoutesWithRejection (reject surface) (routes surface) = Inr surface"

lemma NewRoutes_assembled: "NewRoutesWithRejection rejection rs = Inr surface \<Longrightarrow> assembled surface"
proof -
  assume ok: "NewRoutesWithRejection rejection rs = Inr surface"
  then obtain rejects where "rejection = Some rejects"
    by (auto simp: NewRoutesWithRejection_def split: option.splits)
  with ok NewRoutesWithRejection_Inr [of rejects rs surface] show ?thesis by (simp add: assembled_def)
qed

lemma assembled_iff:
  "assembled surface \<Longrightarrow>
     (\<exists>rejects. reject surface = Some rejects) \<and> routes surface \<noteq> [] \<and>
     (\<forall>r \<in> set (routes surface). usable r) \<and> no_clash (routes surface)"
  using NewRoutesWithRejection_ok [of "reject surface" "routes surface"]
  by (auto simp: assembled_def)

text \<open>
  The interface between the settings and the reassembly: what a setting may not change.
\<close>

locale surface_setting =
  fixes setting :: "('h, 'fin) Route \<Rightarrow> ('h, 'fin) Route"
  assumes keeps_segments: "route_segments (setting r) = route_segments r"
    and keeps_method: "route_method (setting r) = route_method r"
    and keeps_usable: "usable r \<Longrightarrow> usable (setting r)"
begin

lemma keeps_clashing: "clashing (setting r) (setting s) = clashing r s"
  by (simp add: clashing_def keeps_segments keeps_method)

lemma keeps_no_clash: "no_clash (map setting rs) = no_clash rs"
  by (induction rs) (simp_all add: list_all_iff keeps_clashing)

lemma reassembles:
  assumes "assembled surface"
  shows "NewRoutesWithRejection (reject surface) (map setting (routes surface)) = Inr (rebuild setting surface)"
proof -
  have "\<exists>s. NewRoutesWithRejection (reject surface) (map setting (routes surface)) = Inr s"
    using assembled_iff [OF assms] keeps_usable
    by (auto simp: NewRoutesWithRejection_ok keeps_no_clash)
  then show ?thesis
    using assembled_iff [OF assms] by (auto simp: rebuild_def)
qed

lemma rebuild_keeps:
  assumes "assembled surface"
  shows "assembled (rebuild setting surface)"
    and "routes (rebuild setting surface) = map setting (routes surface)"
    and "reject (rebuild setting surface) = reject surface"
    and "declarations (rebuild setting surface) = map (route_declaration \<circ> setting) (routes surface)"
proof -
  show "assembled (rebuild setting surface)"
    by (rule NewRoutes_assembled [OF reassembles [OF assms]])
  obtain rejects where r: "reject surface = Some rejects" using assembled_iff [OF assms] by blast
  note new = NewRoutesWithRejection_Inr [OF reassembles [OF assms, unfolded r]]
  show "routes (rebuild setting surface) = map setting (routes surface)"
    "reject (rebuild setting surface) = reject surface"
    "declarations (rebuild setting surface) = map (route_declaration \<circ> setting) (routes surface)"
    using new(2-4) r by simp_all
qed

end

lemma withMiddleware_usable: "usable r \<Longrightarrow> usable (withMiddleware each r)"
  by (auto simp: usable_def withMiddleware_def)

interpretation middleware: surface_setting "withMiddleware each" for each
  by unfold_locales (auto simp: withMiddleware_def usable_def split: option.splits)

interpretation phase_naming: surface_setting "withPhases sample" for sample
  by unfold_locales (auto simp: withPhases_def usable_def)

interpretation spelling: surface_setting "withNaming Spell naming" for Spell naming
  by unfold_locales (auto simp: withNaming_def declaration_withNaming_def usable_def)

section \<open>What assembling promises\<close>

text \<open>C19: Routes assemble exactly when there is a rejection and at least one route, every route is usable
and no two clash.\<close>

theorem assembling_accepts:
  "(\<exists>surface. NewRoutesWithRejection rejection rs = Inr surface) \<longleftrightarrow>
     rejection \<noteq> None \<and> rs \<noteq> [] \<and> list_all usable rs \<and> no_clash rs"
  by (simp add: NewRoutesWithRejection_ok list_all_iff)

text \<open>A route for examples: its handler is a given value.\<close>

definition example_route :: "string \<Rightarrow> string \<Rightarrow> segment list \<Rightarrow> 'h \<Rightarrow> ('h, 'fin) Route" where
  "example_route verb path segs h =
     \<lparr>route_declaration = \<lparr>decl_Method = verb, decl_Path = path, Summary = [], Description = [],
                     Parameters = [], decl_Entity = None, decl_Status = 200, decl_Content = None,
                     Failures = [], Alternatives = []\<rparr>,
      route_segments = segs, build = Some (\<lambda>_ _ _. h), phases = noPhases, route_strategy = None,
      route_fault = None\<rparr>"

lemma example_route_simps [simp]:
  "usable (example_route verb path segs h)" "route_method (example_route verb path segs h) = verb"
  "route_segments (example_route verb path segs h) = segs"
  "route_handler rejects (example_route verb path segs h) = h"
  by (simp_all add: example_route_def usable_def route_handler_def)

text \<open>Wrapping every route of a surface in a middleware leaves its paths, methods and order alone:
what it declares stays what it declared.\<close>

theorem middleware_keeps_declarations:
  assumes "NewRoutesWithRejection rejection rs = Inr surface"
  shows "declarations (WithMiddleware surface each) = declarations surface"
proof (cases each)
  case (Some wrapper)
  have a: "assembled surface" by (rule NewRoutes_assembled [OF assms])
  then obtain rejects where "NewRoutesWithRejection (Some rejects) (routes surface) = Inr surface"
    using assembled_iff [OF a] by (auto simp: assembled_def)
  from NewRoutesWithRejection_Inr(2) [OF this] middleware.rebuild_keeps(4) [OF a, of wrapper]
  show ?thesis
    by (simp add: WithMiddleware_def Some comp_def withMiddleware_def split: option.split)
qed (simp add: WithMiddleware_def)

theorem middleware_keeps_declarations_witness:
  "\<exists>surface. NewRoutesWithRejection (Some rejectRequest) [example_route ''GET'' ''/b'' [literal ''b''] 0 :: (nat, unit) Route] = Inr surface \<and>
     declarations (WithMiddleware surface (Some (\<lambda>_ n. n + 1))) = declarations surface"
proof -
  obtain surface where s: "NewRoutesWithRejection (Some rejectRequest)
      [example_route ''GET'' ''/b'' [literal ''b''] 0 :: (nat, unit) Route] = Inr surface"
    using NewRoutesWithRejection_ok [of "Some rejectRequest" "[example_route ''GET'' ''/b'' [literal ''b''] 0 :: (nat, unit) Route]"]
    by (auto simp: example_route_simps)
  with middleware_keeps_declarations [OF s, of "Some (\<lambda>_ n. n + 1)"] show ?thesis by blast
qed

end
