(* ===== verification/Web_Dispatch.thy ===== *)
theory Web_Dispatch
  imports Web_Routes
begin

text \<open>
  Dispatching, compared with a reference that knows nothing of the tree: scan the routes,
  keep the most specific one that serves the path and the method, and when there is none
  collect the methods of the routes that match the path. The two answer alike on every
  request, the \<open>Allow\<close> header included, and the order the routes were given in does not matter.
\<close>

section \<open>The reference\<close>

definition matches :: "string list \<Rightarrow> ('h, 'fin) Route \<Rightarrow> bool" where
  "matches path r \<longleftrightarrow> match_path (route_segments r) path \<noteq> None"

definition serves :: "string \<Rightarrow> string list \<Rightarrow> ('h, 'fin) Route \<Rightarrow> bool" where
  "serves method path r \<longleftrightarrow> route_method r = method \<and> matches path r"

definition kinds :: "('h, 'fin) Route \<Rightarrow> segmentKind list" where
  "kinds r = map kind (route_segments r)"

fun best_route :: "('h, 'fin) Route list \<Rightarrow> string \<Rightarrow> string list \<Rightarrow> ('h, 'fin) Route option" where
  "best_route [] method path = None"
| "best_route (r # rs) method path =
     (if \<not> serves method path r then best_route rs method path
      else (case best_route rs method path of
              None \<Rightarrow> Some r
            | Some s \<Rightarrow> if kinds r \<le> kinds s then Some r else Some s))"

definition scan_dispatch ::
  "(Response \<Rightarrow> 'fr) \<Rightarrow> (error \<Rightarrow> Response) \<Rightarrow> ('fr Handler, 'fin) Route list \<Rightarrow> 'fr Handler" where
  "scan_dispatch succeed rejects rs request =
     (let path = pathSegments (Path request) in
      case best_route rs (Method request) path of
        Some r \<Rightarrow>
          route_handler rejects r
            (WithCaptures request (captureValues (the (match_path (route_segments r) path))))
      | None \<Rightarrow>
          let names = map route_method (filter (matches path) rs) in
          if names \<noteq> [] then succeed (methodNotAllowed names) else succeed (Empty 404))"

section \<open>The best route\<close>

lemma best_route_None: "best_route rs method path = None \<longleftrightarrow> (\<forall>r \<in> set rs. \<not> serves method path r)"
  by (induction rs) (auto split: option.splits)

lemma best_route_Some:
  "best_route rs method path = Some r \<Longrightarrow>
     r \<in> set rs \<and> serves method path r \<and> (\<forall>s \<in> set rs. serves method path s \<longrightarrow> kinds r \<le> kinds s)"
proof (induction rs arbitrary: r)
  case (Cons q rs)
  show ?case
  proof (cases "serves method path q \<and> best_route rs method path \<noteq> None")
    case True
    then obtain s where s: "best_route rs method path = Some s" by blast
    from Cons.IH [OF this] Cons.prems True s show ?thesis
      by (auto split: if_splits)
  next
    case False
    with Cons show ?thesis
      using best_route_None [of rs "method" path] by (auto split: if_splits option.splits)
  qed
qed simp

text \<open>
  Two patterns of the same kinds that match one path are the same pattern or name a capture
  differently, so of two routes that do not clash at most one is best.
\<close>

lemma same_kinds_clash:
  "map kind ss = map kind ts \<Longrightarrow> match_path ss path \<noteq> None \<Longrightarrow> match_path ts path \<noteq> None \<Longrightarrow>
   clash True ss ts"
proof (induction ss path arbitrary: ts rule: match_path.induct)
  case (2 s ss p ps)
  then obtain t tt where t: "ts = t # tt" by (cases ts) auto
  with 2 show ?case by (cases "kind s") (auto split: if_splits)
qed auto

lemma best_unique:
  assumes "no_clash rs" and "r \<in> set rs" and "s \<in> set rs"
    and "serves method path r" and "serves method path s" and "kinds r = kinds s"
  shows "route_segments r = route_segments s \<and> r = s"
proof -
  have "clashing r s"
    using assms(4-6) by (auto simp: clashing_def serves_def matches_def kinds_def
        intro!: same_kinds_clash)
  moreover have "r = s \<or> \<not> clashing r s" if "r \<in> set rs" "s \<in> set rs"
    using that assms(1) by (induction rs) (auto simp: list_all_iff clashing_sym)
  ultimately show ?thesis using assms(2,3) by blast
qed

section \<open>The methods of a mismatch\<close>

definition matching :: "'h treeNode \<Rightarrow> string list \<Rightarrow> (segment list \<times> string) set" where
  "matching node path = {(segs, m). entries node segs m \<noteq> None \<and> match_path segs path \<noteq> None}"

text \<open>The methods of the matching entries, each as often as it has one.\<close>

definition matched_methods :: "'h treeNode \<Rightarrow> string list \<Rightarrow> string multiset" where
  "matched_methods node path = image_mset snd (mset_set (matching node path))"

definition matched_option :: "'h treeNode option \<Rightarrow> string list \<Rightarrow> string multiset" where
  "matched_option child path = (case child of None \<Rightarrow> {#} | Some c \<Rightarrow> matched_methods c path)"

definition finite_table :: "'h treeNode \<Rightarrow> bool" where
  "finite_table node \<longleftrightarrow> finite {(segs, m). entries node segs m \<noteq> None}"

definition beneath :: "segment \<Rightarrow> segment list \<times> string \<Rightarrow> segment list \<times> string" where
  "beneath s e = (s # fst e, snd e)"

lemma inj_beneath: "inj_on (beneath s) X"
  by (auto simp: inj_on_def beneath_def)

lemma finite_matching: "finite_table node \<Longrightarrow> finite (matching node path)"
  unfolding finite_table_def matching_def by (erule rev_finite_subset) auto

lemma finite_table_child:
  assumes "finite_table node" and "child_at node s = Some child"
  shows "finite_table child"
proof -
  have "beneath s ` {(segs, m). entries child segs m \<noteq> None} \<subseteq> {(segs, m). entries node segs m \<noteq> None}"
    using assms(2) by (auto simp: beneath_def)
  then show ?thesis
    using assms(1) unfolding finite_table_def by (meson finite_imageD finite_subset inj_beneath)
qed

lemma matching_Cons:
  "matching node (p # ps) =
     (\<Union>c \<in> set_option (literals node p). beneath (literal p) ` matching c ps) \<union>
     (\<Union>c \<in> set_option (node_capture node). beneath (capturing (node_name c)) ` matching c ps) \<union>
     (\<Union>c \<in> set_option (node_wildcard node). beneath (wild (node_name c)) ` matching c [])"
  (is "?lhs = ?rhs")
proof (intro set_eqI iffI)
  fix e
  assume "e \<in> ?lhs"
  then obtain segs m h caps where e: "e = (segs, m)" "entries node segs m = Some h"
    and c: "match_path segs (p # ps) = Some caps"
    by (auto simp: matching_def)
  from c show "e \<in> ?rhs"
  proof (cases rule: match_first)
    case (1 ss)
    from e(2) [unfolded 1(1) entry_literal] obtain child where
      child: "literals node p = Some child" "entries child ss m = Some h" by blast
    then have "(ss, m) \<in> matching child ps" using 1 by (simp add: matching_def)
    then have "beneath (literal p) (ss, m) \<in> beneath (literal p) ` matching child ps" by (rule imageI)
    moreover have "e = beneath (literal p) (ss, m)" using e(1) 1(1) by (simp add: beneath_def)
    ultimately have "e \<in> (\<Union>c \<in> set_option (literals node p). beneath (literal p) ` matching c ps)"
      using child by simp
    then show ?thesis by (rule UnI1 [OF UnI1])
  next
    case (2 n ss bs)
    from e(2) [unfolded 2(1) entry_capture] obtain child where
      child: "node_capture node = Some child" "node_name child = n" "entries child ss m = Some h" by blast
    then have "(ss, m) \<in> matching child ps" using 2 by (simp add: matching_def)
    then have "beneath (capturing n) (ss, m) \<in> beneath (capturing n) ` matching child ps" by (rule imageI)
    moreover have "e = beneath (capturing n) (ss, m)" using e(1) 2(1) by (simp add: beneath_def)
    ultimately have "e \<in> (\<Union>c \<in> set_option (node_capture node). beneath (capturing (node_name c)) ` matching c ps)"
      using child by simp
    then show ?thesis by (rule UnI1 [OF UnI2])
  next
    case (3 n)
    from e(2) [unfolded 3(1) entry_wild] obtain child where
      child: "node_wildcard node = Some child" "node_name child = n" "map_of (handlers child) m = Some h"
      by blast
    then have "([], m) \<in> matching child []" by (simp add: matching_def)
    then have "beneath (wild n) ([], m) \<in> beneath (wild n) ` matching child []" by (rule imageI)
    moreover have "e = beneath (wild n) ([], m)" using e(1) 3(1) by (simp add: beneath_def)
    ultimately have "e \<in> (\<Union>c \<in> set_option (node_wildcard node). beneath (wild (node_name c)) ` matching c [])"
      using child by simp
    then show ?thesis by (rule UnI2)
  qed
next
  fix e
  assume "e \<in> ?rhs"
  then consider
      c ss m where "literals node p = Some c" "(ss, m) \<in> matching c ps" "e = (literal p # ss, m)"
    | c ss m where "node_capture node = Some c" "(ss, m) \<in> matching c ps"
        "e = (capturing (node_name c) # ss, m)"
    | c ss m where "node_wildcard node = Some c" "(ss, m) \<in> matching c []" "e = (wild (node_name c) # ss, m)"
    by (auto simp: beneath_def)
  then show "e \<in> ?lhs"
  proof cases
    case (1 c ss m)
    then show ?thesis by (auto simp: matching_def child_at_def)
  next
    case (2 c ss m)
    then show ?thesis by (auto simp: matching_def child_at_def)
  next
    case (3 c ss m)
    then show ?thesis by (auto simp: matching_def child_at_def)
  qed
qed

lemma snd_beneath: "image_mset snd (mset_set (beneath s ` X)) = image_mset snd (mset_set X)"
proof -
  have "mset_set (beneath s ` X) = image_mset (beneath s) (mset_set X)"
    by (simp add: image_mset_mset_set inj_beneath)
  then show ?thesis by (simp add: multiset.map_comp comp_def beneath_def)
qed

lemma matched_methods_Cons:
  assumes "finite_table node"
  shows "matched_methods node (p # ps) =
           matched_option (literals node p) ps + matched_option (node_capture node) ps +
           matched_option (node_wildcard node) []"
proof -
  let ?L = "\<Union>c \<in> set_option (literals node p). beneath (literal p) ` matching c ps"
  let ?C = "\<Union>c \<in> set_option (node_capture node). beneath (capturing (node_name c)) ` matching c ps"
  let ?W = "\<Union>c \<in> set_option (node_wildcard node). beneath (wild (node_name c)) ` matching c []"
  have fin: "finite (?L \<union> ?C \<union> ?W)"
    using finite_matching [OF assms, of "p # ps"] by (simp only: matching_Cons)
  have "?L \<inter> ?C = {}" "(?L \<union> ?C) \<inter> ?W = {}" by (auto simp: beneath_def)
  with fin have "mset_set (?L \<union> ?C \<union> ?W) = mset_set ?L + mset_set ?C + mset_set ?W"
    by (simp add: mset_set_Union)
  then have "matched_methods node (p # ps) =
      image_mset snd (mset_set ?L) + image_mset snd (mset_set ?C) + image_mset snd (mset_set ?W)"
    unfolding matched_methods_def matching_Cons by simp
  also have "image_mset snd (mset_set ?L) = matched_option (literals node p) ps"
    by (cases "literals node p") (simp_all add: matched_option_def matched_methods_def snd_beneath)
  also have "image_mset snd (mset_set ?C) = matched_option (node_capture node) ps"
    by (cases "node_capture node") (simp_all add: matched_option_def matched_methods_def snd_beneath)
  also have "image_mset snd (mset_set ?W) = matched_option (node_wildcard node) []"
    by (cases "node_wildcard node") (simp_all add: matched_option_def matched_methods_def snd_beneath)
  finally show ?thesis .
qed

lemma matched_methods_Nil:
  assumes "tree_inv node"
  shows "matched_methods node [] = mset (map fst (handlers node))"
proof -
  have "matching node [] = Pair [] ` set (map fst (handlers node))"
    by (auto simp: matching_def dom_map_of_conv_image_fst [symmetric] domIff)
  also have "mset_set \<dots> = image_mset (Pair []) (mset_set (set (map fst (handlers node))))"
    by (simp add: image_mset_mset_set inj_on_def)
  also have "mset_set (set (map fst (handlers node))) = mset (map fst (handlers node))"
    using tree_inv_distinct [OF assms] by (rule mset_set_set)
  finally show ?thesis by (simp add: matched_methods_def multiset.map_comp comp_def)
qed

lemma here_methods:
  "tree_inv node \<Longrightarrow> \<not> found (here node method bindings) \<Longrightarrow>
   mset (methods (here node method bindings)) = matched_methods node []"
  unfolding matched_methods_Nil by (auto simp: here_def split: option.splits)

lemma try_branch_not_found:
  assumes "\<not> found (try_branch attempt collected k)"
  shows "\<forall>r. attempt = Some r \<longrightarrow> \<not> found r"
    and "\<not> found (k (collected @ (case attempt of None \<Rightarrow> [] | Some match \<Rightarrow> methods match)))"
  using assms by (auto simp: try_branch_def split: option.splits if_splits)

lemma children_ok:
  assumes "tree_inv node" and "finite_table node"
  shows "literals node p = Some c \<Longrightarrow> tree_inv c \<and> finite_table c"
    and "node_capture node = Some c \<Longrightarrow> tree_inv c \<and> finite_table c"
    and "node_wildcard node = Some c \<Longrightarrow> tree_inv c \<and> finite_table c"
  using tree_inv_child(1) [OF assms(1), of "literal p" c] finite_table_child [OF assms(2), of "literal p" c]
    tree_inv_child(1) [OF assms(1), of "capturing (node_name c)" c]
    finite_table_child [OF assms(2), of "capturing (node_name c)" c]
    tree_inv_child(1) [OF assms(1), of "wild (node_name c)" c]
    finite_table_child [OF assms(2), of "wild (node_name c)" c]
  by (simp_all add: child_at_def)

lemma resolve_methods:
  assumes "tree_inv node" and "finite_table node" and "\<not> found (resolve node path method bindings)"
  shows "mset (methods (resolve node path method bindings)) = matched_methods node path"
  using assms
proof (induction path arbitrary: node bindings)
  case Nil
  then show ?case by (simp add: here_methods)
next
  case (Cons p ps)
  let ?lit = "case literals node p of None \<Rightarrow> None | Some child \<Rightarrow> Some (resolve child ps method bindings)"
  let ?cap = "case node_capture node of None \<Rightarrow> None
      | Some child \<Rightarrow> Some (resolve child ps method (bind_capture bindings (node_name child) p))"
  let ?wild = "case node_wildcard node of None \<Rightarrow> None
      | Some child \<Rightarrow> Some (here child method (bind_capture bindings (node_name child) (join ''/'' (p # ps))))"
  let ?names = "\<lambda>a. case a of None \<Rightarrow> [] | Some match \<Rightarrow> methods match"
  note ok = children_ok [OF Cons.prems(1,2)]
  note first = try_branch_not_found [OF Cons.prems(3) [unfolded resolve.simps]]
  note second = try_branch_not_found [OF first(2)]
  note third = try_branch_not_found [OF second(2)]
  note none = first(1) second(1) third(1)
  have "methods (resolve node (p # ps) method bindings) = ?names ?lit @ ?names ?cap @ ?names ?wild"
    unfolding resolve.simps try_branch_next [OF none(1)] try_branch_next [OF none(2)]
      try_branch_next [OF none(3)] by simp
  moreover have "mset (?names ?lit) = matched_option (literals node p) ps"
    using Cons.IH none(1) ok(1) by (auto simp: matched_option_def split: option.splits)
  moreover have "mset (?names ?cap) = matched_option (node_capture node) ps"
    using Cons.IH none(2) ok(2) by (auto simp: matched_option_def split: option.splits)
  moreover have "mset (?names ?wild) = matched_option (node_wildcard node) []"
    using here_methods none(3) ok(3) by (auto simp: matched_option_def split: option.splits)
  ultimately show ?case by (simp add: matched_methods_Cons [OF Cons.prems(2)])
qed

section \<open>Dispatching is scanning\<close>

lemma holds_distinct:
  assumes "no_clash rs"
  shows "distinct rs" and "inj_on (\<lambda>r. (route_segments r, route_method r)) (set rs)"
proof -
  show "distinct rs" using assms
    by (induction rs) (auto simp: list_all_iff clashing_same)
  have "r = s" if "r \<in> set rs" "s \<in> set rs" "clashing r s" for r s
    using that assms by (induction rs) (auto simp: list_all_iff clashing_sym)
  then show "inj_on (\<lambda>r. (route_segments r, route_method r)) (set rs)"
    by (auto simp: inj_on_def clashing_same)
qed

lemma holds_table:
  assumes "holds rejection node rs"
  shows "{(segs, m). entries node segs m \<noteq> None} = (\<lambda>r. (route_segments r, route_method r)) ` set rs"
  using assms unfolding holds_def by auto

lemma holds_matched:
  assumes "holds rejection node rs" and "no_clash rs"
  shows "matched_methods node path = mset (map route_method (filter (matches path) rs))"
proof -
  let ?f = "\<lambda>r. (route_segments r, route_method r)"
  let ?rs = "filter (matches path) rs"
  have "matching node path = ?f ` set ?rs"
    using holds_table [OF assms(1)] by (auto simp: matching_def matches_def set_eq_iff image_iff)
  moreover have "inj_on ?f (set ?rs)" using holds_distinct(2) [OF assms(2)] by (auto simp: inj_on_def)
  moreover have "mset_set (set ?rs) = mset ?rs"
    using holds_distinct(1) [OF assms(2)] by (intro mset_set_set) simp
  ultimately show ?thesis
    by (simp add: matched_methods_def image_mset_mset_set [symmetric] multiset.map_comp comp_def)
qed

lemma methodNotAllowed_perm: "mset ms = mset ns \<Longrightarrow> methodNotAllowed ms = methodNotAllowed ns"
  using sort_perm_eq [of ms ns] by (simp add: methodNotAllowed_def)

lemma dispatch_is_scan:
  assumes "NewRoutesWithRejection (Some rejects) rs = Inr surface"
  shows "Routes_Handler succeed surface = scan_dispatch succeed rejects rs"
proof
  fix request
  let ?path = "pathSegments (Path request)"
  let ?m = "Method request"
  let ?r = "resolve (tree surface) ?path ?m []"
  have h: "holds rejects (tree surface) rs" using NewRoutesWithRejection_Inr(1) [OF assms] .
  have clash: "no_clash rs" using NewRoutesWithRejection_ok [of "Some rejects" rs] assms by auto
  have inv: "tree_inv (tree surface)" "finite_table (tree surface)"
    using h holds_table [OF h] by (simp_all add: holds_def finite_table_def)
  have res: "resolves (tree surface) ?path ?m [] ?r" by (rule resolve_resolves)
  show "Routes_Handler succeed surface request = scan_dispatch succeed rejects rs request"
  proof (cases "found ?r")
    case True
    with res obtain segs caps handler where
      best: "best_entry (tree surface) ?m ?path segs caps handler"
      and r: "res_handler ?r = Some handler" "res_captures ?r = caps"
      by (auto simp: resolves_def)
    from best h obtain route where route: "route \<in> set rs" "route_segments route = segs"
      "route_method route = ?m" "handler = route_handler rejects route" and m: "match_path segs ?path = Some caps"
      unfolding best_entry_def holds_def by auto
    then have serves: "serves ?m ?path route" by (simp add: serves_def matches_def)
    then obtain b where b: "best_route rs ?m ?path = Some b"
      using route(1) best_route_None [of rs ?m ?path] by fastforce
    note b' = best_route_Some [OF b]
    have "kinds b \<le> kinds route" using b' route(1) serves by blast
    moreover have "kinds route \<le> kinds b"
    proof -
      have "entries (tree surface) (route_segments b) ?m \<noteq> None" "match_path (route_segments b) ?path \<noteq> None"
        using b' h unfolding holds_def serves_def matches_def by auto
      with best show ?thesis unfolding best_entry_def kinds_def route(2) by blast
    qed
    ultimately have "b = route" using best_unique [OF clash _ route(1) _ serves, of b] b' by simp
    with b True r route m show ?thesis by (simp add: Routes_Handler_def scan_dispatch_def Let_def)
  next
    case False
    with res have "?m \<notin> allowed (tree surface) ?path" by (simp add: resolves_def)
    then have "best_route rs ?m ?path = None"
      using h unfolding best_route_None holds_def allowed_iff serves_def matches_def by auto
    moreover have eq: "mset (methods ?r) = mset (map route_method (filter (matches ?path) rs))"
      using resolve_methods [OF inv False] holds_matched [OF h clash] by simp
    moreover from eq have "length (methods ?r) > 0 \<longleftrightarrow> map route_method (filter (matches ?path) rs) \<noteq> []"
      by (metis length_greater_0_conv mset_eq_length)
    ultimately show ?thesis
      using False methodNotAllowed_perm [OF eq] by (simp add: Routes_Handler_def scan_dispatch_def Let_def)
  qed
qed

section \<open>What a surface promises\<close>

text \<open>C3: Dispatching through the tree is scanning the list of routes: of those that serve the method
and match the path the best by kinds answers, with what its pattern captured; with none, the
methods of those that match are named in a 405, and without any the answer is a 404.\<close>

theorem surface_dispatches_as_scan:
  assumes "NewRoutesWithRejection (Some rejects) rs = Inr surface"
  shows "Routes_Handler succeed surface = scan_dispatch succeed rejects rs"
  by (rule dispatch_is_scan [OF assms])

definition example_request :: "string \<Rightarrow> string \<Rightarrow> Request" where
  "example_request verb path =
     RequestFrom \<lparr>req_Method = verb, URL_Path = path, URL_Query = Map.empty, req_Header = Map.empty,
                  req_Body = None\<rparr>"

definition example_routes :: "(Response Handler, unit) Route list" where
  "example_routes =
     [example_route ''GET'' ''/{shelf}'' [capturing ''shelf''] (\<lambda>r. Text 200 (the (Capture r ''shelf''))),
      example_route ''GET'' ''/new'' [literal ''new''] (\<lambda>r. Text 200 ''the newest'')]"

lemma example_surface:
  "\<exists>surface. NewRoutesWithRejection (Some rejectRequest) example_routes = Inr surface"
  unfolding NewRoutesWithRejection_ok by (simp add: example_routes_def clashing_def)

lemma example_request_simps [simp]:
  "Method (example_request verb path) = verb" "Path (example_request verb path) = path"
  by (simp_all add: example_request_def RequestFrom_def Method_def Path_def)

lemma example_paths:
  "pathSegments ''/new'' = [''new'']" "pathSegments ''/old'' = [''old'']"
  by code_simp+

theorem surface_dispatches_as_scan_witness:
  "\<exists>surface. NewRoutesWithRejection (Some rejectRequest) example_routes = Inr surface \<and>
     Routes_Handler (\<lambda>r. r) surface (example_request ''GET'' ''/new'') = Text 200 ''the newest'' \<and>
     Routes_Handler (\<lambda>r. r) surface (example_request ''GET'' ''/old'') = Text 200 ''old'' \<and>
     status (Routes_Handler (\<lambda>r. r) surface (example_request ''PUT'' ''/old'')) = 405"
proof -
  obtain surface where s: "NewRoutesWithRejection (Some rejectRequest) example_routes = Inr surface"
    using example_surface by blast
  show ?thesis
    by (intro exI [of _ surface] conjI s, unfold surface_dispatches_as_scan [OF s])
      (simp_all add: scan_dispatch_def Let_def example_routes_def serves_def matches_def kinds_def
        example_paths captureValues_def Capture_def WithCaptures_def methodNotAllowed_def WithHeader_def Empty_def less_segmentKind_def)
qed

text \<open>A path that a literal and a capture both serve with one method, asked for with another,
names that method twice in the Allow header.\<close>

theorem allow_repeats_a_method:
  "\<exists>surface. NewRoutesWithRejection (Some rejectRequest) example_routes = Inr surface \<and>
     header_Get (resp_header (Routes_Handler (\<lambda>r. r) surface (example_request ''PUT'' ''/new''))) ''Allow'' =
       ''GET, GET''"
proof -
  obtain surface where s: "NewRoutesWithRejection (Some rejectRequest) example_routes = Inr surface"
    using example_surface by blast
  show ?thesis
    by (intro exI [of _ surface] conjI s, unfold dispatch_is_scan [OF s])
      (simp add: scan_dispatch_def Let_def example_routes_def serves_def matches_def
        example_paths methodNotAllowed_def WithHeader_def)
qed

end
