(* ===== verification/Web_Fill.thy ===== *)
theory Web_Fill
  imports Web_Dispatch
begin

text \<open>
  The two sides of a pattern: the path a client fills is one the server's pattern matches,
  with the values it was filled with, and filling a pattern with what it captured gives the
  path back. Also: the order the routes are listed in does not change what a surface answers.
\<close>

section \<open>Captured values\<close>

definition binding_pair :: "binding \<Rightarrow> string \<times> string" where
  "binding_pair b = (binding_name b, binding_value b)"

lemma captureValues_foldl:
  "foldl (\<lambda>values one. values(binding_name one \<mapsto> binding_value one)) m bs =
     m ++ map_of (rev (map binding_pair bs))"
  by (induction bs arbitrary: m) (auto simp: binding_pair_def map_add_def fun_eq_iff split: option.splits)

lemma map_of_rev_distinct: "distinct (map fst xs) \<Longrightarrow> map_of (rev xs) = map_of xs"
proof (induction xs)
  case (Cons x xs)
  then have "map_of xs (fst x) = None" by (simp add: map_of_eq_None_iff)
  with Cons show ?case
    by (cases x) (auto simp: map_add_def fun_eq_iff split: option.splits)
qed simp

lemma captureValues_map_of:
  assumes "distinct (map binding_name bs)"
  shows "captureValues bs = map_of (map binding_pair bs)"
proof -
  have "distinct (map fst (map binding_pair bs))"
    using assms by (simp add: binding_pair_def comp_def)
  then show ?thesis
    by (simp add: captureValues_def captureValues_foldl map_of_rev_distinct)
qed

text \<open>What a pattern binds, given the values.\<close>

definition bindings_for :: "segment list \<Rightarrow> (string \<Rightarrow> string option) \<Rightarrow> binding list" where
  "bindings_for segs vals =
     map (\<lambda>n. \<lparr>binding_name = n, binding_value = the (vals n)\<rparr>) (capture_names segs)"

lemma bindings_for_simps [simp]:
  "bindings_for [] vals = []"
  "bindings_for (s # segs) vals =
     (if kind s = literalSegment then bindings_for segs vals
      else \<lparr>binding_name = seg_text s, binding_value = the (vals (seg_text s))\<rparr> # bindings_for segs vals)"
  by (simp_all add: bindings_for_def)

lemma match_names: "match_path segs path = Some caps \<Longrightarrow> map binding_name caps = capture_names segs"
  by (induction segs path arbitrary: caps rule: match_path.induct)
    (auto split: segmentKind.splits if_splits)

section \<open>What is filled is matched\<close>

definition fits :: "segment list \<Rightarrow> (string \<Rightarrow> string option) \<Rightarrow> bool" where
  "fits segs vals \<longleftrightarrow>
     (\<forall>s \<in> set segs. kind s = captureSegment \<longrightarrow>
        (case vals (seg_text s) of None \<Rightarrow> True | Some v \<Rightarrow> CHR ''/'' \<notin> set v))"

lemma fillParts_nonempty: "fillParts segs vals = Inr parts \<Longrightarrow> parts = [] \<longleftrightarrow> segs = []"
  by (cases segs) (auto simp: go_results split: if_splits option.splits)

lemma fillParts_match:
  assumes "fillParts segs vals = Inr parts" and "segs \<noteq> []" and "wf_parts segs captured" and "fits segs vals"
  shows "match_path segs (split_on (CHR ''/'') (join ''/'' parts)) = Some (bindings_for segs vals)"
  using assms
proof (induction segs arbitrary: parts captured)
  case (Cons s segs)
  from Cons.prems(1) obtain p ps where parts: "parts = p # ps" "fillParts segs vals = Inr ps"
    and p: "p = (if kind s = literalSegment then seg_text s else the (vals (seg_text s)))"
    by (auto simp: go_results split: if_splits option.splits)
  have fits': "fits segs vals" using Cons.prems(4) by (simp add: fits_def)
  show ?case
  proof (cases "kind s = wildcardSegment")
    case True
    with Cons.prems(3) parts have one: "segs = []" "ps = []" by auto
    obtain q qs where q: "split_on (CHR ''/'') p = q # qs" by (cases "split_on (CHR ''/'') p") auto
    then have "join ''/'' (q # qs) = p" by (metis join_split_on)
    with one q True p parts show ?thesis by simp
  next
    case False
    have noslash: "CHR ''/'' \<notin> set p"
    proof (cases "kind s = literalSegment")
      case True
      with p Cons.prems(3) show ?thesis by (simp add: wf_segment_def)
    next
      case no: False
      then obtain v where "vals (seg_text s) = Some v"
        using Cons.prems(1) by (auto split: option.splits)
      with no p Cons.prems(4) False show ?thesis
        by (cases "kind s") (auto simp: fits_def)
    qed
    show ?thesis
    proof (cases "segs = []")
      case True
      with parts have "ps = []" by simp
      with True noslash p parts False show ?thesis
        by (cases "kind s") (auto simp: split_on_no_sep)
    next
      case more: False
      with parts(2) have "ps \<noteq> []" using fillParts_nonempty by blast
      then have split: "split_on (CHR ''/'') (join ''/'' parts) = p # split_on (CHR ''/'') (join ''/'' ps)"
        using noslash parts(1) by (simp add: join_Cons split_on_append)
      from Cons.prems(3) obtain captured' where "wf_parts segs captured'" by (auto split: if_splits)
      from Cons.IH [OF parts(2) more this fits'] split False p show ?thesis
        by (cases "kind s") auto
    qed
  qed
qed simp

lemma fillParts_given:
  "fillParts segs vals = Inr parts \<Longrightarrow> n \<in> set (capture_names segs) \<Longrightarrow> \<exists>v. vals n = Some v"
  by (induction segs arbitrary: parts) (auto simp: go_results split: if_splits option.splits)

lemma bindings_for_values:
  assumes "distinct (capture_names segs)" and "n \<in> set (capture_names segs)" and "vals n = Some v"
  shows "captureValues (bindings_for segs vals) n = Some v"
proof -
  have "distinct (map binding_name (bindings_for segs vals))"
    using assms(1) by (simp add: bindings_for_def comp_def)
  then have "captureValues (bindings_for segs vals) =
      map_of (map (\<lambda>n. (n, the (vals n))) (capture_names segs))"
    by (simp add: captureValues_map_of) (simp add: bindings_for_def binding_pair_def comp_def)
  with assms show ?thesis by (simp add: map_of_map_restrict)
qed

lemma fill_matches:
  assumes "wf_segments segs" and "fits segs vals" and "fillPattern segs vals = Inr path"
  shows "match_path segs (pathSegments path) = Some (bindings_for segs vals)"
    and "n \<in> set (capture_names segs) \<Longrightarrow> captureValues (bindings_for segs vals) n = vals n"
proof -
  from assms(3) obtain parts where parts: "fillParts segs vals = Inr parts"
    "path = ''/'' @ join ''/'' parts" "segs \<noteq> []"
    by (auto simp: fillPattern_def go_results split: if_splits)
  from assms(1) have "wf_parts segs {}" by (simp add: wf_segments_parts)
  from fillParts_match [OF parts(1,3) this assms(2)] parts(2)
  show "match_path segs (pathSegments path) = Some (bindings_for segs vals)"
    by (simp add: pathSegments_def)
  assume n: "n \<in> set (capture_names segs)"
  with fillParts_given [OF parts(1)] obtain v where "vals n = Some v" by blast
  with n bindings_for_values [of segs n vals v] assms(1)
  show "captureValues (bindings_for segs vals) n = vals n"
    by (simp add: wf_segments_def)
qed

section \<open>Filling with what was captured\<close>

lemma fillParts_cong:
  "(\<And>n. n \<in> set (capture_names segs) \<Longrightarrow> u n = v n) \<Longrightarrow> fillParts segs u = fillParts segs v"
  by (induction segs) (auto split: option.split)

lemma match_fill:
  assumes "match_path segs path = Some caps" and "wf_parts segs captured"
  shows "\<exists>parts. fillParts segs (map_of (map binding_pair caps)) = Inr parts \<and>
           join ''/'' parts = join ''/'' path \<and> (parts = [] \<longleftrightarrow> path = [])"
  using assms
proof (induction segs path arbitrary: caps captured rule: match_path.induct)
  case (2 s ss p ps)
  have wf: "\<exists>c. wf_parts ss c" using "2.prems"(2) by (auto split: if_splits)
  show ?case
  proof (cases "kind s")
    case literalSegment
    with 2 wf obtain parts where "fillParts ss (map_of (map binding_pair caps)) = Inr parts"
      "join ''/'' parts = join ''/'' ps" "parts = [] \<longleftrightarrow> ps = []"
      by (fastforce split: if_splits)
    with literalSegment "2.prems"(1) show ?thesis
      by (auto simp: join_Cons split: if_splits)
  next
    case captureSegment
    with "2.prems"(1) obtain bs where bs: "match_path ss ps = Some bs"
      "caps = \<lparr>binding_name = seg_text s, binding_value = p\<rparr> # bs" by auto
    with 2 captureSegment wf obtain parts where
      parts: "fillParts ss (map_of (map binding_pair bs)) = Inr parts"
      "join ''/'' parts = join ''/'' ps" "parts = [] \<longleftrightarrow> ps = []"
      by fastforce
    have "seg_text s \<notin> set (capture_names ss)"
      using "2.prems"(2) captureSegment by (auto simp: wf_parts_iff)
    then have same: "fillParts ss (map_of (map binding_pair caps)) = fillParts ss (map_of (map binding_pair bs))"
      using bs(2) by (intro fillParts_cong) (auto simp: binding_pair_def)
    have "map_of (map binding_pair caps) (seg_text s) = Some p"
      using bs(2) by (simp add: binding_pair_def)
    with same parts(1) captureSegment
    have "fillParts (s # ss) (map_of (map binding_pair caps)) = Inr (p # parts)" by simp
    moreover have "join ''/'' (p # parts) = join ''/'' (p # ps)"
      using parts(2,3) by (simp add: join_Cons)
    ultimately show ?thesis by blast
  next
    case wildcardSegment
    with "2.prems" show ?thesis by (auto simp: binding_pair_def split: if_splits)
  qed
qed auto

lemma match_fills:
  assumes "wf_segments segs" and "match_path segs path = Some caps"
  shows "fillPattern segs (captureValues caps) = Inr (''/'' @ join ''/'' path)"
proof -
  have "distinct (map binding_name caps)"
    using assms by (simp add: match_names wf_segments_def)
  moreover from assms(1) have "wf_parts segs {}" "segs \<noteq> []" by (simp_all add: wf_segments_parts)
  moreover from match_fill [OF assms(2) this(1)] obtain parts where
    "fillParts segs (map_of (map binding_pair caps)) = Inr parts" "join ''/'' parts = join ''/'' path"
    by blast
  ultimately show ?thesis by (simp add: fillPattern_def captureValues_map_of)
qed

section \<open>The order of the routes\<close>

lemma best_route_perm:
  assumes "no_clash rs" and "mset rs = mset ss"
  shows "best_route rs method path = best_route ss method path"
proof -
  have set: "set rs = set ss" using assms(2) by (metis set_mset_mset)
  show ?thesis
  proof (cases "best_route rs method path")
    case None
    then have "best_route ss method path = None" by (simp add: best_route_None set)
    with None show ?thesis by simp
  next
    case (Some r)
    have "best_route ss method path \<noteq> None"
      unfolding best_route_None using best_route_Some [OF Some] set by blast
    then obtain s where s: "best_route ss method path = Some s" by blast
    note r' = best_route_Some [OF Some] and s' = best_route_Some [OF s, folded set]
    have "kinds r \<le> kinds s" using r' s' by simp
    moreover have "kinds s \<le> kinds r" using r' s' by simp
    ultimately
    have "kinds r = kinds s" by (rule order.antisym)
    then have "r = s" using best_unique [OF assms(1), of r s "method" path] r' s' set by simp
    with Some s show ?thesis by simp
  qed
qed

lemma scan_dispatch_perm:
  assumes "no_clash rs" and "mset rs = mset ss"
  shows "scan_dispatch succeed rejects rs = scan_dispatch succeed rejects ss"
proof
  fix request
  let ?f = "\<lambda>rs. map route_method (filter (matches (pathSegments (Path request))) rs)"
  have "mset (?f rs) = mset (?f ss)" using assms(2) by simp
  then have "methodNotAllowed (?f rs) = methodNotAllowed (?f ss)" "?f rs = [] \<longleftrightarrow> ?f ss = []"
    using methodNotAllowed_perm by blast (metis \<open>mset (?f rs) = mset (?f ss)\<close> mset_zero_iff)
  then show "scan_dispatch succeed rejects rs request = scan_dispatch succeed rejects ss request"
    by (simp only: scan_dispatch_def Let_def best_route_perm [OF assms])
qed

section \<open>What clients and routes promise each other\<close>

lemma example_patterns:
  "wf_segments [literal ''b'', capturing ''id'']" "wf_segments [literal ''b'', wild ''rest'']"
  "wf_segments [capturing ''shelf'']"
  by code_simp+

text \<open>The path a client fills is one the pattern matches, and what it captures there are the values
the client filled it with.\<close>

theorem filled_path_matches:
  assumes "wf_segments segs" and "fits segs vals" and "fillPattern segs vals = Inr path"
  shows "\<exists>caps. match_path segs (pathSegments path) = Some caps \<and>
           restrict_map (captureValues caps) (set (capture_names segs)) =
           restrict_map vals (set (capture_names segs))"
proof (intro exI conjI ext)
  show "match_path segs (pathSegments path) = Some (bindings_for segs vals)"
    by (rule fill_matches(1) [OF assms])
  show "restrict_map (captureValues (bindings_for segs vals)) (set (capture_names segs)) n =
      restrict_map vals (set (capture_names segs)) n" for n
    using fill_matches(2) [OF assms] by (simp add: restrict_map_def)
qed

theorem filled_path_matches_witness:
  "\<exists>caps. match_path [literal ''b'', capturing ''id''] (pathSegments ''/b/x'') = Some caps \<and>
     restrict_map (captureValues caps) {''id''} = restrict_map [''id'' \<mapsto> ''x''] {''id''}"
  using filled_path_matches [of "[literal ''b'', capturing ''id'']" "[''id'' \<mapsto> ''x'']" "''/b/x''"]
  by (simp add: example_patterns fits_def fillPattern_def capture_names_def ContainsAny_def go_results)

text \<open>Filling a pattern with what it captured from a path gives that path back.\<close>

theorem captured_path_refills:
  assumes "wf_segments segs" and "match_path segs path = Some caps"
  shows "fillPattern segs (captureValues caps) = Inr (''/'' @ join ''/'' path)"
  by (rule match_fills [OF assms])

theorem captured_path_refills_witness:
  "fillPattern [literal ''b'', wild ''rest'']
     (captureValues [\<lparr>binding_name = ''rest'', binding_value = ''x/y''\<rparr>]) = Inr ''/b/x/y''"
  using captured_path_refills [of "[literal ''b'', wild ''rest'']" "[''b'', ''x'', ''y'']"]
  by (simp add: example_patterns)

text \<open>The order routes are listed in does not change what the surface answers.\<close>

theorem order_of_routes_is_free:
  assumes "NewRoutesWithRejection (Some rejects) rs = Inr surface" and "mset rs = mset ss"
  shows "\<exists>surface'. NewRoutesWithRejection (Some rejects) ss = Inr surface' \<and>
           Routes_Handler succeed surface' = Routes_Handler succeed surface"
proof -
  have ok: "rs \<noteq> []" "\<forall>r \<in> set rs. usable r" "no_clash rs"
    using NewRoutesWithRejection_ok [of "Some rejects" rs] assms(1) by auto
  have "ss \<noteq> []" "\<forall>r \<in> set ss. usable r" "no_clash ss"
    using ok assms(2) mset_eq_setD [OF assms(2)] no_clash_perm [OF assms(2)] by auto
  then obtain surface' where s': "NewRoutesWithRejection (Some rejects) ss = Inr surface'"
    using NewRoutesWithRejection_ok [of "Some rejects" ss] by blast
  have "Routes_Handler succeed surface' = Routes_Handler succeed surface"
    unfolding dispatch_is_scan [OF s'] dispatch_is_scan [OF assms(1)]
    by (rule scan_dispatch_perm [OF ok(3) assms(2), symmetric])
  with s' show ?thesis by blast
qed

theorem order_of_routes_is_free_witness:
  "\<exists>surface surface'.
     NewRoutesWithRejection (Some rejectRequest) example_routes = Inr surface \<and>
     NewRoutesWithRejection (Some rejectRequest) (rev example_routes) = Inr surface' \<and>
     Routes_Handler (\<lambda>r. r) surface' = Routes_Handler (\<lambda>r. r) surface"
proof -
  obtain surface where s: "NewRoutesWithRejection (Some rejectRequest) example_routes = Inr surface"
    using example_surface by blast
  with order_of_routes_is_free [OF s, of "rev example_routes" "\<lambda>r. r"] show ?thesis by auto
qed

lemma best_route_is:
  assumes "r \<in> set rs" and "serves method path r"
    and "\<And>s. s \<in> set rs \<Longrightarrow> serves method path s \<Longrightarrow> s \<noteq> r \<Longrightarrow> kinds r < kinds s"
  shows "best_route rs method path = Some r"
proof -
  have "best_route rs method path \<noteq> None" using assms(1,2) unfolding best_route_None by blast
  then obtain s where s: "best_route rs method path = Some s" by blast
  then show ?thesis using best_route_Some [OF s] assms by (cases "s = r") (auto simp: not_le [symmetric])
qed

lemma route_reached:
  assumes "NewRoutesWithRejection (Some rejects) rs = Inr surface" and "r \<in> set rs"
    and "wf_segments (route_segments r)" and "fits (route_segments r) vals"
    and "fillPattern (route_segments r) vals = Inr (Path request)" and "Method request = route_method r"
    and "\<And>s. s \<in> set rs \<Longrightarrow> serves (Method request) (pathSegments (Path request)) s \<Longrightarrow> s \<noteq> r \<Longrightarrow>
           kinds r < kinds s"
  shows "\<exists>caps.
           restrict_map caps (set (capture_names (route_segments r))) =
           restrict_map vals (set (capture_names (route_segments r))) \<and>
           Routes_Handler succeed surface request = route_handler rejects r (WithCaptures request caps)"
proof -
  let ?c = "bindings_for (route_segments r) vals"
  note m = fill_matches [OF assms(3-5)]
  have "serves (Method request) (pathSegments (Path request)) r"
    using assms(6) m(1) by (simp add: serves_def matches_def)
  from best_route_is [OF assms(2) this assms(7)]
  have "Routes_Handler succeed surface request =
      route_handler rejects r (WithCaptures request (captureValues ?c))"
    unfolding dispatch_is_scan [OF assms(1)] scan_dispatch_def Let_def using m(1) by simp
  moreover have "restrict_map (captureValues ?c) (set (capture_names (route_segments r))) =
      restrict_map vals (set (capture_names (route_segments r)))"
    using m(2) by (auto simp: restrict_map_def)
  ultimately show ?thesis by blast
qed

text \<open>A request for a path filled from a route's own pattern runs that route's handler with the
values the client filled in, if no other route serves the path as well.\<close>

theorem call_reaches_route:
  assumes "NewRoutesWithRejection (Some rejects) rs = Inr surface" and "r \<in> set rs"
    and "wf_segments (route_segments r)" and "fits (route_segments r) vals"
    and "fillPattern (route_segments r) vals = Inr (Path request)" and "Method request = route_method r"
    and "\<And>s. s \<in> set rs \<Longrightarrow> serves (Method request) (pathSegments (Path request)) s \<Longrightarrow> s \<noteq> r \<Longrightarrow>
           kinds r < kinds s"
  shows "\<exists>caps.
           restrict_map caps (set (capture_names (route_segments r))) =
           restrict_map vals (set (capture_names (route_segments r))) \<and>
           Routes_Handler succeed surface request = route_handler rejects r (WithCaptures request caps)"
  by (rule route_reached [OF assms])

theorem call_reaches_route_witness:
  "\<exists>surface caps.
     NewRoutesWithRejection (Some rejectRequest) example_routes = Inr surface \<and>
     restrict_map caps {''shelf''} = restrict_map [''shelf'' \<mapsto> ''old''] {''shelf''} \<and>
     Routes_Handler (\<lambda>r. r) surface (example_request ''GET'' ''/old'') =
       route_handler rejectRequest (hd example_routes) (WithCaptures (example_request ''GET'' ''/old'') caps)"
proof -
  obtain surface where s: "NewRoutesWithRejection (Some rejectRequest) example_routes = Inr surface"
    using example_surface by blast
  let ?r = "hd example_routes"
  have r: "route_segments ?r = [capturing ''shelf'']" "route_method ?r = ''GET''" "?r \<in> set example_routes"
    by (simp_all add: example_routes_def)
  have "\<exists>caps. restrict_map caps (set (capture_names (route_segments ?r))) =
           restrict_map [''shelf'' \<mapsto> ''old''] (set (capture_names (route_segments ?r))) \<and>
           Routes_Handler (\<lambda>r. r) surface (example_request ''GET'' ''/old'') =
             route_handler rejectRequest ?r (WithCaptures (example_request ''GET'' ''/old'') caps)"
    by (rule call_reaches_route [OF s r(3)])
      (auto simp: r example_patterns fits_def fillPattern_def capture_names_def
        ContainsAny_def go_results example_routes_def serves_def matches_def example_paths)
  with s show ?thesis by (auto simp: r capture_names_def)
qed

end
