(* ===== verification/Web_Settings.thy ===== *)
theory Web_Settings
  imports Web_Fill
begin

text \<open>
  What the settings of a surface do to what it answers, and what naming and measuring the
  phases of a route do to its handler.

  A surface with a setting dispatches to the same route with the setting applied, and
  answers every other request as before: proved once for the interface \<open>surface_setting\<close>. A
  route whose phases are named runs as the plain one does, under any runtime that keeps the
  laws stated in \<open>lawful\<close>.
\<close>

section \<open>Dispatching under a setting\<close>

context surface_setting
begin

lemma best_route_map: "best_route (map setting rs) method path = map_option setting (best_route rs method path)"
proof (induction rs)
  case (Cons r rs)
  have "serves method path (setting r) = serves method path r" for r
    by (simp add: serves_def matches_def keeps_method keeps_segments)
  moreover have "kinds (setting r) = kinds r" for r by (simp add: kinds_def keeps_segments)
  ultimately show ?case using Cons by (simp split: option.split)
qed simp

lemma names_map:
  "map route_method (filter (matches path) (map setting rs)) = map route_method (filter (matches path) rs)"
  by (induction rs) (simp_all add: matches_def keeps_segments keeps_method)

end

text \<open>The same interface, for surfaces whose handlers answer requests.\<close>

locale handler_setting = surface_setting setting
  for setting :: "('fr Handler, 'fin) Route \<Rightarrow> ('fr Handler, 'fin) Route"
begin

lemma dispatch_rebuilt:
  assumes "assembled surface" and "reject surface = Some rejects"
  shows "Routes_Handler succeed (rebuild setting surface) request =
           (case best_route (routes surface) (Method request) (pathSegments (Path request)) of
              None \<Rightarrow> Routes_Handler succeed surface request
            | Some r \<Rightarrow>
                route_handler rejects (setting r)
                  (WithCaptures request (captureValues
                     (the (match_path (route_segments r) (pathSegments (Path request)))))))"
proof -
  have old: "NewRoutesWithRejection (Some rejects) (routes surface) = Inr surface"
    using assms by (simp add: assembled_def)
  have new: "NewRoutesWithRejection (Some rejects) (map setting (routes surface)) = Inr (rebuild setting surface)"
    using reassembles [OF assms(1)] assms(2) by simp
  show ?thesis
    unfolding dispatch_is_scan [OF new] dispatch_is_scan [OF old] scan_dispatch_def Let_def
      best_route_map names_map
    by (simp add: keeps_segments split: option.split)
qed

end

interpretation wrapped: handler_setting "withMiddleware each" for each
  by unfold_locales

interpretation phased: handler_setting "withPhases sample" for sample
  by unfold_locales

interpretation spelled: handler_setting "withNaming Spell naming" for Spell naming
  by unfold_locales

lemma route_handler_withMiddleware:
  "usable r \<Longrightarrow>
   route_handler rejects (withMiddleware each r) = each (route_declaration r) (route_handler rejects r)"
  by (auto simp: usable_def withMiddleware_def route_handler_def)

section \<open>Laws of a runtime\<close>

datatype ('e, 'a) exit = Done 'a | Failed 'e | Died error

text \<open>
  What running an effect does to the world, per type of effect. The world does not include
  spans and samples: those are what a setting adds.
\<close>

record ('fr, 'fo, 'fd, 'w, 'e, 'i, 'out) observer =
  see_response :: "'fr \<Rightarrow> 'w \<Rightarrow> 'w \<times> ('e, Response) exit"
  see_output :: "'fo \<Rightarrow> 'w \<Rightarrow> 'w \<times> ('e, 'out) exit"
  see_decoded :: "'fd \<Rightarrow> 'w \<Rightarrow> 'w \<times> ('e, 'i decodeResult) exit"

fun continue :: "'w \<times> ('e, 'a) exit \<Rightarrow> ('a \<Rightarrow> 'w \<Rightarrow> 'w \<times> ('e, 'b) exit) \<Rightarrow> 'w \<times> ('e, 'b) exit" where
  "continue (w, Done a) k = k a w"
| "continue (w, Failed err) k = (w, Failed err)"
| "continue (w, Died err) k = (w, Died err)"

text \<open>Naming, finalizing and suspending an effect leave what it does alone.\<close>

definition transparent :: "('fx, 'fin) phase_ops \<Rightarrow> ('fx \<Rightarrow> 'w \<Rightarrow> 'w \<times> ('e, 'a) exit) \<Rightarrow> bool" where
  "transparent ops see \<longleftrightarrow>
     (\<forall>fx name. see (WithSpan ops fx name) = see fx) \<and>
     (\<forall>fx finish. see (Ensuring ops fx finish) = see fx) \<and>
     (\<forall>f. see (Suspend ops f) = see (f ()))"

definition lawful ::
  "('fr, 'fo, 'fd, 'fin, 'i, 'out) effect_ops \<Rightarrow> ('fr, 'fo, 'fd, 'w, 'e, 'i, 'out) observer \<Rightarrow> bool" where
  "lawful ops obs \<longleftrightarrow>
     transparent (on_response ops) (see_response obs) \<and>
     transparent (on_output ops) (see_output obs) \<and>
     transparent (on_decoded ops) (see_decoded obs) \<and>
     (\<forall>d w. see_decoded obs (Succeed_decoded ops d) w = (w, Done d)) \<and>
     (\<forall>fx k w. see_response obs (FlatMap_decoded ops fx k) w =
        continue (see_decoded obs fx w) (\<lambda>d. see_response obs (k d))) \<and>
     (\<forall>fx k w. see_response obs (FlatMap ops fx k) w =
        continue (see_output obs fx w) (\<lambda>v. see_response obs (k v)))"

lemma instrument_transparent: "transparent ops see \<Longrightarrow> see (instrumentPhase ops fx name sample) = see fx"
  by (auto simp: transparent_def instrumentPhase_def withSpan_def measurePhase_def split: option.split)

lemma continue_cong: "(\<And>a. k a = k' a) \<Longrightarrow> continue r k = continue r k'"
  by (cases "(r, k)" rule: continue.cases) auto

lemma phased_as_plain:
  assumes "lawful ops obs"
  shows "see_response obs (phaseHandler ops endpoint handle rejects ph naming request) =
         see_response obs (plainHandler ops endpoint handle rejects naming request)"
proof
  fix w
  have t: "transparent (on_response ops) (see_response obs)" "transparent (on_output ops) (see_output obs)"
    "transparent (on_decoded ops) (see_decoded obs)"
    and d: "\<And>d w. see_decoded obs (Succeed_decoded ops d) w = (w, Done d)"
    and fd: "\<And>fx k w. see_response obs (FlatMap_decoded ops fx k) w =
        continue (see_decoded obs fx w) (\<lambda>d. see_response obs (k d))"
    and fo: "\<And>fx k w. see_response obs (FlatMap ops fx k) w =
        continue (see_output obs fx w) (\<lambda>v. see_response obs (k v))"
    using assms by (auto simp: lawful_def)
  have suspend: "see_decoded obs (Suspend (on_decoded ops) f) = see_decoded obs (f ())"
    "see_response obs (Suspend (on_response ops) g) = see_response obs (g ())" for f g
    using t by (simp_all add: transparent_def)
  note i = instrument_transparent [OF t(1)] instrument_transparent [OF t(2)] instrument_transparent [OF t(3)]
  show "see_response obs (phaseHandler ops endpoint handle rejects ph naming request) w =
        see_response obs (plainHandler ops endpoint handle rejects naming request) w"
    by (cases "Decode (end_input endpoint) (request_withNaming request naming)")
      (simp_all add: phaseHandler_def plainHandler_def Let_def suspend fd fo i d)
qed

text \<open>A request the codec refuses does not reach the handler.\<close>

lemma refused_before_handler:
  assumes "firstRouteFault endpoint (Some handle) = None" and "lawful ops obs"
    and "Decode (end_input endpoint) (request_withNaming request naming) = Inl err"
  shows "\<exists>handler. build (Handle ops endpoint (Some handle)) = Some handler \<and>
           see_response obs (handler rejects ph naming request) =
           see_response obs (logRefusal ops (endpoint_Declaration endpoint) err (rejects err))"
proof -
  have "see_response obs (plainHandler ops endpoint handle rejects naming request) =
      see_response obs (logRefusal ops (endpoint_Declaration endpoint) err (rejects err))"
    using assms(2,3) by (simp add: plainHandler_def lawful_def transparent_def)
  then show ?thesis
    using assms(1) phased_as_plain [OF assms(2), of endpoint handle rejects ph naming request]
    by (simp add: Handle_def)
qed

section \<open>A runtime that keeps the laws\<close>

text \<open>Effects as what they do, with nothing to name or finalize: an instance of the parameters.\<close>

definition direct_phase :: "('w \<Rightarrow> 'w \<times> ('e, 'a) exit, 'fin) phase_ops" where
  "direct_phase = \<lparr>WithSpan = (\<lambda>fx _. fx), Ensuring = (\<lambda>fx _. fx), Suspend = (\<lambda>f. f ())\<rparr>"

definition direct_ops ::
  "('w \<Rightarrow> 'w \<times> ('e, Response) exit, 'w \<Rightarrow> 'w \<times> ('e, 'out) exit, 'w \<Rightarrow> 'w \<times> ('e, 'i decodeResult) exit,
    'fin, 'i, 'out) effect_ops" where
  "direct_ops =
     \<lparr>Succeed = (\<lambda>r w. (w, Done r)), Die = (\<lambda>err w. (w, Died err)),
      LogWarn_As = (\<lambda>_ _ r w. (w, Done r)),
      FlatMap = (\<lambda>fx k w. continue (fx w) k),
      Succeed_decoded = (\<lambda>d w. (w, Done d)), FlatMap_decoded = (\<lambda>fx k w. continue (fx w) k),
      on_response = direct_phase, on_output = direct_phase, on_decoded = direct_phase\<rparr>"

definition direct_observer ::
  "('w \<Rightarrow> 'w \<times> ('e, Response) exit, 'w \<Rightarrow> 'w \<times> ('e, 'out) exit, 'w \<Rightarrow> 'w \<times> ('e, 'i decodeResult) exit,
    'w, 'e, 'i, 'out) observer" where
  "direct_observer = \<lparr>see_response = (\<lambda>fx. fx), see_output = (\<lambda>fx. fx), see_decoded = (\<lambda>fx. fx)\<rparr>"

lemma direct_lawful: "lawful direct_ops direct_observer"
  by (simp add: lawful_def transparent_def direct_ops_def direct_observer_def direct_phase_def)

section \<open>What settings promise\<close>

text \<open>Naming and measuring the phases of a route changes nothing a request can tell: what the handler
does and answers is what it does and answers unnamed.\<close>

theorem phases_are_unobservable:
  assumes "lawful ops obs"
  shows "see_response obs (phaseHandler ops endpoint handle rejects ph naming request) =
         see_response obs (plainHandler ops endpoint handle rejects naming request)"
  by (rule phased_as_plain [OF assms])

type_synonym counting_ops =
  "(nat \<Rightarrow> nat \<times> (string, Response) exit, nat \<Rightarrow> nat \<times> (string, string) exit,
    nat \<Rightarrow> nat \<times> (string, unit decodeResult) exit, unit, unit, string) effect_ops"

theorem phases_are_unobservable_witness:
  "let ops = direct_ops :: counting_ops; endpoint = GET ''/a'' Nothing (Returns 200 verbatim);
       handle = (\<lambda>_ w. (Suc w, Done ''a''))
   in phaseHandler ops endpoint handle rejectRequest phaseNames None (example_request ''GET'' ''/a'') 3 =
      plainHandler ops endpoint handle rejectRequest None (example_request ''GET'' ''/a'') 3"
  using fun_cong [OF phases_are_unobservable [where ops = "direct_ops :: counting_ops", OF direct_lawful], of _ _ _ _ _ _ 3]
  by (simp add: direct_observer_def Let_def)

text \<open>A request the codec refuses is answered by the rejection and logged, and the handler does not
run.\<close>

theorem refusal_skips_handler:
  assumes "firstRouteFault endpoint (Some handle) = None" and "lawful ops obs"
    and "Decode (end_input endpoint) (request_withNaming request naming) = Inl err"
  shows "\<exists>handler. build (Handle ops endpoint (Some handle)) = Some handler \<and>
           see_response obs (handler rejects ph naming request) =
           see_response obs (logRefusal ops (endpoint_Declaration endpoint) err (rejects err))"
  by (rule refused_before_handler [OF assms])

lemma example_endpoint:
  "ValidateEndpoint (GET ''/a'' (QueryParam plain_library ''q'' verbatim) (Returns 200 verbatim)) = None"
proof -
  have "wf_segments [literal ''a'']" "renderPattern [literal ''a''] = ''/a''" by code_simp+
  moreover have "parameterFault ''q'' verbatim = None"
    by (simp add: parameterFault_def TrimSpace_visible)
  ultimately show ?thesis
    unfolding GET_def Declare_valid
    by (intro exI [of _ "[literal ''a'']"])
      (simp add: QueryParam_def requiredParameter_def ValidateCodec_def Let_def Returns_def
        InQuery_def InPath_def)
qed

theorem refusal_skips_handler_witness:
  "\<exists>handler.
     build (Handle direct_ops (GET ''/a'' (QueryParam plain_library ''q'' verbatim) (Returns 200 verbatim))
       (Some (\<lambda>_ w. (Suc w, Done ''a'')))) = Some handler \<and>
     fst (handler rejectRequest noPhases None (example_request ''GET'' ''/a'') (3 :: nat)) = 3"
proof -
  let ?codec = "QueryParam plain_library ''q'' verbatim"
  let ?e = "GET ''/a'' ?codec (Returns 200 verbatim)"
  have "parameterFault ''q'' verbatim = None"
    by (simp add: parameterFault_def TrimSpace_visible)
  then have "\<exists>err. Decode ?codec (request_withNaming (example_request ''GET'' ''/a'') None) = Inl err"
    by (simp add: QueryParam_def requiredParameter_def Decode_def ValidateCodec_def Let_def queryValue_def
        Query_def example_request_def RequestFrom_def request_withNaming_def)
  then obtain err where err: "Decode ?codec (request_withNaming (example_request ''GET'' ''/a'') None) = Inl err"
    by blast
  have fault: "firstRouteFault ?e (Some (\<lambda>_ w. (Suc w, Done ''a''))) = None"
    by (simp add: firstRouteFault_def example_endpoint)
  have "Decode (end_input ?e) (request_withNaming (example_request ''GET'' ''/a'') None) = Inl err"
    using err by (simp add: GET_def)
  from refusal_skips_handler [OF fault direct_lawful this, of rejectRequest noPhases]
  show ?thesis by (auto simp: direct_observer_def logRefusal_def direct_ops_def)
qed

text \<open>A middleware put on a surface wraps the handler of the route that a request is dispatched to,
and leaves the answer to a request no route serves alone.\<close>

theorem middleware_wraps_dispatch:
  assumes "assembled surface" and "reject surface = Some rejects"
  shows "Routes_Handler succeed (WithMiddleware surface (Some each)) request =
           (case best_route (routes surface) (Method request) (pathSegments (Path request)) of
              None \<Rightarrow> Routes_Handler succeed surface request
            | Some r \<Rightarrow>
                each (route_declaration r) (route_handler rejects r)
                  (WithCaptures request (captureValues
                     (the (match_path (route_segments r) (pathSegments (Path request)))))))"
proof -
  have usable: "usable r" if "best_route (routes surface) m p = Some r" for m p r
    using best_route_Some [OF that] assembled_iff [OF assms(1)] by blast
  show ?thesis
    unfolding WithMiddleware_def option.case wrapped.dispatch_rebuilt [OF assms]
    by (auto split: option.split simp: route_handler_withMiddleware dest!: usable)
qed

lemma example_assembled:
  "\<exists>surface. assembled surface \<and> reject surface = Some rejectRequest \<and> routes surface = example_routes"
proof -
  obtain surface where s: "NewRoutesWithRejection (Some rejectRequest) example_routes = Inr surface"
    using example_surface by blast
  from NewRoutes_assembled [OF s] NewRoutesWithRejection_Inr(3,4) [OF s] show ?thesis by blast
qed

theorem middleware_wraps_dispatch_witness:
  "\<exists>surface :: (Response Handler, unit) Routes. assembled surface \<and>
     status (Routes_Handler (\<lambda>r. r)
       (WithMiddleware surface (Some (\<lambda>decl h request. WithStatus (h request) 418)))
       (example_request ''GET'' ''/new'')) = 418"
proof -
  obtain surface where s: "assembled surface" "reject surface = Some rejectRequest"
    "routes surface = example_routes" using example_assembled by blast
  show ?thesis
    by (intro exI [of _ surface] conjI s(1), unfold middleware_wraps_dispatch [OF s(1,2)])
      (simp add: s(3) example_routes_def serves_def matches_def kinds_def example_paths
        less_segmentKind_def WithStatus_def)
qed

text \<open>A route's handler is blind to its phases if they change nothing anybody can see.\<close>

definition phase_blind :: "('fr \<Rightarrow> 'w \<Rightarrow> 'w \<times> ('e, Response) exit) \<Rightarrow> ('fr Handler, 'fin) Route \<Rightarrow> bool" where
  "phase_blind see r \<longleftrightarrow>
     (\<forall>b rejects ph ph' naming request. build r = Some b \<longrightarrow>
        see (b rejects ph naming request) = see (b rejects ph' naming request))"

lemma Handle_phase_blind: "lawful ops obs \<Longrightarrow> phase_blind (see_response obs) (Handle ops endpoint handle)"
  using phased_as_plain [of ops obs]
  by (auto simp: phase_blind_def Handle_def split: option.splits)

text \<open>Opening a span for every phase of every route of a surface changes nothing a request can tell
about it.\<close>

theorem phase_spans_are_unobservable:
  assumes "assembled surface" and "list_all (phase_blind see) (routes surface)"
  shows "see (Routes_Handler succeed (WithPhaseSpans surface) request) =
         see (Routes_Handler succeed surface request)"
proof -
  obtain rejects where r: "reject surface = Some rejects" using assembled_iff [OF assms(1)] by blast
  have old: "NewRoutesWithRejection (Some rejects) (routes surface) = Inr surface"
    using assms(1) r by (simp add: assembled_def)
  have same: "see (route_handler rejects (withPhases None q) x) = see (route_handler rejects q x)"
    if "best_route (routes surface) m p = Some q" for m p q x
  proof -
    from best_route_Some [OF that] have "usable q" "phase_blind see q"
      using assembled_iff [OF assms(1)] assms(2) by (auto simp: list_all_iff)
    then show ?thesis
      by (auto simp: usable_def route_handler_def withPhases_def phase_blind_def simp del: not_None_eq)
  qed
  show ?thesis
    unfolding WithPhaseSpans_def phased.dispatch_rebuilt [OF assms(1) r]
    by (auto split: option.split simp: same dispatch_is_scan [OF old] scan_dispatch_def Let_def)
qed

theorem phase_spans_are_unobservable_witness:
  "\<exists>surface. assembled surface \<and> routes surface = example_routes \<and>
     Routes_Handler (\<lambda>r. r) (WithPhaseSpans surface) (example_request ''GET'' ''/new'') =
     Routes_Handler (\<lambda>r. r) surface (example_request ''GET'' ''/new'')"
proof -
  obtain surface where s: "assembled surface" "routes surface = example_routes"
    using example_assembled by blast
  have "list_all (phase_blind (\<lambda>r (w :: unit). (w, Done r :: (unit, Response) exit))) (routes surface)"
    by (simp add: s(2) example_routes_def example_route_def phase_blind_def)
  from phase_spans_are_unobservable [OF s(1) this, of "\<lambda>r. r" "example_request ''GET'' ''/new''"]
  have "Routes_Handler (\<lambda>r. r) (WithPhaseSpans surface) (example_request ''GET'' ''/new'') =
     Routes_Handler (\<lambda>r. r) surface (example_request ''GET'' ''/new'')"
    by (simp add: fun_eq_iff)
  with s show ?thesis by blast
qed

end
