(* ===== verification/Web_Boundary.thy ===== *)
theory Web_Boundary
  imports Web_Dispatch
begin

text \<open>
  The boundary: sharing with other origins (\<open>web/cross_origin.go\<close>) and interpreting handlers as
  \<open>net/http\<close> handlers (\<open>web/adapter.go\<close>).

  The runtime is another module: running a handler is a function argument, and a cause is a
  value of a type variable with the four observers the adapter calls. What the adapter
  reports is returned beside its answer, in order.

  \<open>strings.EqualFold\<close> is only asked about the word Origin, none of whose letters folds with
  anything outside ASCII, so comparing in lower case is exact. Durations count nanoseconds;
  the seconds of \<open>MaxAge\<close> are its whole seconds, which is what Go's conversion through a
  floating point number gives below \<open>2 ^ 22\<close> seconds and for whole seconds.
\<close>

section \<open>Sharing with other origins\<close>

record CrossOrigin =
  AllowedOrigins :: "string list"
  AllowedHeaders :: "string list"
  ExposedHeaders :: "string list"
  MaxAge :: int

definition IsStated :: "CrossOrigin \<Rightarrow> bool" where
  "IsStated co \<longleftrightarrow> length (AllowedOrigins co) > 0"

definition allows :: "CrossOrigin \<Rightarrow> string \<Rightarrow> bool" where
  "allows co origin \<longleftrightarrow> origin \<noteq> [] \<and> origin \<in> set (AllowedOrigins co)"

definition allowedOrigin :: "CrossOrigin \<Rightarrow> http_request \<Rightarrow> string option" where
  "allowedOrigin co request =
     (let origin = header_Get (req_Header request) ''Origin'' in
      if allows co origin then Some origin else None)"

definition isPreflight :: "http_request \<Rightarrow> bool" where
  "isPreflight request \<longleftrightarrow>
     req_Method request = ''OPTIONS'' \<and>
     header_Get (req_Header request) ''Access-Control-Request-Method'' \<noteq> []"

definition headersFor :: "CrossOrigin \<Rightarrow> http_request \<Rightarrow> string" where
  "headersFor co request =
     (if length (AllowedHeaders co) > 0 then join '', '' (AllowedHeaders co)
      else header_Get (req_Header request) ''Access-Control-Request-Headers'')"

definition preflightResponse :: "CrossOrigin \<Rightarrow> http_request \<Rightarrow> string \<Rightarrow> Response" where
  "preflightResponse co request origin =
     (let base = WithHeader (WithHeader (WithHeader (Empty 204)
                   ''Access-Control-Allow-Origin'' origin)
                   ''Access-Control-Allow-Methods''
                      (header_Get (req_Header request) ''Access-Control-Request-Method''))
                   ''Vary'' ''Origin, Access-Control-Request-Method, Access-Control-Request-Headers'';
          named = (if headersFor co request \<noteq> []
                   then WithHeader base ''Access-Control-Allow-Headers'' (headersFor co request)
                   else base)
      in if MaxAge co > 0
         then WithHeader named ''Access-Control-Max-Age'' (itoa (MaxAge co div 1000000000))
         else named)"

definition EqualFold_Origin :: "string \<Rightarrow> bool" where
  "EqualFold_Origin s \<longleftrightarrow> map to_lower s = ''origin''"

definition varies_by_origin :: "string list \<Rightarrow> bool" where
  "varies_by_origin vs \<longleftrightarrow>
     (\<exists>value \<in> set vs. \<exists>name \<in> set (split_on (CHR '','') value). EqualFold_Origin (TrimSpace name))"

definition varyByOrigin :: "Response \<Rightarrow> string" where
  "varyByOrigin response =
     (let already = header_Values (resp_header response) ''Vary'' in
      if varies_by_origin already then join '', '' already
      else if already = [] then ''Origin''
      else join '', '' already @ '', Origin'')"

definition share :: "CrossOrigin \<Rightarrow> Response \<Rightarrow> string \<Rightarrow> Response" where
  "share co response origin =
     (let shared = WithHeader (WithHeader response ''Access-Control-Allow-Origin'' origin)
                     ''Vary'' (varyByOrigin response)
      in if length (ExposedHeaders co) > 0
         then WithHeader shared ''Access-Control-Expose-Headers'' (join '', '' (ExposedHeaders co))
         else shared)"

section \<open>The adapter\<close>

record ('c, 'e) cause_ops =
  ContainsDefect :: "'c \<Rightarrow> bool"
  cause_Failures :: "'c \<Rightarrow> 'e list"
  HasInterruptsOnly :: "'c \<Rightarrow> bool"
  cause_String :: "'c \<Rightarrow> string"

record ('c, 'e) Adapter =
  onFailure :: "'e \<Rightarrow> Response"
  onDefect :: "'c \<Rightarrow> Response"
  crossOrigin :: CrossOrigin
  quiet :: bool

definition errNoRuntime :: error where
  "errNoRuntime = declarationMistake ''a Runtime is required to interpret a handler''"

definition errNoFailureMapping :: error where
  "errNoFailureMapping = declarationMistake
     ''a failure mapping is required; a handler does not choose its own status''"

definition defectResponse :: "('c, 'e) cause_ops \<Rightarrow> 'c \<Rightarrow> Response" where
  "defectResponse ops cause = (if HasInterruptsOnly ops cause then Empty 503 else Empty 500)"

definition noCrossOrigin :: CrossOrigin where
  "noCrossOrigin = \<lparr>AllowedOrigins = [], AllowedHeaders = [], ExposedHeaders = [], MaxAge = 0\<rparr>"

definition NewAdapter ::
  "('c, 'e) cause_ops \<Rightarrow> bool \<Rightarrow> ('e \<Rightarrow> Response) option \<Rightarrow> (error, ('c, 'e) Adapter) result" where
  "NewAdapter ops has_runtime on_failure =
     (if \<not> has_runtime then Inl (fault_at ''build an adapter'' errNoRuntime)
      else (case on_failure of
              None \<Rightarrow> Inl (fault_at ''build an adapter'' errNoFailureMapping)
            | Some f \<Rightarrow>
                Inr \<lparr>onFailure = f, onDefect = defectResponse ops, crossOrigin = noCrossOrigin,
                     quiet = False\<rparr>))"

definition WithDefectResponse :: "('c, 'e) Adapter \<Rightarrow> ('c \<Rightarrow> Response) \<Rightarrow> ('c, 'e) Adapter" where
  "WithDefectResponse adapter respond = adapter\<lparr>onDefect := respond\<rparr>"

definition WithCrossOrigin :: "('c, 'e) Adapter \<Rightarrow> CrossOrigin \<Rightarrow> ('c, 'e) Adapter" where
  "WithCrossOrigin adapter co = adapter\<lparr>crossOrigin := co\<rparr>"

definition Quiet :: "('c, 'e) Adapter \<Rightarrow> ('c, 'e) Adapter" where
  "Quiet adapter = adapter\<lparr>quiet := True\<rparr>"

definition causeError :: "('c, 'e) cause_ops \<Rightarrow> 'c \<Rightarrow> error" where
  "causeError ops cause = Reason (''web: unhandled defect: '' @ cause_String ops cause)"

definition recordRefusal :: "('c, 'e) cause_ops \<Rightarrow> ('c, 'e) Adapter \<Rightarrow> 'c \<Rightarrow> error list" where
  "recordRefusal ops adapter cause =
     (if quiet adapter then [] else [Reason (''web: refused: '' @ cause_String ops cause)])"

definition responseForCause ::
  "('c, 'e) cause_ops \<Rightarrow> ('c, 'e) Adapter \<Rightarrow> 'c \<Rightarrow> Response \<times> error list" where
  "responseForCause ops adapter cause =
     (if ContainsDefect ops cause then (onDefect adapter cause, [causeError ops cause])
      else (case cause_Failures ops cause of
              failure # rest \<Rightarrow> (onFailure adapter failure, recordRefusal ops adapter cause)
            | [] \<Rightarrow> (onDefect adapter cause, [])))"

definition Interpret :: "('c, 'e) cause_ops \<Rightarrow> 'c + unit \<Rightarrow> error list" where
  "Interpret ops outcome =
     (case outcome of
        Inr _ \<Rightarrow> []
      | Inl cause \<Rightarrow>
          if HasInterruptsOnly ops cause then []
          else [Reason (''web: the exchange ended badly: '' @ cause_String ops cause)])"

definition answer ::
  "('c, 'e) cause_ops \<Rightarrow> ('fr \<Rightarrow> 'c + Response) \<Rightarrow> ('c, 'e) Adapter \<Rightarrow> 'fr Handler \<Rightarrow> http_request \<Rightarrow>
   Response \<times> error list" where
  "answer ops run_effect adapter handler request =
     (let shared = allowedOrigin (crossOrigin adapter) request in
      if shared \<noteq> None \<and> isPreflight request
      then (preflightResponse (crossOrigin adapter) request (the shared), [])
      else
        (let (response, reports) =
               (case run_effect (handler (RequestFrom request)) of
                  Inl cause \<Rightarrow> responseForCause ops adapter cause
                | Inr response \<Rightarrow> (response, []))
         in case shared of
              None \<Rightarrow> (response, reports)
            | Some origin \<Rightarrow> (share (crossOrigin adapter) response origin, reports)))"

definition Adapter_Handler ::
  "('c, 'e) cause_ops \<Rightarrow> ('fr \<Rightarrow> 'c + Response) \<Rightarrow> ('c, 'e) Adapter \<Rightarrow> 'fr Handler \<Rightarrow>
   writer \<Rightarrow> http_request \<Rightarrow> writer \<times> error list" where
  "Adapter_Handler ops run_effect adapter handler w request =
     (let (response, reports) = answer ops run_effect adapter handler request;
          (w', err) = WriteTo response w request
      in (w', reports @ (case err of None \<Rightarrow> [] | Some e \<Rightarrow> [fault_at ''write the response'' e])))"

section \<open>Vary\<close>

definition tokens :: "string \<Rightarrow> string list" where
  "tokens value = map TrimSpace (split_on (CHR '','') value)"

lemma split_on_sep: "split_on c (xs @ c # ys) = split_on c xs @ split_on c ys"
proof (induction xs)
  case (Cons x xs)
  obtain w ws where "split_on c xs = w # ws" by (cases "split_on c xs") auto
  with Cons show ?case by auto
qed simp

lemma TrimSpace_space: "TrimSpace (CHR '' '' # t) = TrimSpace t"
proof -
  have "find (HasPrefix (CHR '' '' # t)) space_runes = Some [CHR '' '']"
    by (simp add: space_runes_def HasPrefix_def)
  then show ?thesis by (simp add: TrimSpace_def)
qed

lemma tokens_space: "tokens (CHR '' '' # t) = tokens t"
proof -
  obtain w ws where "split_on (CHR '','') t = w # ws" by (cases "split_on (CHR '','') t") auto
  then show ?thesis by (simp add: tokens_def TrimSpace_space)
qed

lemma tokens_append: "tokens (v @ '', '' @ w) = tokens v @ tokens w"
  using tokens_space [of w] by (simp add: tokens_def split_on_sep)

lemma tokens_join: "vs \<noteq> [] \<Longrightarrow> tokens (join '', '' vs) = concat (map tokens vs)"
proof (induction vs)
  case (Cons v vs)
  then show ?case using tokens_append [of v "join '', '' vs"] by (auto simp: join_Cons)
qed simp

lemma varies_tokens: "varies_by_origin vs \<longleftrightarrow> (\<exists>t \<in> set (concat (map tokens vs)). EqualFold_Origin t)"
  by (auto simp: varies_by_origin_def tokens_def)

lemma tokens_Origin: "tokens ''Origin'' = [''Origin'']"
proof -
  have "TrimSpace ''Origin'' = ''Origin''"
    by (rule TrimSpace_keeps) (simp_all add: space_runes_def HasPrefix_def)
  then show ?thesis by (simp add: tokens_def)
qed

lemma EqualFold_Origin_itself: "EqualFold_Origin ''Origin''"
  by code_simp

lemma varyByOrigin_tokens:
  "(\<exists>t \<in> set (tokens (varyByOrigin response)). EqualFold_Origin t) \<and>
   set (concat (map tokens (header_Values (resp_header response) ''Vary''))) \<subseteq>
     set (tokens (varyByOrigin response))"
proof -
  let ?vs = "header_Values (resp_header response) ''Vary''"
  consider "varies_by_origin ?vs" | "\<not> varies_by_origin ?vs" "?vs = []"
    | "\<not> varies_by_origin ?vs" "?vs \<noteq> []" by blast
  then show ?thesis
  proof cases
    case 1
    then have "?vs \<noteq> []" by (auto simp: varies_by_origin_def)
    then have "tokens (varyByOrigin response) = concat (map tokens ?vs)"
      using 1 by (simp add: varyByOrigin_def Let_def tokens_join)
    with 1 [unfolded varies_tokens] show ?thesis by simp
  next
    case 2
    then show ?thesis by (simp add: varyByOrigin_def tokens_Origin EqualFold_Origin_itself)
  next
    case 3
    then have "varyByOrigin response = join '', '' ?vs @ '', '' @ ''Origin''"
      by (simp add: varyByOrigin_def Let_def)
    then have "tokens (varyByOrigin response) = concat (map tokens ?vs) @ [''Origin'']"
      by (simp only: tokens_append tokens_join [OF 3(2)] tokens_Origin)
    then show ?thesis by (auto simp: EqualFold_Origin_itself)
  qed
qed

lemma WithHeader_simps [simp]:
  "status (WithHeader r n v) = status r" "resp_write (WithHeader r n v) = resp_write r"
  "resp_header (WithHeader r n v) = header_Set (resp_header r) n v"
  by (simp_all add: WithHeader_def)

lemma sharing_names:
  "CanonicalMIMEHeaderKey ''Access-Control-Allow-Origin'' = ''Access-Control-Allow-Origin''"
  "CanonicalMIMEHeaderKey ''Access-Control-Expose-Headers'' = ''Access-Control-Expose-Headers''"
  "CanonicalMIMEHeaderKey ''Vary'' = ''Vary''"
  by code_simp+

lemma share_header:
  "resp_header (share co response origin) =
     (let shared = (resp_header response)(''Access-Control-Allow-Origin'' \<mapsto> [origin],
                                          ''Vary'' \<mapsto> [varyByOrigin response])
      in if ExposedHeaders co = [] then shared
         else shared(''Access-Control-Expose-Headers'' \<mapsto> [join '', '' (ExposedHeaders co)]))"
  by (simp add: share_def header_Set_def sharing_names Let_def)

lemma share_rest:
  "status (share co response origin) = status response"
  "resp_write (share co response origin) = resp_write response"
  by (simp_all add: share_def Let_def)

section \<open>What the boundary promises\<close>

text \<open>A request from an origin that is not allowed is answered as if nothing were shared.\<close>

theorem unlisted_origin_is_not_shared:
  assumes "allowedOrigin (crossOrigin adapter) request = None"
  shows "answer ops run_effect adapter handler request =
         answer ops run_effect (WithCrossOrigin adapter noCrossOrigin) handler request"
proof -
  have "allowedOrigin noCrossOrigin request = None"
    by (simp add: allowedOrigin_def allows_def noCrossOrigin_def Let_def)
  moreover have "responseForCause ops (adapter\<lparr>crossOrigin := co\<rparr>) = responseForCause ops adapter" for co
    by (rule ext) (simp add: responseForCause_def recordRefusal_def split: list.split)
  ultimately show ?thesis
    using assms by (simp add: answer_def Let_def WithCrossOrigin_def split: sum.split)
qed

definition example_adapter :: "(string, string) Adapter" where
  "example_adapter = \<lparr>onFailure = Text 422, onDefect = (\<lambda>_. Empty 500),
     crossOrigin = noCrossOrigin\<lparr>AllowedOrigins := [''https://a.example'']\<rparr>, quiet = False\<rparr>"

definition example_causes :: "(string, string) cause_ops" where
  "example_causes = \<lparr>ContainsDefect = (\<lambda>c. c = []), cause_Failures = (\<lambda>c. [c]),
                     HasInterruptsOnly = (\<lambda>_. False), cause_String = (\<lambda>c. c)\<rparr>"

definition from_origin :: "string \<Rightarrow> string \<Rightarrow> http_request" where
  "from_origin verb origin =
     \<lparr>req_Method = verb, URL_Path = ''/'', URL_Query = Map.empty,
      req_Header = header_Set (header_Set Map.empty ''Origin'' origin) ''Access-Control-Request-Method'' ''PUT'',
      req_Body = None\<rparr>"

lemma from_origin_allowed:
  "allowedOrigin (crossOrigin example_adapter) (from_origin verb origin) =
     (if origin = ''https://a.example'' then Some origin else None)"
  "isPreflight (from_origin verb origin) = (verb = ''OPTIONS'')"
proof -
  have "CanonicalMIMEHeaderKey ''Origin'' = ''Origin''"
    "CanonicalMIMEHeaderKey ''Access-Control-Request-Method'' = ''Access-Control-Request-Method''"
    by code_simp+
  then have "header_Get (req_Header (from_origin verb origin)) ''Origin'' = origin"
    "header_Get (req_Header (from_origin verb origin)) ''Access-Control-Request-Method'' = ''PUT''"
    by (simp_all add: from_origin_def header_Get_def header_Set_def)
  then show
    "allowedOrigin (crossOrigin example_adapter) (from_origin verb origin) =
       (if origin = ''https://a.example'' then Some origin else None)"
    "isPreflight (from_origin verb origin) = (verb = ''OPTIONS'')"
    by (simp_all add: allowedOrigin_def allows_def example_adapter_def noCrossOrigin_def isPreflight_def
        from_origin_def)
qed

theorem unlisted_origin_is_not_shared_witness:
  "answer example_causes Inr example_adapter (\<lambda>_. Empty 204) (from_origin ''GET'' ''https://b.example'') =
   answer example_causes Inr (WithCrossOrigin example_adapter noCrossOrigin) (\<lambda>_. Empty 204)
     (from_origin ''GET'' ''https://b.example'')"
  by (rule unlisted_origin_is_not_shared) (simp add: from_origin_allowed)

text \<open>A preflight from an allowed origin is answered without the handler: whatever the handler and
the runtime are, the answer is the same, names the origin, and nothing is reported.\<close>

theorem preflight_skips_handler:
  assumes "allowedOrigin (crossOrigin adapter) request = Some origin" and "isPreflight request"
  shows "\<exists>response.
           (\<forall>run_effect handler. answer ops run_effect adapter handler request = (response, [])) \<and>
           status response = 204 \<and>
           header_Get (resp_header response) ''Access-Control-Allow-Origin'' = origin"
proof -
  have names: "CanonicalMIMEHeaderKey ''Access-Control-Allow-Methods'' = ''Access-Control-Allow-Methods''"
    "CanonicalMIMEHeaderKey ''Access-Control-Allow-Headers'' = ''Access-Control-Allow-Headers''"
    "CanonicalMIMEHeaderKey ''Access-Control-Max-Age'' = ''Access-Control-Max-Age''"
    by code_simp+
  show ?thesis
    using assms
    by (intro exI [of _ "preflightResponse (crossOrigin adapter) request origin"])
      (simp add: answer_def Let_def preflightResponse_def header_Get_def header_Set_def sharing_names
        names Empty_def)
qed

theorem preflight_skips_handler_witness:
  "\<exists>response.
     (\<forall>run_effect (handler :: unit Handler). answer example_causes run_effect example_adapter handler
        (from_origin ''OPTIONS'' ''https://a.example'') = (response, [])) \<and>
     status response = 204 \<and>
     header_Get (resp_header response) ''Access-Control-Allow-Origin'' = ''https://a.example''"
  by (rule preflight_skips_handler) (simp_all add: from_origin_allowed)

text \<open>What a handler answers to an allowed origin goes out with its status and its body, naming the
origin, and says that it varies by origin beside everything it already varied by.\<close>

theorem shared_answer_varies_by_origin:
  assumes "allowedOrigin (crossOrigin adapter) request = Some origin" and "\<not> isPreflight request"
    and "run_effect (handler (RequestFrom request)) = Inr response"
  shows "\<exists>shared.
           answer ops run_effect adapter handler request = (shared, []) \<and>
           status shared = status response \<and> resp_write shared = resp_write response \<and>
           header_Values (resp_header shared) ''Access-Control-Allow-Origin'' = [origin] \<and>
           set (concat (map tokens (header_Values (resp_header response) ''Vary''))) \<subseteq>
             set (concat (map tokens (header_Values (resp_header shared) ''Vary''))) \<and>
           (\<exists>t \<in> set (concat (map tokens (header_Values (resp_header shared) ''Vary''))). EqualFold_Origin t)"
  using assms varyByOrigin_tokens [of response]
  by (intro exI [of _ "share (crossOrigin adapter) response origin"])
    (simp add: answer_def Let_def share_rest share_header header_Values_def sharing_names)

theorem shared_answer_varies_by_origin_witness:
  "\<exists>shared.
     answer example_causes Inr example_adapter (\<lambda>_. WithHeader (Empty 204) ''Vary'' ''Accept'')
       (from_origin ''GET'' ''https://a.example'') = (shared, []) \<and>
     header_Values (resp_header shared) ''Access-Control-Allow-Origin'' = [''https://a.example'']"
  using shared_answer_varies_by_origin [of example_adapter "from_origin ''GET'' ''https://a.example''"
      "''https://a.example''" Inr "\<lambda>_. WithHeader (Empty 204) ''Vary'' ''Accept''" _ example_causes]
  by (auto simp: from_origin_allowed)

end
