(* ===== verification/Net_Url.thy ===== *)
theory Net_Url
  imports Web_Codec
begin

text \<open>
  The parts of \<open>net/url\<close> that \<open>web/client.go\<close>, \<open>web/upstream_cache.go\<close> and \<open>web/request.go\<close> call:
  escaping and reading a query (\<open>QueryEscape\<close>, \<open>Values.Encode\<close>, \<open>URL.Query\<close>) and parsing an
  address (\<open>url.Parse\<close>, which \<open>http.NewRequestWithContext\<close> calls).

  An address is one with a scheme \<open>http\<close> or \<open>https\<close> in small letters, which is what a client is
  dialled with; the check of its host is a parameter. The bound on the number of parameters
  that recent versions of Go put on a query is left out.

  What is proved: a query that is encoded and read again is the one it was, and an address is
  taken apart into the host, the path and the query it was put together from, when its path has
  nothing in it that an address gives a meaning to.
\<close>

section \<open>Escaping\<close>

definition hex_digit :: "nat \<Rightarrow> char" where
  "hex_digit n = (if n < 10 then char_of (48 + n) else char_of (55 + n))"

definition escape_byte :: "char \<Rightarrow> string" where
  "escape_byte c =
     (if is_capital c \<or> is_small c \<or> is_digit c \<or> c \<in> set ''-_.~'' then [c]
      else if c = CHR '' '' then ''+''
      else [CHR ''%'', hex_digit (byte c div 16), hex_digit (byte c mod 16)])"

definition QueryEscape :: "string \<Rightarrow> string" where
  "QueryEscape s = concat (map escape_byte s)"

definition unhex :: "char \<Rightarrow> nat option" where
  "unhex c =
     (if is_digit c then Some (byte c - 48)
      else if 65 \<le> byte c \<and> byte c \<le> 70 then Some (byte c - 55)
      else if 97 \<le> byte c \<and> byte c \<le> 102 then Some (byte c - 87)
      else None)"

text \<open>Only the reading of a query takes a plus for a space.\<close>

fun unescape :: "bool \<Rightarrow> string \<Rightarrow> string option" where
  "unescape in_query [] = Some []"
| "unescape in_query (c # cs) =
     (if c = CHR ''%''
      then (case cs of
              a # b # rest \<Rightarrow>
                (case (unhex a, unhex b) of
                   (Some m, Some n) \<Rightarrow> map_option ((#) (char_of (16 * m + n))) (unescape in_query rest)
                 | _ \<Rightarrow> None)
            | _ \<Rightarrow> None)
      else map_option ((#) (if in_query \<and> c = CHR ''+'' then CHR '' '' else c)) (unescape in_query cs))"

lemma unhex_hex_digit: "n < 16 \<Longrightarrow> unhex (hex_digit n) = Some n"
  by (auto simp: unhex_def hex_digit_def is_digit_def take_bit_eq_mod)

lemma hex_digit_plain: "n < 16 \<Longrightarrow> is_digit (hex_digit n) \<or> is_capital (hex_digit n)"
  by (auto simp: hex_digit_def is_digit_def is_capital_def take_bit_eq_mod)

lemma byte_high: "byte c div 16 < 16"
  by (rule less_mult_imp_div_less) simp

lemma unescape_escape_byte: "unescape True (escape_byte c @ s) = map_option ((#) c) (unescape True s)"
proof (cases "is_capital c \<or> is_small c \<or> is_digit c \<or> c \<in> set ''-_.~''")
  case True
  then have "c \<noteq> CHR ''%''" "c \<noteq> CHR ''+''" by (auto simp: is_capital_def is_small_def is_digit_def)
  with True show ?thesis by (simp add: escape_byte_def)
next
  case False
  have "unhex (hex_digit (byte c div 16)) = Some (byte c div 16)"
    "unhex (hex_digit (byte c mod 16)) = Some (byte c mod 16)" by (simp_all add: unhex_hex_digit byte_high)
  moreover have "(char_of (16 * (byte c div 16) + byte c mod 16) :: char) = c" by simp
  ultimately show ?thesis using False by (simp add: escape_byte_def)
qed

lemma unescape_QueryEscape [simp]: "unescape True (QueryEscape s) = Some s"
  by (induction s) (simp_all add: QueryEscape_def unescape_escape_byte)

text \<open>Nothing that a query is taken apart at is left in an escaped text.\<close>

lemma escape_byte_plain:
  "d \<in> set (escape_byte c) \<Longrightarrow> is_capital d \<or> is_small d \<or> is_digit d \<or> d \<in> set ''-_.~+%''"
  using hex_digit_plain [OF byte_high, of c] hex_digit_plain [of "byte c mod 16"]
  unfolding escape_byte_def by (cases "is_capital c \<or> is_small c \<or> is_digit c \<or> c \<in> set ''-_.~''"; cases "c = CHR '' ''") force+

lemma QueryEscape_clean:
  assumes "d \<in> {CHR ''&'', CHR ''='', CHR '';'', CHR ''#''}"
  shows "d \<notin> set (QueryEscape s)"
proof
  assume "d \<in> set (QueryEscape s)"
  then obtain c where "d \<in> set (escape_byte c)" by (auto simp: QueryEscape_def)
  then have "is_capital d \<or> is_small d \<or> is_digit d \<or> d \<in> set ''-_.~+%''" by (rule escape_byte_plain)
  with assms show False by (auto simp: is_capital_def is_small_def is_digit_def)
qed

section \<open>Queries\<close>

text \<open>Pairs sorted by key, each key once per value.\<close>

definition query_text :: "string \<times> string \<Rightarrow> string" where
  "query_text pair = QueryEscape (fst pair) @ ''='' @ QueryEscape (snd pair)"

definition query_pairs :: "(string \<times> string list) list \<Rightarrow> (string \<times> string) list" where
  "query_pairs query = concat (map (\<lambda>(k, vs). map (Pair k) vs) query)"

definition Encode :: "(string \<times> string list) list \<Rightarrow> string" where
  "Encode query = join ''&'' (map query_text (query_pairs (sort_key fst query)))"

definition cut_at :: "char \<Rightarrow> string \<Rightarrow> string \<times> string" where
  "cut_at c s = (takeWhile (\<lambda>d. d \<noteq> c) s, drop 1 (dropWhile (\<lambda>d. d \<noteq> c) s))"

text \<open>A part that is empty, has a semicolon or cannot be unescaped is passed over.\<close>

definition read_pair :: "string \<Rightarrow> (string \<times> string) option" where
  "read_pair part =
     (if part = [] \<or> CHR '';'' \<in> set part then None
      else let (key, value) = cut_at (CHR ''='') part in
        (case (unescape True key, unescape True value) of
           (Some k, Some v) \<Rightarrow> Some (k, v)
         | _ \<Rightarrow> None))"

definition grouped :: "('k \<times> 'v) list \<Rightarrow> 'k \<Rightarrow> 'v list option" where
  "grouped pairs k = (case map snd (filter (\<lambda>p. fst p = k) pairs) of [] \<Rightarrow> None | vs \<Rightarrow> Some vs)"

definition ParseQuery :: "string \<Rightarrow> http_header" where
  "ParseQuery raw = grouped (List.map_filter read_pair (split_on (CHR ''&'') raw))"

lemma cut_at_append: "c \<notin> set s \<Longrightarrow> cut_at c (s @ c # t) = (s, t)"
  by (induction s) (auto simp: cut_at_def)

lemma cut_at_absent: "c \<notin> set s \<Longrightarrow> cut_at c s = (s, [])"
  by (induction s) (auto simp: cut_at_def)

lemma read_pair_query_text [simp]: "read_pair (query_text p) = Some p"
proof -
  have "CHR '';'' \<notin> set (query_text p)"
    using QueryEscape_clean [of "CHR '';''"] by (simp add: query_text_def)
  moreover have "cut_at (CHR ''='') (query_text p) = (QueryEscape (fst p), QueryEscape (snd p))"
    using cut_at_append [OF QueryEscape_clean] by (simp add: query_text_def)
  ultimately show ?thesis by (cases p) (simp add: read_pair_def query_text_def)
qed

lemma map_filter_query_texts: "List.map_filter read_pair (map query_text ps) = ps"
  by (induction ps) (simp_all add: map_filter_simps)

lemma ParseQuery_Encode_pairs: "ParseQuery (Encode query) = grouped (query_pairs (sort_key fst query))"
proof (cases "query_pairs (sort_key fst query) = []")
  case True
  then show ?thesis by (simp add: ParseQuery_def Encode_def map_filter_simps read_pair_def)
next
  case False
  have "CHR ''&'' \<notin> set (query_text p)" for p
    using QueryEscape_clean [of "CHR ''&''"] by (simp add: query_text_def)
  then have "split_on (CHR ''&'') (Encode query) = map query_text (query_pairs (sort_key fst query))"
    unfolding Encode_def using False by (intro split_on_join) auto
  then show ?thesis by (simp add: ParseQuery_def map_filter_query_texts)
qed

text \<open>Grouping the pairs of a query with one entry per key gives its entries back.\<close>

lemma values_of_query:
  "distinct (map fst query) \<Longrightarrow>
   map snd (filter (\<lambda>p. fst p = k) (query_pairs query)) = (case map_of query k of None \<Rightarrow> [] | Some vs \<Rightarrow> vs)"
proof (induction query)
  case (Cons e query)
  obtain k' vs where e: "e = (k', vs)" by force
  have own: "filter (\<lambda>p. fst p = k) (map (Pair k') vs) = (if k' = k then map (Pair k') vs else [])"
    by (induction vs) auto
  have "query_pairs (e # query) = map (Pair k') vs @ query_pairs query" by (simp add: query_pairs_def e)
  moreover have "k' = k \<Longrightarrow> map_of query k = None" using Cons.prems by (simp add: e map_of_eq_None_iff)
  ultimately show ?case using Cons by (auto simp: e own comp_def)
qed (simp add: query_pairs_def)

lemma map_of_sort_key: "distinct (map fst query) \<Longrightarrow> map_of (sort_key fst query) = map_of query"
  by (rule map_of_inject_set [THEN iffD2]) (simp_all add: distinct_map inj_on_def)

lemma ParseQuery_Encode:
  assumes "distinct (map fst query)"
  shows "ParseQuery (Encode query) k = (case map_of query k of None \<Rightarrow> None | Some vs \<Rightarrow> if vs = [] then None else Some vs)"
proof -
  have "distinct (map fst (sort_key fst query))"
    using assms by (metis mset_eq_imp_distinct_iff mset_map mset_sort)
  from values_of_query [OF this, of k] show ?thesis
    by (simp add: ParseQuery_Encode_pairs grouped_def map_of_sort_key [OF assms] split: option.split list.split)
qed

text \<open>A query is encoded in one way, whatever order it was built in.\<close>

lemma sort_key_perm:
  assumes "mset xs = mset ys" and "distinct (map fst xs)"
  shows "sort_key fst xs = sort_key fst (ys :: ('k::linorder \<times> 'v) list)"
proof (rule properties_for_sort_key)
  show "mset (sort_key fst ys) = mset xs" using assms(1) by simp
  have "mset (map fst xs) = mset (map fst ys)" using assms(1) by simp
  with assms(2) have d: "distinct (map fst ys)" by (metis mset_eq_imp_distinct_iff)
  have one: "filter (\<lambda>x. fst x = k) zs = filter (\<lambda>x. fst x = k) zs'"
    if "mset zs = mset zs'" "distinct (map fst zs)" "distinct (map fst zs')" for zs zs' :: "('k \<times> 'v) list" and k
  proof -
    have len: "length (filter (\<lambda>x. fst x = k) ws) \<le> 1" if "distinct (map fst ws)" for ws :: "('k \<times> 'v) list"
      using that by (induction ws) (auto simp: filter_empty_conv image_iff)
    have "mset (filter (\<lambda>x. fst x = k) zs) = mset (filter (\<lambda>x. fst x = k) zs')"
      using that(1) by simp
    with len [OF that(2)] len [OF that(3)] show ?thesis
      by (cases "filter (\<lambda>x. fst x = k) zs"; cases "filter (\<lambda>x. fst x = k) zs'") auto
  qed
  have ds: "distinct (map fst (sort_key fst ys))"
    using d by (metis mset_eq_imp_distinct_iff mset_map mset_sort)
  show "filter (\<lambda>x. fst k = fst x) (sort_key fst ys) = filter (\<lambda>x. fst k = fst x) xs"
    if "k \<in> set (sort_key fst ys)" for k
    using one [of "sort_key fst ys" xs "fst k"] assms ds by (simp add: eq_commute)
  show "sorted (map fst (sort_key fst ys))" by simp
qed

lemma Encode_perm:
  "mset q = mset q' \<Longrightarrow> distinct (map fst q) \<Longrightarrow> Encode q = Encode q'"
  by (simp add: Encode_def sort_key_perm)

section \<open>Addresses\<close>

record URL =
  url_Host :: string
  url_Path :: string
  url_RawQuery :: string

definition is_control :: "char \<Rightarrow> bool" where
  "is_control c \<longleftrightarrow> byte c < 32 \<or> byte c = 127"

definition after_scheme :: "string \<Rightarrow> string option" where
  "after_scheme s =
     (if HasPrefix s ''http://'' then Some (TrimPrefix s ''http://'')
      else if HasPrefix s ''https://'' then Some (TrimPrefix s ''https://'')
      else None)"

text \<open>What is behind a hash is a fragment, which is read and never sent.\<close>

definition url_Parse :: "(string \<Rightarrow> bool) \<Rightarrow> string \<Rightarrow> URL option" where
  "url_Parse host_ok raw =
     (let (sent, fragment) = cut_at (CHR ''#'') raw in
      if list_ex is_control sent \<or> unescape False fragment = None then None
      else (case after_scheme sent of
              None \<Rightarrow> None
            | Some rest \<Rightarrow>
                (let (before, raw_query) = cut_at (CHR ''?'') rest;
                     host = takeWhile (\<lambda>c. c \<noteq> CHR ''/'') before
                 in if \<not> host_ok host then None
                    else map_option (\<lambda>decoded. \<lparr>url_Host = host, url_Path = decoded, url_RawQuery = raw_query\<rparr>)
                           (unescape False (dropWhile (\<lambda>c. c \<noteq> CHR ''/'') before)))))"

text \<open>A path that an address gives back as it is: nothing in it is cut off or unescaped, and nothing
makes the address one that cannot be parsed.\<close>

definition plain_path :: "string \<Rightarrow> bool" where
  "plain_path path \<longleftrightarrow> list_all (\<lambda>c. \<not> is_control c \<and> c \<notin> set ''#?%'') path"

definition plain_host :: "string \<Rightarrow> bool" where
  "plain_host host \<longleftrightarrow> list_all (\<lambda>c. \<not> is_control c \<and> c \<notin> set ''#?/'') host"

lemma unescape_plain: "CHR ''%'' \<notin> set s \<Longrightarrow> unescape False s = Some s"
  by (induction s) auto

lemma set_join: "set (join sep parts) \<subseteq> set sep \<union> \<Union> (set ` set parts)"
  by (induction parts) (auto simp: join_Cons)

lemma Encode_clean: "CHR ''#'' \<notin> set (Encode query) \<and> \<not> list_ex is_control (Encode query)"
proof -
  have escaped: "d \<noteq> CHR ''#'' \<and> \<not> is_control d" if "d \<in> set (QueryEscape s)" for d s
  proof -
    obtain c where "d \<in> set (escape_byte c)" using \<open>d \<in> set (QueryEscape s)\<close> by (auto simp: QueryEscape_def)
    then have "is_capital d \<or> is_small d \<or> is_digit d \<or> d \<in> set ''-_.~+%''" by (rule escape_byte_plain)
    then show ?thesis by (auto simp: is_capital_def is_small_def is_digit_def is_control_def)
  qed
  then have texts: "d \<noteq> CHR ''#'' \<and> \<not> is_control d" if "d \<in> set (query_text p)" for d p
    using that by (auto simp: query_text_def is_control_def)
  have "d \<noteq> CHR ''#'' \<and> \<not> is_control d" if "d \<in> set (Encode query)" for d
  proof -
    have "d = CHR ''&'' \<or> (\<exists>p. d \<in> set (query_text p))"
      using set_join [of "''&''" "map query_text (query_pairs (sort_key fst query))"] that
      unfolding Encode_def by auto
    then show ?thesis using texts by (elim disjE) (simp add: is_control_def, blast)
  qed
  then show ?thesis by (auto simp: list_ex_iff)
qed

lemma cut_at_prefix: "c \<notin> set s \<Longrightarrow> cut_at c (s @ t) = (s @ fst (cut_at c t), snd (cut_at c t))"
  by (induction s) (auto simp: cut_at_def)

definition sendable :: "string \<Rightarrow> bool" where
  "sendable target \<longleftrightarrow>
     HasPrefix target ''/'' \<and> list_all (\<lambda>c. \<not> is_control c \<and> c \<noteq> CHR ''#'') target"

text \<open>An address is taken apart into its host, what stands before the first question mark, unescaped,
and what stands after it.\<close>

lemma url_Parse_address:
  assumes "plain_host host" and "host_ok host" and "sendable target"
  shows "url_Parse host_ok (''http://'' @ host @ target) =
           map_option (\<lambda>decoded. \<lparr>url_Host = host, url_Path = decoded, url_RawQuery = snd (cut_at (CHR ''?'') target)\<rparr>)
             (unescape False (fst (cut_at (CHR ''?'') target)))"
proof -
  let ?before = "fst (cut_at (CHR ''?'') target)"
  obtain rest where target: "target = CHR ''/'' # rest"
    using assms(3) by (cases target) (auto simp: sendable_def)
  have chars: "\<And>c. c \<in> set host \<Longrightarrow> \<not> is_control c \<and> c \<noteq> CHR ''#'' \<and> c \<noteq> CHR ''?'' \<and> c \<noteq> CHR ''/''"
    "\<And>c. c \<in> set target \<Longrightarrow> \<not> is_control c \<and> c \<noteq> CHR ''#''"
    using assms(1,3) by (auto simp: plain_host_def sendable_def list_all_iff)
  have whole: "cut_at (CHR ''#'') (''http://'' @ host @ target) = (''http://'' @ host @ target, [])"
    using chars by (intro cut_at_absent) auto
  have "list_ex is_control (''http://'' @ host @ target) = False"
    using chars by (auto simp: list_ex_iff is_control_def)
  moreover have "after_scheme (''http://'' @ host @ target) = Some (host @ target)"
    by (simp only: after_scheme_def HasPrefix_append TrimPrefix_append if_True)
  moreover have "cut_at (CHR ''?'') (host @ target) = (host @ ?before, snd (cut_at (CHR ''?'') target))"
    using chars(1) by (intro cut_at_prefix) blast
  moreover have "takeWhile (\<lambda>c. c \<noteq> CHR ''/'') (host @ ?before) = host"
    "dropWhile (\<lambda>c. c \<noteq> CHR ''/'') (host @ ?before) = ?before"
    using chars(1) by (auto simp: target cut_at_def takeWhile_append dropWhile_append)
  ultimately show ?thesis using assms(2) by (simp only: url_Parse_def whole Let_def prod.case option.case) simp
qed

end
