(* ===== verification/Effects.thy ===== *)
theory Effects
  imports Prelude
begin

text \<open>
  Effects and streams as what running them does, for the components that are written in terms
  of them and pass them on (\<open>websocket\<close>, the clients of \<open>amqp091\<close> and \<open>amqp10\<close>).

  The effect library is another module. An effect that the source builds from \<open>effect.Try\<close>,
  \<open>effect.From\<close>, \<open>FlatMap\<close> and \<open>effect.ForEach\<close> is here a function on the state that gives a
  fault or a value; naming an effect changes nothing of it. A stream is its step, which
  \<open>effect.StreamFromSteps\<close> is given and \<open>effect.MapStream\<close> maps. \<open>As\<close>, \<open>CatchAll\<close> and
  \<open>effect.CollectStreamEffect\<close> are written out as well, for the programs that consume queues. \<open>collect\<close> pulls a stream with a
  bound on the pulls, and says how it ended if it did.

  The locale \<open>pulled\<close> is what the three components' streams have in common: a source that
  gives one element, the end or an error, each time it is asked.
\<close>

section \<open>Effects\<close>

type_synonym ('w, 'f, 'a) fx = "'w \<Rightarrow> 'w \<times> ('f, 'a) result"

definition try_fx :: "('w \<Rightarrow> 'w \<times> ('e, 'a) result) \<Rightarrow> ('e \<Rightarrow> 'f) \<Rightarrow> ('w, 'f, 'a) fx" where
  "try_fx run on_error w =
     (case run w of (w', Inl err) \<Rightarrow> (w', Inl (on_error err)) | (w', Inr x) \<Rightarrow> (w', Inr x))"

definition flat_map :: "('w, 'f, 'a) fx \<Rightarrow> ('a \<Rightarrow> ('w, 'f, 'b) fx) \<Rightarrow> ('w, 'f, 'b) fx" where
  "flat_map m f w = (case m w of (w', Inl fault) \<Rightarrow> (w', Inl fault) | (w', Inr x) \<Rightarrow> f x w')"

fun for_each :: "('a \<Rightarrow> ('w, 'f, 'b) fx) \<Rightarrow> 'a list \<Rightarrow> ('w, 'f, 'b list) fx" where
  "for_each f [] w = (w, Inr [])"
| "for_each f (x # xs) w =
     (case f x w of
        (w', Inl fault) \<Rightarrow> (w', Inl fault)
      | (w', Inr y) \<Rightarrow>
          (case for_each f xs w' of
             (w'', Inl fault) \<Rightarrow> (w'', Inl fault)
           | (w'', Inr ys) \<Rightarrow> (w'', Inr (y # ys))))"

text \<open>\<open>As\<close> gives another value, \<open>CatchAll\<close> goes on from a failure.\<close>

definition as_value :: "('w, 'f, 'a) fx \<Rightarrow> 'b \<Rightarrow> ('w, 'f, 'b) fx" where
  "as_value m x = flat_map m (\<lambda>_ w. (w, Inr x))"

definition catch_all :: "('w, 'f, 'a) fx \<Rightarrow> ('f \<Rightarrow> ('w, 'g, 'a) fx) \<Rightarrow> ('w, 'g, 'a) fx" where
  "catch_all m f w = (case m w of (w', Inl fault) \<Rightarrow> f fault w' | (w', Inr x) \<Rightarrow> (w', Inr x))"

text \<open>An effect on one part of a state leaves the other as it is.\<close>

definition on_first :: "('w \<Rightarrow> 'w \<times> 'r) \<Rightarrow> 'w \<times> 'p \<Rightarrow> ('w \<times> 'p) \<times> 'r" where
  "on_first run st = (case run (fst st) of (w', r) \<Rightarrow> ((w', snd st), r))"

definition on_second :: "('p \<Rightarrow> 'p \<times> 'r) \<Rightarrow> 'w \<times> 'p \<Rightarrow> ('w \<times> 'p) \<times> 'r" where
  "on_second run st = (case run (snd st) of (p', r) \<Rightarrow> ((fst st, p'), r))"

text \<open>A Go function that answers with an error or nothing, as one that answers with a unit.\<close>

definition only_error :: "'w \<times> 'e option \<Rightarrow> 'w \<times> ('e, unit) result" where
  "only_error r = (case r of (w', None) \<Rightarrow> (w', Inr ()) | (w', Some err) \<Rightarrow> (w', Inl err))"

lemma flat_map_simps [simp]:
  "m w = (w', Inr x) \<Longrightarrow> flat_map m f w = f x w'" "m w = (w', Inl fault) \<Longrightarrow> flat_map m f w = (w', Inl fault)"
  by (simp_all add: flat_map_def)

lemma as_value_simps [simp]:
  "m w = (w', Inr y) \<Longrightarrow> as_value m x w = (w', Inr x)" "m w = (w', Inl fault) \<Longrightarrow> as_value m x w = (w', Inl fault)"
  by (simp_all add: as_value_def)

lemma catch_all_simps [simp]:
  "m w = (w', Inr x) \<Longrightarrow> catch_all m f w = (w', Inr x)" "m w = (w', Inl fault) \<Longrightarrow> catch_all m f w = f fault w'"
  by (simp_all add: catch_all_def)

lemma try_fx_simps [simp]:
  "run w = (w', Inr x) \<Longrightarrow> try_fx run g w = (w', Inr x)"
  "run w = (w', Inl err) \<Longrightarrow> try_fx run g w = (w', Inl (g err))"
  by (simp_all add: try_fx_def)

lemma only_error_simps [simp]: "only_error (w, None) = (w, Inr ())" "only_error (w, Some err) = (w, Inl err)"
  by (simp_all add: only_error_def)

section \<open>Streams\<close>

datatype 'a step = Emit "'a list" | EndOfStream

type_synonym ('w, 'f, 'a) stream = "('w, 'f, 'a step) fx"

definition map_stream :: "('w, 'f, 'a) stream \<Rightarrow> ('a \<Rightarrow> 'b) \<Rightarrow> ('w, 'f, 'b) stream" where
  "map_stream s f = flat_map s (\<lambda>st w. (w, Inr (case st of EndOfStream \<Rightarrow> EndOfStream | Emit xs \<Rightarrow> Emit (map f xs))))"

text \<open>Mapping through an effect: the elements of a step in order, up to the first failure.\<close>

definition map_stream_effect :: "('w, 'f, 'a) stream \<Rightarrow> ('a \<Rightarrow> ('w, 'f, 'b) fx) \<Rightarrow> ('w, 'f, 'b) stream" where
  "map_stream_effect s f =
     flat_map s (\<lambda>st. case st of
        EndOfStream \<Rightarrow> (\<lambda>w. (w, Inr EndOfStream))
      | Emit xs \<Rightarrow> flat_map (for_each f xs) (\<lambda>ys w. (w, Inr (Emit ys))))"

text \<open>Collecting what an effect makes of each element: its chunks, joined.\<close>

definition collect_stream_effect :: "('w, 'f, 'a) stream \<Rightarrow> ('a \<Rightarrow> ('w, 'f, 'b list) fx) \<Rightarrow> ('w, 'f, 'b) stream" where
  "collect_stream_effect s f =
     flat_map s (\<lambda>st. case st of
        EndOfStream \<Rightarrow> (\<lambda>w. (w, Inr EndOfStream))
      | Emit xs \<Rightarrow> flat_map (for_each f xs) (\<lambda>ys w. (w, Inr (Emit (concat ys)))))"

lemma collect_stream_effect_one:
  "s w = (w1, Inr (Emit [x])) \<Longrightarrow> collect_stream_effect s f w = flat_map (f x) (\<lambda>ys w. (w, Inr (Emit ys))) w1"
  by (simp add: collect_stream_effect_def flat_map_def split: prod.split sum.split)

datatype 'f ending = Ended | FailedWith 'f

fun collect :: "nat \<Rightarrow> ('w, 'f, 'a) stream \<Rightarrow> 'w \<Rightarrow> 'w \<times> 'a list \<times> 'f ending option" where
  "collect 0 s w = (w, [], None)"
| "collect (Suc pulls) s w =
     (case s w of
        (w', Inl fault) \<Rightarrow> (w', [], Some (FailedWith fault))
      | (w', Inr EndOfStream) \<Rightarrow> (w', [], Some Ended)
      | (w', Inr (Emit xs)) \<Rightarrow>
          (case collect pulls s w' of (w'', ys, ended) \<Rightarrow> (w'', xs @ ys, ended)))"

text \<open>Collecting the first elements of a stream, which is not pulled again once there are enough: no value
when the pulls do not give as many.\<close>

fun run_take :: "nat \<Rightarrow> nat \<Rightarrow> ('w, 'f, 'a) stream \<Rightarrow> 'w \<Rightarrow> 'w \<times> ('f, 'a list) result option" where
  "run_take pulls 0 s w = (w, Some (Inr []))"
| "run_take 0 (Suc n) s w = (w, None)"
| "run_take (Suc pulls) (Suc n) s w =
     (case s w of
        (w', Inl fault) \<Rightarrow> (w', Some (Inl fault))
      | (w', Inr EndOfStream) \<Rightarrow> (w', Some (Inr []))
      | (w', Inr (Emit xs)) \<Rightarrow>
          (case run_take pulls (Suc n - length xs) s w' of
             (w'', Some (Inr ys)) \<Rightarrow> (w'', Some (Inr (take (Suc n) xs @ ys)))
           | (w'', r) \<Rightarrow> (w'', r)))"

lemma run_take_steps:
  "s w = (w1, Inr (Emit [])) \<Longrightarrow> run_take (Suc pulls) (Suc n) s w = run_take pulls (Suc n) s w1"
  "s w = (w1, Inr (Emit [x])) \<Longrightarrow> run_take (Suc pulls) (Suc 0) s w = (w1, Some (Inr [x]))"
  by (auto split: prod.split option.split sum.split)

text \<open>Running an effect for each element of a stream: no value when the pulls do not reach its end.\<close>

fun run_for_each :: "nat \<Rightarrow> ('w, 'f, 'a) stream \<Rightarrow> ('a \<Rightarrow> ('w, 'f, unit) fx) \<Rightarrow> 'w \<Rightarrow> 'w \<times> ('f, unit) result option" where
  "run_for_each 0 s f w = (w, None)"
| "run_for_each (Suc pulls) s f w =
     (case s w of
        (w', Inl fault) \<Rightarrow> (w', Some (Inl fault))
      | (w', Inr EndOfStream) \<Rightarrow> (w', Some (Inr ()))
      | (w', Inr (Emit xs)) \<Rightarrow>
          (case for_each f xs w' of
             (w'', Inl fault) \<Rightarrow> (w'', Some (Inl fault))
           | (w'', Inr us) \<Rightarrow> run_for_each pulls s f w''))"

lemma run_for_each_add:
  "run_for_each (m + n) s f w =
     (case run_for_each m s f w of (w', None) \<Rightarrow> run_for_each n s f w' | (w', Some r) \<Rightarrow> (w', Some r))"
  by (induction m arbitrary: w) (auto split: prod.split sum.split step.split)

section \<open>Pulled sources\<close>

type_synonym ('w, 'e, 'a) source = "'w \<Rightarrow> 'w \<times> ('e, 'a option) result"

text \<open>A source gives these elements, one each time, and then ends or fails.\<close>

inductive gives :: "('w, 'e, 'a) source \<Rightarrow> 'a list \<Rightarrow> 'e option \<Rightarrow> 'w \<Rightarrow> 'w \<Rightarrow> bool" for src where
  over: "src w = (w', Inr None) \<Longrightarrow> gives src [] None w w'"
| failed: "src w = (w', Inl err) \<Longrightarrow> gives src [] (Some err) w w'"
| more: "src w = (w1, Inr (Some x)) \<Longrightarrow> gives src xs final w1 w' \<Longrightarrow> gives src (x # xs) final w w'"

inductive_cases gives_Nil: "gives src [] final w w'"
inductive_cases gives_Cons: "gives src (x # xs) final w w'"

definition ending_of :: "('e \<Rightarrow> 'f) \<Rightarrow> 'e option \<Rightarrow> 'f ending" where
  "ending_of fault final = (case final of None \<Rightarrow> Ended | Some err \<Rightarrow> FailedWith (fault err))"

locale pulled =
  fixes src :: "('w, 'e, 'a) source" and fault :: "'e \<Rightarrow> 'f" and stream :: "('w, 'f, 'a) stream"
  assumes step_of: "stream w =
     (case src w of
        (w', Inl err) \<Rightarrow> (w', Inl (fault err))
      | (w', Inr None) \<Rightarrow> (w', Inr EndOfStream)
      | (w', Inr (Some x)) \<Rightarrow> (w', Inr (Emit [x])))"
begin

lemma steps:
  "src w = (w', Inl err) \<Longrightarrow> stream w = (w', Inl (fault err))"
  "src w = (w', Inr None) \<Longrightarrow> stream w = (w', Inr EndOfStream)"
  "src w = (w', Inr (Some x)) \<Longrightarrow> stream w = (w', Inr (Emit [x]))"
  by (simp_all add: step_of)

text \<open>The stream has what the source gives, in order, and ends as the source does.\<close>

lemma collected:
  "gives src xs final w w' \<Longrightarrow> length xs < pulls \<Longrightarrow>
   collect pulls (map_stream stream f) w = (w', map f xs, Some (ending_of fault final))"
proof (induction xs arbitrary: pulls w)
  case Nil
  from Nil.prems(2) obtain n where n: "pulls = Suc n" by (cases pulls) auto
  from Nil.prems(1) show ?case
    by (rule gives_Nil) (simp_all add: n map_stream_def flat_map_def steps ending_of_def)
next
  case (Cons x xs)
  from Cons.prems(2) obtain n where n: "pulls = Suc n" "length xs < n" by (cases pulls) auto
  from Cons.prems(1) obtain w1 where w1: "src w = (w1, Inr (Some x))" "gives src xs final w1 w'"
    by (rule gives_Cons)
  have "map_stream stream f w = (w1, Inr (Emit [f x]))"
    by (simp add: map_stream_def flat_map_def steps(3) [OF w1(1)])
  with Cons.IH [OF w1(2) n(2)] show ?case by (simp add: n(1))
qed

lemma collected_plain:
  "gives src xs final w w' \<Longrightarrow> length xs < pulls \<Longrightarrow>
   collect pulls stream w = (w', xs, Some (ending_of fault final))"
proof -
  have "map_stream stream (\<lambda>x. x) = stream"
    by (simp add: fun_eq_iff map_stream_def flat_map_def step_of split: prod.split sum.split option.split)
  then show "gives src xs final w w' \<Longrightarrow> length xs < pulls \<Longrightarrow>
      collect pulls stream w = (w', xs, Some (ending_of fault final))"
    using collected [of xs final w w' pulls "\<lambda>x. x"] by simp
qed

text \<open>Mapped through an effect that reads no state and succeeds on every element.\<close>

lemma collected_effect:
  "gives src xs final w w' \<Longrightarrow> length xs < pulls \<Longrightarrow> map g xs = map Inr ys \<Longrightarrow>
   collect pulls (map_stream_effect stream (\<lambda>x w. (w, g x))) w = (w', ys, Some (ending_of fault final))"
proof (induction xs arbitrary: pulls w ys)
  case Nil
  from Nil.prems(2) obtain n where n: "pulls = Suc n" by (cases pulls) auto
  have ys: "ys = []" using Nil.prems(3) by simp
  from Nil.prems(1) show ?case
    by (rule gives_Nil) (simp_all add: n ys map_stream_effect_def flat_map_def steps ending_of_def)
next
  case (Cons x xs)
  from Cons.prems(2) obtain n where n: "pulls = Suc n" "length xs < n" by (cases pulls) auto
  from Cons.prems(1) obtain w1 where w1: "src w = (w1, Inr (Some x))" "gives src xs final w1 w'"
    by (rule gives_Cons)
  from Cons.prems(3) obtain y ys' where ys: "ys = y # ys'" "g x = Inr y" "map g xs = map Inr ys'"
    by (cases ys) auto
  have "map_stream_effect stream (\<lambda>x w. (w, g x)) w = (w1, Inr (Emit [y]))"
    by (simp add: map_stream_effect_def flat_map_def steps(3) [OF w1(1)] ys(2))
  with Cons.IH [OF w1(2) n(2) ys(3)] show ?case by (simp add: n(1) ys(1))
qed

end

end
