(* ===== verification/Web_Client.thy ===== *)
theory Web_Client
  imports Web_Endpoint Net_Url Effects
begin

text \<open>
  Calling a server: sending a request (\<open>exchange\<close> and \<open>Fetch\<close> of \<open>web/client.go\<close>), calling an
  endpoint (\<open>Call\<close> of \<open>web/call.go\<close>), and reading the entity of a request
  (\<open>Body\<close> of \<open>web/request.go\<close>).

  An \<open>http.Client\<close> is what it does with a request: \<open>http_lib\<close> has \<open>Do\<close>, which changes a world and
  answers with an error or a response whose body is a handle, and reading and closing a handle.
  Parsing the address a request is made for is \<open>net/url\<close>'s and is written out in \<open>Net_Url\<close>.

  The named hypothesis is \<open>hosts\<close>: the network carries what is sent to a server and its answer
  back. Headers it adds on the way are not looked at. What is proved: what a server behind such a
  network is asked for, when the address has nothing in it that an address gives a meaning to,
  and what becomes of it when it has.
\<close>

section \<open>Requests and responses of the library\<close>

record outgoing =
  out_Method :: string
  out_URL :: URL
  out_Header :: http_header
  out_Body :: "string option"

record 'b incoming =
  in_Status :: int
  in_Header :: http_header
  in_Body :: 'b

record ('w, 'b) http_lib =
  host_ok :: "string \<Rightarrow> bool"
  invalid :: "string \<Rightarrow> error"
  Do :: "outgoing \<Rightarrow> 'w \<Rightarrow> 'w \<times> (error, 'b incoming) result"
  ReadAll :: "'b \<Rightarrow> 'w \<Rightarrow> 'w \<times> (error, string) result"
  CloseBody :: "'b \<Rightarrow> 'w \<Rightarrow> 'w"

text \<open>\<open>http.NewRequestWithContext\<close>: no method is GET, and a method is made of the bytes of a name.\<close>

definition NewRequest ::
  "('w, 'b) http_lib \<Rightarrow> string \<Rightarrow> string \<Rightarrow> string option \<Rightarrow> (error, outgoing) result" where
  "NewRequest lib method raw body =
     (let verb = (if method = [] then ''GET'' else method) in
      if \<not> list_all validHeaderFieldByte verb then Inl (invalid lib verb)
      else (case url_Parse (host_ok lib) raw of
              None \<Rightarrow> Inl (invalid lib raw)
            | Some url \<Rightarrow> Inr \<lparr>out_Method = verb, out_URL = url, out_Header = Map.empty, out_Body = body\<rparr>))"

section \<open>Sending\<close>

definition errNoHTTPClient :: error where
  "errNoHTTPClient = declarationMistake ''a client needs an http.Client; see web.Dial''"

definition copied_header :: "(string \<times> string list) list \<Rightarrow> http_header \<Rightarrow> http_header" where
  "copied_header entries header =
     fold (\<lambda>(name, values) h. h(CanonicalMIMEHeaderKey name \<mapsto> values)) entries header"

text \<open>The body is closed when the function returns, whether or not it could be read.\<close>

definition exchange ::
  "('w, 'b) http_lib \<Rightarrow> Client option \<Rightarrow> string \<Rightarrow> string \<Rightarrow> ClientRequest \<Rightarrow>
   'w \<Rightarrow> 'w \<times> (error, ClientResponse) result" where
  "exchange lib client method path request w =
     (if client = None \<or> \<not> has_http_client (the client) then (w, Inl errNoHTTPClient)
      else
        let base = address (the client) @ path;
            target = (if length (cr_Query request) > 0 then base @ ''?'' @ Encode (cr_Query request) else base);
            sent = (if length (cr_Entity request) > 0 then Some (cr_Entity request) else None)
        in case NewRequest lib method target sent of
             Inl err \<Rightarrow> (w, Inl err)
           | Inr made \<Rightarrow>
               (let copied = made\<lparr>out_Header := copied_header (cr_Header request) (out_Header made)\<rparr>;
                    typed = (if cr_MediaType request \<noteq> []
                             then copied\<lparr>out_Header := header_Set (out_Header copied) ''Content-Type'' (cr_MediaType request)\<rparr>
                             else copied)
                in case Do lib typed w of
                     (w1, Inl err) \<Rightarrow> (w1, Inl err)
                   | (w1, Inr response) \<Rightarrow>
                       (case ReadAll lib (in_Body response) w1 of
                          (w2, Inl err) \<Rightarrow> (CloseBody lib (in_Body response) w2, Inl err)
                        | (w2, Inr body) \<Rightarrow>
                            (CloseBody lib (in_Body response) w2,
                             Inr \<lparr>resp_Status = in_Status response, resp_Header = in_Header response,
                                  resp_Entity = body\<rparr>))))"

definition Fetch ::
  "('w, 'b) http_lib \<Rightarrow> Client option \<Rightarrow> string \<Rightarrow> string \<Rightarrow> ClientRequest \<Rightarrow> ('w, Fault, ClientResponse) fx" where
  "Fetch lib client method path request =
     try_fx (exchange lib client method path request) (asFault (''call '' @ method @ '' '' @ path))"

section \<open>Calling an endpoint\<close>

text \<open>
  \<open>Call\<close> and \<open>CallUpstream\<close> differ only in how they send and whose naming strategy they read the
  answer with: \<open>call_through\<close> is what they share.
\<close>

definition call_through ::
  "(string \<Rightarrow> string \<Rightarrow> ClientRequest \<Rightarrow> ('w, Fault, ClientResponse) fx) \<Rightarrow> Strategy option \<Rightarrow>
   ('i, 'out) Endpoint \<Rightarrow> ClientRequest \<Rightarrow> ('w, Fault, 'out) fx" where
  "call_through fetch naming endpoint request =
     (case ValidateEndpoint endpoint of
        Some fault \<Rightarrow> (\<lambda>w. (w, Inl (asFault ''call an endpoint'' fault)))
      | None \<Rightarrow>
          (case fillPattern (segments endpoint) (cr_Path request) of
             Inl err \<Rightarrow> (\<lambda>w. (w, Inl (asFault ''build the path'' err)))
           | Inr path \<Rightarrow>
               flat_map (fetch (end_method endpoint) path request)
                 (\<lambda>response w. (w, decodeResponse (end_output endpoint) response
                                     (end_method endpoint @ '' '' @ path) naming))))"

definition Call ::
  "('w, 'b) http_lib \<Rightarrow> Client \<Rightarrow> ('i, 'out) Endpoint \<Rightarrow> ClientRequest \<Rightarrow> ('w, Fault, 'out) fx" where
  "Call lib client endpoint request =
     call_through (Fetch lib (Some client)) (client_strategy client) endpoint request"

section \<open>Reading an entity\<close>

text \<open>
  The state is what is left to read of the request's entity, or the error that reading it
  gives: \<open>io.ReadAll\<close> reads to the end. Without a body nothing is read.
\<close>

definition Body :: "Request \<Rightarrow> ((error, string) result, Fault, string) fx" where
  "Body request =
     try_fx (\<lambda>left. if req_Body (Source request) = None then (left, Inr [])
                     else (case left of
                             Inl err \<Rightarrow> (left, Inl err)
                           | Inr bytes \<Rightarrow> (Inr [], Inr bytes)))
       (\<lambda>err. Fault ''read the request body'' (Some err))"

text \<open>An entity is read once: what a second reading gives is empty, and so is what is left.\<close>

lemma Body_once:
  "Body request left = (left', Inr bytes) \<Longrightarrow>
   Body request left' = (left', Inr (if req_Body (Source request) = None then bytes else []))"
  by (auto simp: Body_def try_fx_def split: sum.splits if_splits)

section \<open>A server at the other end\<close>

text \<open>What a request is when it arrives: nothing that the handler reads is lost or changed.\<close>

definition carries :: "outgoing \<Rightarrow> http_request \<Rightarrow> bool" where
  "carries made request \<longleftrightarrow>
     req_Method request = out_Method made \<and> URL_Path request = url_Path (out_URL made) \<and>
     URL_Query request = ParseQuery (url_RawQuery (out_URL made)) \<and>
     req_Body request = Some (case out_Body made of None \<Rightarrow> [] | Some bytes \<Rightarrow> bytes) \<and>
     out_Header made \<subseteq>\<^sub>m req_Header request"

text \<open>What was sent when a handler has returned: the status it wrote, or 200.\<close>

definition sent_status :: "writer \<Rightarrow> int" where
  "sent_status written = (case w_sent written of None \<Rightarrow> 200 | Some (code, _) \<Rightarrow> code)"

text \<open>What a handler writes in answer to HEAD is not sent.\<close>

definition received_entity :: "string \<Rightarrow> writer \<Rightarrow> string" where
  "received_entity method written = (if method = ''HEAD'' then [] else w_body written)"

text \<open>The world is what both programs keep, of which reading and closing a body are no part.\<close>

definition hosts :: "('w, 'b) http_lib \<Rightarrow> (http_request \<Rightarrow> 'w \<Rightarrow> 'w \<times> writer) \<Rightarrow> bool" where
  "hosts lib serve \<longleftrightarrow>
     (\<forall>made w. \<exists>request w1 written header body.
        carries made request \<and> serve request w = (w1, written) \<and>
        Do lib made w = (w1, Inr \<lparr>in_Status = sent_status written, in_Header = header, in_Body = body\<rparr>) \<and>
        ReadAll lib body w1 = (w1, Inr (received_entity (out_Method made) written)) \<and> CloseBody lib body w1 = w1)"

definition reaches :: "('w, 'b) http_lib \<Rightarrow> Client \<Rightarrow> bool" where
  "reaches lib client \<longleftrightarrow>
     has_http_client client \<and>
     (\<exists>host. address client = ''http://'' @ host \<and> plain_host host \<and> host_ok lib host)"

definition token :: "string \<Rightarrow> bool" where
  "token method \<longleftrightarrow> method \<noteq> [] \<and> list_all validHeaderFieldByte method"

definition query_target :: "string \<Rightarrow> ClientRequest \<Rightarrow> string" where
  "query_target path request =
     path @ (if length (cr_Query request) > 0 then ''?'' @ Encode (cr_Query request) else [])"

text \<open>What the server is asked for when a client sends a request to a path.\<close>

definition asked ::
  "string \<Rightarrow> string \<Rightarrow> http_header \<Rightarrow> ClientRequest \<Rightarrow> http_request \<Rightarrow> bool" where
  "asked method decoded query request arrived \<longleftrightarrow>
     req_Method arrived = method \<and> URL_Path arrived = decoded \<and> URL_Query arrived = query \<and>
     req_Body arrived = Some (cr_Entity request) \<and>
     (cr_MediaType request \<noteq> [] \<longrightarrow> header_Get (req_Header arrived) ''Content-Type'' = cr_MediaType request)"

lemma sendable_target:
  assumes "sendable path"
  shows "sendable (query_target path request)"
proof -
  have "list_all (\<lambda>c. \<not> is_control c \<and> c \<noteq> CHR ''#'') (''?'' @ Encode (cr_Query request))"
    using Encode_clean [of "cr_Query request"] by (auto simp: list_all_iff list_ex_iff is_control_def)
  moreover obtain rest where "path = CHR ''/'' # rest" using assms by (cases path) (auto simp: sendable_def)
  ultimately show ?thesis using assms by (simp add: sendable_def query_target_def)
qed

lemma NewRequest_target:
  assumes "reaches lib client" and "token method" and "sendable target"
  shows "NewRequest lib method (address client @ target) body =
     (case unescape False (fst (cut_at (CHR ''?'') target)) of
        None \<Rightarrow> Inl (invalid lib (address client @ target))
      | Some decoded \<Rightarrow>
          Inr \<lparr>out_Method = method,
               out_URL = \<lparr>url_Host = drop 7 (address client), url_Path = decoded,
                          url_RawQuery = snd (cut_at (CHR ''?'') target)\<rparr>,
               out_Header = Map.empty, out_Body = body\<rparr>)"
proof -
  obtain host where host: "address client = ''http://'' @ host" "plain_host host" "host_ok lib host"
    using assms(1) by (auto simp: reaches_def)
  have dropped: "drop 7 (address client) = host" by (simp add: host(1))
  have parsed: "url_Parse (host_ok lib) (address client @ target) =
      map_option (\<lambda>decoded. \<lparr>url_Host = drop 7 (address client), url_Path = decoded,
                                url_RawQuery = snd (cut_at (CHR ''?'') target)\<rparr>)
        (unescape False (fst (cut_at (CHR ''?'') target)))"
    unfolding dropped unfolding host(1) append_assoc by (rule url_Parse_address [where host_ok = "host_ok lib", OF host(2,3) assms(3)])
  show ?thesis using assms(2)
    by (cases "unescape False (fst (cut_at (CHR ''?'') target))") (simp_all add: NewRequest_def token_def parsed)
qed

lemma cut_query_target:
  "fst (cut_at (CHR ''?'') (query_target path request)) = fst (cut_at (CHR ''?'') path)"
  "CHR ''?'' \<notin> set path \<Longrightarrow> snd (cut_at (CHR ''?'') (query_target path request)) = Encode (cr_Query request)"
proof -
  show "fst (cut_at (CHR ''?'') (query_target path request)) = fst (cut_at (CHR ''?'') path)"
  proof (cases "CHR ''?'' \<in> set path")
    case True
    then obtain a b where "path = a @ CHR ''?'' # b" "CHR ''?'' \<notin> set a" by (meson split_list_first)
    then show ?thesis by (simp add: query_target_def cut_at_append)
  next
    case False
    then show ?thesis by (cases "cr_Query request") (simp_all add: query_target_def cut_at_append cut_at_absent)
  qed
  assume "CHR ''?'' \<notin> set path"
  then show "snd (cut_at (CHR ''?'') (query_target path request)) = Encode (cr_Query request)"
    by (cases "cr_Query request") (simp_all add: query_target_def cut_at_append cut_at_absent Encode_def query_pairs_def)
qed

lemma header_Get_carried: "header_Set h name value \<subseteq>\<^sub>m h' \<Longrightarrow> header_Get h' name = value"
proof -
  let ?k = "CanonicalMIMEHeaderKey name"
  assume "header_Set h name value \<subseteq>\<^sub>m h'"
  moreover have "header_Set h name value ?k = Some [value]" by (simp add: header_Set_def)
  ultimately have "h' ?k = Some [value]" by (metis domI map_le_def)
  then show "header_Get h' name = value" by (simp add: header_Get_def)
qed

text \<open>What a server behind the network is asked for, and what comes back.\<close>

lemma exchange_hosted:
  assumes "hosts lib serve" and "reaches lib client" and "token verb" and "sendable path"
    and "unescape False (fst (cut_at (CHR ''?'') path)) = Some decoded"
  shows "\<exists>arrived header.
     asked verb decoded (ParseQuery (snd (cut_at (CHR ''?'') (query_target path request)))) request arrived \<and>
     exchange lib (Some client) verb path request w =
       (case serve arrived w of (w1, written) \<Rightarrow>
          (w1, Inr \<lparr>resp_Status = sent_status written, resp_Header = header, resp_Entity = received_entity verb written\<rparr>))"
proof -
  let ?target = "query_target path request"
  define made where "made = \<lparr>out_Method = verb,
      out_URL = \<lparr>url_Host = drop 7 (address client), url_Path = decoded, url_RawQuery = snd (cut_at (CHR ''?'') ?target)\<rparr>,
      out_Header = Map.empty, out_Body = (if cr_Entity request = [] then None else Some (cr_Entity request))\<rparr>"
  define sent where "sent = (let copied = made\<lparr>out_Header := copied_header (cr_Header request) (out_Header made)\<rparr>
      in if cr_MediaType request \<noteq> []
         then copied\<lparr>out_Header := header_Set (out_Header copied) ''Content-Type'' (cr_MediaType request)\<rparr> else copied)"
  obtain arrived w1 written header body where arrived: "carries sent arrived" "serve arrived w = (w1, written)"
    "Do lib sent w = (w1, Inr \<lparr>in_Status = sent_status written, in_Header = header, in_Body = body\<rparr>)"
    "ReadAll lib body w1 = (w1, Inr (received_entity (out_Method sent) written))" "CloseBody lib body w1 = w1"
    using assms(1) unfolding hosts_def by blast
  have new: "NewRequest lib verb (address client @ ?target) (out_Body made) = Inr made"
    using NewRequest_target [OF assms(2,3) sendable_target [OF assms(4)]] assms(5)
    by (simp add: cut_query_target(1) made_def)
  have client: "has_http_client client" using assms(2) by (simp add: reaches_def)
  have target: "(if length (cr_Query request) > 0 then (address client @ path) @ ''?'' @ Encode (cr_Query request)
      else address client @ path) = address client @ ?target" by (simp add: query_target_def)
  have entity: "(if length (cr_Entity request) > 0 then Some (cr_Entity request) else None) = out_Body made"
    by (simp add: made_def)
  have "exchange lib (Some client) verb path request w =
      (w1, Inr \<lparr>resp_Status = sent_status written, resp_Header = header, resp_Entity = received_entity verb written\<rparr>)"
  proof -
    have "out_Method sent = verb" by (simp add: sent_def made_def Let_def)
    then show ?thesis
      using client arrived(4,5) unfolding exchange_def option.sel Let_def target entity new
      by (simp add: arrived(3) [unfolded sent_def Let_def])
  qed
  moreover have "asked verb decoded (ParseQuery (snd (cut_at (CHR ''?'') ?target))) request arrived"
    using arrived(1) header_Get_carried [of _ "''Content-Type''"]
    by (auto simp: asked_def carries_def sent_def made_def Let_def split: if_splits)
  ultimately show ?thesis using arrived(2) by (intro exI [of _ arrived] exI [of _ header]) simp
qed

lemma exchange_refused:
  assumes "reaches lib client" and "token method" and "sendable path"
    and "unescape False (fst (cut_at (CHR ''?'') path)) = None"
  shows "exchange lib (Some client) method path request w =
     (w, Inl (invalid lib (address client @ query_target path request)))"
proof -
  have "has_http_client client" using assms(1) by (simp add: reaches_def)
  moreover have target: "(if length (cr_Query request) > 0 then (address client @ path) @ ''?'' @ Encode (cr_Query request)
      else address client @ path) = address client @ query_target path request" by (simp add: query_target_def)
  ultimately show ?thesis
    using NewRequest_target [OF assms(1,2) sendable_target [OF assms(3)]] assms(4)
    unfolding exchange_def option.sel Let_def target by (simp add: cut_query_target(1))
qed

section \<open>What calling promises\<close>

text \<open>C37: A request arrives as what its path reads as, and its answer comes back: a server behind a network
that carries requests is asked, with the method, the entity and the media type given, for what
stands before the first question mark of the path, unescaped, and its status and entity are the
answer; a path whose escapes cannot be read is refused and nothing is sent. The query is the
request's own, each value of it, if the path has no question mark.\<close>

theorem requests_arrive:
  assumes "hosts lib serve" and "reaches lib client" and "token method" and "sendable path"
    and "distinct (map fst (cr_Query request))"
  shows "case unescape False (fst (cut_at (CHR ''?'') path)) of
     None \<Rightarrow> exchange lib (Some client) method path request w =
               (w, Inl (invalid lib (address client @ query_target path request)))
   | Some decoded \<Rightarrow> \<exists>arrived header query.
       asked method decoded query request arrived \<and>
       (CHR ''?'' \<notin> set path \<longrightarrow>
          query = (\<lambda>k. case map_of (cr_Query request) k of Some (v # vs) \<Rightarrow> Some (v # vs) | _ \<Rightarrow> None)) \<and>
       exchange lib (Some client) method path request w =
         (case serve arrived w of (w1, written) \<Rightarrow>
            (w1, Inr \<lparr>resp_Status = sent_status written, resp_Header = header, resp_Entity = received_entity method written\<rparr>))"
proof (cases "unescape False (fst (cut_at (CHR ''?'') path))")
  case None
  with exchange_refused [OF assms(2,3,4)] show ?thesis by simp
next
  case (Some decoded)
  have "CHR ''?'' \<notin> set path \<Longrightarrow> ParseQuery (snd (cut_at (CHR ''?'') (query_target path request))) =
      (\<lambda>k. case map_of (cr_Query request) k of Some (v # vs) \<Rightarrow> Some (v # vs) | _ \<Rightarrow> None)"
    using ParseQuery_Encode [OF assms(5)]
    by (auto simp: cut_query_target(2) fun_eq_iff split: option.split list.split)
  with exchange_hosted [OF assms(1-4) Some, of request w] Some show ?thesis by fastforce
qed

text \<open>A network of one server, and a server that keeps the paths it was asked for.\<close>

definition arrival :: "outgoing \<Rightarrow> http_request" where
  "arrival made =
     \<lparr>req_Method = out_Method made, URL_Path = url_Path (out_URL made), URL_Query = ParseQuery (url_RawQuery (out_URL made)),
      req_Header = out_Header made, req_Body = Some (case out_Body made of None \<Rightarrow> [] | Some bytes \<Rightarrow> bytes)\<rparr>"

definition direct_http :: "(http_request \<Rightarrow> 'w \<Rightarrow> 'w \<times> writer) \<Rightarrow> ('w, string) http_lib" where
  "direct_http serve =
     \<lparr>host_ok = (\<lambda>_. True), invalid = Reason,
      Do = (\<lambda>made w. case serve (arrival made) w of (w1, written) \<Rightarrow>
              (w1, Inr \<lparr>in_Status = sent_status written, in_Header = Map.empty, in_Body = received_entity (out_Method made) written\<rparr>)),
      ReadAll = (\<lambda>body w. (w, Inr body)), CloseBody = (\<lambda>_ w. w)\<rparr>"

lemma direct_hosts: "hosts (direct_http serve) serve"
  unfolding hosts_def
proof (intro allI)
  fix made w
  obtain w1 written where "serve (arrival made) w = (w1, written)" by force
  then show "\<exists>request w1 written header body.
        carries made request \<and> serve request w = (w1, written) \<and>
        Do (direct_http serve) made w = (w1, Inr \<lparr>in_Status = sent_status written, in_Header = header, in_Body = body\<rparr>) \<and>
        ReadAll (direct_http serve) body w1 = (w1, Inr (received_entity (out_Method made) written)) \<and> CloseBody (direct_http serve) body w1 = w1"
    by (intro exI [of _ "arrival made"] exI [of _ w1] exI [of _ written] exI [of _ Map.empty] exI [of _ "received_entity (out_Method made) written"])
      (simp add: carries_def arrival_def direct_http_def)
qed

lemma exchange_direct_header:
  "exchange (direct_http serve) client method path request w = (w', Inr response) \<Longrightarrow> resp_Header response = Map.empty"
  by (auto simp: exchange_def direct_http_def Let_def split: if_splits sum.splits prod.splits)

lemma dialled_reaches:
  assumes "plain_host host" and "host_ok lib host" and "host \<noteq> []"
  shows "reaches lib (Dial True (''http://'' @ host))"
proof -
  have "last host \<noteq> CHR ''/''" using assms(1,3) last_in_set by (fastforce simp: plain_host_def list_all_iff)
  then have "\<not> HasSuffix ((''http://'' @ butlast host) @ [last host]) ''/''" by (simp only: HasSuffix_snoc) simp
  then have "TrimSuffix (''http://'' @ host) ''/'' = ''http://'' @ host"
    using assms(3) by (simp add: TrimSuffix_def)
  with assms(1,2) show ?thesis by (auto simp: reaches_def Dial_def)
qed

definition path_keeper :: "http_request \<Rightarrow> string list \<Rightarrow> string list \<times> writer" where
  "path_keeper request kept = (kept @ [URL_Path request], fst (Write newWriter ''ok''))"

definition bare_request :: ClientRequest where
  "bare_request = \<lparr>cr_Path = Map.empty, cr_Query = [], cr_Header = [], cr_Entity = [], cr_MediaType = [], About = []\<rparr>"

theorem requests_arrive_witness:
  "\<exists>header. exchange (direct_http path_keeper) (Some (Dial True ''http://host'')) ''GET'' ''/books/What?'' bare_request [] =
     ([''/books/What''], Inr \<lparr>resp_Status = 200, resp_Header = header, resp_Entity = ''ok''\<rparr>)"
proof -
  have "reaches (direct_http path_keeper) (Dial True ''http://host'')"
    using dialled_reaches [of "''host''" "direct_http path_keeper"] by (simp add: plain_host_def is_control_def) (simp add: direct_http_def)
  moreover have "token ''GET''" "sendable ''/books/What?''"
    by (simp_all add: token_def validHeaderFieldByte_def is_capital_def sendable_def is_control_def)
  moreover have "unescape False (fst (cut_at (CHR ''?'') ''/books/What?'')) = Some ''/books/What''"
    by (simp add: cut_at_def)
  ultimately show ?thesis
    using requests_arrive [OF direct_hosts, of path_keeper "Dial True ''http://host''" "''GET''" "''/books/What?''" bare_request "[]"]
    by (auto simp: bare_request_def asked_def path_keeper_def Write_fresh sent_status_def received_entity_def)
qed

end
