(* ===== verification/Web_Remote.thy ===== *)
theory Web_Remote
  imports Web_Settings Web_Boundary Web_Client
begin

text \<open>
  The two sides of an endpoint together: a client that calls it (\<open>web/call.go\<close>) over a network
  that carries requests, and a surface behind a boundary that serves it (\<open>web/adapter.go\<close>).

  A call gives the value the handler gives. What the code relies on elsewhere is named:
  \<open>lawful\<close> and \<open>succeeds\<close> say what running an effect does, \<open>hosts\<close> what the network does, and the
  schema is one that reads back the document it writes.
\<close>

section \<open>A surface behind a boundary\<close>

definition succeeds ::
  "('fr, 'fo, 'fd, 'fin, 'i, 'out) effect_ops \<Rightarrow> ('fr, 'fo, 'fd, 'w, 'e, 'i, 'out) observer \<Rightarrow> bool" where
  "succeeds ops obs \<longleftrightarrow> (\<forall>r w. see_response obs (Succeed ops r) w = (w, Done r))"

text \<open>How an effect ended, as the boundary is told: with a response or with why there is none.\<close>

definition ended :: "('e, Response) exit \<Rightarrow> ('e, Response) exit + Response" where
  "ended outcome = (case outcome of Done r \<Rightarrow> Inr r | failed \<Rightarrow> Inl failed)"

definition served_by ::
  "(('e, Response) exit, 'e) cause_ops \<Rightarrow> ('fr \<Rightarrow> 'w \<Rightarrow> 'w \<times> ('e, Response) exit) \<Rightarrow>
   (('e, Response) exit, 'e) Adapter \<Rightarrow> 'fr Handler \<Rightarrow> http_request \<Rightarrow> 'w \<Rightarrow> 'w \<times> writer" where
  "served_by causes see adapter handler request w =
     (case see (handler (RequestFrom request)) w of
        (w1, outcome) \<Rightarrow>
          (w1, fst (Adapter_Handler causes (\<lambda>_. ended outcome) adapter handler newWriter request)))"

lemma allowedOrigin_unstated: "\<not> IsStated co \<Longrightarrow> allowedOrigin co request = None"
  by (simp add: IsStated_def allowedOrigin_def allows_def)

text \<open>Without origins to share with, a boundary writes the response the effect ended with.\<close>

lemma served_by_done:
  assumes "\<not> IsStated (crossOrigin adapter)"
    and "see (handler (RequestFrom request)) w = (w1, Done response)"
  shows "served_by causes see adapter handler request w = (w1, fst (WriteTo response newWriter request))"
  using assms
  by (simp add: served_by_def ended_def Adapter_Handler_def answer_def allowedOrigin_unstated Let_def split: prod.split)

text \<open>Of a typed failure it writes what its mapping answers with.\<close>

lemma served_by_failed:
  assumes "\<not> IsStated (crossOrigin adapter)"
    and "see (handler (RequestFrom request)) w = (w1, Failed e)"
    and "\<not> ContainsDefect causes (Failed e)" and "cause_Failures causes (Failed e) = e # rest"
  shows "served_by causes see adapter handler request w = (w1, fst (WriteTo (onFailure adapter e) newWriter request))"
  using assms
  by (simp add: served_by_def ended_def Adapter_Handler_def answer_def allowedOrigin_unstated responseForCause_def Let_def
      split: prod.split)

text \<open>What a response is when it is received: its status and its entity, whatever was asked.\<close>

definition is_received :: "Response \<Rightarrow> int \<Rightarrow> string \<Rightarrow> bool" where
  "is_received response code body \<longleftrightarrow>
     (\<forall>request. sent_status (fst (WriteTo response newWriter request)) = code \<and>
        w_body (fst (WriteTo response newWriter request)) = body)"

lemma written_Empty: "code \<noteq> 0 \<Longrightarrow> \<not> informational code \<Longrightarrow> is_received (Empty code) code []"
  by (simp add: is_received_def WriteTo_def Empty_def writeNothing_def WriteHeader_def newWriter_def Let_def sent_status_def)

lemma written_Bytes:
  assumes "code \<noteq> 0" and "bodyAllowedForStatus code"
  shows "sent_status (fst (WriteTo (Bytes code ct body) newWriter request)) = code"
    and "w_body (fst (WriteTo (Bytes code ct body) newWriter request)) = body"
  using assms by (simp_all add: WriteTo_def Bytes_def Write_def WriteHeader_def newWriter_def Let_def sent_status_def)

section \<open>Endpoints as they are built\<close>

text \<open>An endpoint comes from \<open>Declare\<close>; what is said about it afterwards changes none of this.\<close>

definition declared_as :: "('i, 'out) Endpoint \<Rightarrow> ('i, 'out) Endpoint \<Rightarrow> bool" where
  "declared_as endpoint base \<longleftrightarrow>
     end_method endpoint = end_method base \<and> segments endpoint = segments base \<and>
     end_input endpoint = end_input base \<and> end_output endpoint = end_output base \<and> end_fault endpoint = end_fault base"

definition well_declared :: "('i, 'out) Endpoint \<Rightarrow> bool" where
  "well_declared endpoint \<longleftrightarrow> (\<exists>verb path inp outp. declared_as endpoint (Declare verb path inp outp))"

lemma well_declared_intros [intro, simp]:
  "well_declared (Declare verb path inp outp)"
  "well_declared endpoint \<Longrightarrow> well_declared (WithSummary endpoint line)"
  "well_declared endpoint \<Longrightarrow> well_declared (endpoint_WithDescription endpoint prose)"
  "well_declared endpoint \<Longrightarrow> well_declared (WithFailure endpoint code prose)"
  "well_declared endpoint \<Longrightarrow> well_declared (WithAlternative endpoint code prose)"
  by (auto simp: well_declared_def declared_as_def WithSummary_def endpoint_WithDescription_def WithFailure_def
      WithAlternative_def)

lemma declared_validates: "declared_as endpoint base \<Longrightarrow> ValidateEndpoint endpoint = ValidateEndpoint base"
  by (simp add: declared_as_def ValidateEndpoint_def)

lemma well_declared_usable:
  assumes "well_declared endpoint" and "ValidateEndpoint endpoint = None"
  shows "wf_segments (segments endpoint)" and "out_fault (end_output endpoint) = None" and "100 \<le> out_status (end_output endpoint)"
proof -
  obtain verb path inp outp where base: "declared_as endpoint (Declare verb path inp outp)"
    using assms(1) by (auto simp: well_declared_def)
  with assms(2) have valid: "ValidateEndpoint (Declare verb path inp outp) = None" by (simp add: declared_validates)
  then show "wf_segments (segments endpoint)" using Declare_segments base by (simp add: declared_as_def)
  from valid base show "out_fault (end_output endpoint) = None" "100 \<le> out_status (end_output endpoint)"
    unfolding Declare_valid by (auto simp: declared_as_def)
qed

section \<open>A route that is dispatched to\<close>

lemma call_dispatched:
  assumes "lawful ops obs" and "ValidateEndpoint endpoint = None" and "well_declared endpoint"
    and "NewRoutesWithRejection (Some rejects) rs = Inr surface"
    and "Handle ops endpoint (Some handle) \<in> set rs"
    and "fits (segments endpoint) vals" and "fillPattern (segments endpoint) vals = Inr (Path request)"
    and "Method request = end_method endpoint"
    and "\<And>s. s \<in> set rs \<Longrightarrow> serves (end_method endpoint) (pathSegments (Path request)) s \<Longrightarrow>
           s \<noteq> Handle ops endpoint (Some handle) \<Longrightarrow> map kind (segments endpoint) < kinds s"
    and "\<And>caps. restrict_map caps (set (capture_names (segments endpoint))) =
             restrict_map vals (set (capture_names (segments endpoint))) \<Longrightarrow>
           Decode (end_input endpoint) (request_withNaming (WithCaptures request caps) None) = Inr v"
  shows "see_response obs (Routes_Handler succeed surface request) =
         see_response obs (FlatMap ops (handle v) (encodeOutput ops (end_output endpoint) None))"
proof -
  let ?r = "Handle ops endpoint (Some handle)"
  have r: "route_segments ?r = segments endpoint" "route_method ?r = end_method endpoint"
    by (simp_all add: Handle_def endpoint_Declaration_def)
  obtain caps where caps: "restrict_map caps (set (capture_names (segments endpoint))) =
      restrict_map vals (set (capture_names (segments endpoint)))"
    "Routes_Handler succeed surface request = route_handler rejects ?r (WithCaptures request caps)"
    using route_reached [OF assms(4,5), of vals request succeed] well_declared_usable(1) [OF assms(3,2)] assms(6-9) by (auto simp: r kinds_def)
  have "build ?r = Some (\<lambda>reject ph naming. if isQuiet ph then plainHandler ops endpoint handle reject naming
      else phaseHandler ops endpoint handle reject ph naming)"
    using assms(2) by (simp add: Handle_def firstRouteFault_def cong: if_cong)
  then have "route_handler rejects ?r = plainHandler ops endpoint handle rejects None"
    by (simp add: route_handler_def) (simp add: Handle_def noPhases_def isQuiet_def)
  then show ?thesis
    unfolding caps(2) plainHandler_def using assms(1) assms(10) [OF caps(1)]
    by (simp add: lawful_def transparent_def)
qed

section \<open>What a request can do to the world\<close>

lemma dispatch_cases:
  assumes "NewRoutesWithRejection (Some rejects) rs = Inr surface"
  obtains (route) r arrived where "r \<in> set rs" "Routes_Handler succeed surface request = route_handler rejects r arrived"
    | (none) response where "Routes_Handler succeed surface request = succeed response"
proof (cases "best_route rs (Method request) (pathSegments (Path request))")
  case None
  then have "\<exists>response. Routes_Handler succeed surface request = succeed response"
    by (cases "filter (matches (pathSegments (Path request))) rs = []")
      (auto simp: dispatch_is_scan [OF assms] scan_dispatch_def Let_def)
  then show thesis using none by blast
next
  case (Some r)
  then show thesis using route [of r] best_route_Some [OF Some]
    by (auto simp: dispatch_is_scan [OF assms] scan_dispatch_def Let_def)
qed

lemma spelled_dispatch_cases:
  assumes "NewRoutesWithRejection (Some rejects) rs = Inr plain"
  obtains (route) r arrived where "r \<in> set rs"
      "Routes_Handler succeed (WithNaming Spell plain naming) request = route_handler rejects (withNaming Spell naming r) arrived"
    | (none) response where "Routes_Handler succeed (WithNaming Spell plain naming) request = succeed response"
proof -
  have built: "assembled plain" "reject plain = Some rejects" "routes plain = rs"
    using NewRoutes_assembled [OF assms] NewRoutesWithRejection_Inr(3,4) [OF assms] by auto
  note spelled = spelled.dispatch_rebuilt [OF built(1,2), of succeed Spell naming request, folded WithNaming_def, unfolded built(3)]
  show thesis
  proof (cases "best_route rs (Method request) (pathSegments (Path request))")
    case None
    then have "\<exists>response. Routes_Handler succeed plain request = succeed response"
      by (cases "filter (matches (pathSegments (Path request))) rs = []")
        (auto simp: dispatch_is_scan [OF assms] scan_dispatch_def Let_def)
    with None none spelled show thesis by auto
  next
    case (Some r)
    with route [of r] best_route_Some [OF Some] spelled show thesis by auto
  qed
qed

text \<open>With effects that are what they do, a route leaves the world as it is or as its handler does with an
input the codec accepts, whatever way of spelling members is set.\<close>

lemma direct_handler_world:
  assumes ops: "ops = direct_ops"
  shows "fst (plainHandler ops endpoint handle rejects naming request w) = w \<or>
    (\<exists>v. Decode (end_input endpoint) (request_withNaming request naming) = Inr v \<and>
         fst (plainHandler ops endpoint handle rejects naming request w) = fst (handle v w))"
proof -
  have "fst (continue (handle v w) (encodeOutput ops out naming)) = fst (handle v w)" for v out naming
    by (cases "handle v w"; cases "snd (handle v w)")
      (auto simp: encodeOutput_def ops direct_ops_def split: sum.split option.split)
  then show ?thesis
    by (cases "Decode (end_input endpoint) (request_withNaming request naming)")
      (auto simp: plainHandler_def ops direct_ops_def direct_phase_def logRefusal_def)
qed

lemma direct_handler_failure:
  assumes ops: "ops = direct_ops" and "plainHandler ops endpoint handle rejects naming request w = (w', Failed fault)"
  shows "\<exists>v. handle v w = (w', Failed fault)"
proof -
  have "handle v w = (w', Failed fault)"
    if "continue (handle v w) (encodeOutput ops out naming) = (w', Failed fault)" for v out
    using that by (cases "handle v w"; cases "snd (handle v w)")
      (auto simp: encodeOutput_def ops direct_ops_def split: sum.splits option.splits)
  with assms(2) show ?thesis
    by (cases "Decode (end_input endpoint) (request_withNaming request naming)")
      (auto simp: plainHandler_def ops direct_ops_def direct_phase_def logRefusal_def)
qed

lemma spelled_route_handler:
  assumes "usable (Handle ops endpoint (Some handle))"
  shows "route_handler rejects (withNaming Spell naming (Handle ops endpoint (Some handle))) =
           plainHandler ops endpoint handle rejects naming"
    and "route_handler rejects (Handle ops endpoint (Some handle)) = plainHandler ops endpoint handle rejects None"
proof -
  have "firstRouteFault endpoint (Some handle) = None" using assms by (auto simp: usable_def Handle_def)
  then show "route_handler rejects (withNaming Spell naming (Handle ops endpoint (Some handle))) =
           plainHandler ops endpoint handle rejects naming"
    "route_handler rejects (Handle ops endpoint (Some handle)) = plainHandler ops endpoint handle rejects None"
    by (simp_all add: route_handler_def withNaming_def Handle_def noPhases_def isQuiet_def)
qed

lemma direct_route_world:
  assumes ops: "ops = direct_ops" and "usable (Handle ops endpoint (Some handle))"
  shows "fst (route_handler rejects (Handle ops endpoint (Some handle)) request w) = w \<or>
    (\<exists>v. fst (route_handler rejects (Handle ops endpoint (Some handle)) request w) = fst (handle v w))"
  using direct_handler_world [OF ops] unfolding spelled_route_handler(2) [OF assms(2)] by blast

section \<open>Requests one after another\<close>

definition after_requests :: "(Request \<Rightarrow> 'w \<Rightarrow> 'w \<times> 'r) \<Rightarrow> Request list \<Rightarrow> 'w \<Rightarrow> 'w" where
  "after_requests handler requests w = foldl (\<lambda>held request. fst (handler request held)) w requests"

lemma after_requests_keep:
  assumes "\<And>request w. kept w \<Longrightarrow> kept (fst (handler request w))" and "kept w"
  shows "kept (after_requests handler requests w)"
  using assms(2) by (induction requests arbitrary: w) (simp_all add: after_requests_def assms(1))

section \<open>Declarations\<close>

text \<open>Describing an endpoint changes nothing of whether it can be used.\<close>

lemma described_endpoints [simp]:
  "ValidateEndpoint (WithSummary endpoint line) = ValidateEndpoint endpoint"
  "ValidateEndpoint (endpoint_WithDescription endpoint prose) = ValidateEndpoint endpoint"
  "ValidateEndpoint (WithFailure endpoint code prose) = ValidateEndpoint endpoint"
  by (simp_all add: ValidateEndpoint_def WithSummary_def endpoint_WithDescription_def WithFailure_def)

lemma described_parts [simp]:
  "segments (WithSummary endpoint line) = segments endpoint" "end_method (WithSummary endpoint line) = end_method endpoint"
  "end_input (WithSummary endpoint line) = end_input endpoint" "end_output (WithSummary endpoint line) = end_output endpoint"
  "segments (endpoint_WithDescription endpoint prose) = segments endpoint"
  "end_method (endpoint_WithDescription endpoint prose) = end_method endpoint"
  "end_input (endpoint_WithDescription endpoint prose) = end_input endpoint"
  "end_output (endpoint_WithDescription endpoint prose) = end_output endpoint"
  "segments (WithFailure endpoint code prose) = segments endpoint" "end_method (WithFailure endpoint code prose) = end_method endpoint"
  "end_input (WithFailure endpoint code prose) = end_input endpoint" "end_output (WithFailure endpoint code prose) = end_output endpoint"
  by (simp_all add: WithSummary_def endpoint_WithDescription_def WithFailure_def)

lemma Declare_of_pattern:
  assumes "wf_segments segs" and "renderPattern segs = path"
  shows "segments (Declare verb path inp outp) = segs"
    and "verb \<noteq> [] \<Longrightarrow> ValidateCodec inp = None \<Longrightarrow> out_fault outp = None \<Longrightarrow> encode outp \<noteq> None \<Longrightarrow>
         100 \<le> out_status outp \<Longrightarrow> out_status outp \<le> 599 \<Longrightarrow>
         (\<forall>p \<in> set (parameters inp). In p = InPath \<longrightarrow> param_Name p \<in> set (capture_names segs)) \<Longrightarrow>
         ValidateEndpoint (Declare verb path inp outp) = None"
proof -
  have "parsePattern path = Inr segs" using assms by (simp add: parsePattern_iff)
  then show "segments (Declare verb path inp outp) = segs" by (simp add: Declare_def)
qed (use assms in \<open>unfold Declare_valid; blast\<close>)

lemma Returns_usable:
  "schema_Validate shape = None \<Longrightarrow> out_fault (Returns code shape) = None \<and> encode (Returns code shape) \<noteq> None"
  "out_status (Returns code shape) = code"
  by (simp_all add: Returns_def Let_def split: option.split)

section \<open>Calling what is served\<close>

lemma plain_path_target:
  assumes "fillPattern segs vals = Inr target" and "plain_path target"
  shows "sendable target" and "CHR ''?'' \<notin> set target"
    and "unescape False (fst (cut_at (CHR ''?'') target)) = Some target"
proof -
  show no: "CHR ''?'' \<notin> set target" using assms(2) by (auto simp: plain_path_def list_all_iff)
  have "CHR ''%'' \<notin> set target" using assms(2) by (auto simp: plain_path_def list_all_iff)
  then show "unescape False (fst (cut_at (CHR ''?'') target)) = Some target"
    by (simp add: cut_at_absent [OF no] unescape_plain)
  have "HasPrefix target ''/''"
    using assms(1) by (auto simp: fillPattern_def go_results split: if_splits)
  with assms(2) show "sendable target" by (auto simp: sendable_def plain_path_def list_all_iff)
qed

text \<open>What a client asks a server for when it calls an endpoint.\<close>

definition asked_for :: "string \<Rightarrow> string \<Rightarrow> ClientRequest \<Rightarrow> http_request \<Rightarrow> bool" where
  "asked_for verb target request arrived \<longleftrightarrow>
     asked verb target (ParseQuery (Encode (cr_Query request))) request arrived"

lemma remote_exchange:
  assumes "lawful ops obs" and "ValidateEndpoint endpoint = None"
    and "well_declared endpoint" and "end_output endpoint = Returns code shape"
    and "NewRoutesWithRejection (Some rejects) rs = Inr surface"
    and "Handle ops endpoint (Some handle) \<in> set rs"
    and "\<And>s. s \<in> set rs \<Longrightarrow> serves (end_method endpoint) (pathSegments target) s \<Longrightarrow>
           s \<noteq> Handle ops endpoint (Some handle) \<Longrightarrow> map kind (segments endpoint) < kinds s"
    and "fits (segments endpoint) (cr_Path request)" and "fillPattern (segments endpoint) (cr_Path request) = Inr target"
    and "plain_path target" and "token (end_method endpoint)" and "reaches lib client"
    and "hosts lib (served_by causes (see_response obs) adapter (Routes_Handler (Succeed ops) surface))"
    and "\<And>arrived caps. asked_for (end_method endpoint) target request arrived \<Longrightarrow>
           restrict_map caps (set (capture_names (segments endpoint))) =
             restrict_map (cr_Path request) (set (capture_names (segments endpoint))) \<Longrightarrow>
           Decode (end_input endpoint) \<lparr>req_source = arrived, captures = caps, strategy = None\<rparr> = Inr v"
  obtains arrived header where
    "see_response obs (Routes_Handler (Succeed ops) surface (RequestFrom arrived)) w =
       continue (see_output obs (handle v) w) (\<lambda>v. see_response obs (encodeOutput ops (Returns code shape) None v))"
    and "exchange lib (Some client) (end_method endpoint) target request w =
       (case served_by causes (see_response obs) adapter (Routes_Handler (Succeed ops) surface) arrived w of (w1, written) \<Rightarrow>
          (w1, Inr \<lparr>resp_Status = sent_status written, resp_Header = header,
                    resp_Entity = received_entity (end_method endpoint) written\<rparr>))"
proof -
  note target = plain_path_target [OF assms(9,10)]
  obtain arrived header where arrived: "asked_for (end_method endpoint) target request arrived"
    "exchange lib (Some client) (end_method endpoint) target request w =
       (case served_by causes (see_response obs) adapter (Routes_Handler (Succeed ops) surface) arrived w of (w1, written) \<Rightarrow>
          (w1, Inr \<lparr>resp_Status = sent_status written, resp_Header = header,
                    resp_Entity = received_entity (end_method endpoint) written\<rparr>))"
    using exchange_hosted [OF assms(13,12,11) target(1,3), of request w]
    by (auto simp: asked_for_def cut_query_target(2) [OF target(2)])
  have at: "Path (RequestFrom arrived) = target" "Method (RequestFrom arrived) = end_method endpoint"
    using arrived(1) by (simp_all add: asked_for_def asked_def Path_def Method_def RequestFrom_def)
  have decoded: "Decode (end_input endpoint) (request_withNaming (WithCaptures (RequestFrom arrived) caps) None) = Inr v"
    if "restrict_map caps (set (capture_names (segments endpoint))) =
        restrict_map (cr_Path request) (set (capture_names (segments endpoint)))" for caps
    using assms(14) [OF arrived(1) that] by (simp add: request_withNaming_def WithCaptures_def RequestFrom_def)
  have "see_response obs (Routes_Handler (Succeed ops) surface (RequestFrom arrived)) w =
      continue (see_output obs (handle v) w) (\<lambda>v. see_response obs (encodeOutput ops (Returns code shape) None v))"
    using call_dispatched [of ops obs endpoint rejects rs surface handle "cr_Path request" "RequestFrom arrived" v "Succeed ops"]
      assms(1-9) decoded by (simp add: at lawful_def)
  then show thesis using arrived(2) by (rule that)
qed

lemma remote_call:
  assumes "lawful ops obs" and "succeeds ops obs" and "ValidateEndpoint endpoint = None"
    and "well_declared endpoint" and "end_output endpoint = Returns code shape"
    and "NewRoutesWithRejection (Some rejects) rs = Inr surface"
    and "Handle ops endpoint (Some handle) \<in> set rs"
    and "\<And>s. s \<in> set rs \<Longrightarrow> serves (end_method endpoint) (pathSegments target) s \<Longrightarrow>
           s \<noteq> Handle ops endpoint (Some handle) \<Longrightarrow> map kind (segments endpoint) < kinds s"
    and "fits (segments endpoint) (cr_Path request)" and "fillPattern (segments endpoint) (cr_Path request) = Inr target"
    and "plain_path target" and "token (end_method endpoint)" and "end_method endpoint \<noteq> ''HEAD''"
    and "reaches lib client" and "client_strategy client = None"
    and "hosts lib (served_by causes (see_response obs) adapter (Routes_Handler (Succeed ops) surface))"
    and "\<not> IsStated (crossOrigin adapter)"
    and "\<And>arrived caps. asked_for (end_method endpoint) target request arrived \<Longrightarrow>
           restrict_map caps (set (capture_names (segments endpoint))) =
             restrict_map (cr_Path request) (set (capture_names (segments endpoint))) \<Longrightarrow>
           Decode (end_input endpoint) \<lparr>req_source = arrived, captures = caps, strategy = None\<rparr> = Inr v"
    and "see_output obs (handle v) w = (w', Done r)"
    and "bodyAllowedForStatus code"
    and "schema_EncodeJSON shape None r = Inr document" and "schema_DecodeJSON shape None document = Inr r"
  shows "Call lib client endpoint request w = (w', Inr r)"
proof -
  have usable: "schema_Validate shape = None" "code \<noteq> 0"
    using well_declared_usable(2,3) [OF assms(4,3)] assms(5) by (auto simp: Returns_def Let_def split: option.splits)
  obtain arrived header where arrived:
    "see_response obs (Routes_Handler (Succeed ops) surface (RequestFrom arrived)) w =
       continue (see_output obs (handle v) w) (\<lambda>v. see_response obs (encodeOutput ops (Returns code shape) None v))"
    "exchange lib (Some client) (end_method endpoint) target request w =
       (case served_by causes (see_response obs) adapter (Routes_Handler (Succeed ops) surface) arrived w of (w1, written) \<Rightarrow>
          (w1, Inr \<lparr>resp_Status = sent_status written, resp_Header = header,
                    resp_Entity = received_entity (end_method endpoint) written\<rparr>))"
    by (rule remote_exchange [OF assms(1,3-12,14,16,18), of w])
  note arrived(1)
  also have "continue (see_output obs (handle v) w) (\<lambda>v. see_response obs (encodeOutput ops (Returns code shape) None v)) =
      (w', Done (Bytes code ''application/json'' document))"
    using assms(2,19,21) usable by (simp add: encodeOutput_def Returns_def JSON_def succeeds_def)
  finally have "served_by causes (see_response obs) adapter (Routes_Handler (Succeed ops) surface) arrived w =
      (w', fst (WriteTo (Bytes code ''application/json'' document) newWriter arrived))"
    by (rule served_by_done [OF assms(17)])
  with arrived(2) usable(2) assms(13,20) have "exchange lib (Some client) (end_method endpoint) target request w =
      (w', Inr \<lparr>resp_Status = code, resp_Header = header, resp_Entity = document\<rparr>)"
    by (simp add: written_Bytes received_entity_def)
  then show ?thesis
    using assms(3,5,10,15,22) usable(1)
    by (simp add: Call_def call_through_def Fetch_def decodeResponse_def) (simp add: Returns_def)
qed

text \<open>And what it gives when the handler fails.\<close>

lemma remote_failure:
  assumes "lawful ops obs" and "ValidateEndpoint endpoint = None"
    and "well_declared endpoint" and "end_output endpoint = Returns code shape"
    and "NewRoutesWithRejection (Some rejects) rs = Inr surface"
    and "Handle ops endpoint (Some handle) \<in> set rs"
    and "\<And>s. s \<in> set rs \<Longrightarrow> serves (end_method endpoint) (pathSegments target) s \<Longrightarrow>
           s \<noteq> Handle ops endpoint (Some handle) \<Longrightarrow> map kind (segments endpoint) < kinds s"
    and "fits (segments endpoint) (cr_Path request)" and "fillPattern (segments endpoint) (cr_Path request) = Inr target"
    and "plain_path target" and "token (end_method endpoint)" and "reaches lib client"
    and "hosts lib (served_by causes (see_response obs) adapter (Routes_Handler (Succeed ops) surface))"
    and "\<And>arrived caps. asked_for (end_method endpoint) target request arrived \<Longrightarrow>
           restrict_map caps (set (capture_names (segments endpoint))) =
             restrict_map (cr_Path request) (set (capture_names (segments endpoint))) \<Longrightarrow>
           Decode (end_input endpoint) \<lparr>req_source = arrived, captures = caps, strategy = None\<rparr> = Inr v"
    and "\<not> IsStated (crossOrigin adapter)"
    and "see_output obs (handle v) w = (w', Failed e)"
    and "\<not> ContainsDefect causes (Failed e)" and "cause_Failures causes (Failed e) = e # others"
    and "is_received (onFailure adapter e) refused body" and "refused \<noteq> code"
  shows "Call lib client endpoint request w =
     (w', Inl (Fault (''call '' @ end_method endpoint @ '' '' @ target)
            (Some (RefusalErr \<lparr>Refusal_Status = refused,
                               Refusal_Entity = (if end_method endpoint = ''HEAD'' then [] else body),
                               Refusal_header = Map.empty\<rparr>))))"
proof -
  obtain arrived header where arrived:
    "see_response obs (Routes_Handler (Succeed ops) surface (RequestFrom arrived)) w =
       continue (see_output obs (handle v) w) (\<lambda>v. see_response obs (encodeOutput ops (Returns code shape) None v))"
    "exchange lib (Some client) (end_method endpoint) target request w =
       (case served_by causes (see_response obs) adapter (Routes_Handler (Succeed ops) surface) arrived w of (w1, written) \<Rightarrow>
          (w1, Inr \<lparr>resp_Status = sent_status written, resp_Header = header,
                    resp_Entity = received_entity (end_method endpoint) written\<rparr>))"
    by (rule remote_exchange [OF assms(1-14), of w])
  have "served_by causes (see_response obs) adapter (Routes_Handler (Succeed ops) surface) arrived w =
      (w', fst (WriteTo (onFailure adapter e) newWriter arrived))"
    by (rule served_by_failed [where rest = others, OF assms(15) _ assms(17,18)]) (simp add: arrived(1) assms(16))
  with arrived(2) assms(19)
  have "exchange lib (Some client) (end_method endpoint) target request w =
      (w', Inr \<lparr>resp_Status = refused, resp_Header = header,
                resp_Entity = (if end_method endpoint = ''HEAD'' then [] else body)\<rparr>)"
    by (simp add: is_received_def received_entity_def)
  then show ?thesis
    using assms(2,4,9,20)
    by (simp add: Call_def call_through_def Fetch_def decodeResponse_def Returns_usable(2))
qed

text \<open>C1: Calling an endpoint over a network gives what its handler gives: the request that the client fills
from the endpoint is dispatched to the endpoint's route, its parts are decoded, the handler runs
once in the server's world, its value crosses the wire as the endpoint's output, and the client
has the value -- if the path filled in has nothing in it that an address gives a meaning to, the
codec accepts what was asked, the method and the status are ones that carry an entity, and no
other route serves the path as well.\<close>

theorem remote_call_gives_the_value:
  assumes "lawful ops obs" and "succeeds ops obs" and "ValidateEndpoint endpoint = None"
    and "well_declared endpoint" and "end_output endpoint = Returns code shape"
    and "NewRoutesWithRejection (Some rejects) rs = Inr surface"
    and "Handle ops endpoint (Some handle) \<in> set rs"
    and "\<And>s. s \<in> set rs \<Longrightarrow> serves (end_method endpoint) (pathSegments target) s \<Longrightarrow>
           s \<noteq> Handle ops endpoint (Some handle) \<Longrightarrow> map kind (segments endpoint) < kinds s"
    and "fits (segments endpoint) (cr_Path request)" and "fillPattern (segments endpoint) (cr_Path request) = Inr target"
    and "plain_path target" and "token (end_method endpoint)" and "end_method endpoint \<noteq> ''HEAD''"
    and "reaches lib client" and "client_strategy client = None"
    and "hosts lib (served_by causes (see_response obs) adapter (Routes_Handler (Succeed ops) surface))"
    and "\<not> IsStated (crossOrigin adapter)"
    and "\<And>arrived caps. asked_for (end_method endpoint) target request arrived \<Longrightarrow>
           restrict_map caps (set (capture_names (segments endpoint))) =
             restrict_map (cr_Path request) (set (capture_names (segments endpoint))) \<Longrightarrow>
           Decode (end_input endpoint) \<lparr>req_source = arrived, captures = caps, strategy = None\<rparr> = Inr v"
    and "see_output obs (handle v) w = (w', Done r)"
    and "bodyAllowedForStatus code"
    and "schema_EncodeJSON shape None r = Inr document" and "schema_DecodeJSON shape None document = Inr r"
  shows "Call lib client endpoint request w = (w', Inr r)"
  using assms by (rule remote_call)

text \<open>An endpoint that answers with what its path captured, counting its requests.\<close>

definition echo_endpoint :: "(string, string) Endpoint" where
  "echo_endpoint = Declare ''GET'' ''/{id}'' (PathParam plain_library ''id'' verbatim) (Returns 200 verbatim)"

definition echo_route :: "((nat \<Rightarrow> nat \<times> (unit, Response) exit) Handler, unit) Route" where
  "echo_route = Handle direct_ops echo_endpoint (Some (\<lambda>text_value w. (Suc w, Done text_value)))"

lemma echo_valid: "ValidateEndpoint echo_endpoint = None" "segments echo_endpoint = [capturing ''id'']"
proof -
  have pattern: "wf_segments [capturing ''id'']" "renderPattern [capturing ''id''] = ''/{id}''" by code_simp+
  have "parameterFault ''id'' verbatim = None" by (simp add: parameterFault_def TrimSpace_visible)
  then show "ValidateEndpoint echo_endpoint = None"
    unfolding echo_endpoint_def Declare_valid using pattern
    by (intro exI [of _ "[capturing ''id'']"])
      (simp add: PathParam_def requiredParameter_def ValidateCodec_def Let_def Returns_def capture_names_def)
  have "parsePattern ''/{id}'' = Inr [capturing ''id'']" using pattern by (simp add: parsePattern_iff)
  then show "segments echo_endpoint = [capturing ''id'']" by (simp add: echo_endpoint_def Declare_def)
qed

lemma echo_usable: "usable echo_route"
  using echo_valid(1) by (simp add: usable_def echo_route_def Handle_def firstRouteFault_def)

lemma echo_decodes:
  assumes "caps ''id'' = Some captured"
  shows "Decode (PathParam plain_library ''id'' verbatim) \<lparr>req_source = arrived, captures = caps, strategy = None\<rparr> = Inr captured"
proof -
  have "parameterFault ''id'' verbatim = None" by (simp add: parameterFault_def TrimSpace_visible)
  with assms show ?thesis
    by (simp add: PathParam_def requiredParameter_def Decode_def ValidateCodec_def Let_def Capture_def textSource_def)
qed

definition plain_causes :: "((unit, Response) exit, unit) cause_ops" where
  "plain_causes =
     \<lparr>ContainsDefect = (\<lambda>_. False), cause_Failures = (\<lambda>_. []), HasInterruptsOnly = (\<lambda>_. False), cause_String = (\<lambda>_. [])\<rparr>"

definition plain_adapter :: "((unit, Response) exit, unit) Adapter" where
  "plain_adapter =
     \<lparr>onFailure = (\<lambda>_. Empty 500), onDefect = defectResponse plain_causes, crossOrigin = noCrossOrigin, quiet = False\<rparr>"

definition echo_observer ::
  "(nat \<Rightarrow> nat \<times> (unit, Response) exit, nat \<Rightarrow> nat \<times> (unit, string) exit,
    nat \<Rightarrow> nat \<times> (unit, string decodeResult) exit, nat, unit, string, string) observer" where
  "echo_observer = direct_observer"

theorem remote_call_gives_the_value_witness:
  "\<exists>surface. NewRoutesWithRejection (Some rejectRequest) [echo_route] = Inr surface \<and>
     Call (direct_http (served_by plain_causes (see_response echo_observer) plain_adapter (Routes_Handler (\<lambda>r w. (w, Done r)) surface)))
       (Dial True ''http://host'') echo_endpoint (bare_request\<lparr>cr_Path := [''id'' \<mapsto> ''x'']\<rparr>) 3 = (4, Inr ''x'')"
proof -
  obtain surface where s: "NewRoutesWithRejection (Some rejectRequest) [echo_route] = Inr surface"
    using NewRoutesWithRejection_ok [of "Some rejectRequest" "[echo_route]"] echo_usable by auto
  let ?request = "bare_request\<lparr>cr_Path := [''id'' \<mapsto> ''x'']\<rparr>"
  let ?serve = "served_by plain_causes (see_response echo_observer) plain_adapter (Routes_Handler (\<lambda>r w. (w, Done r)) surface)"
  have succeed: "Succeed direct_ops = (\<lambda>r w. (w, Done r))" by (simp add: direct_ops_def)
  have filled: "fits [capturing ''id''] [''id'' \<mapsto> ''x'']" "fillPattern [capturing ''id''] [''id'' \<mapsto> ''x''] = Inr ''/x''"
    by (simp_all add: fits_def fillPattern_def go_results)
  have client: "reaches (direct_http ?serve) (Dial True ''http://host'')"
    using dialled_reaches [of "''host''" "direct_http ?serve"] by (simp add: plain_host_def is_control_def)
      (simp add: direct_http_def)
  have decodes: "Decode (PathParam plain_library ''id'' verbatim) \<lparr>req_source = arrived, captures = caps, strategy = None\<rparr> = Inr ''x''"
    if "restrict_map caps {''id''} = restrict_map [''id'' \<mapsto> ''x''] {''id''}" for arrived caps
    using fun_cong [OF that, of "''id''"] by (intro echo_decodes) simp
  have wf: "well_declared echo_endpoint" by (simp add: echo_endpoint_def)
  have "Call (direct_http ?serve) (Dial True ''http://host'') echo_endpoint ?request 3 = (4, Inr ''x'')"
    by (rule remote_call_gives_the_value [OF direct_lawful [folded echo_observer_def], where endpoint = echo_endpoint
        and shape = verbatim and code = 200 and rs = "[echo_route]" and rejects = rejectRequest and surface = surface
        and handle = "\<lambda>captured w. (Suc w, Done captured)" and target = "''/x''" and v = "''x''" and document = "''x''"
        and causes = plain_causes and adapter = plain_adapter, folded echo_route_def, unfolded echo_valid(2)])
      (use s filled client decodes echo_valid wf in \<open>simp_all add: succeed succeeds_def direct_hosts echo_observer_def
        direct_observer_def bare_request_def Dial_def plain_path_def is_control_def token_def validHeaderFieldByte_def
        is_capital_def plain_adapter_def noCrossOrigin_def IsStated_def bodyAllowedForStatus_def capture_names_def
        echo_endpoint_def\<close>)
  with s show ?thesis by blast
qed

section \<open>What a failure looks like from the other side\<close>

text \<open>C2: A typed failure crosses a network as what the boundary answers it with: the handler runs once in the
server's world, the failure it ends with is mapped to a response, and the client has a refusal with
the response's status and entity, and the method and the path it asked for -- if the response is
not the status the endpoint promises.\<close>

theorem remote_failure_is_a_refusal:
  assumes "lawful ops obs" and "ValidateEndpoint endpoint = None"
    and "well_declared endpoint" and "end_output endpoint = Returns code shape"
    and "NewRoutesWithRejection (Some rejects) rs = Inr surface"
    and "Handle ops endpoint (Some handle) \<in> set rs"
    and "\<And>s. s \<in> set rs \<Longrightarrow> serves (end_method endpoint) (pathSegments target) s \<Longrightarrow>
           s \<noteq> Handle ops endpoint (Some handle) \<Longrightarrow> map kind (segments endpoint) < kinds s"
    and "fits (segments endpoint) (cr_Path request)" and "fillPattern (segments endpoint) (cr_Path request) = Inr target"
    and "plain_path target" and "token (end_method endpoint)" and "reaches lib client"
    and "hosts lib (served_by causes (see_response obs) adapter (Routes_Handler (Succeed ops) surface))"
    and "\<And>arrived caps. asked_for (end_method endpoint) target request arrived \<Longrightarrow>
           restrict_map caps (set (capture_names (segments endpoint))) =
             restrict_map (cr_Path request) (set (capture_names (segments endpoint))) \<Longrightarrow>
           Decode (end_input endpoint) \<lparr>req_source = arrived, captures = caps, strategy = None\<rparr> = Inr v"
    and "\<not> IsStated (crossOrigin adapter)"
    and "see_output obs (handle v) w = (w', Failed e)"
    and "\<not> ContainsDefect causes (Failed e)" and "cause_Failures causes (Failed e) = e # others"
    and "is_received (onFailure adapter e) refused body" and "refused \<noteq> code"
  shows "Call lib client endpoint request w =
     (w', Inl (Fault (''call '' @ end_method endpoint @ '' '' @ target)
            (Some (RefusalErr \<lparr>Refusal_Status = refused,
                               Refusal_Entity = (if end_method endpoint = ''HEAD'' then [] else body),
                               Refusal_header = Map.empty\<rparr>))))"
  using assms by (rule remote_failure)

text \<open>An endpoint whose handler counts its requests and fails.\<close>

definition busy_route :: "((nat \<Rightarrow> nat \<times> (unit, Response) exit) Handler, unit) Route" where
  "busy_route = Handle direct_ops echo_endpoint (Some (\<lambda>captured w. (Suc w, Failed ())))"

definition failing_causes :: "((unit, Response) exit, unit) cause_ops" where
  "failing_causes = plain_causes\<lparr>cause_Failures := (\<lambda>_. [()])\<rparr>"

theorem remote_failure_is_a_refusal_witness:
  "\<exists>surface. NewRoutesWithRejection (Some rejectRequest) [busy_route] = Inr surface \<and>
     Call (direct_http (served_by failing_causes (see_response echo_observer) plain_adapter (Routes_Handler (\<lambda>r w. (w, Done r)) surface)))
       (Dial True ''http://host'') echo_endpoint (bare_request\<lparr>cr_Path := [''id'' \<mapsto> ''x'']\<rparr>) 3 =
     (4, Inl (Fault ''call GET /x''
            (Some (RefusalErr \<lparr>Refusal_Status = 500, Refusal_Entity = [], Refusal_header = Map.empty\<rparr>))))"
proof -
  have "usable busy_route" using echo_valid(1) by (simp add: usable_def busy_route_def Handle_def firstRouteFault_def)
  then obtain surface where s: "NewRoutesWithRejection (Some rejectRequest) [busy_route] = Inr surface"
    using NewRoutesWithRejection_ok [of "Some rejectRequest" "[busy_route]"] by auto
  let ?request = "bare_request\<lparr>cr_Path := [''id'' \<mapsto> ''x'']\<rparr>"
  let ?serve = "served_by failing_causes (see_response echo_observer) plain_adapter (Routes_Handler (\<lambda>r w. (w, Done r)) surface)"
  have succeed: "Succeed direct_ops = (\<lambda>r w. (w, Done r))" by (simp add: direct_ops_def)
  have filled: "fits [capturing ''id''] [''id'' \<mapsto> ''x'']" "fillPattern [capturing ''id''] [''id'' \<mapsto> ''x''] = Inr ''/x''"
    by (simp_all add: fits_def fillPattern_def go_results)
  have client: "reaches (direct_http ?serve) (Dial True ''http://host'')"
    using dialled_reaches [of "''host''" "direct_http ?serve"] by (simp add: plain_host_def is_control_def)
      (simp add: direct_http_def)
  have decodes: "Decode (PathParam plain_library ''id'' verbatim) \<lparr>req_source = arrived, captures = caps, strategy = None\<rparr> = Inr ''x''"
    if "restrict_map caps {''id''} = restrict_map [''id'' \<mapsto> ''x''] {''id''}" for arrived caps
    using fun_cong [OF that, of "''id''"] by (intro echo_decodes) simp
  have wf: "well_declared echo_endpoint" by (simp add: echo_endpoint_def)
  have refused: "is_received (Empty 500) 500 []" by (rule written_Empty) (simp_all add: informational_def)
  have "Call (direct_http ?serve) (Dial True ''http://host'') echo_endpoint ?request 3 =
      (4, Inl (Fault (''call '' @ end_method echo_endpoint @ '' '' @ ''/x'')
        (Some (RefusalErr \<lparr>Refusal_Status = 500, Refusal_Entity = (if end_method echo_endpoint = ''HEAD'' then [] else []),
                           Refusal_header = Map.empty\<rparr>))))"
    by (rule remote_failure_is_a_refusal [OF direct_lawful [folded echo_observer_def], where endpoint = echo_endpoint
        and shape = verbatim and code = 200 and rs = "[busy_route]" and rejects = rejectRequest and surface = surface
        and handle = "\<lambda>captured w. (Suc w, Failed ())" and target = "''/x''" and v = "''x''" and e = "()"
        and causes = failing_causes and adapter = plain_adapter and others = "[]", folded busy_route_def, unfolded echo_valid(2)])
      (use s filled client decodes echo_valid wf refused in \<open>simp_all add: succeed direct_hosts echo_observer_def
        direct_observer_def bare_request_def Dial_def plain_path_def is_control_def token_def validHeaderFieldByte_def
        is_capital_def plain_adapter_def noCrossOrigin_def IsStated_def capture_names_def failing_causes_def plain_causes_def
        echo_endpoint_def\<close>)
  with s show ?thesis by (intro exI [of _ surface]) (simp add: echo_endpoint_def)
qed

end
