(* ===== verification/Web_Serve.thy ===== *)
theory Web_Serve
  imports Web_Fault
begin

text \<open>
  A running server (\<open>web/server.go\<close>, \<open>web/serve_loop.go\<close>): its settings and listener, the loop that
  accepts on it, how the loop is shut down, and what the scope that owns the server reports when
  it closes.

  The loop runs beside the goroutine that is in \<open>http.Server.Serve\<close>, the requests in flight and
  whoever cancels its context. \<open>step\<close> is one step of any of them. Of \<open>net/http\<close> it has what is
  documented: \<open>Serve\<close> returns when accepting fails, and after \<open>Shutdown\<close> was called with
  \<open>ErrServerClosed\<close>, once; \<open>Shutdown\<close> returns nil when no request is left, the error of closing a
  listener when no request is left, and the context's error when the grace period is over. A
  request that arrives is one accepted before \<open>Shutdown\<close> was called. The two channels have a place
  for one value each, which is why a send to them never waits.

  What is proved: a loop that has ended either drained, or reported what it gave up on, or failed
  because accepting did; and a shutdown comes to its end in as many steps as there are requests
  in flight and four more.
\<close>

section \<open>Settings\<close>

record 'l Settings =
  set_Address :: string
  Listener :: "'l option"
  ReadHeaderTimeout :: int
  ReadTimeout :: int
  WriteTimeout :: int
  IdleTimeout :: int
  Grace :: int

definition errNoListener :: error where
  "errNoListener = declarationMistake ''neither an address nor a listener was given''"

text \<open>\<open>net.Listen\<close> is a parameter.\<close>

definition listen :: "(string \<Rightarrow> (error, 'l) result) \<Rightarrow> 'l Settings \<Rightarrow> (Fault, 'l) result" where
  "listen net_Listen settings =
     (case (case Listener settings of
              Some given_listener \<Rightarrow> Inr given_listener
            | None \<Rightarrow>
                if set_Address settings = [] then Inl errNoListener
                else net_Listen (set_Address settings)) of
        Inl err \<Rightarrow> Inl (Fault ''open the listener'' (Some err))
      | Inr listener \<Rightarrow> Inr listener)"

definition orElse :: "int \<Rightarrow> int \<Rightarrow> int" where
  "orElse value fallback = (if value > 0 then value else fallback)"

definition defaultReadHeaderTimeout :: int where
  "defaultReadHeaderTimeout = 10 * 1000000000"

record http_server =
  server_ReadHeaderTimeout :: int
  server_ReadTimeout :: int
  server_WriteTimeout :: int
  server_IdleTimeout :: int

definition httpServer :: "'l Settings \<Rightarrow> http_server" where
  "httpServer settings =
     \<lparr>server_ReadHeaderTimeout = orElse (ReadHeaderTimeout settings) defaultReadHeaderTimeout,
      server_ReadTimeout = ReadTimeout settings, server_WriteTimeout = WriteTimeout settings,
      server_IdleTimeout = IdleTimeout settings\<rparr>"

section \<open>How a loop ends\<close>

text \<open>\<open>errors.Is\<close> walks the chain of \<open>Unwrap\<close> looking for one value.\<close>

fun errors_Is :: "error \<Rightarrow> error \<Rightarrow> bool" and fault_Is :: "Fault \<Rightarrow> error \<Rightarrow> bool" where
  "errors_Is (Foreign t i) target =
     (Foreign t i = target \<or> (case i of None \<Rightarrow> False | Some err \<Rightarrow> errors_Is err target))"
| "errors_Is (FaultErr f) target = (FaultErr f = target \<or> fault_Is f target)"
| "errors_Is (Sentinel t k) target = (Sentinel t k = target)"
| "errors_Is (Reason t) target = (Reason t = target)"
| "errors_Is (RefusalErr r) target = (RefusalErr r = target)"
| "fault_Is (Fault op e) target = (case e of None \<Rightarrow> False | Some err \<Rightarrow> errors_Is err target)"

definition ErrServerClosed :: error where
  "ErrServerClosed = Foreign ''http: Server closed'' None"

definition ErrClosed :: error where
  "ErrClosed = Foreign ''use of closed network connection'' None"

definition loopExit :: "error option \<Rightarrow> Fault + unit" where
  "loopExit err =
     (case err of
        None \<Rightarrow> Inr ()
      | Some e \<Rightarrow> if errors_Is e ErrServerClosed then Inr () else Inl (Fault ''serve'' (Some e)))"

section \<open>The loop and what runs beside it\<close>

datatype phase = Selecting | ShuttingDown | Draining | Over "Fault + unit"

record acceptLoop =
  running :: bool
  loop_end :: "error option option"
  cancelled :: bool
  in_flight :: nat
  abandonment :: "Fault option"
  at :: phase

definition serveLoop :: acceptLoop where
  "serveLoop =
     \<lparr>running = True, loop_end = None, cancelled = False, in_flight = 0, abandonment = None, at = Selecting\<rparr>"

text \<open>The two branches of the \<open>select\<close>, and the rest of \<open>shutDown\<close> once \<open>Shutdown\<close> has returned.\<close>

definition on_end :: "error option \<Rightarrow> acceptLoop \<Rightarrow> acceptLoop" where
  "on_end err s = s\<lparr>loop_end := None, at := Over (loopExit err)\<rparr>"

definition on_done :: "acceptLoop \<Rightarrow> acceptLoop" where
  "on_done s = s\<lparr>at := ShuttingDown\<rparr>"

definition shutDown :: "error option \<Rightarrow> acceptLoop \<Rightarrow> acceptLoop" where
  "shutDown result s =
     (case result of
        Some err \<Rightarrow> s\<lparr>abandonment := Some (Fault ''wait for in-flight requests'' (Some err)), at := Over (Inr ())\<rparr>
      | None \<Rightarrow> s\<lparr>at := Draining\<rparr>)"

definition drained :: "acceptLoop \<Rightarrow> acceptLoop" where
  "drained s = s\<lparr>loop_end := None, at := Over (Inr ())\<rparr>"

definition shutting :: "acceptLoop \<Rightarrow> bool" where
  "shutting s \<longleftrightarrow> at s \<noteq> Selecting"

inductive step :: "int \<Rightarrow> acceptLoop \<Rightarrow> acceptLoop \<Rightarrow> bool" for grace where
  arrives: "running s \<Longrightarrow> at s = Selecting \<Longrightarrow> step grace s (s\<lparr>in_flight := Suc (in_flight s)\<rparr>)"
| finishes: "in_flight s = Suc n \<Longrightarrow> step grace s (s\<lparr>in_flight := n\<rparr>)"
| cancels: "\<not> cancelled s \<Longrightarrow> step grace s (s\<lparr>cancelled := True\<rparr>)"
| accept_fails: "running s \<Longrightarrow> at s = Selecting \<Longrightarrow> \<not> errors_Is err ErrServerClosed \<Longrightarrow>
    step grace s (s\<lparr>running := False, loop_end := Some (Some err)\<rparr>)"
| accept_closed: "running s \<Longrightarrow> at s \<noteq> Selecting \<Longrightarrow>
    step grace s (s\<lparr>running := False, loop_end := Some (Some ErrServerClosed)\<rparr>)"
| selects_end: "at s = Selecting \<Longrightarrow> loop_end s = Some err \<Longrightarrow> step grace s (on_end err s)"
| selects_done: "at s = Selecting \<Longrightarrow> cancelled s \<Longrightarrow> step grace s (on_done s)"
| shut_down: "at s = ShuttingDown \<Longrightarrow> in_flight s = 0 \<Longrightarrow> step grace s (shutDown result s)"
| grace_over: "at s = ShuttingDown \<Longrightarrow> grace > 0 \<Longrightarrow> step grace s (shutDown (Some deadline) s)"
| drains: "at s = Draining \<Longrightarrow> loop_end s = Some err \<Longrightarrow> step grace s (drained s)"

inductive reachable :: "int \<Rightarrow> acceptLoop \<Rightarrow> bool" for grace where
  started: "reachable grace serveLoop"
| stepped: "reachable grace s \<Longrightarrow> step grace s t \<Longrightarrow> reachable grace t"

inductive_cases stepE: "step grace s t"

section \<open>What is kept\<close>

text \<open>How a loop may have ended.\<close>

definition ended_well :: "acceptLoop \<Rightarrow> (Fault + unit) \<Rightarrow> bool" where
  "ended_well s outcome \<longleftrightarrow>
     outcome = Inr () \<and> abandonment s = None \<and> in_flight s = 0 \<and> \<not> running s \<or>
     (\<exists>err. outcome = Inr () \<and> abandonment s = Some (Fault ''wait for in-flight requests'' (Some err))) \<or>
     (\<exists>err. outcome = Inl (Fault ''serve'' (Some err)) \<and> abandonment s = None \<and> \<not> running s)"

definition loop_ok :: "acceptLoop \<Rightarrow> bool" where
  "loop_ok s \<longleftrightarrow>
     (running s \<longrightarrow> loop_end s = None) \<and>
     (\<not> running s \<and> (\<forall>outcome. at s \<noteq> Over outcome) \<longrightarrow> loop_end s \<noteq> None) \<and>
     (at s = Selecting \<longrightarrow> (\<forall>err. loop_end s = Some err \<longrightarrow> (\<exists>e. err = Some e \<and> \<not> errors_Is e ErrServerClosed))) \<and>
     (at s \<noteq> Selecting \<and> (\<forall>outcome. at s \<noteq> Over outcome) \<longrightarrow> cancelled s) \<and>
     (at s = Draining \<longrightarrow> in_flight s = 0) \<and>
     ((\<forall>outcome. at s \<noteq> Over outcome) \<longrightarrow> abandonment s = None) \<and>
     (\<forall>outcome. at s = Over outcome \<longrightarrow> ended_well s outcome)"

lemma loop_ok_step: "step grace s t \<Longrightarrow> loop_ok s \<Longrightarrow> loop_ok t"
  by (erule stepE)
    (auto simp: loop_ok_def ended_well_def on_end_def on_done_def shutDown_def drained_def loopExit_def split: option.splits)

lemma loop_ok_reachable: "reachable grace s \<Longrightarrow> loop_ok s"
proof (induction rule: reachable.induct)
  case started
  show ?case by (simp add: loop_ok_def serveLoop_def)
qed (rule loop_ok_step)

section \<open>A server and its scope\<close>

record ('l, 'a) Server =
  Address :: 'a
  fiber :: acceptLoop
  serving :: http_server
  socket :: 'l

definition ServeWith ::
  "(string \<Rightarrow> (error, 'l) result) \<Rightarrow> ('l \<Rightarrow> 'a) \<Rightarrow> 'l Settings \<Rightarrow> (Fault, ('l, 'a) Server) result" where
  "ServeWith net_Listen Addr settings =
     bind_result (listen net_Listen settings) (\<lambda>listener.
       Inr \<lparr>Address = Addr listener, fiber = serveLoop, serving = httpServer settings, socket = listener\<rparr>)"

definition Serve ::
  "(string \<Rightarrow> (error, 'l) result) \<Rightarrow> ('l \<Rightarrow> 'a) \<Rightarrow> string \<Rightarrow> (Fault, ('l, 'a) Server) result" where
  "Serve net_Listen Addr where_to =
     ServeWith net_Listen Addr
       \<lparr>set_Address = where_to, Listener = None, ReadHeaderTimeout = 0, ReadTimeout = 0, WriteTimeout = 0,
        IdleTimeout = 0, Grace = 0\<rparr>"

text \<open>
  Serving over a listener that is given and waiting for the end, as the programs do it: what the loop
  does with a handler until it has ended is an argument.
\<close>

definition serve_and_await ::
  "(string \<Rightarrow> (error, 'l) result) \<Rightarrow> ('l \<Rightarrow> 'a) \<Rightarrow> (Fault \<Rightarrow> 'e) \<Rightarrow>
   (('l, 'a) Server \<Rightarrow> 'h \<Rightarrow> 'w \<Rightarrow> 'w \<times> ('e, unit) result) \<Rightarrow> 'l \<Rightarrow> 'h \<Rightarrow> 'w \<Rightarrow> 'w \<times> ('e, unit) result" where
  "serve_and_await net_Listen Addr failing loop listener handler w =
     (case ServeWith net_Listen Addr
             \<lparr>set_Address = [], Listener = Some listener, ReadHeaderTimeout = 0, ReadTimeout = 0, WriteTimeout = 0,
              IdleTimeout = 0, Grace = 0\<rparr> of
        Inl fault \<Rightarrow> (w, Inl (failing fault))
      | Inr server \<Rightarrow> loop server handler w)"

text \<open>A listener that is given is served: opening it cannot fail.\<close>

lemma serve_and_await_given:
  "\<exists>server. socket server = listener \<and> Address server = Addr listener \<and> fiber server = serveLoop \<and>
     serve_and_await net_Listen Addr failing loop listener handler w = loop server handler w"
proof -
  let ?settings = "\<lparr>set_Address = [], Listener = Some listener, ReadHeaderTimeout = 0, ReadTimeout = 0, WriteTimeout = 0,
      IdleTimeout = 0, Grace = 0\<rparr>"
  have "serve_and_await net_Listen Addr failing loop listener handler w =
      loop \<lparr>Address = Addr listener, fiber = serveLoop, serving = httpServer ?settings, socket = listener\<rparr> handler w"
    by (simp add: serve_and_await_def ServeWith_def listen_def)
  then show ?thesis by (metis Server.select_convs)
qed

text \<open>Joining the loop's fiber: nothing until the loop has ended.\<close>

definition Await :: "('l, 'a) Server \<Rightarrow> (Fault, unit) result option" where
  "Await server = (case at (fiber server) of Over outcome \<Rightarrow> Some outcome | _ \<Rightarrow> None)"

text \<open>
  A scope closes what it owns in the reverse of the order it was acquired in: the fiber, whose
  end it awaits; then what the loop reported as given up; then the listener, which a shutdown has
  usually closed already.
\<close>

definition reportAbandonment :: "acceptLoop \<Rightarrow> acceptLoop \<times> error option" where
  "reportAbandonment s =
     (case abandonment s of
        Some fault \<Rightarrow> (s\<lparr>abandonment := None\<rparr>, Some (FaultErr fault))
      | None \<Rightarrow> (s, None))"

definition closeListener :: "error option \<Rightarrow> error option" where
  "closeListener closed =
     (case closed of
        None \<Rightarrow> None
      | Some err \<Rightarrow> if errors_Is err ErrClosed then None else Some err)"

definition closing_faults :: "acceptLoop \<Rightarrow> error option \<Rightarrow> error list" where
  "closing_faults s closed =
     (case snd (reportAbandonment s) of None \<Rightarrow> [] | Some err \<Rightarrow> [err]) @
     (case closeListener closed of None \<Rightarrow> [] | Some err \<Rightarrow> [err])"

section \<open>How long a shutdown takes\<close>

inductive steps :: "int \<Rightarrow> nat \<Rightarrow> acceptLoop \<Rightarrow> acceptLoop \<Rightarrow> bool" for grace where
  none: "steps grace 0 s s"
| one_more: "step grace s t \<Longrightarrow> steps grace k t u \<Longrightarrow> steps grace (Suc k) s u"

fun phase_rank :: "phase \<Rightarrow> nat" where
  "phase_rank Selecting = 3"
| "phase_rank ShuttingDown = 2"
| "phase_rank Draining = 1"
| "phase_rank (Over outcome) = 0"

definition left_to_do :: "acceptLoop \<Rightarrow> nat" where
  "left_to_do s =
     in_flight s + (if running s then 1 else 0) + (if cancelled s then 0 else 1) + phase_rank (at s)"

lemma shutting_step:
  "step grace s t \<Longrightarrow> shutting s \<Longrightarrow> shutting t \<and> left_to_do t < left_to_do s"
  by (erule stepE)
    (auto simp: shutting_def left_to_do_def on_end_def on_done_def shutDown_def drained_def split: option.splits)

lemma shutting_steps:
  "steps grace k s t \<Longrightarrow> shutting s \<Longrightarrow> shutting t \<and> k + left_to_do t \<le> left_to_do s"
  by (induction rule: steps.induct) (auto dest: shutting_step)

lemma shutting_moves:
  assumes "loop_ok s" and "shutting s" and "\<And>outcome. at s \<noteq> Over outcome"
  shows "\<exists>t. step grace s t"
proof (cases "at s")
  case ShuttingDown
  then show ?thesis by (cases "in_flight s") (auto intro: step.intros)
next
  case Draining
  show ?thesis
  proof (cases "loop_end s")
    case None
    with assms(1) Draining have "running s" by (auto simp: loop_ok_def)
    from accept_closed [OF this, of grace] Draining show ?thesis by auto
  next
    case (Some err)
    from drains [OF Draining this, of grace] show ?thesis by blast
  qed
qed (use assms in \<open>auto simp: shutting_def\<close>)

lemma steps_reachable: "steps grace k s t \<Longrightarrow> reachable grace s \<Longrightarrow> reachable grace t"
  by (induction rule: steps.induct) (auto intro: reachable.stepped)

section \<open>What a server promises\<close>

text \<open>C35: Whatever a shutdown had to give up on is reported: when a loop has ended it was shut down and
every request it took has been answered and accepting is over, or what it gave up on is among
what its scope reports when it closes, or accepting failed and waiting for the server says why.\<close>

theorem nothing_is_given_up_silently:
  assumes "reachable grace (fiber server)" and "Await server = Some outcome"
  shows "(\<exists>reported. closing_faults (fiber server) closed =
            reported @ (case closeListener closed of None \<Rightarrow> [] | Some err \<Rightarrow> [err]) \<and>
          (outcome = Inr () \<and> reported = [] \<and> in_flight (fiber server) = 0 \<and> \<not> running (fiber server) \<or>
           (\<exists>err. outcome = Inr () \<and> reported = [FaultErr (Fault ''wait for in-flight requests'' (Some err))]) \<or>
           (\<exists>err. outcome = Inl (Fault ''serve'' (Some err)) \<and> reported = [] \<and> \<not> running (fiber server))))"
proof -
  have "at (fiber server) = Over outcome"
    using assms(2) by (auto simp: Await_def split: phase.splits)
  with loop_ok_reachable [OF assms(1)] have "ended_well (fiber server) outcome" by (simp add: loop_ok_def)
  then show ?thesis by (auto simp: ended_well_def closing_faults_def reportAbandonment_def)
qed

text \<open>C36: A shutdown comes to its end: once it has begun, the server can take no more than four steps
beside one for each request in flight, and it can take another one until its loop has ended --
however long the grace period, as long as requests end.\<close>

theorem shutdown_ends:
  assumes "reachable grace s" and "shutting s" and "steps grace k s t"
  shows "k \<le> in_flight s + 4 \<and> ((\<exists>outcome. at t = Over outcome) \<or> (\<exists>u. step grace t u))"
proof -
  have "shutting t" "k + left_to_do t \<le> left_to_do s" using shutting_steps [OF assms(3,2)] by simp_all
  moreover have "phase_rank (at s) \<le> 2" using assms(2) by (cases "at s") (simp_all add: shutting_def)
  ultimately have "k \<le> in_flight s + 4" by (simp add: left_to_do_def split: if_splits)
  moreover have "loop_ok t" using assms(1,3) by (auto intro: loop_ok_reachable steps_reachable)
  ultimately show ?thesis using shutting_moves [OF _ \<open>shutting t\<close>] by blast
qed

text \<open>A loop that was cancelled with one request in flight and a grace period of a second.\<close>

definition one_left :: acceptLoop where
  "one_left = serveLoop\<lparr>cancelled := True, in_flight := 1, at := ShuttingDown\<rparr>"

lemma one_left_reachable: "reachable grace one_left"
proof -
  have "reachable grace (serveLoop\<lparr>in_flight := 1\<rparr>)"
    using stepped [OF started arrives [of serveLoop]] by (simp add: serveLoop_def)
  from stepped [OF this cancels] have "reachable grace (serveLoop\<lparr>in_flight := 1, cancelled := True\<rparr>)"
    by (simp add: serveLoop_def)
  from stepped [OF this selects_done] show ?thesis by (simp add: serveLoop_def on_done_def one_left_def)
qed

theorem nothing_is_given_up_silently_witness:
  "let server = \<lparr>Address = (), fiber = shutDown (Some (Reason ''deadline'')) one_left,
                 serving = httpServer \<lparr>set_Address = [], Listener = Some (), ReadHeaderTimeout = 0, ReadTimeout = 0,
                                       WriteTimeout = 0, IdleTimeout = 0, Grace = 1000000000\<rparr>, socket = ()\<rparr>
   in Await server = Some (Inr ()) \<and>
      closing_faults (fiber server) (Some ErrClosed) = [FaultErr (Fault ''wait for in-flight requests'' (Some (Reason ''deadline'')))]"
proof -
  let ?over = "shutDown (Some (Reason ''deadline'')) one_left"
  let ?server = "\<lparr>Address = (), fiber = ?over,
                 serving = httpServer \<lparr>set_Address = [], Listener = Some (), ReadHeaderTimeout = 0, ReadTimeout = 0,
                                       WriteTimeout = 0, IdleTimeout = 0, Grace = 1000000000\<rparr>, socket = ()\<rparr>"
  have "reachable 1000000000 ?over"
    by (rule stepped [OF one_left_reachable grace_over]) (simp_all add: one_left_def)
  moreover have "Await ?server = Some (Inr ())" by (simp add: Await_def shutDown_def)
  moreover have "closeListener (Some ErrClosed) = None" by (simp add: closeListener_def ErrClosed_def)
  ultimately show ?thesis
    using nothing_is_given_up_silently [of 1000000000 ?server "Inr ()" "Some ErrClosed"]
    by (auto simp: closing_faults_def reportAbandonment_def shutDown_def one_left_def serveLoop_def)
qed

theorem shutdown_ends_witness:
  "steps 0 4 one_left (one_left\<lparr>running := False, in_flight := 0, at := Over (Inr ())\<rparr>) \<and> 4 \<le> in_flight one_left + 4"
proof -
  have "step 0 one_left (one_left\<lparr>in_flight := 0\<rparr>)" by (rule finishes) (simp add: one_left_def)
  moreover have "step 0 (one_left\<lparr>in_flight := 0\<rparr>) (shutDown None (one_left\<lparr>in_flight := 0\<rparr>))"
    by (rule shut_down) (simp_all add: one_left_def)
  moreover have "step 0 (shutDown None (one_left\<lparr>in_flight := 0\<rparr>))
      ((shutDown None (one_left\<lparr>in_flight := 0\<rparr>))\<lparr>running := False, loop_end := Some (Some ErrServerClosed)\<rparr>)"
    by (rule accept_closed) (simp_all add: one_left_def shutDown_def serveLoop_def)
  moreover have "step 0 ((shutDown None (one_left\<lparr>in_flight := 0\<rparr>))\<lparr>running := False, loop_end := Some (Some ErrServerClosed)\<rparr>)
      (drained ((shutDown None (one_left\<lparr>in_flight := 0\<rparr>))\<lparr>running := False, loop_end := Some (Some ErrServerClosed)\<rparr>))"
    by (rule drains) (simp_all add: shutDown_def)
  ultimately have "steps 0 (Suc (Suc (Suc (Suc 0)))) one_left
      (drained ((shutDown None (one_left\<lparr>in_flight := 0\<rparr>))\<lparr>running := False, loop_end := Some (Some ErrServerClosed)\<rparr>))"
    by (blast intro: steps.intros)
  then have run: "steps 0 4 one_left (one_left\<lparr>running := False, in_flight := 0, at := Over (Inr ())\<rparr>)"
    by (simp add: drained_def shutDown_def one_left_def serveLoop_def eval_nat_numeral)
  moreover have "shutting one_left" by (simp add: shutting_def one_left_def)
  ultimately show ?thesis using shutdown_ends [OF one_left_reachable _ run] by blast
qed

text \<open>A loop whose accepting fails waits for nobody: the requests in flight are neither awaited nor
reported.\<close>

theorem failed_loop_waits_for_nobody:
  "\<exists>s. reachable grace s \<and> at s = Over (Inl (Fault ''serve'' (Some (Reason ''accept'')))) \<and> in_flight s = 1 \<and>
       closing_faults s (Some ErrClosed) = []"
proof -
  let ?taken = "serveLoop\<lparr>in_flight := 1\<rparr>"
  let ?failed = "?taken\<lparr>running := False, loop_end := Some (Some (Reason ''accept''))\<rparr>"
  have "reachable grace ?taken" using stepped [OF started arrives [of serveLoop]] by (simp add: serveLoop_def)
  from stepped [OF this accept_fails [of ?taken "Reason ''accept''"]] have "reachable grace ?failed"
    by (simp add: serveLoop_def ErrServerClosed_def)
  from stepped [OF this selects_end [of ?failed "Some (Reason ''accept'')"]]
  have "reachable grace (on_end (Some (Reason ''accept'')) ?failed)" by (simp add: serveLoop_def)
  then show ?thesis
    by (intro exI [of _ "on_end (Some (Reason ''accept'')) ?failed"])
      (simp add: on_end_def loopExit_def ErrServerClosed_def serveLoop_def closing_faults_def reportAbandonment_def
        closeListener_def ErrClosed_def)
qed

end
