(* ===== verification/Web_Upstream.thy ===== *)
theory Web_Upstream
  imports Web_Client
begin

text \<open>
  Reading a service this program does not own (\<open>web/upstream_client.go\<close>, \<open>upstream_cache.go\<close>,
  \<open>upstream_refusal.go\<close>, \<open>upstream_inflight.go\<close>): the terms, the key of an answer, what is kept,
  what is asked again, and the one reading that serves every caller waiting for it.

  The cache, the rate limiter, the schedule that retries and the HTTP exchange belong to
  other modules. They are the fields of \<open>upstream_ops\<close>: functions on a world that say how it
  changes and what they answer. What the runtime does with the sequence of them is written
  out by passing the world along. The in-flight readings are a step relation, because
  callers interleave there.
\<close>

section \<open>Terms\<close>

record RetryPolicy =
  Base :: int
  Max :: int
  Retries :: nat

record UpstreamTerms =
  terms_Name :: string
  Allowance_stated :: bool
  MaxWait :: int
  TimeToLive :: int
  Retry :: RetryPolicy

definition terms_IsStated :: "UpstreamTerms \<Rightarrow> bool" where
  "terms_IsStated terms \<longleftrightarrow> terms_Name terms \<noteq> [] \<and> Allowance_stated terms \<and> TimeToLive terms > 0"

definition IsEnabled :: "RetryPolicy \<Rightarrow> bool" where
  "IsEnabled policy \<longleftrightarrow> Retries policy > 0 \<and> Base policy > 0"

definition ErrUnstatedTerms :: error where
  "ErrUnstatedTerms =
     Reason ''a upstream client needs a name, an allowance and a lifetime; see web.Carefully''"

record UpstreamClient =
  up_client :: Client
  terms :: UpstreamTerms

definition NewUpstreamClient ::
  "Client option \<Rightarrow> UpstreamTerms \<Rightarrow> bool \<Rightarrow> bool \<Rightarrow> (error, UpstreamClient) result" where
  "NewUpstreamClient client given_terms has_store has_limiter =
     (case client of
        None \<Rightarrow> Inl errNoHTTPClient
      | Some c \<Rightarrow>
          if \<not> has_http_client c then Inl errNoHTTPClient
          else if \<not> terms_IsStated given_terms then Inl ErrUnstatedTerms
          else if \<not> has_store \<or> \<not> has_limiter then Inl ErrUnstatedTerms
          else Inr \<lparr>up_client = c, terms = given_terms\<rparr>)"

section \<open>The key of an answer\<close>

definition question :: "string \<Rightarrow> string \<Rightarrow> ClientRequest \<Rightarrow> string" where
  "question method path request =
     method @ '' '' @ path @ (if length (cr_Query request) > 0 then ''?'' @ Encode (cr_Query request) else [])"

definition cacheKey :: "UpstreamClient \<Rightarrow> string \<Rightarrow> string \<Rightarrow> ClientRequest \<Rightarrow> string" where
  "cacheKey upstream method path request =
     join '':'' [terms_Name (terms upstream), About request, question method path request]"

section \<open>Refusals\<close>

definition IsSuccessful :: "ClientResponse \<Rightarrow> bool" where
  "IsSuccessful response \<longleftrightarrow> resp_Status response \<ge> 200 \<and> resp_Status response < 300"

definition failUnsuccessful :: "string \<Rightarrow> ClientResponse \<Rightarrow> (Fault, ClientResponse) result" where
  "failUnsuccessful target response =
     (if IsSuccessful response then Inr response
      else Inl (Fault (''call '' @ target)
             (Some (RefusalErr \<lparr>Refusal_Status = resp_Status response,
                                Refusal_Entity = resp_Entity response,
                                Refusal_header = resp_Header response\<rparr>))))"

definition recoverRefusal :: "Fault \<Rightarrow> (Fault, ClientResponse) result" where
  "recoverRefusal fault =
     (case as_Refusal_Fault fault of
        None \<Rightarrow> Inl fault
      | Some refusal \<Rightarrow>
          Inr \<lparr>resp_Status = Refusal_Status refusal, resp_Header = Refusal_header refusal,
               resp_Entity = Refusal_Entity refusal\<rparr>)"

definition isRetryable :: "Fault \<Rightarrow> bool" where
  "isRetryable fault =
     (case as_Refusal_Fault fault of
        None \<Rightarrow> True
      | Some refusal \<Rightarrow> Refusal_Status refusal \<ge> 500)"

section \<open>Reading\<close>

record cache_entry =
  entry_Key :: string
  entry_About :: string
  entry_Entity :: string
  entry_Fresh :: int

text \<open>A response as \<open>net/http\<close> has one, as far as it is filled in.\<close>

record http_response =
  http_Status :: string
  http_StatusCode :: int
  http_Proto :: string
  http_ProtoMajor :: int
  http_ProtoMinor :: int
  http_Header :: http_header
  http_Body :: string
  http_ContentLength :: int

text \<open>
  What the other modules do. \<open>cache_Read\<close> answers with a kept entity, nothing kept, or a
  failure; \<open>schedule\<close> runs an attempt under a policy and a test of what is worth retrying, and
  \<open>http_client\<close> is the library a request goes out through; \<open>write_response\<close> and \<open>unmarshal\<close> are
  \<open>net/http\<close>'s writing and reading of a response.
\<close>

record ('w, 'b) upstream_ops =
  cache_Read :: "string \<Rightarrow> 'w \<Rightarrow> 'w \<times> (string, string option) result"
  cache_Write :: "cache_entry \<Rightarrow> 'w \<Rightarrow> 'w \<times> (string, unit) result"
  log_warn :: "(string \<times> string) list \<Rightarrow> 'w \<Rightarrow> 'w"
  AwaitTurn :: "UpstreamTerms \<Rightarrow> 'w \<Rightarrow> 'w \<times> (string, unit) result"
  http_client :: "('w, 'b) http_lib"
  schedule :: "RetryPolicy \<Rightarrow> (Fault \<Rightarrow> bool) \<Rightarrow> ('w \<Rightarrow> 'w \<times> (Fault, ClientResponse) result) \<Rightarrow>
                 'w \<Rightarrow> 'w \<times> (Fault, ClientResponse) result"
  StatusText :: "int \<Rightarrow> string"
  write_response :: "http_response \<Rightarrow> (error, string) result"
  unmarshal :: "string \<Rightarrow> ClientResponse option"

text \<open>One effect after another: a failure ends the sequence.\<close>

definition and_then ::
  "'w \<times> ('e, 'a) result \<Rightarrow> ('a \<Rightarrow> 'w \<Rightarrow> 'w \<times> ('e, 'b) result) \<Rightarrow> 'w \<times> ('e, 'b) result" where
  "and_then r k = (case r of (w, Inl err) \<Rightarrow> (w, Inl err) | (w, Inr a) \<Rightarrow> k a w)"

definition logCacheFault :: "('w, 'b) upstream_ops \<Rightarrow> string \<Rightarrow> string \<Rightarrow> string \<Rightarrow> 'w \<Rightarrow> 'w" where
  "logCacheFault ops op key why w = log_warn ops [(''op'', op), (''key'', key), (''fault'', why)] w"

definition lookupCache :: "('w, 'b) upstream_ops \<Rightarrow> string \<Rightarrow> 'w \<Rightarrow> 'w \<times> string option" where
  "lookupCache ops key w =
     (case cache_Read ops key w of
        (w', Inl why) \<Rightarrow> (logCacheFault ops ''read'' key why w', None)
      | (w', Inr lookup) \<Rightarrow> (w', lookup))"

definition marshalResponse :: "('w, 'b) upstream_ops \<Rightarrow> ClientResponse \<Rightarrow> (error, string) result" where
  "marshalResponse ops response =
     write_response ops
       \<lparr>http_Status = StatusText ops (resp_Status response), http_StatusCode = resp_Status response,
        http_Proto = ''HTTP/1.1'', http_ProtoMajor = 1, http_ProtoMinor = 1, http_Header = resp_Header response,
        http_Body = resp_Entity response, http_ContentLength = int (length (resp_Entity response))\<rparr>"

definition writeCache ::
  "('w, 'b) upstream_ops \<Rightarrow> UpstreamClient \<Rightarrow> string \<Rightarrow> string \<Rightarrow> ClientResponse \<Rightarrow>
   'w \<Rightarrow> 'w \<times> (Fault, ClientResponse) result" where
  "writeCache ops upstream key about response w =
     (if \<not> IsSuccessful response then (w, Inr response)
      else (case marshalResponse ops response of
              Inl err \<Rightarrow> (w, Inl (asFault ''keep the answer'' err))
            | Inr document \<Rightarrow>
                (case cache_Write ops \<lparr>entry_Key = key, entry_About = about, entry_Entity = document,
                                      entry_Fresh = TimeToLive (terms upstream)\<rparr> w of
                   (w', Inl why) \<Rightarrow> (logCacheFault ops ''write'' key why w', Inr response)
                 | (w', Inr _) \<Rightarrow> (w', Inr response))))"

definition responseFrom :: "('w, 'b) upstream_ops \<Rightarrow> string option \<Rightarrow> ClientResponse option" where
  "responseFrom ops lookup = (case lookup of None \<Rightarrow> None | Some document \<Rightarrow> unmarshal ops document)"

definition awaitTurn :: "('w, 'b) upstream_ops \<Rightarrow> UpstreamClient \<Rightarrow> 'w \<Rightarrow> 'w \<times> (Fault, unit) result" where
  "awaitTurn ops upstream w =
     (case AwaitTurn ops (terms upstream) w of
        (w', Inl why) \<Rightarrow>
          (w', Inl (Fault (''wait for a turn at '' @ terms_Name (terms upstream)) (Some (Foreign why None))))
      | (w', Inr ok) \<Rightarrow> (w', Inr ok))"

definition attempt ::
  "('w, 'b) upstream_ops \<Rightarrow> UpstreamClient \<Rightarrow> string \<Rightarrow> string \<Rightarrow> ClientRequest \<Rightarrow>
   'w \<Rightarrow> 'w \<times> (Fault, ClientResponse) result" where
  "attempt ops upstream method path request w =
     and_then (awaitTurn ops upstream w) (\<lambda>_ w1.
       and_then (Fetch (http_client ops) (Some (up_client upstream)) method path request w1) (\<lambda>response w2.
         (w2, failUnsuccessful (method @ '' '' @ path) response)))"

definition retrySchedule ::
  "('w, 'b) upstream_ops \<Rightarrow> RetryPolicy \<Rightarrow> ('w \<Rightarrow> 'w \<times> (Fault, ClientResponse) result) \<Rightarrow>
   'w \<Rightarrow> 'w \<times> (Fault, ClientResponse) result" where
  "retrySchedule ops policy fx w =
     (if \<not> IsEnabled policy then fx w else schedule ops policy isRetryable fx w)"

definition askUpstream ::
  "('w, 'b) upstream_ops \<Rightarrow> UpstreamClient \<Rightarrow> string \<Rightarrow> string \<Rightarrow> ClientRequest \<Rightarrow>
   'w \<Rightarrow> 'w \<times> (Fault, ClientResponse) result" where
  "askUpstream ops upstream method path request w =
     (case retrySchedule ops (Retry (terms upstream)) (attempt ops upstream method path request) w of
        (w', Inl fault) \<Rightarrow> (w', recoverRefusal fault)
      | (w', Inr response) \<Rightarrow> (w', Inr response))"

text \<open>
  \<open>readOnce\<close> is a parameter here: it performs the reading it is given, or awaits one already
  under way for the key. How it coordinates callers is the step relation below.
\<close>

definition FetchUpstream ::
  "(string \<Rightarrow> ('w \<Rightarrow> 'w \<times> (Fault, ClientResponse) result) \<Rightarrow> 'w \<Rightarrow> 'w \<times> (Fault, ClientResponse) result) \<Rightarrow>
   ('w, 'b) upstream_ops \<Rightarrow> UpstreamClient \<Rightarrow> string \<Rightarrow> string \<Rightarrow> ClientRequest \<Rightarrow>
   'w \<Rightarrow> 'w \<times> (Fault, ClientResponse) result" where
  "FetchUpstream readOnce ops upstream method path request w =
     (let key = cacheKey upstream method path request in
      case lookupCache ops key w of
        (w1, lookup) \<Rightarrow>
          (case responseFrom ops lookup of
             Some response \<Rightarrow> (w1, Inr response)
           | None \<Rightarrow>
               readOnce key
                 (\<lambda>w2. and_then (askUpstream ops upstream method path request w2)
                    (writeCache ops upstream key (About request))) w1))"

definition CallUpstream ::
  "(string \<Rightarrow> ('w \<Rightarrow> 'w \<times> (Fault, ClientResponse) result) \<Rightarrow> 'w \<Rightarrow> 'w \<times> (Fault, ClientResponse) result) \<Rightarrow>
   ('w, 'b) upstream_ops \<Rightarrow> UpstreamClient \<Rightarrow> ('i, 'out) Endpoint \<Rightarrow> ClientRequest \<Rightarrow> ('w, Fault, 'out) fx" where
  "CallUpstream readOnce ops upstream endpoint request =
     call_through (FetchUpstream readOnce ops upstream) (client_strategy (up_client upstream)) endpoint request"

section \<open>Lemmas\<close>

lemma recover_failUnsuccessful:
  "(case failUnsuccessful target response of Inl fault \<Rightarrow> recoverRefusal fault | Inr r \<Rightarrow> Inr r) = Inr response"
  by (simp add: failUnsuccessful_def recoverRefusal_def)

lemma recoverRefusal_Inl: "recoverRefusal fault = Inl fault' \<longleftrightarrow> fault' = fault \<and> as_Refusal_Fault fault = None"
  by (auto simp: recoverRefusal_def split: option.splits)

lemma attempt_cases:
  "snd (attempt ops upstream method path request w) = Inr response \<Longrightarrow> IsSuccessful response"
  by (auto simp: attempt_def and_then_def failUnsuccessful_def split: prod.splits sum.splits if_splits)

text \<open>Without colons in the service's name and the subject, a key says which question it answers.\<close>

lemma cacheKey_inject:
  assumes "cacheKey u1 m1 p1 r1 = cacheKey u2 m2 p2 r2"
    and "CHR '':'' \<notin> set (terms_Name (terms u1))" "CHR '':'' \<notin> set (terms_Name (terms u2))"
    and "CHR '':'' \<notin> set (About r1)" "CHR '':'' \<notin> set (About r2)"
  shows "terms_Name (terms u1) = terms_Name (terms u2) \<and> About r1 = About r2 \<and>
         question m1 p1 r1 = question m2 p2 r2"
proof -
  from assms(1) have "terms_Name (terms u1) @ CHR '':'' # (About r1 @ CHR '':'' # question m1 p1 r1) =
      terms_Name (terms u2) @ CHR '':'' # (About r2 @ CHR '':'' # question m2 p2 r2)"
    by (simp add: cacheKey_def)
  from sep_inject [OF this assms(2,3)] sep_inject [OF _ assms(4,5)] show ?thesis by blast
qed

section \<open>What reading an upstream promises\<close>

text \<open>Asking an upstream never fails with the upstream's own refusal: however its attempts are
scheduled, a refusal comes back as the response it was.\<close>

theorem asking_never_refuses:
  assumes "snd (askUpstream ops upstream method path request w) = Inl fault"
  shows "as_Refusal_Fault fault = None"
  using assms by (auto simp: askUpstream_def recoverRefusal_Inl split: prod.splits sum.splits)

text \<open>The response behind a refusal is the one that was refused: failing with it and recovering from
it gives it back, whole.\<close>

theorem refusal_roundtrip:
  "(case failUnsuccessful target response of Inl fault \<Rightarrow> recoverRefusal fault | Inr r \<Rightarrow> Inr r) = Inr response"
  by (simp add: failUnsuccessful_def recoverRefusal_def)

text \<open>What the documentation of the cache promises while an entry is fresh: a read changes nothing a second read
would tell, and what is written is what is read.\<close>

definition cache_keeps :: "('w, 'b) upstream_ops \<Rightarrow> bool" where
  "cache_keeps ops \<longleftrightarrow>
     (\<forall>k w w1 x. cache_Read ops k w = (w1, Inr x) \<longrightarrow> cache_Read ops k w1 = (w1, Inr x)) \<and>
     (\<forall>e w w1. cache_Write ops e w = (w1, Inr ()) \<longrightarrow>
        cache_Read ops (entry_Key e) w1 = (w1, Inr (Some (entry_Entity e))))"

text \<open>A response that, when it is written at all, is read back with its status and its entity. Its headers need not
be the same: \<open>net/http\<close> writes some of its own.\<close>

definition same_answer :: "ClientResponse \<Rightarrow> ClientResponse \<Rightarrow> bool" where
  "same_answer r r' \<longleftrightarrow> resp_Status r' = resp_Status r \<and> resp_Entity r' = resp_Entity r"

definition reads_back :: "('w, 'b) upstream_ops \<Rightarrow> ClientResponse \<Rightarrow> bool" where
  "reads_back ops r \<longleftrightarrow>
     (\<forall>document. marshalResponse ops r = Inr document \<longrightarrow> (\<exists>r'. unmarshal ops document = Some r' \<and> same_answer r r'))"

text \<open>C30: A question that was answered with success is answered from the cache when it is asked again while the
answer is fresh: nothing is asked, nothing changes, however readings are coordinated, and the answer has
the status and the entity of the first. It holds for a store that is up, and an answer whose status and
entity net/http reads back from what it writes.\<close>

theorem kept_answer_is_served:
  assumes "cache_keeps ops" and "\<And>e w. snd (cache_Write ops e w) = Inr ()"
    and "FetchUpstream (\<lambda>_ fx. fx) ops upstream method path request w = (w1, Inr response)"
    and "IsSuccessful response" and "reads_back ops response"
  shows "\<exists>kept. FetchUpstream readOnce ops upstream method path request w1 = (w1, Inr kept) \<and> same_answer response kept"
proof -
  let ?key = "cacheKey upstream method path request"
  have "\<exists>document kept. cache_Read ops ?key w1 = (w1, Inr (Some document)) \<and> unmarshal ops document = Some kept \<and>
      same_answer response kept"
  proof (cases "responseFrom ops (snd (lookupCache ops ?key w))")
    case (Some kept)
    have same: "same_answer response response" by (simp add: same_answer_def)
    from Some assms(1,3) same show ?thesis
      by (fastforce simp: FetchUpstream_def Let_def lookupCache_def responseFrom_def cache_keeps_def
          split: prod.splits sum.splits option.splits)
  next
    case None
    obtain w0 where "and_then (askUpstream ops upstream method path request w0)
        (writeCache ops upstream ?key (About request)) = (w1, Inr response)"
      using assms(3) None by (auto simp: FetchUpstream_def Let_def split: prod.splits)
    then obtain w2 response2 where
      "writeCache ops upstream ?key (About request) response2 w2 = (w1, Inr response)"
      by (auto simp: and_then_def split: prod.splits sum.splits)
    with assms(2,4) obtain document e where "marshalResponse ops response = Inr document"
      "cache_Write ops e w2 = (w1, Inr ())" "entry_Key e = ?key" "entry_Entity e = document"
      by (auto simp: writeCache_def split: if_splits sum.splits prod.splits)
        (metis cache_entry.select_convs(1,3) snd_conv sum.distinct(1))+
    with assms(1,5) show ?thesis unfolding cache_keeps_def reads_back_def by metis
  qed
  then show ?thesis by (auto simp: FetchUpstream_def Let_def lookupCache_def responseFrom_def)
qed

text \<open>A cache that is a map, counting how often the upstream is asked: an instance of the parameters.\<close>

definition counting_serve :: "http_request \<Rightarrow> 'k \<times> nat \<Rightarrow> ('k \<times> nat) \<times> writer" where
  "counting_serve request w = ((fst w, Suc (snd w)), fst (Write newWriter (digits (snd w))))"

definition counting_http :: "((string \<Rightarrow> string option) \<times> nat, string) http_lib" where
  "counting_http = direct_http counting_serve"

definition map_ops :: "((string \<Rightarrow> string option) \<times> nat, string) upstream_ops" where
  "map_ops =
     \<lparr>cache_Read = (\<lambda>k w. (w, Inr (fst w k))),
      cache_Write = (\<lambda>e w. (((fst w)(entry_Key e \<mapsto> entry_Entity e), snd w), Inr ())),
      log_warn = (\<lambda>_ w. w),
      AwaitTurn = (\<lambda>_ w. (w, Inr ())),
      http_client = counting_http,
      schedule = (\<lambda>_ _ fx. fx),
      StatusText = (\<lambda>_. ''OK''),
      write_response = (\<lambda>r. if 200 \<le> http_StatusCode r \<and> http_StatusCode r < 300
                          then Inr (char_of (http_StatusCode r - 200) # http_Body r) else Inl (Reason [])),
      unmarshal = (\<lambda>document. case document of [] \<Rightarrow> None
                    | c # body \<Rightarrow> Some \<lparr>resp_Status = 200 + of_char c,
                                       resp_Header = [''Content-Length'' \<mapsto> [digits (length body)]], resp_Entity = body\<rparr>)\<rparr>"

definition example_upstream :: "string \<Rightarrow> UpstreamClient" where
  "example_upstream name =
     \<lparr>up_client = Dial True ''http://a.example'',
      terms = \<lparr>terms_Name = name, Allowance_stated = True, MaxWait = 0, TimeToLive = 60,
               Retry = \<lparr>Base = 0, Max = 0, Retries = 0\<rparr>\<rparr>\<rparr>"

definition example_question :: "string \<Rightarrow> ClientRequest" where
  "example_question about =
     \<lparr>cr_Path = Map.empty, cr_Query = [(''page'', [''2''])], cr_Header = [], cr_Entity = [],
      cr_MediaType = [], About = about\<rparr>"

lemma map_ops_keeps: "cache_keeps map_ops"
  unfolding cache_keeps_def map_ops_def by auto

lemma map_ops_read_back: "reads_back map_ops r"
  unfolding reads_back_def map_ops_def marshalResponse_def same_answer_def
  by (auto simp: of_char_of)

lemma counting_fetch:
  "Fetch counting_http (Some (up_client (example_upstream name))) ''GET'' ''/b'' (example_question about) w =
     ((fst w, Suc (snd w)), Inr \<lparr>resp_Status = 200, resp_Header = Map.empty, resp_Entity = digits (snd w)\<rparr>)"
proof -
  have "reaches counting_http (up_client (example_upstream name))"
    using dialled_reaches [of "''a.example''" counting_http]
    by (simp add: example_upstream_def plain_host_def is_control_def) (simp add: counting_http_def direct_http_def)
  then obtain header where got: "exchange counting_http (Some (up_client (example_upstream name))) ''GET'' ''/b''
      (example_question about) w =
        ((fst w, Suc (snd w)), Inr \<lparr>resp_Status = 200, resp_Header = header, resp_Entity = digits (snd w)\<rparr>)"
    using exchange_hosted [where verb = "''GET''" and path = "''/b''" and decoded = "''/b''" and w = w
        and request = "example_question about" and client = "up_client (example_upstream name)",
        OF direct_hosts [of counting_serve], folded counting_http_def]
    by (auto simp: token_def validHeaderFieldByte_def is_capital_def sendable_def is_control_def cut_at_def sent_status_def
        counting_serve_def Write_fresh received_entity_def)
  moreover have "header = Map.empty" using exchange_direct_header [OF got [unfolded counting_http_def]] by simp
  ultimately show ?thesis by (simp add: Fetch_def)
qed

theorem kept_answer_is_served_witness:
  "let fetch = FetchUpstream (\<lambda>_ fx. fx) map_ops (example_upstream ''a'') ''GET'' ''/b'' (example_question ''c'')
   in \<exists>w1 first kept. fetch (Map.empty, 0) = (w1, Inr first) \<and> snd w1 = 1 \<and>
        fetch w1 = (w1, Inr kept) \<and> resp_Status kept = 200 \<and> resp_Entity kept = digits 0"
proof -
  let ?fetch = "FetchUpstream (\<lambda>_ fx. fx) map_ops (example_upstream ''a'') ''GET'' ''/b'' (example_question ''c'')"
  let ?k = "cacheKey (example_upstream ''a'') ''GET'' ''/b'' (example_question ''c'')"
  let ?r = "\<lparr>resp_Status = 200, resp_Header = Map.empty, resp_Entity = digits 0\<rparr>"
  let ?w1 = "([?k \<mapsto> char_of (0::int) # digits 0], 1)"
  have first: "?fetch (Map.empty, 0) = (?w1, Inr ?r)"
    by (simp add: FetchUpstream_def Let_def lookupCache_def responseFrom_def map_ops_def and_then_def
        askUpstream_def retrySchedule_def IsEnabled_def attempt_def awaitTurn_def counting_fetch marshalResponse_def
        failUnsuccessful_def IsSuccessful_def writeCache_def)
  have "\<exists>kept. ?fetch ?w1 = (?w1, Inr kept) \<and> same_answer ?r kept"
    by (rule kept_answer_is_served [OF map_ops_keeps _ first _ map_ops_read_back])
      (simp_all add: map_ops_def IsSuccessful_def)
  then obtain kept where "?fetch ?w1 = (?w1, Inr kept)" "same_answer ?r kept" by blast
  with first show ?thesis unfolding Let_def same_answer_def
    by (intro exI [of _ ?w1] exI [of _ ?r] exI [of _ kept]) simp
qed

theorem asking_never_refuses_witness:
  "let ops = map_ops\<lparr>AwaitTurn := (\<lambda>_ w. (w, Inl ''too long''))\<rparr>;
       fault = Fault ''wait for a turn at a'' (Some (Foreign ''too long'' None))
   in snd (askUpstream ops (example_upstream ''a'') ''GET'' ''/b'' (example_question ''c'') (Map.empty, 0)) = Inl fault \<and>
      as_Refusal_Fault fault = None"
proof -
  let ?ops = "map_ops\<lparr>AwaitTurn := (\<lambda>_ w. (w, Inl ''too long''))\<rparr>"
  let ?fault = "Fault ''wait for a turn at a'' (Some (Foreign ''too long'' None))"
  have "snd (askUpstream ?ops (example_upstream ''a'') ''GET'' ''/b'' (example_question ''c'') (Map.empty, 0)) = Inl ?fault"
    by (simp add: askUpstream_def retrySchedule_def IsEnabled_def example_upstream_def attempt_def awaitTurn_def
        and_then_def recoverRefusal_def)
  with asking_never_refuses [OF this] show ?thesis by (simp add: Let_def)
qed

text \<open>Two questions that share a cache key are the same question to the same service about the same
subject, if neither the services' names nor the subjects have a colon.\<close>

theorem key_names_its_question:
  assumes "cacheKey u1 m1 p1 r1 = cacheKey u2 m2 p2 r2"
    and "CHR '':'' \<notin> set (terms_Name (terms u1))" "CHR '':'' \<notin> set (terms_Name (terms u2))"
    and "CHR '':'' \<notin> set (About r1)" "CHR '':'' \<notin> set (About r2)"
  shows "terms_Name (terms u1) = terms_Name (terms u2) \<and> About r1 = About r2 \<and>
         question m1 p1 r1 = question m2 p2 r2"
  by (rule cacheKey_inject [OF assms])

theorem key_names_its_question_witness:
  "cacheKey (example_upstream ''a'') ''GET'' ''/b'' (example_question ''c'') \<noteq>
   cacheKey (example_upstream ''d'') ''GET'' ''/b'' (example_question ''c'')"
  using key_names_its_question [of "example_upstream ''a''" _ _ "example_question ''c''" "example_upstream ''d''"
      _ _ "example_question ''c''"]
  by (auto simp: example_upstream_def example_question_def)

text \<open>With a colon in a service's name, two services are kept under one key.\<close>

theorem keys_of_services_collide:
  "\<exists>u1 u2 r1 r2. terms_Name (terms u1) \<noteq> terms_Name (terms u2) \<and>
     cacheKey u1 ''GET'' ''/b'' r1 = cacheKey u2 ''GET'' ''/b'' r2"
proof (intro exI conjI)
  show "terms_Name (terms (example_upstream ''a'')) \<noteq> terms_Name (terms (example_upstream ''a:b''))"
    by (simp add: example_upstream_def)
  show "cacheKey (example_upstream ''a'') ''GET'' ''/b'' (example_question ''b:c'') =
        cacheKey (example_upstream ''a:b'') ''GET'' ''/b'' (example_question ''c'')"
    by (simp add: cacheKey_def example_upstream_def example_question_def question_def)
qed

text \<open>The order a query was put together in does not change the question, nor the key it is kept
under.\<close>

theorem key_ignores_query_order:
  assumes "mset (cr_Query r1) = mset (cr_Query r2)" and "distinct (map fst (cr_Query r1))"
    and "About r1 = About r2"
  shows "cacheKey upstream method path r1 = cacheKey upstream method path r2"
proof -
  have "length (cr_Query r1) = length (cr_Query r2)" using assms(1) by (metis size_mset)
  with Encode_perm [OF assms(1,2)] assms(3) show ?thesis
    by (simp add: cacheKey_def question_def)
qed

theorem key_ignores_query_order_witness:
  "cacheKey (example_upstream ''a'') ''GET'' ''/b'' (example_question ''c''\<lparr>cr_Query := [(''x'', [''1'']), (''y'', [''2''])]\<rparr>) =
   cacheKey (example_upstream ''a'') ''GET'' ''/b'' (example_question ''c''\<lparr>cr_Query := [(''y'', [''2'']), (''x'', [''1''])]\<rparr>)"
  by (rule key_ignores_query_order) (simp_all add: example_question_def)

text \<open>A refusal that says to ask again later is not asked again.\<close>

theorem busy_is_not_retried:
  "\<exists>refusal. Refusal_Kind refusal = Unavailable \<and>
     \<not> isRetryable (Fault ''call'' (Some (RefusalErr refusal)))"
  by (intro exI [of _ "\<lparr>Refusal_Status = 429, Refusal_Entity = [], Refusal_header = Map.empty\<rparr>"])
    (simp add: Refusal_Kind_def isRetryable_def)

end
