(* ===== verification/Web_Inflight.thy ===== *)
theory Web_Inflight
  imports Web_Upstream
begin

text \<open>
  One reading for every caller that wants the same key at the same moment
  (\<open>web/upstream_inflight.go\<close>).

  Callers and detached readings interleave, so this is a step relation. What one lock covers
  is one step: joining or claiming, and forgetting a key. A claim, its fork, the end of a
  reading, the completion of its deferred, and a caller receiving or giving up are separate
  steps, in any order the components allow. A caller may be interrupted while it awaits, which
  changes nothing for the others, and also after it has claimed a key and before it has forked the
  reading: then the key stays claimed by nobody who could start it. The source does not say that the
  runtime spares a caller there, so the model does not either.
\<close>

section \<open>State and operations\<close>

text \<open>
  Deferreds are numbered as they are made. Each goes through four stages: a caller has
  claimed the key and has to start the reading, the detached reading is under way, it has
  ended and released the key, its outcome has been handed to the deferred. Or the caller that
  claimed the key is interrupted before it starts the reading, and the deferred stays with the key.
\<close>

datatype 'o progress =
    claimed_by nat string
  | abandoned string
  | being_read string
  | over 'o
  | answered 'o

record 'o inflight =
  pending :: "string \<Rightarrow> nat option"
  fresh :: nat
  progress :: "nat \<Rightarrow> 'o progress option"
  waiting :: "(nat \<times> nat) set"

definition newInFlightReads :: "'o inflight" where
  "newInFlightReads = \<lparr>pending = Map.empty, fresh = 0, progress = Map.empty, waiting = {}\<rparr>"

record claim =
  claim_answer :: nat
  leader :: bool

definition joinOrStart :: "string \<Rightarrow> 'o inflight \<Rightarrow> claim \<times> 'o inflight" where
  "joinOrStart key s =
     (let made = fresh s; s' = s\<lparr>fresh := Suc (fresh s)\<rparr> in
      case pending s key of
        Some already \<Rightarrow> (\<lparr>claim_answer = already, leader = False\<rparr>, s')
      | None \<Rightarrow>
          (\<lparr>claim_answer = made, leader = True\<rparr>, s'\<lparr>pending := (pending s)(key \<mapsto> made)\<rparr>))"

definition forgetKey :: "string \<Rightarrow> 'o inflight \<Rightarrow> 'o inflight" where
  "forgetKey key s = s\<lparr>pending := (pending s)(key := None)\<rparr>"

definition set_progress :: "nat \<Rightarrow> 'o progress \<Rightarrow> 'o inflight \<Rightarrow> 'o inflight" where
  "set_progress d stage s = s\<lparr>progress := (progress s)(d \<mapsto> stage)\<rparr>"

definition await :: "nat \<Rightarrow> nat \<Rightarrow> 'o inflight \<Rightarrow> 'o inflight" where
  "await c d s = s\<lparr>waiting := insert (c, d) (waiting s)\<rparr>"

text \<open>A caller asks, forks the reading it has to start or is interrupted before it does, receives or gives
  up; a reading ends and completes.\<close>

inductive step :: "'o inflight \<Rightarrow> 'o inflight \<Rightarrow> bool" where
  join: "joinOrStart key s = (ticket, s') \<Longrightarrow> \<not> leader ticket \<Longrightarrow>
    step s (await c (claim_answer ticket) s')"
| lead: "joinOrStart key s = (ticket, s') \<Longrightarrow> leader ticket \<Longrightarrow>
    step s (set_progress (claim_answer ticket) (claimed_by c key) s')"
| forkRead: "progress s d = Some (claimed_by c key) \<Longrightarrow>
    step s (await c d (set_progress d (being_read key) s))"
| interrupted: "progress s d = Some (claimed_by c key) \<Longrightarrow> step s (set_progress d (abandoned key) s)"
| onExit: "progress s d = Some (being_read key) \<Longrightarrow>
    step s (set_progress d (over outcome) (forgetKey key s))"
| complete: "progress s d = Some (over outcome) \<Longrightarrow>
    step s (set_progress d (answered outcome) s)"
| receive: "(c, d) \<in> waiting s \<Longrightarrow> progress s d = Some (answered outcome) \<Longrightarrow>
    step s (s\<lparr>waiting := waiting s - {(c, d)}\<rparr>)"
| giveUp: "(c, d) \<in> waiting s \<Longrightarrow> step s (s\<lparr>waiting := waiting s - {(c, d)}\<rparr>)"

inductive_cases stepE: "step s s'"

inductive reachable :: "'o inflight \<Rightarrow> bool" where
  start: "reachable newInFlightReads"
| more: "reachable s \<Longrightarrow> step s s' \<Longrightarrow> reachable s'"

section \<open>The invariant\<close>

text \<open>
  A key is pending exactly while its one reading is claimed, given up before it started or under
  way, deferreds are numbered below \<open>fresh\<close>, and whoever waits, waits for a deferred that was claimed.
\<close>

definition holds_key :: "'o progress option \<Rightarrow> string \<Rightarrow> bool" where
  "holds_key stage key \<longleftrightarrow> (\<exists>c. stage = Some (claimed_by c key)) \<or> stage = Some (abandoned key) \<or> stage = Some (being_read key)"

definition inflight_inv :: "'o inflight \<Rightarrow> bool" where
  "inflight_inv s \<longleftrightarrow>
     (\<forall>k d. pending s k = Some d \<longleftrightarrow> holds_key (progress s d) k) \<and>
     (\<forall>d x. progress s d = Some x \<longrightarrow> d < fresh s) \<and>
     (\<forall>c d. (c, d) \<in> waiting s \<longrightarrow> (\<exists>x. progress s d = Some x))"

lemma inflight_invI:
  assumes "\<And>k d. pending s k = Some d \<longleftrightarrow> holds_key (progress s d) k"
    and "\<And>d x. progress s d = Some x \<Longrightarrow> d < fresh s"
    and "\<And>c d. (c, d) \<in> waiting s \<Longrightarrow> \<exists>x. progress s d = Some x"
  shows "inflight_inv s"
  using assms unfolding inflight_inv_def by blast

lemma inflight_invD:
  assumes "inflight_inv s"
  shows "pending s k = Some d \<longleftrightarrow> holds_key (progress s d) k"
    and "progress s d = Some x \<Longrightarrow> d < fresh s"
    and "(c, d) \<in> waiting s \<Longrightarrow> \<exists>x. progress s d = Some x"
  using assms unfolding inflight_inv_def by blast+

lemma holds_key_simps [simp]:
  "holds_key None k = False" "holds_key (Some (claimed_by c j)) k = (j = k)"
  "holds_key (Some (abandoned j)) k = (j = k)" "holds_key (Some (being_read j)) k = (j = k)" "holds_key (Some (over x)) k = False"
  "holds_key (Some (answered x)) k = False"
  by (auto simp: holds_key_def)

lemma stage_simps [simp]:
  "pending (set_progress d stage s) = pending s" "fresh (set_progress d stage s) = fresh s"
  "progress (set_progress d stage s) = (progress s)(d \<mapsto> stage)"
  "waiting (set_progress d stage s) = waiting s"
  "pending (await c d s) = pending s" "fresh (await c d s) = fresh s"
  "progress (await c d s) = progress s" "waiting (await c d s) = insert (c, d) (waiting s)"
  "pending (forgetKey k s) = (pending s)(k := None)" "fresh (forgetKey k s) = fresh s"
  "progress (forgetKey k s) = progress s" "waiting (forgetKey k s) = waiting s"
  by (simp_all add: set_progress_def await_def forgetKey_def)

lemma joinOrStart_join:
  "joinOrStart key s = (ticket, s') \<Longrightarrow> \<not> leader ticket \<Longrightarrow>
   pending s key = Some (claim_answer ticket) \<and> s' = s\<lparr>fresh := Suc (fresh s)\<rparr>"
  by (auto simp: joinOrStart_def Let_def split: option.splits)

lemma joinOrStart_lead:
  "joinOrStart key s = (ticket, s') \<Longrightarrow> leader ticket \<Longrightarrow>
   pending s key = None \<and> claim_answer ticket = fresh s \<and>
   s' = s\<lparr>fresh := Suc (fresh s), pending := (pending s)(key \<mapsto> fresh s)\<rparr>"
  by (auto simp: joinOrStart_def Let_def split: option.splits)

text \<open>A change of stage that does not change which key the deferred holds.\<close>

lemma inv_stage:
  assumes "inflight_inv s" and "progress s d = Some old"
    and "\<And>k. holds_key (Some stage) k = holds_key (progress s d) k"
  shows "inflight_inv (set_progress d stage s)"
proof (rule inflight_invI, goal_cases)
  case (1 k d')
  then show ?case using inflight_invD(1) [OF assms(1), of k d'] assms(3) by auto
next
  case (2 d' x)
  then show ?case
    using inflight_invD(2) [OF assms(1) assms(2)] inflight_invD(2) [OF assms(1), of d' x]
    by (auto split: if_splits)
next
  case (3 c d')
  then show ?case using inflight_invD(3) [OF assms(1), of c d'] by auto
qed

lemma inv_await:
  assumes "inflight_inv s" and "progress s d = Some stage"
  shows "inflight_inv (await c d s)"
  using assms unfolding inflight_inv_def by auto

lemma inv_unwait: "inflight_inv s \<Longrightarrow> inflight_inv (s\<lparr>waiting := waiting s - W\<rparr>)"
  unfolding inflight_inv_def by auto

lemma inv_fresh: "inflight_inv s \<Longrightarrow> inflight_inv (s\<lparr>fresh := Suc (fresh s)\<rparr>)"
  unfolding inflight_inv_def by (auto simp: less_Suc_eq)

lemma inv_lead:
  assumes "inflight_inv s" and "pending s key = None"
  shows "inflight_inv (set_progress (fresh s) (claimed_by c key)
           (s\<lparr>fresh := Suc (fresh s), pending := (pending s)(key \<mapsto> fresh s)\<rparr>))"
proof -
  note D = inflight_invD [OF assms(1)]
  have none: "progress s (fresh s) = None"
    using D(2) [of "fresh s"] by (cases "progress s (fresh s)") auto
  have key: "\<not> holds_key (progress s d) key" for d using D(1) [of key d] assms(2) by simp
  show ?thesis
  proof (rule inflight_invI, goal_cases)
    case (1 k d)
    then show ?case using D(1) [of k d] D(1) [of k "fresh s"] none key [of d] by auto
  next
    case (2 d x)
    then show ?case using D(2) [of d x] by (auto simp: less_Suc_eq split: if_splits)
  next
    case (3 c d)
    then show ?case using D(3) [of c d] by auto
  qed
qed

lemma inv_onExit:
  assumes "inflight_inv s" and "progress s d = Some (being_read key)"
  shows "inflight_inv (set_progress d (over outcome) (forgetKey key s))"
proof -
  note D = inflight_invD [OF assms(1)]
  have pend: "pending s key = Some d" using D(1) assms(2) by simp
  show ?thesis
  proof (rule inflight_invI, goal_cases)
    case (1 k d')
    then show ?case
      using D(1) [of k d'] D(1) [of k d] D(1) [of key d'] assms(2) pend by auto
  next
    case (2 d' x)
    then show ?case using D(2) [of d' x] D(2) [OF assms(2)] by (auto split: if_splits)
  next
    case (3 c d')
    then show ?case using D(3) [of c d'] by auto
  qed
qed

lemma step_inv:
  assumes "step s s'" and "inflight_inv s"
  shows "inflight_inv s'"
  using assms
proof (cases rule: step.cases)
  case (join key ticket s1 c)
  from joinOrStart_join [OF join(2,3)] have j: "pending s key = Some (claim_answer ticket)"
    "s1 = s\<lparr>fresh := Suc (fresh s)\<rparr>" by simp_all
  have "holds_key (progress s (claim_answer ticket)) key"
    using inflight_invD(1) [OF assms(2), of key "claim_answer ticket"] j(1) by simp
  then obtain stage where "progress s (claim_answer ticket) = Some stage"
    by (auto simp: holds_key_def)
  with inv_fresh [OF assms(2)] j join(1) show ?thesis by (auto intro!: inv_await)
next
  case (lead key ticket s1 c)
  from joinOrStart_lead [OF lead(2,3)] lead(1) inv_lead [OF assms(2)] show ?thesis by simp
next
  case (forkRead d c key)
  have "inflight_inv (set_progress d (being_read key) s)"
    by (rule inv_stage [OF assms(2) forkRead(2)]) (simp add: forkRead(2))
  then show ?thesis unfolding forkRead(1) by (rule inv_await) simp
next
  case (interrupted d c key)
  show ?thesis unfolding interrupted(1)
    by (rule inv_stage [OF assms(2) interrupted(2)]) (simp add: interrupted(2))
next
  case (onExit d key outcome)
  then show ?thesis using inv_onExit [OF assms(2)] by simp
next
  case (complete d outcome)
  show ?thesis unfolding complete(1)
    by (rule inv_stage [OF assms(2) complete(2)]) (simp add: complete(2))
qed (use assms(2) inv_unwait in auto)

lemma reachable_inflight_inv: "reachable s \<Longrightarrow> inflight_inv s"
proof (induction rule: reachable.induct)
  case start
  show ?case by (rule inflight_invI) (simp_all add: newInFlightReads_def)
qed (rule step_inv)

section \<open>What follows\<close>

lemma single_flight:
  assumes "reachable s" and "progress s d = Some (being_read key)" and "progress s d' = Some (being_read key)"
  shows "d = d'"
  using inflight_invD(1) [OF reachable_inflight_inv [OF assms(1)], of key d]
    inflight_invD(1) [OF reachable_inflight_inv [OF assms(1)], of key d'] assms(2,3) by simp

text \<open>What becomes of a deferred: whoever steps, its stage stays or one closer to its end comes.\<close>

fun steps_left :: "'o progress \<Rightarrow> nat" where
  "steps_left (claimed_by c key) = 3"
| "steps_left (being_read key) = 2"
| "steps_left (over x) = 1"
| "steps_left _ = 0"

lemma stage_advances:
  assumes "step s s'" and "inflight_inv s" and "progress s d = Some stage"
  shows "\<exists>stage'. progress s' d = Some stage' \<and> (stage' = stage \<or> steps_left stage' < steps_left stage)"
proof -
  have "progress s (fresh s) = None"
    using inflight_invD(2) [OF assms(2), of "fresh s"] by (cases "progress s (fresh s)") auto
  with assms(3) have "d \<noteq> fresh s" by auto
  have same: "progress s1 = progress s" "leader ticket \<Longrightarrow> claim_answer ticket = fresh s"
    if "joinOrStart key s = (ticket, s1)" for key ticket s1
    using that by (auto simp: joinOrStart_def Let_def split: option.splits)
  show ?thesis
    using assms(1)
  proof (cases rule: step.cases)
    case (join key ticket s1 c)
    then show ?thesis using same [OF join(2)] assms(3) by simp
  next
    case (lead key ticket s1 c)
    then show ?thesis using same [OF lead(2)] assms(3) \<open>d \<noteq> fresh s\<close> by simp
  qed (use assms(3) in auto)
qed

text \<open>A deferred is completed once, with the outcome its reading ended with.\<close>

lemma step_keeps_answer:
  assumes "step s s'" and "inflight_inv s"
  shows "progress s d = Some (answered x) \<Longrightarrow> progress s' d = Some (answered x)"
    and "progress s d = Some (over x) \<Longrightarrow> progress s' d \<in> {Some (over x), Some (answered x)}"
proof -
  have fresh_none: "progress s (fresh s) = None"
    using inflight_invD(2) [OF assms(2), of "fresh s"] by (cases "progress s (fresh s)") auto
  have no_new: "claim_answer ticket = fresh s" "progress s1 = progress s"
    if "joinOrStart key s = (ticket, s1)" "leader ticket" for key ticket s1
    using joinOrStart_lead [OF that] by simp_all
  have same: "progress s1 = progress s" if "joinOrStart key s = (ticket, s1)" for key ticket s1
    using that by (auto simp: joinOrStart_def Let_def split: option.splits)
  show "progress s d = Some (answered x) \<Longrightarrow> progress s' d = Some (answered x)"
    using assms(1) by (cases rule: step.cases) (use fresh_none no_new same in auto)
  show "progress s d = Some (over x) \<Longrightarrow> progress s' d \<in> {Some (over x), Some (answered x)}"
    using assms(1) by (cases rule: step.cases) (use fresh_none no_new same in auto)
qed

text \<open>A reading under way, for examples: one caller has claimed a key and forked its reading.\<close>

definition example_reading :: "string inflight" where
  "example_reading = await 1 0 (set_progress 0 (being_read ''k'')
     (set_progress 0 (claimed_by 1 ''k'') (snd (joinOrStart ''k'' newInFlightReads))))"

lemma example_reading_reachable: "Web_Inflight.reachable example_reading"
proof -
  let ?s1 = "set_progress 0 (claimed_by 1 ''k'') (snd (joinOrStart ''k'' newInFlightReads)) :: string inflight"
  have "joinOrStart ''k'' (newInFlightReads :: string inflight) =
      (\<lparr>claim_answer = 0, leader = True\<rparr>, snd (joinOrStart ''k'' newInFlightReads))"
    by (simp add: joinOrStart_def newInFlightReads_def)
  from Web_Inflight.step.lead [OF this, of 1] have "Web_Inflight.reachable ?s1"
    by (intro Web_Inflight.reachable.more [OF Web_Inflight.reachable.start]) simp
  moreover have "Web_Inflight.step ?s1 example_reading"
    unfolding example_reading_def by (rule Web_Inflight.step.forkRead) simp
  ultimately show ?thesis by (rule Web_Inflight.reachable.more)
qed

lemma example_reading_simps [simp]:
  "progress example_reading 0 = Some (being_read ''k'')" "waiting example_reading = {(1, 0)}"
  by (simp_all add: example_reading_def joinOrStart_def newInFlightReads_def)

section \<open>What reading once promises\<close>

text \<open>C6: However callers, readings and interruptions interleave, at most one reading of a key is under way.\<close>

theorem one_reading_per_key:
  assumes "Web_Inflight.reachable s" and "progress s d = Some (being_read key)"
    and "progress s d' = Some (being_read key)"
  shows "d = d'"
  by (rule single_flight [OF assms])

theorem one_reading_per_key_witness:
  "{d. progress example_reading d = Some (being_read ''k'')} = {0}"
  using one_reading_per_key [OF example_reading_reachable _ example_reading_simps(1)] by auto

text \<open>
  A history of callers and readings: from the start, one step or none at a time. It keeps going when what is
  under way does not stay as it is for ever: a caller that claimed a key forks the reading or is interrupted,
  a reading ends -- as a success, a failure or anything else -- and what has ended is handed to its deferred.
\<close>

definition history :: "(nat \<Rightarrow> 'o inflight) \<Rightarrow> bool" where
  "history h \<longleftrightarrow> Web_Inflight.reachable (h 0) \<and> (\<forall>i. Web_Inflight.step (h i) (h (Suc i)) \<or> h (Suc i) = h i)"

definition keeps_going :: "(nat \<Rightarrow> 'o inflight) \<Rightarrow> bool" where
  "keeps_going h \<longleftrightarrow>
     (\<forall>i d stage. progress (h i) d = Some stage \<and> 0 < steps_left stage \<longrightarrow> (\<exists>j > i. progress (h j) d \<noteq> Some stage))"

lemma history_reachable: "history h \<Longrightarrow> Web_Inflight.reachable (h i)"
proof (induction i)
  case (Suc i)
  then have "Web_Inflight.reachable (h i)" by simp
  with Suc.prems show ?case unfolding history_def by (metis Web_Inflight.reachable.more)
qed (simp add: history_def)

lemma history_advances:
  assumes "history h" and "progress (h i) d = Some stage"
  shows "\<exists>stage'. progress (h (i + n)) d = Some stage' \<and> (stage' = stage \<or> steps_left stage' < steps_left stage)"
proof (induction n)
  case 0
  show ?case using assms(2) by simp
next
  case (Suc n)
  then obtain stage' where now: "progress (h (i + n)) d = Some stage'" "stage' = stage \<or> steps_left stage' < steps_left stage"
    by blast
  from assms(1) have "Web_Inflight.step (h (i + n)) (h (Suc (i + n))) \<or> h (Suc (i + n)) = h (i + n)" by (simp add: history_def)
  then show ?case
  proof
    assume "Web_Inflight.step (h (i + n)) (h (Suc (i + n)))"
    from stage_advances [OF this reachable_inflight_inv [OF history_reachable [OF assms(1)]] now(1)] now(2)
    show ?thesis by fastforce
  qed (use now in auto)
qed

lemma ends_eventually:
  assumes "history h" and "keeps_going h" and "progress (h i) d = Some stage"
  shows "\<exists>j \<ge> i. \<exists>final. steps_left final = 0 \<and> (\<forall>k \<ge> j. progress (h k) d = Some final)"
  using assms(3)
proof (induction "steps_left stage" arbitrary: i stage rule: less_induct)
  case less
  show ?case
  proof (cases "steps_left stage = 0")
    case True
    have "progress (h k) d = Some stage" if "k \<ge> i" for k
      using history_advances [OF assms(1) less.prems, of "k - i"] that True by auto
    with True show ?thesis by blast
  next
    case False
    then obtain j where j: "j > i" "progress (h j) d \<noteq> Some stage"
      using assms(2) less.prems unfolding keeps_going_def by blast
    then obtain stage' where later: "progress (h j) d = Some stage'" "steps_left stage' < steps_left stage"
      using history_advances [OF assms(1) less.prems, of "j - i"] by auto
    from less.hyps [OF later(2,1)] j(1) show ?thesis by (meson less_imp_le order_trans)
  qed
qed


text \<open>The reading under way ends and is answered.\<close>

definition example_history :: "nat \<Rightarrow> string inflight" where
  "example_history i =
     (if i = 0 then example_reading
      else let ended = set_progress 0 (over ''v'') (forgetKey ''k'' example_reading)
           in if i = 1 then ended else set_progress 0 (answered ''v'') ended)"


text \<open>The second case is one that happens: a caller claims a key and is interrupted, another asks and waits.\<close>

lemma stranded_caller:
  "\<exists>s :: string inflight. Web_Inflight.reachable s \<and> (2, 0) \<in> waiting s \<and> progress s 0 = Some (abandoned ''k'')"
proof -
  let ?s1 = "set_progress 0 (claimed_by 1 ''k'') (snd (joinOrStart ''k'' newInFlightReads)) :: string inflight"
  let ?s2 = "set_progress 0 (abandoned ''k'') ?s1"
  have "joinOrStart ''k'' (newInFlightReads :: string inflight) =
      (\<lparr>claim_answer = 0, leader = True\<rparr>, snd (joinOrStart ''k'' newInFlightReads))"
    by (simp add: joinOrStart_def newInFlightReads_def)
  from Web_Inflight.step.lead [OF this, of 1] have "Web_Inflight.reachable ?s1"
    by (intro Web_Inflight.reachable.more [OF Web_Inflight.reachable.start]) simp
  moreover have "Web_Inflight.step ?s1 ?s2" by (rule Web_Inflight.step.interrupted [where c = 1]) simp
  ultimately have r2: "Web_Inflight.reachable ?s2" by (rule Web_Inflight.reachable.more)
  have "pending ?s2 ''k'' = Some 0" by (simp add: joinOrStart_def newInFlightReads_def)
  then have joined: "joinOrStart ''k'' ?s2 = (\<lparr>claim_answer = 0, leader = False\<rparr>, ?s2\<lparr>fresh := Suc (fresh ?s2)\<rparr>)"
    unfolding joinOrStart_def by (simp add: Let_def)
  have "Web_Inflight.reachable (await 2 0 (?s2\<lparr>fresh := Suc (fresh ?s2)\<rparr>))"
    using Web_Inflight.reachable.more [OF r2 Web_Inflight.step.join [OF joined, of 2]] by simp
  then show ?thesis by (intro exI [of _ "await 2 0 (?s2\<lparr>fresh := Suc (fresh ?s2)\<rparr>)"]) simp
qed

text \<open>An answer is final: no later step changes what a reading answered.\<close>

theorem answers_are_final:
  assumes "Web_Inflight.step\<^sup>*\<^sup>* s s'" and "Web_Inflight.reachable s" and "progress s d = Some (answered x)"
  shows "progress s' d = Some (answered x)"
proof -
  from assms have "Web_Inflight.reachable s' \<and> progress s' d = Some (answered x)"
  proof (induction rule: rtranclp_induct)
    case (step t u)
    then show ?case
      using step_keeps_answer(1) [OF step(2) Web_Inflight.reachable_inflight_inv] Web_Inflight.reachable.more by blast
  qed simp
  then show ?thesis ..
qed

theorem answers_are_final_witness:
  "progress (set_progress 0 (answered ''v'') (set_progress 0 (over ''v'') (forgetKey ''k'' example_reading))) 0 =
   Some (answered ''v'')"
proof -
  let ?s = "set_progress 0 (over ''v'') (forgetKey ''k'' example_reading)"
  let ?t = "set_progress 0 (answered ''v'') ?s"
  have "Web_Inflight.step example_reading ?s" by (rule Web_Inflight.step.onExit) simp
  moreover have "Web_Inflight.step ?s ?t" by (rule Web_Inflight.step.complete) simp
  ultimately have "Web_Inflight.reachable ?t"
    using example_reading_reachable by (blast intro: Web_Inflight.reachable.more)
  from answers_are_final [OF rtranclp.rtrancl_refl this] show ?thesis by simp
qed

end
