(* ===== verification/Amqp_Values.thy ===== *)
theory Amqp_Values
  imports Web_Codec "HOL-Library.AList" "HOL-Library.Word"
begin

text \<open>
  What the value boundaries of the two AMQP packages share: the universal representation both
  convert to and from, the order and the uniqueness of names a broker's map leaves of an
  object, and the contract of such a boundary as a locale.

  \<open>dynamic.Value\<close> belongs to the schema module; it is sealed, and the source lists its cases.
  A Go map is an association list with distinct keys, whose order stands for whichever order
  Go iterates in.
\<close>

section \<open>The universal representation\<close>

datatype dynamic =
    Absent
  | Boolean bool
  | Integer "64 word"
  | Number float64
  | Text string
  | Bytes string
  | Timestamp timestamp
  | Object "(string \<times> dynamic) list"
  | List "dynamic list"

section \<open>What a map keeps of a list of fields\<close>

text \<open>Assigning the fields of an object to a map one after another: a repeated name's last wins.\<close>

definition assign_all :: "(string \<times> 'a) list \<Rightarrow> (string \<times> 'a) list" where
  "assign_all fs = foldl (\<lambda>acc f. AList.update (fst f) (snd f) acc) [] fs"

text \<open>Reading a map's names in order. \<open>on_values\<close> changes values and keeps names.\<close>

definition by_name :: "(string \<times> 'a) list \<Rightarrow> (string \<times> 'a) list" where
  "by_name fs = sort_key fst fs"

abbreviation on_values :: "('a \<Rightarrow> 'b) \<Rightarrow> (string \<times> 'a) list \<Rightarrow> (string \<times> 'b) list" where
  "on_values g fs \<equiv> map (map_prod (\<lambda>n. n) g) fs"

lemma on_values_comp: "on_values f (on_values g fs) = on_values (\<lambda>v. f (g v)) fs"
  by (induction fs) auto

lemma fst_on_values: "map fst (on_values g fs) = map fst fs"
  by (induction fs) auto

lemma update_on_values:
  "AList.update k (g v) (on_values g fs) = on_values g (AList.update k v fs)"
  by (induction fs) auto

lemma assign_all_on_values: "assign_all (on_values g fs) = on_values g (assign_all fs)"
proof -
  have "foldl (\<lambda>acc f. AList.update (fst f) (snd f) acc) (on_values g acc) (on_values g fs) =
      on_values g (foldl (\<lambda>acc f. AList.update (fst f) (snd f) acc) acc fs)" for acc
    by (induction fs arbitrary: acc) (simp_all add: update_on_values)
  from this [of "[]"] show ?thesis by (simp add: assign_all_def)
qed

lemma on_values_assigned:
  "on_values f (assign_all (on_values g fs)) = assign_all (on_values (\<lambda>v. f (g v)) fs)"
  by (simp only: assign_all_on_values [symmetric] on_values_comp)

lemma by_name_on_values: "by_name (on_values g fs) = on_values g (by_name fs)"
proof -
  have "insort_key fst (map_prod (\<lambda>n. n) g f) (on_values g fs) = on_values g (insort_key fst f fs)"
    for f fs by (induction fs) auto
  then show ?thesis by (induction fs) (simp_all add: by_name_def)
qed

lemma assign_all_distinct: "distinct (map fst (assign_all fs))"
proof -
  have "distinct (map fst acc) \<Longrightarrow>
      distinct (map fst (foldl (\<lambda>acc f. AList.update (fst f) (snd f) acc) acc fs))" for acc
    by (induction fs arbitrary: acc) (simp_all add: distinct_update)
  from this [of "[]"] show ?thesis by (simp add: assign_all_def)
qed

lemma assign_all_id: "distinct (map fst fs) \<Longrightarrow> assign_all fs = fs"
proof -
  have fresh: "AList.update k v acc = acc @ [(k, v)]" if "k \<notin> fst ` set acc" for k v and acc :: "(string \<times> 'a) list"
    using that by (induction acc) auto
  have "distinct (map fst (acc @ fs)) \<Longrightarrow>
      foldl (\<lambda>acc f. AList.update (fst f) (snd f) acc) acc fs = acc @ fs" for acc
    by (induction fs arbitrary: acc) (simp_all add: fresh)
  from this [of "[]"] show "distinct (map fst fs) \<Longrightarrow> assign_all fs = fs" by (simp add: assign_all_def)
qed

lemma by_name_sorted [simp]: "sorted (map fst (by_name fs))"
  by (simp add: by_name_def)

lemma by_name_id: "sorted (map fst fs) \<Longrightarrow> by_name fs = fs"
  by (simp add: by_name_def sorted_sort_id sort_key_id_if_sorted)

lemma by_name_distinct [simp]: "distinct (map fst (by_name fs)) = distinct (map fst fs)"
  unfolding by_name_def by (metis mset_eq_imp_distinct_iff mset_map mset_sort)

lemma by_name_map_of: "distinct (map fst fs) \<Longrightarrow> map_of (by_name fs) = map_of fs"
  by (rule map_of_inject_set [THEN iffD2]) (simp_all add: by_name_def [symmetric], simp add: by_name_def)

lemma assign_all_map_of: "map_of (assign_all fs) = map_of (rev fs)"
proof -
  have "map_of (foldl (\<lambda>acc f. AList.update (fst f) (snd f) acc) acc fs) = map_of acc ++ map_of (rev fs)" for acc
    by (induction fs arbitrary: acc) (auto simp: update_conv' map_add_def fun_eq_iff split: option.splits)
  from this [of "[]"] show ?thesis by (simp add: assign_all_def)
qed

section \<open>The normal form\<close>

text \<open>
  What is left of a value after it has been in a broker's maps: at every level each name once,
  with its last value, in the order of the names.
\<close>

primrec norm :: "dynamic \<Rightarrow> dynamic" where
  "norm Absent = Absent"
| "norm (Boolean b) = Boolean b"
| "norm (Integer i) = Integer i"
| "norm (Number x) = Number x"
| "norm (Text t) = Text t"
| "norm (Bytes b) = Bytes b"
| "norm (Timestamp t) = Timestamp t"
| "norm (Object fs) = Object (by_name (assign_all (map (map_prod (\<lambda>n. n) norm) fs)))"
| "norm (List vs) = List (map norm vs)"

lemma by_name_assign_all_idem:
  "by_name (assign_all (by_name (assign_all fs))) = by_name (assign_all fs)"
  by (simp add: assign_all_id assign_all_distinct by_name_id)

lemma norm_idem [simp]: "norm (norm v) = norm v"
proof (induction v)
  case (Object fs)
  have "on_values norm (on_values norm fs) = on_values norm fs"
    using Object by (auto simp: comp_def map_prod_def split: prod.splits)
  then have "on_values norm (by_name (assign_all (on_values norm fs))) = by_name (assign_all (on_values norm fs))"
    by (simp only: assign_all_on_values [symmetric] by_name_on_values [symmetric])
  then show ?case by (simp add: by_name_assign_all_idem)
qed simp_all

section \<open>Sequencing what may fail\<close>

text \<open>
  Reading the members in order and stopping at the first that fails, with a prefix that says
  which one it was.
\<close>

fun read_members :: "(string \<Rightarrow> string) \<Rightarrow> (string \<times> (string, 'a) result) list \<Rightarrow>
    (string, (string \<times> 'a) list) result" where
  "read_members label [] = Inr []"
| "read_members label ((n, r) # rest) =
     (case r of
        Inl err \<Rightarrow> Inl (label n @ '': '' @ err)
      | Inr v \<Rightarrow> bind_result (read_members label rest) (\<lambda>vs. Inr ((n, v) # vs)))"

fun read_elements :: "nat \<Rightarrow> (string, 'a) result list \<Rightarrow> (string, 'a list) result" where
  "read_elements index [] = Inr []"
| "read_elements index (r # rest) =
     (case r of
        Inl err \<Rightarrow> Inl (''element '' @ digits index @ '': '' @ err)
      | Inr v \<Rightarrow> bind_result (read_elements (Suc index) rest) (\<lambda>vs. Inr (v # vs)))"

lemma read_members_Inr:
  "read_members label fs = Inr vs \<longleftrightarrow> fs = on_values Inr vs"
  by (induction fs arbitrary: vs) (auto simp: go_results Cons_eq_map_conv split: sum.splits)

lemma read_elements_Inr: "read_elements index rs = Inr vs \<longleftrightarrow> rs = map Inr vs"
  by (induction rs arbitrary: index vs) (auto simp: go_results Cons_eq_map_conv split: sum.splits)

lemma members_read:
  "read_members label (by_name (assign_all (on_values Inr fs))) = Inr (by_name (assign_all fs))"
  by (simp add: read_members_Inr assign_all_on_values by_name_on_values)

text \<open>Members read in the order of distinct names, each in normal form, make a normal object.\<close>

lemma members_normal:
  assumes "distinct (map fst t)" and "\<And>f v. f \<in> snd ` set t \<Longrightarrow> g f = Inr v \<Longrightarrow> norm v = v"
    and "read_members label (by_name (on_values g t)) = Inr vs"
  shows "norm (Object vs) = Object vs"
proof -
  have vs: "on_values Inr vs = by_name (on_values g t)"
    using assms(3) by (simp add: read_members_Inr)
  then have names: "map fst vs = map fst (by_name (on_values g t))"
    by (metis fst_on_values)
  have s: "sorted (map fst vs)" by (simp only: names by_name_sorted)
  have d: "distinct (map fst vs)"
    using assms(1) by (simp only: names by_name_distinct fst_on_values)
  have "norm v = v" if "(n, v) \<in> set vs" for n v
  proof -
    from that have "(n, Inr v) \<in> set (by_name (on_values g t))"
      unfolding vs [symmetric] by force
    then have "(n, Inr v) \<in> set (on_values g t)" by (simp only: by_name_def set_sort)
    then show ?thesis using assms(2) by fastforce
  qed
  then have "on_values norm vs = vs" by (auto simp: map_prod_def intro!: map_idI)
  with s d show ?thesis by (simp add: assign_all_id by_name_id)
qed

lemma elements_normal:
  assumes "\<And>f v. f \<in> set fs \<Longrightarrow> g f = Inr v \<Longrightarrow> norm v = v"
    and "read_elements index (map g fs) = Inr vs"
  shows "norm (List vs) = List vs"
proof -
  have vs: "map g fs = map Inr vs" using assms(2) by (simp add: read_elements_Inr)
  have "norm x = x" if "x \<in> set vs" for x
  proof -
    from that have "Inr x \<in> set (map g fs)" unfolding vs by simp
    then obtain f where "f \<in> set fs" "g f = Inr x" by (auto simp: eq_commute)
    with assms(1) show ?thesis by blast
  qed
  then show ?thesis by (simp add: map_idI)
qed

lemma assigned_all:
  assumes "\<And>f. f \<in> snd ` set fs \<Longrightarrow> P (g f)"
  shows "list_all snd (on_values P (assign_all (on_values g fs)))"
proof -
  have "on_values P (assign_all (on_values g fs)) = assign_all (on_values (\<lambda>v. P (g v)) fs)"
    by (rule on_values_assigned)
  also have "on_values (\<lambda>v. P (g v)) fs = on_values (\<lambda>_. True) fs"
    using assms by (auto simp: map_prod_def split: prod.splits) force
  also have "assign_all \<dots> = on_values (\<lambda>_. True) (assign_all fs)" by (rule assign_all_on_values)
  finally show ?thesis by (auto simp: list_all_iff)
qed

section \<open>The contract of a value boundary\<close>

text \<open>
  A boundary writes a value as the broker's and reads the broker's as a value. The broker's
  values have no name twice in one map, which is what \<open>sound\<close> says. What is read of a sound
  one is in normal form, and what was written is sound and read as the normal form of it.
\<close>

locale value_boundary =
  fixes put :: "dynamic \<Rightarrow> 'raw"
    and get :: "'raw \<Rightarrow> (string, dynamic) result"
    and sound :: "'raw \<Rightarrow> bool"
  assumes get_put: "get (put v) = Inr (norm v)"
    and get_normal: "sound raw \<Longrightarrow> get raw = Inr v \<Longrightarrow> norm v = v"
    and put_sound: "sound (put v)"
begin

text \<open>What is forwarded arrives as it was received.\<close>

lemma forwarded: "sound raw \<Longrightarrow> get raw = Inr v \<Longrightarrow> get (put v) = Inr v"
  by (simp add: get_put get_normal)

lemma put_norm: "get (put (norm v)) = get (put v)"
  by (simp add: get_put)

lemma put_equal: "put v = put v' \<Longrightarrow> norm v = norm v'"
  using get_put [of v] get_put [of v'] by simp

end

end
