(* ===== verification/Amqp_Settling.thy ===== *)
theory Amqp_Settling
  imports Prelude
begin

text \<open>
  The contract of settling that the consuming ports of both AMQP packages state
  (\<open>amqp091.Deliveries\<close>, \<open>amqp10.ReceiverLink\<close>): a delivery that is handed out is owed an
  answer, an answer is given once, and an answer for a tag nobody holds is refused and
  changes nothing. Each disposition of each in-process broker is an instance.
\<close>

locale settling =
  fixes owed :: "'s \<Rightarrow> 'tag \<Rightarrow> 'd option"
    and settle :: "'tag \<Rightarrow> 's \<Rightarrow> 's \<times> string option"
    and unknown :: string
  assumes settle_owed: "owed s tag = Some d \<Longrightarrow> owed (fst (settle tag s)) = (owed s)(tag := None)"
    and settle_unowed: "owed s tag = None \<Longrightarrow> settle tag s = (s, Some unknown)"
begin

lemma settled_unowed: "owed (fst (settle tag s)) tag = None"
  using settle_owed [of s tag] settle_unowed [of s tag] by (cases "owed s tag") auto

lemma settle_once: "settle tag (fst (settle tag s)) = (fst (settle tag s), Some unknown)"
  by (rule settle_unowed) (rule settled_unowed)

lemma settle_others: "tag' \<noteq> tag \<Longrightarrow> owed (fst (settle tag s)) tag' = owed s tag'"
  using settle_owed [of s tag] settle_unowed [of s tag] by (cases "owed s tag") auto

end

end
