(* ===== verification/Amqp091_Broker.thy ===== *)
theory Amqp091_Broker
  imports Amqp_Values Amqp_Settling
begin

text \<open>
  The AMQP 0-9-1 port (\<open>amqp091/port.go\<close>) and the broker that runs inside a test
  (\<open>amqp091/inprocess\<close>): its state, routing, publishing, taking and settling.

  A queue is a pointer in Go and is never replaced once declared, so its name stands for it
  here. A queue's channel holds at most 1024 messages. Tags are numbers that count up; Go's
  \<open>uint64\<close> would wrap after \<open>2 ^ 64\<close> publications, which no run reaches. Errors are their texts.
  An operation that fails part-way returns the state it leaves beside the error.
\<close>

section \<open>The port\<close>

datatype ExchangeKind = Direct | Topic | Fanout | ByHeader

datatype Durability = Transient | Durable

datatype Access = Shared | Exclusive

record Exchange =
  ex_Name :: string
  Kind :: ExchangeKind
  ex_Durability :: Durability

record DeadLetter =
  dl_Exchange :: string
  dl_Key :: string

definition DeadLetter_IsStated :: "DeadLetter \<Rightarrow> bool" where
  "DeadLetter_IsStated letter \<longleftrightarrow> dl_Exchange letter \<noteq> []"

record Queue =
  q_Name :: string
  q_Durability :: Durability
  q_Access :: Access
  q_DeadLetter :: DeadLetter

record Binding =
  bind_Exchange :: string
  bind_Queue :: string
  bind_Key :: string

record Target =
  to_Exchange :: string
  to_Key :: string

record Message =
  m_Body :: string
  m_ContentType :: string
  m_Headers :: "(string \<times> dynamic) list"
  m_Durability :: Durability

record Delivery =
  d_Body :: string
  d_ContentType :: string
  d_Headers :: "(string \<times> dynamic) list"
  d_Exchange :: string
  d_Key :: string
  Tag :: nat
  Redelivered :: bool

section \<open>The broker's state\<close>

record queue =
  backlog :: "Delivery list"
  unsettled :: "(nat \<times> Delivery) list"

record Broker =
  exchanges :: "string \<Rightarrow> Exchange option"
  queues :: "(string \<times> queue) list"
  bindings :: "Binding list"
  last_tag :: nat
  acks :: "nat list"
  discards :: "nat list"
  requeues :: "nat list"

definition NewBroker :: Broker where
  "NewBroker = \<lparr>exchanges = Map.empty, queues = [], bindings = [], last_tag = 0, acks = [],
                discards = [], requeues = []\<rparr>"

definition capacity :: nat where "capacity = 1024"

definition errNoSuchQueue :: string where
  "errNoSuchQueue = ''no queue of that name has been declared''"
definition errNoSuchExchange :: string where
  "errNoSuchExchange = ''no exchange of that name has been declared''"
definition errNotRoutable :: string where
  "errNotRoutable = ''this broker routes directly and by fanout, and nothing else''"
definition errUnknownTag :: string where
  "errUnknownTag = ''no unsettled delivery has that tag''"
definition errQueueFull :: string where
  "errQueueFull = ''this broker holds a thousand messages a queue, and that one is full''"

definition findQueue :: "Broker \<Rightarrow> string \<Rightarrow> (string, queue) result" where
  "findQueue broker name =
     (case map_of (queues broker) name of None \<Rightarrow> Inl errNoSuchQueue | Some q \<Rightarrow> Inr q)"

definition Depth :: "Broker \<Rightarrow> string \<Rightarrow> nat" where
  "Depth broker name =
     (case map_of (queues broker) name of None \<Rightarrow> 0 | Some q \<Rightarrow> length (backlog q))"

text \<open>What happens to a queue happens in the broker's own list, through its pointer.\<close>

definition change_queue :: "string \<Rightarrow> (queue \<Rightarrow> queue) \<Rightarrow> Broker \<Rightarrow> Broker" where
  "change_queue name f broker =
     broker\<lparr>queues := map (\<lambda>(n, q). (n, if n = name then f q else q)) (queues broker)\<rparr>"

definition offer :: "string \<Rightarrow> Delivery \<Rightarrow> Broker \<Rightarrow> Broker \<times> string option" where
  "offer name delivery broker =
     (case map_of (queues broker) name of
        None \<Rightarrow> (broker, Some errNoSuchQueue)
      | Some q \<Rightarrow>
          if length (backlog q) < capacity
          then (change_queue name (\<lambda>q. q\<lparr>backlog := backlog q @ [delivery]\<rparr>) broker, None)
          else (broker, Some errQueueFull))"

section \<open>Declaring\<close>

definition DeclareExchange :: "Broker \<Rightarrow> Exchange \<Rightarrow> Broker" where
  "DeclareExchange broker exchange =
     broker\<lparr>exchanges := (exchanges broker)(ex_Name exchange \<mapsto> exchange)\<rparr>"

definition DeclareQueue :: "Broker \<Rightarrow> Queue \<Rightarrow> Broker" where
  "DeclareQueue broker declared =
     (case map_of (queues broker) (q_Name declared) of
        Some _ \<Rightarrow> broker
      | None \<Rightarrow> broker\<lparr>queues := queues broker @ [(q_Name declared, \<lparr>backlog = [], unsettled = []\<rparr>)]\<rparr>)"

definition Bind :: "Broker \<Rightarrow> Binding \<Rightarrow> Broker \<times> string option" where
  "Bind broker binding =
     (if exchanges broker (bind_Exchange binding) = None then (broker, Some errNoSuchExchange)
      else (case findQueue broker (bind_Queue binding) of
              Inl err \<Rightarrow> (broker, Some err)
            | Inr _ \<Rightarrow> (broker\<lparr>bindings := bindings broker @ [binding]\<rparr>, None)))"

section \<open>Publishing\<close>

definition routeTargets :: "Broker \<Rightarrow> Target \<Rightarrow> (string, string list) result" where
  "routeTargets broker target =
     (if to_Exchange target = [] then Inr [to_Key target]
      else (case exchanges broker (to_Exchange target) of
              None \<Rightarrow> Inl errNoSuchExchange
            | Some exchange \<Rightarrow>
                if Kind exchange \<noteq> Direct \<and> Kind exchange \<noteq> Fanout then Inl errNotRoutable
                else Inr (map bind_Queue
                       (filter (\<lambda>b. bind_Exchange b = to_Exchange target \<and>
                                    (Kind exchange = Fanout \<or> bind_Key b = to_Key target))
                          (bindings broker)))))"

type_synonym placement = "string \<times> Delivery"

definition copy_for :: "Target \<Rightarrow> Message \<Rightarrow> nat \<Rightarrow> Delivery" where
  "copy_for target message tag =
     \<lparr>d_Body = m_Body message, d_ContentType = m_ContentType message, d_Headers = m_Headers message,
      d_Exchange = to_Exchange target, d_Key = to_Key target, Tag = tag, Redelivered = False\<rparr>"

text \<open>The loop over the names: a tag for every copy, and a stop at a name nobody declared.\<close>

fun place :: "Target \<Rightarrow> Message \<Rightarrow> string list \<Rightarrow> Broker \<Rightarrow> Broker \<times> (string, placement list) result" where
  "place target message [] broker = (broker, Inr [])"
| "place target message (name # names) broker =
     (case findQueue broker name of
        Inl err \<Rightarrow> (broker, Inl err)
      | Inr _ \<Rightarrow>
          (let tag = Suc (last_tag broker) in
           case place target message names (broker\<lparr>last_tag := tag\<rparr>) of
             (broker', r) \<Rightarrow>
               (broker', bind_result r (\<lambda>ps. Inr ((name, copy_for target message tag) # ps)))))"

definition queuesFor :: "Target \<Rightarrow> Message \<Rightarrow> Broker \<Rightarrow> Broker \<times> (string, placement list) result" where
  "queuesFor target message broker =
     (case routeTargets broker target of
        Inl err \<Rightarrow> (broker, Inl err)
      | Inr names \<Rightarrow> place target message names broker)"

fun offer_all :: "placement list \<Rightarrow> Broker \<Rightarrow> Broker \<times> string option" where
  "offer_all [] broker = (broker, None)"
| "offer_all ((name, delivery) # ps) broker =
     (case offer name delivery broker of
        (broker', Some err) \<Rightarrow> (broker', Some err)
      | (broker', None) \<Rightarrow> offer_all ps broker')"

definition Publish :: "Target \<Rightarrow> Message \<Rightarrow> Broker \<Rightarrow> Broker \<times> string option" where
  "Publish target message broker =
     (case queuesFor target message broker of
        (broker', Inl err) \<Rightarrow> (broker', Some err)
      | (broker', Inr ps) \<Rightarrow> offer_all ps broker')"

section \<open>Consuming and settling\<close>

definition Consume :: "Broker \<Rightarrow> string \<Rightarrow> (string, string) result" where
  "Consume broker name = bind_result (findQueue broker name) (\<lambda>_. Inr name)"

text \<open>
  \<open>Next\<close> receives from the channel and then records the delivery under the lock: two steps,
  between which the delivery is in neither place.
\<close>

definition receive_from :: "string \<Rightarrow> Broker \<Rightarrow> (Broker \<times> Delivery) option" where
  "receive_from name broker =
     (case map_of (queues broker) name of
        None \<Rightarrow> None
      | Some q \<Rightarrow>
          (case backlog q of
             [] \<Rightarrow> None
           | d # ds \<Rightarrow> Some (change_queue name (\<lambda>q. q\<lparr>backlog := ds\<rparr>) broker, d)))"

definition hand_out :: "string \<Rightarrow> Delivery \<Rightarrow> Broker \<Rightarrow> Broker" where
  "hand_out name d broker =
     change_queue name (\<lambda>q. q\<lparr>unsettled := AList.update (Tag d) d (unsettled q)\<rparr>) broker"

definition Next :: "string \<Rightarrow> Broker \<Rightarrow> (Broker \<times> Delivery) option" where
  "Next name broker =
     (case receive_from name broker of
        None \<Rightarrow> None
      | Some (broker', d) \<Rightarrow> Some (hand_out name d broker', d))"

definition owed :: "string \<Rightarrow> Broker \<Rightarrow> nat \<Rightarrow> Delivery option" where
  "owed name broker tag =
     (case map_of (queues broker) name of None \<Rightarrow> None | Some q \<Rightarrow> map_of (unsettled q) tag)"

definition settle ::
  "string \<Rightarrow> nat \<Rightarrow> (Delivery \<Rightarrow> Broker \<Rightarrow> Broker) \<Rightarrow> Broker \<Rightarrow> Broker \<times> string option" where
  "settle name tag decide broker =
     (case owed name broker tag of
        None \<Rightarrow> (broker, Some errUnknownTag)
      | Some d \<Rightarrow>
          (decide d (change_queue name (\<lambda>q. q\<lparr>unsettled := AList.delete tag (unsettled q)\<rparr>) broker), None))"

definition Ack :: "string \<Rightarrow> nat \<Rightarrow> Broker \<Rightarrow> Broker \<times> string option" where
  "Ack name tag = settle name tag (\<lambda>_ b. b\<lparr>acks := acks b @ [tag]\<rparr>)"

definition Discard :: "string \<Rightarrow> nat \<Rightarrow> Broker \<Rightarrow> Broker \<times> string option" where
  "Discard name tag = settle name tag (\<lambda>_ b. b\<lparr>discards := discards b @ [tag]\<rparr>)"

definition Requeue :: "string \<Rightarrow> nat \<Rightarrow> Broker \<Rightarrow> Broker \<times> string option" where
  "Requeue name tag broker =
     (case owed name broker tag of
        None \<Rightarrow> (broker, Some errUnknownTag)
      | Some d \<Rightarrow>
          offer name (d\<lparr>Redelivered := True\<rparr>)
            (fst (settle name tag (\<lambda>_ b. b\<lparr>requeues := requeues b @ [tag]\<rparr>) broker)))"

section \<open>Settling keeps the port's contract\<close>

lemma map_of_change [simp]:
  "map_of (queues (change_queue name f b)) n =
     (if n = name then map_option f (map_of (queues b) name) else map_of (queues b) n)"
proof -
  have "map_of (map (\<lambda>(n, q). (n, if n = name then f q else q)) qs) n =
      (if n = name then map_option f (map_of qs name) else map_of qs n)" for qs
    by (induction qs) auto
  then show ?thesis by (simp add: change_queue_def)
qed

lemma change_queue_rest [simp]:
  "last_tag (change_queue name f b) = last_tag b" "acks (change_queue name f b) = acks b"
  "discards (change_queue name f b) = discards b" "requeues (change_queue name f b) = requeues b"
  "exchanges (change_queue name f b) = exchanges b" "bindings (change_queue name f b) = bindings b"
  "map fst (queues (change_queue name f b)) = map fst (queues b)"
  by (simp_all add: change_queue_def comp_def split_beta)

lemma owed_record [simp]:
  "owed name (b\<lparr>acks := x\<rparr>) = owed name b" "owed name (b\<lparr>discards := x\<rparr>) = owed name b"
  "owed name (b\<lparr>requeues := x\<rparr>) = owed name b"
  by (simp_all add: owed_def fun_eq_iff)

lemma owed_delete:
  "owed name (change_queue name (\<lambda>q. q\<lparr>unsettled := AList.delete tag (unsettled q)\<rparr>) b) = (owed name b)(tag := None)"
  by (auto simp: owed_def fun_eq_iff delete_conv' split: option.splits)

lemma owed_offer: "owed n (fst (offer name d b)) = owed n b"
  by (auto simp: offer_def owed_def fun_eq_iff split: option.splits)

interpretation acking: settling "owed name" "Ack name" errUnknownTag for name
  by unfold_locales (simp_all add: Ack_def settle_def owed_delete)

interpretation discarding: settling "owed name" "Discard name" errUnknownTag for name
  by unfold_locales (simp_all add: Discard_def settle_def owed_delete)

interpretation requeueing: settling "owed name" "Requeue name" errUnknownTag for name
  by unfold_locales (simp_all add: Requeue_def settle_def owed_delete owed_offer)

section \<open>Publishing reaches every queue that is bound\<close>

lemma place_all:
  "set names \<subseteq> dom (map_of (queues b)) \<Longrightarrow>
   place target message names b =
     (b\<lparr>last_tag := last_tag b + length names\<rparr>,
      Inr (zip names (map (copy_for target message) [Suc (last_tag b)..<Suc (last_tag b + length names)])))"
proof (induction names arbitrary: b)
  case (Cons name names)
  let ?b = "b\<lparr>last_tag := Suc (last_tag b)\<rparr>"
  have "set names \<subseteq> dom (map_of (queues ?b))" using Cons.prems by simp
  note rest = Cons.IH [OF this]
  obtain q where "map_of (queues b) name = Some q" using Cons.prems by auto
  moreover have "[Suc (last_tag b)..<Suc (last_tag b + length (name # names))] =
      Suc (last_tag b) # [Suc (last_tag ?b)..<Suc (last_tag ?b + length names)]"
    by (simp add: upt_conv_Cons del: upt_Suc)
  ultimately show ?case
    using rest by (simp add: findQueue_def Let_def del: upt_Suc)
qed simp

lemma offer_room:
  "map_of (queues b) name = Some q \<Longrightarrow> length (backlog q) < capacity \<Longrightarrow>
   offer name d b = (change_queue name (\<lambda>q. q\<lparr>backlog := backlog q @ [d]\<rparr>) b, None)"
  by (simp add: offer_def)

text \<open>The copies among some placements that go to one queue.\<close>

definition placed_at :: "placement list \<Rightarrow> string \<Rightarrow> Delivery list" where
  "placed_at ps n = map snd (filter (\<lambda>p. fst p = n) ps)"

lemma placed_at_simps [simp]:
  "placed_at [] n = []"
  "placed_at ((name, d) # ps) n = (if name = n then d # placed_at ps n else placed_at ps n)"
  by (simp_all add: placed_at_def)

text \<open>Offering stops at the first queue without room; those before it have their copies.\<close>

definition offered_up_to :: "placement list \<Rightarrow> Broker \<Rightarrow> nat \<Rightarrow> Broker \<Rightarrow> bool" where
  "offered_up_to ps b k b' \<longleftrightarrow>
     k \<le> length ps \<and> offer_all ps b = (b', if k = length ps then None else Some errQueueFull) \<and>
     (\<forall>n. map_of (queues b') n = map_option (\<lambda>q. q\<lparr>backlog := backlog q @ placed_at (take k ps) n\<rparr>) (map_of (queues b) n)) \<and>
     (k < length ps \<longrightarrow> (\<exists>q. map_of (queues b') (fst (ps ! k)) = Some q \<and> capacity \<le> length (backlog q)))"

lemma offer_all_stops:
  assumes "fst ` set ps \<subseteq> dom (map_of (queues b))"
  shows "\<exists>k b'. offered_up_to ps b k b'"
  using assms
proof (induction ps arbitrary: b)
  case Nil
  then show ?case by (simp add: offered_up_to_def option.map_ident)
next
  case (Cons p ps)
  obtain name d where p: "p = (name, d)" by (cases p)
  obtain q where q: "map_of (queues b) name = Some q" using Cons.prems p by auto
  show ?case
  proof (cases "length (backlog q) < capacity")
    case True
    note offered = offer_room [OF q this]
    let ?b = "change_queue name (\<lambda>q. q\<lparr>backlog := backlog q @ [d]\<rparr>) b"
    have "fst ` set ps \<subseteq> dom (map_of (queues ?b))" using Cons.prems by (auto simp: p)
    then obtain k b' where k: "k \<le> length ps" "offer_all ps ?b = (b', if k = length ps then None else Some errQueueFull)"
      "k < length ps \<longrightarrow> (\<exists>q. map_of (queues b') (fst (ps ! k)) = Some q \<and> capacity \<le> length (backlog q))"
      and after: "map_of (queues b') n = map_option (\<lambda>q. q\<lparr>backlog := backlog q @ placed_at (take k ps) n\<rparr>) (map_of (queues ?b) n)" for n
      using Cons.IH unfolding offered_up_to_def by blast
    have "map_of (queues b') n = map_option (\<lambda>q. q\<lparr>backlog := backlog q @ placed_at (take (Suc k) (p # ps)) n\<rparr>) (map_of (queues b) n)" for n
      by (simp add: after p option.map_comp comp_def)
    with k offered p have "offered_up_to (p # ps) b (Suc k) b'" by (simp add: offered_up_to_def)
    then show ?thesis by blast
  next
    case False
    with p q have "offered_up_to (p # ps) b 0 b" by (simp add: offered_up_to_def offer_def option.map_ident)
    then show ?thesis by blast
  qed
qed

lemma place_undeclared:
  "\<not> set names \<subseteq> dom (map_of (queues b)) \<Longrightarrow>
   \<exists>b'. place target message names b = (b', Inl errNoSuchQueue) \<and> queues b' = queues b"
proof (induction names arbitrary: b)
  case (Cons name names)
  show ?case
  proof (cases "map_of (queues b) name")
    case (Some q)
    then have "\<not> set names \<subseteq> dom (map_of (queues (b\<lparr>last_tag := Suc (last_tag b)\<rparr>)))" using Cons.prems by auto
    from Cons.IH [OF this] Some show ?thesis by (auto simp: findQueue_def Let_def)
  qed (simp add: findQueue_def)
qed simp

lemma placed_at_zip:
  "length names = length ds \<Longrightarrow>
   length (placed_at (zip names ds) n) = count_list names n \<and> set (placed_at (zip names ds) n) \<subseteq> set ds"
  by (induction names ds rule: list_induct2) auto

text \<open>Declared queues: some of the copies are offered, in order, and why the rest is not.\<close>

lemma publish_declared:
  assumes "routeTargets b target = Inr names" and "set names \<subseteq> dom (map_of (queues b))"
  obtains k b' new where "k \<le> length names" "Publish target message b = (b', if k = length names then None else Some errQueueFull)"
    "\<forall>n. map_of (queues b') n = map_option (\<lambda>q. q\<lparr>backlog := backlog q @ new n\<rparr>) (map_of (queues b) n)"
    "\<forall>n. length (new n) = count_list (take k names) n"
    "\<forall>n. \<forall>d \<in> set (new n). \<exists>tag > last_tag b. d = copy_for target message tag"
    "k < length names \<longrightarrow> (\<exists>q. map_of (queues b') (names ! k) = Some q \<and> capacity \<le> length (backlog q))"
proof -
  define tags where "tags = [Suc (last_tag b)..<Suc (last_tag b + length names)]"
  define ps where "ps = zip names (map (copy_for target message) tags)"
  define b1 where "b1 = b\<lparr>last_tag := last_tag b + length names\<rparr>"
  have tags: "length tags = length names" "tag \<in> set tags \<Longrightarrow> last_tag b < tag" for tag
    by (simp_all add: tags_def less_eq_Suc_le del: upt_Suc)
  have long: "length ps = length names" "k < length names \<Longrightarrow> fst (ps ! k) = names ! k" for k
    by (simp_all add: ps_def tags(1))
  have queued: "queuesFor target message b = (b1, Inr ps)"
    using assms(1) place_all [OF assms(2)] by (simp add: queuesFor_def ps_def b1_def tags_def del: upt_Suc)
  have same: "queues b1 = queues b" by (simp add: b1_def)
  have "fst ` set ps \<subseteq> dom (map_of (queues b1))"
    using assms(2) by (auto simp: ps_def same dest: set_zip_leftD)
  then obtain k b' where "offered_up_to ps b1 k b'" using offer_all_stops by blast
  then have k: "k \<le> length names" "offer_all ps b1 = (b', if k = length names then None else Some errQueueFull)"
    "k < length names \<longrightarrow> (\<exists>q. map_of (queues b') (fst (ps ! k)) = Some q \<and> capacity \<le> length (backlog q))"
    and after: "map_of (queues b') n = map_option (\<lambda>q. q\<lparr>backlog := backlog q @ placed_at (take k ps) n\<rparr>) (map_of (queues b) n)" for n
    unfolding offered_up_to_def long(1) same by blast+
  have at: "length (placed_at (take k ps) n) = count_list (take k names) n"
    "set (placed_at (take k ps) n) \<subseteq> copy_for target message ` set tags" for n
  proof -
    have "take k ps = zip (take k names) (map (copy_for target message) (take k tags))"
      by (simp add: ps_def take_zip take_map)
    with placed_at_zip [of "take k names" "map (copy_for target message) (take k tags)" n] tags(1)
    have "length (placed_at (take k ps) n) = count_list (take k names) n"
      and sub: "set (placed_at (take k ps) n) \<subseteq> copy_for target message ` set (take k tags)" by simp_all
    then show "length (placed_at (take k ps) n) = count_list (take k names) n" by simp
    show "set (placed_at (take k ps) n) \<subseteq> copy_for target message ` set tags"
      using sub image_mono [OF set_take_subset] by (rule order_trans)
  qed
  have made: "\<exists>tag > last_tag b. d = copy_for target message tag" if "d \<in> set (placed_at (take k ps) n)" for d n
    using that at(2) [of n] tags(2) by blast
  show thesis
  proof (rule that [of k b' "\<lambda>n. placed_at (take k ps) n"])
    show "Publish target message b = (b', if k = length names then None else Some errQueueFull)"
      using queued k(2) by (simp add: Publish_def)
    show "k < length names \<longrightarrow> (\<exists>q. map_of (queues b') (names ! k) = Some q \<and> capacity \<le> length (backlog q))"
      using k(3) long(2) by simp
  qed (use k(1) after at(1) made in blast)+
qed

lemma fewer_copies: "k < length names \<Longrightarrow> count_list (take k names) (names ! k) < count_list names (names ! k)"
proof -
  assume less: "k < length names"
  have "count_list names (names ! k) = count_list (take k names @ names ! k # drop (Suc k) names) (names ! k)"
    by (simp only: id_take_nth_drop [OF less, symmetric])
  then show ?thesis by simp
qed


text \<open>A broker for examples: a fanout exchange bound to one queue twice and to another once.\<close>

definition example_broker :: Broker where
  "example_broker =
     (let e = DeclareExchange NewBroker \<lparr>ex_Name = ''e'', Kind = Fanout, ex_Durability = Durable\<rparr>;
          declare = (\<lambda>n b. DeclareQueue b \<lparr>q_Name = n, q_Durability = Durable, q_Access = Shared,
                       q_DeadLetter = \<lparr>dl_Exchange = [], dl_Key = []\<rparr>\<rparr>);
          bind = (\<lambda>n b. fst (Bind b \<lparr>bind_Exchange = ''e'', bind_Queue = n, bind_Key = []\<rparr>))
      in bind ''p'' (bind ''q'' (bind ''q'' (declare ''p'' (declare ''q'' e)))))"

lemma example_broker_simps [simp]:
  "queues example_broker = [(''q'', \<lparr>backlog = [], unsettled = []\<rparr>), (''p'', \<lparr>backlog = [], unsettled = []\<rparr>)]"
  "routeTargets example_broker \<lparr>to_Exchange = ''e'', to_Key = k\<rparr> = Inr [''q'', ''q'', ''p'']"
  by (simp_all add: example_broker_def Let_def DeclareExchange_def DeclareQueue_def Bind_def findQueue_def
      NewBroker_def routeTargets_def)


text \<open>A delivery is settled once: after any disposition of a tag, every disposition of that tag is
refused and changes nothing.\<close>

theorem settled_once:
  assumes "first \<in> {Ack name tag, Discard name tag, Requeue name tag}"
    and "second \<in> {Ack name tag, Discard name tag, Requeue name tag}"
  shows "second (fst (first b)) = (fst (first b), Some errUnknownTag)"
proof -
  have "owed name (fst (first b)) tag = None"
    using assms(1) acking.settled_unowed [of name tag b] discarding.settled_unowed [of name tag b]
      requeueing.settled_unowed [of name tag b] by blast
  with assms(2) show ?thesis
    using acking.settle_unowed discarding.settle_unowed requeueing.settle_unowed by blast
qed

definition holding :: "Delivery \<Rightarrow> Delivery list \<Rightarrow> Broker" where
  "holding d ds = NewBroker\<lparr>queues := [(''q'', \<lparr>backlog = ds, unsettled = [(Tag d, d)]\<rparr>)]\<rparr>"

definition example_delivery :: Delivery where
  "example_delivery = \<lparr>d_Body = ''b'', d_ContentType = [], d_Headers = [], d_Exchange = [], d_Key = ''q'',
     Tag = 1, Redelivered = False\<rparr>"

theorem settled_once_witness:
  "Requeue ''q'' 1 (fst (Ack ''q'' 1 (holding example_delivery []))) =
   (fst (Ack ''q'' 1 (holding example_delivery [])), Some errUnknownTag)"
  by (rule settled_once [where name = "''q''" and tag = 1]) simp_all

text \<open>A delivery that is requeued waits again, marked as redelivered, behind what waits already --
unless the queue is full: then it is recorded as requeued and is in no queue and owed to nobody.\<close>

theorem requeued_or_dropped:
  assumes "map_of (queues b) name = Some q" and "map_of (unsettled q) tag = Some d"
  shows "\<exists>b'. Requeue name tag b = (b', if length (backlog q) < capacity then None else Some errQueueFull) \<and>
           map_of (queues b') name =
             Some \<lparr>backlog = (if length (backlog q) < capacity then backlog q @ [d\<lparr>Redelivered := True\<rparr>] else backlog q),
                   unsettled = AList.delete tag (unsettled q)\<rparr> \<and>
           (\<forall>n. n \<noteq> name \<longrightarrow> map_of (queues b') n = map_of (queues b) n) \<and>
           requeues b' = requeues b @ [tag]"
proof -
  have "owed name b tag = Some d" using assms by (simp add: owed_def)
  with assms(1) show ?thesis
    by (cases q) (simp add: Requeue_def settle_def offer_def)
qed

theorem requeued_or_dropped_witness:
  "\<exists>b'. Requeue ''q'' 1 (holding example_delivery (replicate capacity example_delivery)) = (b', Some errQueueFull) \<and>
     Depth b' ''q'' = capacity \<and> owed ''q'' b' 1 = None \<and> requeues b' = [1]"
proof -
  let ?ds = "replicate capacity example_delivery"
  have "map_of (queues (holding example_delivery ?ds)) ''q'' =
      Some \<lparr>backlog = ?ds, unsettled = [(1, example_delivery)]\<rparr>"
    by (simp add: holding_def example_delivery_def)
  from requeued_or_dropped [OF this, of 1 example_delivery] show ?thesis
    by (auto simp: Depth_def owed_def holding_def NewBroker_def)
qed

text \<open>Publishing through the default exchange to a queue nobody declared is refused, not dropped.\<close>

theorem unreached_publish_fails:
  "Publish \<lparr>to_Exchange = [], to_Key = ''nowhere''\<rparr> message NewBroker = (NewBroker, Some errNoSuchQueue)"
  by (simp add: Publish_def queuesFor_def routeTargets_def findQueue_def NewBroker_def)

end
