(* ===== verification/Amqp091_Runs.thy ===== *)
theory Amqp091_Runs
  imports Amqp091_Broker
begin

text \<open>
  Producers and consumers interleaving on the in-process broker (\<open>amqp091/inprocess\<close>). What
  the source does under one lock, or in one channel operation, is one step: naming the
  copies of a message, offering one copy to its queue, receiving from a queue, recording
  what was received, settling. Between the steps a copy is in the hands of whoever is at
  work on it.

  Two results: every copy the broker ever named is in at most one place -- on its way, waiting,
  received, handed out, acknowledged, discarded, or turned away by a full queue -- and a step lets go
  of a copy only by offering it to a full queue, which a publication and a requeue can both come to.
\<close>

section \<open>Steps\<close>

text \<open>
  \<open>transit\<close> are the publications under way, each with the copies still to be offered in order;
  \<open>received\<close> what a consumer has taken from a queue and not recorded yet; \<open>refused\<close> is a record the
  model keeps of what a full queue turned away: the source returns an error and keeps it nowhere.
\<close>

record sys =
  broker :: Broker
  transit :: "placement list list"
  received :: "placement list"
  refused :: "Delivery list"

inductive step :: "sys \<Rightarrow> sys \<Rightarrow> bool" where
  declare_exchange: "step s (s\<lparr>broker := DeclareExchange (broker s) e\<rparr>)"
| declare_queue: "step s (s\<lparr>broker := DeclareQueue (broker s) q\<rparr>)"
| bind_queue: "step s (s\<lparr>broker := fst (Bind (broker s) b)\<rparr>)"
| publish: "queuesFor target message (broker s) = (b, Inr ps) \<Longrightarrow>
    step s (s\<lparr>broker := b, transit := ps # transit s\<rparr>)"
| publish_fails: "queuesFor target message (broker s) = (b, Inl err) \<Longrightarrow> step s (s\<lparr>broker := b\<rparr>)"
| offered: "transit s = xs @ ((name, d) # ps) # ys \<Longrightarrow> offer name d (broker s) = (b, None) \<Longrightarrow>
    step s (s\<lparr>broker := b, transit := xs @ ps # ys\<rparr>)"
| turned_away: "transit s = xs @ ((name, d) # ps) # ys \<Longrightarrow> offer name d (broker s) = (b, Some err) \<Longrightarrow>
    step s (s\<lparr>broker := b, transit := xs @ ys, refused := d # map snd ps @ refused s\<rparr>)"
| take_next: "receive_from name (broker s) = Some (b, d) \<Longrightarrow>
    step s (s\<lparr>broker := b, received := (name, d) # received s\<rparr>)"
| record_next: "received s = xs @ (name, d) # ys \<Longrightarrow>
    step s (s\<lparr>broker := hand_out name d (broker s), received := xs @ ys\<rparr>)"
| ack: "step s (s\<lparr>broker := fst (Ack name tag (broker s))\<rparr>)"
| discard: "step s (s\<lparr>broker := fst (Discard name tag (broker s))\<rparr>)"
| requeue: "owed name (broker s) tag = Some d \<Longrightarrow>
    step s (s\<lparr>broker := fst (settle name tag (\<lambda>_ b. b\<lparr>requeues := requeues b @ [tag]\<rparr>) (broker s)),
              transit := [(name, d\<lparr>Redelivered := True\<rparr>)] # transit s\<rparr>)"

definition start :: sys where
  "start = \<lparr>broker = NewBroker, transit = [], received = [], refused = []\<rparr>"

inductive reachable :: "sys \<Rightarrow> bool" where
  reach_start: "reachable start"
| reach_step: "reachable s \<Longrightarrow> step s s' \<Longrightarrow> reachable s'"

section \<open>Where the copies are\<close>

definition queue_tags :: "queue \<Rightarrow> nat multiset" where
  "queue_tags q = mset (map Tag (backlog q)) + mset (map fst (unsettled q))"

definition broker_tags :: "Broker \<Rightarrow> nat multiset" where
  "broker_tags b =
     (\<Sum>\<^sub># (mset (map (queue_tags \<circ> snd) (queues b)))) + mset (acks b) + mset (discards b)"

definition placed_tags :: "placement list \<Rightarrow> nat multiset" where
  "placed_tags ps = mset (map (Tag \<circ> snd) ps)"

definition copies :: "sys \<Rightarrow> nat multiset" where
  "copies s =
     broker_tags (broker s) + \<Sum>\<^sub># (mset (map placed_tags (transit s))) +
     placed_tags (received s) + mset (map Tag (refused s))"

text \<open>Names of queues are distinct, and what is handed out is filed under its own tag, once.\<close>

definition filed :: "queue \<Rightarrow> bool" where
  "filed q \<longleftrightarrow> distinct (map fst (unsettled q)) \<and> (\<forall>(t, d) \<in> set (unsettled q). Tag d = t)"

definition broker_ok :: "Broker \<Rightarrow> bool" where
  "broker_ok b \<longleftrightarrow> distinct (map fst (queues b)) \<and> (\<forall>(n, q) \<in> set (queues b). filed q)"

definition known :: "Broker \<Rightarrow> placement list \<Rightarrow> bool" where
  "known b ps \<longleftrightarrow> (\<forall>p \<in> set ps. fst p \<in> set (map fst (queues b)))"

definition sys_inv :: "sys \<Rightarrow> bool" where
  "sys_inv s \<longleftrightarrow>
     broker_ok (broker s) \<and>
     (\<forall>t. count (copies s) t \<le> 1) \<and> (\<forall>t \<in># copies s. t \<le> last_tag (broker s)) \<and>
     known (broker s) (received s)"

section \<open>Changing one queue\<close>

lemma sum_change:
  assumes "distinct (map fst qs)" and "map_of qs name = Some q"
  shows "\<Sum>\<^sub># (mset (map (g \<circ> snd) (map (\<lambda>(n, q). (n, if n = name then f q else q)) qs))) + g q =
         (\<Sum>\<^sub># (mset (map (g \<circ> snd) qs)) + g (f q) :: 'a multiset)"
  using assms
proof (induction qs)
  case (Cons p qs)
  obtain n p' where p: "p = (n, p')" by (cases p)
  show ?case
  proof (cases "n = name")
    case True
    with Cons.prems p have "name \<notin> fst ` set qs" by auto
    then have "map (\<lambda>(n, q). (n, if n = name then f q else q)) qs = qs"
      by (induction qs) auto
    with True p Cons.prems show ?thesis by simp
  next
    case False
    with Cons p show ?thesis by simp
  qed
qed simp

lemma broker_tags_change:
  assumes "broker_ok b" and "map_of (queues b) name = Some q"
  shows "broker_tags (change_queue name f b) + queue_tags q = broker_tags b + queue_tags (f q)"
  using sum_change [of "queues b" name q queue_tags f] assms
  by (simp add: broker_tags_def broker_ok_def change_queue_def ac_simps)

lemma broker_ok_change:
  assumes "broker_ok b" and "\<And>q. map_of (queues b) name = Some q \<Longrightarrow> filed (f q)"
  shows "broker_ok (change_queue name f b)"
proof -
  have "filed (if n = name then f q else q)" if "(n, q) \<in> set (queues b)" for n q
  proof -
    have "map_of (queues b) n = Some q"
      using assms(1) that by (simp add: broker_ok_def)
    with assms that show ?thesis by (auto simp: broker_ok_def)
  qed
  with assms(1) show ?thesis
    unfolding broker_ok_def change_queue_rest by (auto simp: change_queue_def)
qed

lemma broker_ok_queue: "broker_ok b \<Longrightarrow> map_of (queues b) name = Some q \<Longrightarrow> filed q"
  by (auto simp: broker_ok_def dest!: map_of_SomeD)

section \<open>What each operation does to the copies\<close>

lemma offer_ok:
  assumes "offer name d b = (b', None)" and "broker_ok b"
  shows "broker_ok b'" and "broker_tags b' = add_mset (Tag d) (broker_tags b)" and "last_tag b' = last_tag b"
proof -
  from assms(1) obtain q where q: "map_of (queues b) name = Some q"
    and b': "b' = change_queue name (\<lambda>q. q\<lparr>backlog := backlog q @ [d]\<rparr>) b"
    by (auto simp: offer_def split: option.splits if_splits)
  show "broker_ok b'" unfolding b'
    by (rule broker_ok_change [OF assms(2)]) (use broker_ok_queue [OF assms(2)] in \<open>auto simp: filed_def\<close>)
  show "broker_tags b' = add_mset (Tag d) (broker_tags b)"
    using broker_tags_change [OF assms(2) q, of "\<lambda>q. q\<lparr>backlog := backlog q @ [d]\<rparr>"] b'
    by (simp add: queue_tags_def)
  show "last_tag b' = last_tag b" by (simp add: b')
qed

lemma offer_err: "offer name d b = (b', Some err) \<Longrightarrow> b' = b"
  by (auto simp: offer_def split: option.splits if_splits)

lemma receive_from_ok:
  assumes "receive_from name b = Some (b', d)" and "broker_ok b"
  shows "broker_ok b'" and "broker_tags b = add_mset (Tag d) (broker_tags b')"
    and "last_tag b' = last_tag b" and "\<exists>q. map_of (queues b') name = Some q"
proof -
  from assms(1) obtain q ds where q: "map_of (queues b) name = Some q" "backlog q = d # ds"
    and b': "b' = change_queue name (\<lambda>q. q\<lparr>backlog := ds\<rparr>) b"
    by (auto simp: receive_from_def split: option.splits list.splits)
  show "broker_ok b'" unfolding b'
    by (rule broker_ok_change [OF assms(2)]) (use broker_ok_queue [OF assms(2)] in \<open>auto simp: filed_def\<close>)
  show "broker_tags b = add_mset (Tag d) (broker_tags b')"
    using broker_tags_change [OF assms(2) q(1), of "\<lambda>q. q\<lparr>backlog := ds\<rparr>"] b' q(2)
    by (simp add: queue_tags_def)
  show "last_tag b' = last_tag b" "\<exists>q. map_of (queues b') name = Some q" using q by (simp_all add: b')
qed

lemma queue_tags_in:
  assumes "broker_ok b" and "map_of (queues b) name = Some q" and "t \<in># queue_tags q"
  shows "t \<in># broker_tags b"
proof -
  have "(name, q) \<in> set (queues b)" using assms(2) by (rule map_of_SomeD)
  with assms(3) have "\<exists>p \<in> set (queues b). t \<in># queue_tags (snd p)" by force
  then show ?thesis by (simp add: broker_tags_def)
qed

lemma hand_out_ok:
  assumes "broker_ok b" and "map_of (queues b) name = Some q" and "Tag d \<notin># broker_tags b"
  shows "broker_ok (hand_out name d b)"
    and "broker_tags (hand_out name d b) = add_mset (Tag d) (broker_tags b)"
    and "last_tag (hand_out name d b) = last_tag b"
proof -
  let ?f = "\<lambda>q. q\<lparr>unsettled := AList.update (Tag d) d (unsettled q)\<rparr>"
  have fresh: "Tag d \<notin> fst ` set (unsettled q)"
    using queue_tags_in [OF assms(1,2), of "Tag d"] assms(3) by (auto simp: queue_tags_def)
  have app: "AList.update k v al = al @ [(k, v)]" if "k \<notin> fst ` set al" for k :: nat and v :: Delivery and al
    using that by (induction al) auto
  show "broker_ok (hand_out name d b)"
    unfolding hand_out_def
  proof (rule broker_ok_change [OF assms(1)])
    fix r assume "map_of (queues b) name = Some r"
    with assms(2) broker_ok_queue [OF assms(1) assms(2)] fresh show "filed (?f r)"
      by (auto simp: filed_def app)
  qed
  show "broker_tags (hand_out name d b) = add_mset (Tag d) (broker_tags b)"
    using broker_tags_change [OF assms(1,2), of ?f] by (simp add: hand_out_def queue_tags_def app [OF fresh])
  show "last_tag (hand_out name d b) = last_tag b" by (simp add: hand_out_def)
qed

lemma owed_tag:
  assumes "broker_ok b" and "owed name b tag = Some d"
  shows "Tag d = tag"
proof -
  from assms(2) obtain q where q: "map_of (queues b) name = Some q" "map_of (unsettled q) tag = Some d"
    by (auto simp: owed_def split: option.splits)
  with broker_ok_queue [OF assms(1) q(1)] show ?thesis
    by (auto simp: filed_def dest: map_of_SomeD)
qed

lemma unsettle_ok:
  assumes "broker_ok b" and "owed name b tag = Some d"
  defines "b' \<equiv> change_queue name (\<lambda>q. q\<lparr>unsettled := AList.delete tag (unsettled q)\<rparr>) b"
  shows "broker_ok b'" and "broker_tags b = add_mset tag (broker_tags b')"
proof -
  let ?f = "\<lambda>q. q\<lparr>unsettled := AList.delete tag (unsettled q)\<rparr>"
  from assms(2) obtain q where q: "map_of (queues b) name = Some q" "map_of (unsettled q) tag = Some d"
    by (auto simp: owed_def split: option.splits)
  have filed: "filed q" by (rule broker_ok_queue [OF assms(1) q(1)])
  have del: "mset (map fst al) = add_mset k (mset (map fst (AList.delete k al)))"
    if "distinct (map fst al)" "map_of al k = Some v" for k :: nat and v :: Delivery and al
    using that
  proof (induction al)
    case (Cons x xs)
    show ?case
    proof (cases "fst x = k")
      case True
      with Cons.prems have "AList.delete k xs = xs" by (auto simp: AList.delete_eq filter_id_conv image_iff)
      with True show ?thesis by (cases x) (simp add: AList.delete_eq)
    next
      case False
      with Cons show ?thesis by (cases x) (simp add: AList.delete_eq)
    qed
  qed simp
  show "broker_ok b'" unfolding b'_def
  proof (rule broker_ok_change [OF assms(1)])
    fix r assume "map_of (queues b) name = Some r"
    with broker_ok_queue [OF assms(1)] have "filed r" by blast
    moreover have "set (AList.delete tag (unsettled r)) \<subseteq> set (unsettled r)"
      by (auto simp: AList.delete_eq)
    ultimately show "filed (?f r)"
      unfolding filed_def by (auto simp: distinct_delete)
  qed
  have "queue_tags q = add_mset tag (queue_tags (?f q))"
    using del [of "unsettled q" tag d] filed q(2) by (simp add: queue_tags_def filed_def)
  with broker_tags_change [OF assms(1) q(1), of ?f] show "broker_tags b = add_mset tag (broker_tags b')"
    by (simp add: b'_def)
qed

lemma broker_tags_record [simp]:
  "broker_tags (b\<lparr>acks := acks b @ [t]\<rparr>) = add_mset t (broker_tags b)"
  "broker_tags (b\<lparr>discards := discards b @ [t]\<rparr>) = add_mset t (broker_tags b)"
  "broker_tags (b\<lparr>requeues := x\<rparr>) = broker_tags b" "broker_tags (b\<lparr>last_tag := n\<rparr>) = broker_tags b"
  "broker_tags (b\<lparr>bindings := y\<rparr>) = broker_tags b" "broker_tags (b\<lparr>exchanges := z\<rparr>) = broker_tags b"
  "broker_ok (b\<lparr>acks := u\<rparr>) = broker_ok b" "broker_ok (b\<lparr>discards := u\<rparr>) = broker_ok b"
  "broker_ok (b\<lparr>requeues := x\<rparr>) = broker_ok b" "broker_ok (b\<lparr>last_tag := n\<rparr>) = broker_ok b"
  "broker_ok (b\<lparr>bindings := y\<rparr>) = broker_ok b" "broker_ok (b\<lparr>exchanges := z\<rparr>) = broker_ok b"
  by (simp_all add: broker_tags_def broker_ok_def)

lemma place_ok:
  assumes "place target message names b = (b', r)"
  shows "b' = b\<lparr>last_tag := last_tag b'\<rparr>" and "last_tag b \<le> last_tag b'"
    and "r = Inr ps \<Longrightarrow> placed_tags ps = mset [Suc (last_tag b)..<Suc (last_tag b')]"
  using assms
proof (induction names arbitrary: b r ps)
  case (Cons name names)
  {
    case 1 with Cons(1) show ?case by (fastforce split: sum.splits prod.splits)
  next
    case 2 with Cons(2) show ?case by (fastforce split: sum.splits prod.splits)
  next
    case 3
    then obtain rest where rest: "place target message names (b\<lparr>last_tag := Suc (last_tag b)\<rparr>) = (b', Inr rest)"
      "ps = (name, copy_for target message (Suc (last_tag b))) # rest"
      by (auto simp: go_results split: sum.splits prod.splits)
    have "placed_tags rest = mset [Suc (Suc (last_tag b))..<Suc (last_tag b')]"
      using Cons(3) [OF refl rest(1)] by simp
    moreover have "Suc (last_tag b) \<le> last_tag b'" using Cons(2) [OF rest(1)] by simp
    then have "[Suc (last_tag b)..<Suc (last_tag b')] = Suc (last_tag b) # [Suc (Suc (last_tag b))..<Suc (last_tag b')]"
      by (simp add: upt_conv_Cons)
    ultimately show ?case
      using rest(2) by (simp only: placed_tags_def) (simp add: copy_for_def del: upt_Suc mset_upt)
  }
qed (auto simp: placed_tags_def)

section \<open>Conservation\<close>

text \<open>The copies a step names: the tags it counted, when it named any.\<close>

definition named :: "sys \<Rightarrow> sys \<Rightarrow> nat multiset \<Rightarrow> bool" where
  "named s s' fresh \<longleftrightarrow>
     last_tag (broker s) \<le> last_tag (broker s') \<and>
     (fresh = {#} \<or> fresh = mset [Suc (last_tag (broker s))..<Suc (last_tag (broker s'))])"

lemma sys_inv_step:
  assumes "sys_inv s" and "copies s' = copies s + fresh" and "named s s' fresh"
    and "broker_ok (broker s')" and "known (broker s') (received s')"
  shows "sys_inv s'"
proof -
  have old: "count (copies s) t \<le> 1" "t \<in># copies s \<Longrightarrow> t \<le> last_tag (broker s)" for t
    using assms(1) by (simp_all add: sys_inv_def)
  have new: "count fresh t \<le> 1" "t \<in># fresh \<Longrightarrow> last_tag (broker s) < t \<and> t \<le> last_tag (broker s')" for t
    using assms(3) distinct_count_atmost_1 [of "[Suc (last_tag (broker s))..<Suc (last_tag (broker s'))]"]
    by (auto simp: named_def simp del: upt_Suc mset_upt)
  have "count (copies s) t + count fresh t \<le> 1" for t
    using old [of t] new [of t]
    by (cases "t \<in># fresh"; cases "t \<in># copies s") (auto simp: not_in_iff)
  moreover have "t \<le> last_tag (broker s')" if "t \<in># copies s + fresh" for t
    using that old(2) [of t] new(2) [of t] assms(3) by (auto simp: named_def)
  ultimately show ?thesis
    using assms(2,4,5) by (simp add: sys_inv_def)
qed

text \<open>A step that moves a copy from one place to another and names none.\<close>

lemma moves:
  assumes "sys_inv s" and "copies s' = copies s" and "last_tag (broker s') = last_tag (broker s)"
    and "broker_ok (broker s')" and "known (broker s') (received s')"
  shows "(\<exists>fresh. copies s' = copies s + fresh \<and> named s s' fresh) \<and> sys_inv s'"
proof -
  have n: "named s s' {#}" using assms(3) by (simp add: named_def)
  then have "sys_inv s'" using assms by (intro sys_inv_step [of s s' "{#}"]) simp_all
  with n assms(2) show ?thesis by (intro conjI exI [of _ "{#}"]) simp_all
qed

lemma known_names: "map fst (queues b') = map fst (queues b) \<Longrightarrow> known b' ps = known b ps"
  by (simp only: known_def)

lemma known_simps [simp]:
  "known b []" "known b (p # ps) \<longleftrightarrow> fst p \<in> set (map fst (queues b)) \<and> known b ps"
  "known b (ps @ qs) \<longleftrightarrow> known b ps \<and> known b qs"
  by (auto simp: known_def)

lemma known_lookup: "fst p \<in> set (map fst (queues b)) \<longleftrightarrow> (\<exists>q. map_of (queues b) (fst p) = Some q)"
  by (metis (no_types, lifting) domIff dom_map_of_conv_image_fst not_None_eq set_map)

lemma receive_names: "receive_from name b = Some (b', d) \<Longrightarrow> map fst (queues b') = map fst (queues b)"
  by (auto simp: receive_from_def simp del: map_map split: option.splits list.splits)

lemma hand_out_names: "map fst (queues (hand_out name d b)) = map fst (queues b)"
  unfolding hand_out_def by (rule change_queue_rest(7))

lemma placed_tags_simps [simp]:
  "placed_tags [] = {#}" "placed_tags ((n, d) # ps) = add_mset (Tag d) (placed_tags ps)"
  "placed_tags (ps @ qs) = placed_tags ps + placed_tags qs"
  by (simp_all add: placed_tags_def)

lemma placed_tags_snd: "mset (map Tag (map snd ps)) = placed_tags ps"
  by (simp add: placed_tags_def)

lemma offer_names: "offer name d b = (b', r) \<Longrightarrow> map fst (queues b') = map fst (queues b)"
  by (auto simp: offer_def split: option.splits if_splits simp del: map_map)

lemma step_offered:
  assumes inv: "sys_inv s" and tr: "transit s = xs @ ((name, d) # ps) # ys"
    and off: "offer name d (broker s) = (b, None)"
    and s': "s' = s\<lparr>broker := b, transit := xs @ ps # ys\<rparr>"
  shows "(\<exists>fresh. copies s' = copies s + fresh \<and> named s s' fresh) \<and> sys_inv s'"
proof (rule moves [OF inv])
  note o = offer_ok [OF off]
  have ok: "broker_ok (broker s)" using inv by (simp add: sys_inv_def)
  show "copies s' = copies s" using o(2) [OF ok] tr s' by (simp add: copies_def)
  show "last_tag (broker s') = last_tag (broker s)" "broker_ok (broker s')" using o [OF ok] s' by simp_all
  show "known (broker s') (received s')"
    using inv s' known_names [OF offer_names [OF off]] by (simp add: sys_inv_def)
qed

lemma step_turned_away:
  assumes inv: "sys_inv s" and tr: "transit s = xs @ ((name, d) # ps) # ys"
    and off: "offer name d (broker s) = (b, Some err)"
    and s': "s' = s\<lparr>broker := b, transit := xs @ ys, refused := d # map snd ps @ refused s\<rparr>"
  shows "(\<exists>fresh. copies s' = copies s + fresh \<and> named s s' fresh) \<and> sys_inv s'"
proof (rule moves [OF inv])
  have b: "b = broker s" by (rule offer_err [OF off])
  show "copies s' = copies s" using b tr s' placed_tags_snd [of ps] by (simp add: copies_def)
  show "last_tag (broker s') = last_tag (broker s)" "broker_ok (broker s')"
    using b s' inv by (simp_all add: sys_inv_def)
  show "known (broker s') (received s')" using b s' inv by (simp add: sys_inv_def)
qed

lemma step_take:
  assumes inv: "sys_inv s" and tk: "receive_from name (broker s) = Some (b, d)"
    and s': "s' = s\<lparr>broker := b, received := (name, d) # received s\<rparr>"
  shows "(\<exists>fresh. copies s' = copies s + fresh \<and> named s s' fresh) \<and> sys_inv s'"
proof (rule moves [OF inv])
  have ok: "broker_ok (broker s)" using inv by (simp add: sys_inv_def)
  note r = receive_from_ok [OF tk ok]
  show "copies s' = copies s" using r(2) s' by (simp add: copies_def)
  show "last_tag (broker s') = last_tag (broker s)" "broker_ok (broker s')" using r s' by simp_all
  have "known b (received s)"
    using inv known_names [OF receive_names [OF tk]] by (simp add: sys_inv_def)
  moreover have "fst (name, d) \<in> set (map fst (queues b))" unfolding known_lookup using r(4) by simp
  ultimately show "known (broker s') (received s')" using s' by simp
qed

lemma step_record:
  assumes inv: "sys_inv s" and rc: "received s = xs @ (name, d) # ys"
    and s': "s' = s\<lparr>broker := hand_out name d (broker s), received := xs @ ys\<rparr>"
  shows "(\<exists>fresh. copies s' = copies s + fresh \<and> named s s' fresh) \<and> sys_inv s'"
proof (rule moves [OF inv])
  have ok: "broker_ok (broker s)" and known: "known (broker s) (received s)" and one: "count (copies s) (Tag d) \<le> 1"
    using inv by (simp_all add: sys_inv_def)
  from known rc have "fst (name, d) \<in> set (map fst (queues (broker s)))" by simp
  then obtain q where q: "map_of (queues (broker s)) name = Some q" unfolding known_lookup by auto
  have "Tag d \<notin># broker_tags (broker s)"
    using one rc by (auto simp: copies_def not_in_iff)
  note h = hand_out_ok [OF ok q this]
  show "copies s' = copies s" using h(2) rc s' by (simp add: copies_def)
  show "last_tag (broker s') = last_tag (broker s)" "broker_ok (broker s')" using h s' by simp_all
  show "known (broker s') (received s')"
    using known rc s' known_names [OF hand_out_names] by simp
qed

lemma step_settle:
  assumes inv: "sys_inv s" and ow: "owed name (broker s) tag = Some d"
    and b: "b = change_queue name (\<lambda>q. q\<lparr>unsettled := AList.delete tag (unsettled q)\<rparr>) (broker s)"
  shows "s' = s\<lparr>broker := b\<lparr>acks := acks b @ [tag]\<rparr>\<rparr> \<or> s' = s\<lparr>broker := b\<lparr>discards := discards b @ [tag]\<rparr>\<rparr> \<or>
      s' = s\<lparr>broker := b\<lparr>requeues := requeues b @ [tag]\<rparr>,
             transit := [(name, d\<lparr>Redelivered := True\<rparr>)] # transit s\<rparr> \<Longrightarrow>
    (\<exists>fresh. copies s' = copies s + fresh \<and> named s s' fresh) \<and> sys_inv s'"
proof (rule moves [OF inv])
  assume s': "s' = s\<lparr>broker := b\<lparr>acks := acks b @ [tag]\<rparr>\<rparr> \<or> s' = s\<lparr>broker := b\<lparr>discards := discards b @ [tag]\<rparr>\<rparr> \<or>
      s' = s\<lparr>broker := b\<lparr>requeues := requeues b @ [tag]\<rparr>,
             transit := [(name, d\<lparr>Redelivered := True\<rparr>)] # transit s\<rparr>"
  have ok: "broker_ok (broker s)" using inv by (simp add: sys_inv_def)
  note u = unsettle_ok [OF ok ow, folded b]
  have tag: "Tag d = tag" by (rule owed_tag [OF ok ow])
  show "copies s' = copies s" using s' u(2) tag by (auto simp: copies_def)
  have "last_tag b = last_tag (broker s)" by (simp add: b)
  with s' show "last_tag (broker s') = last_tag (broker s)" by auto
  show "broker_ok (broker s')" using s' u(1) by auto
  have "map fst (queues b) = map fst (queues (broker s))" unfolding b by (rule change_queue_rest(7))
  moreover from s' have "queues (broker s') = queues b" by (elim disjE) simp_all
  ultimately have names: "map fst (queues (broker s')) = map fst (queues (broker s))" by (simp only:)
  from s' have "received s' = received s" by (elim disjE) simp_all
  then show "known (broker s') (received s')"
    using inv unfolding known_names [OF names] by (simp add: sys_inv_def)
qed

lemma step_publish:
  assumes inv: "sys_inv s" and q: "queuesFor target message (broker s) = (b, r)"
    and s': "(\<exists>ps. r = Inr ps \<and> s' = s\<lparr>broker := b, transit := ps # transit s\<rparr>) \<or>
      (\<exists>err. r = Inl err \<and> s' = s\<lparr>broker := b\<rparr>)"
  shows "(\<exists>fresh. copies s' = copies s + fresh \<and> named s s' fresh) \<and> sys_inv s'"
proof -
  have b: "b = (broker s)\<lparr>last_tag := last_tag b\<rparr>" "last_tag (broker s) \<le> last_tag b"
    and ps: "r = Inr ps \<Longrightarrow> placed_tags ps = mset [Suc (last_tag (broker s))..<Suc (last_tag b)]" for ps
    using q place_ok [of target message _ "broker s" b r]
    by (auto simp: queuesFor_def simp del: upt_Suc mset_upt split: sum.splits)
  have tags: "broker_tags b = broker_tags (broker s)" "broker_ok b = broker_ok (broker s)"
    "queues b = queues (broker s)"
    by (subst b(1), simp)+
  from s' obtain fresh where fresh: "copies s' = copies s + fresh" "named s s' fresh"
    and rest: "broker s' = b" "received s' = received s"
  proof (elim disjE exE conjE)
    fix ps assume "r = Inr ps" "s' = s\<lparr>broker := b, transit := ps # transit s\<rparr>"
    with that [of "mset [Suc (last_tag (broker s))..<Suc (last_tag b)]"] ps tags b(2) show thesis
      by (simp add: copies_def named_def del: upt_Suc mset_upt)
  next
    fix err assume "s' = s\<lparr>broker := b\<rparr>"
    with that [of "{#}"] tags b(2) show thesis by (simp add: copies_def named_def)
  qed
  have "known b (received s)" using inv tags(3) by (simp add: sys_inv_def known_def)
  with sys_inv_step [OF inv fresh] rest tags inv have "sys_inv s'" by (simp add: sys_inv_def [of s])
  with fresh show ?thesis by blast
qed

lemma step_broker:
  assumes inv: "sys_inv s" and tags: "broker_tags b = broker_tags (broker s)" "broker_ok b"
    and tag: "last_tag b = last_tag (broker s)"
    and names: "set (map fst (queues (broker s))) \<subseteq> set (map fst (queues b))"
    and s': "s' = s\<lparr>broker := b\<rparr>"
  shows "(\<exists>fresh. copies s' = copies s + fresh \<and> named s s' fresh) \<and> sys_inv s'"
proof (rule moves [OF inv])
  show "copies s' = copies s" "last_tag (broker s') = last_tag (broker s)" "broker_ok (broker s')"
    using tags tag s' by (simp_all add: copies_def)
  show "known (broker s') (received s')"
    using inv names s' unfolding sys_inv_def known_def by (simp add: subset_iff)
qed

lemma step_conserves:
  assumes "step s s'" and inv: "sys_inv s"
  shows "(\<exists>fresh. copies s' = copies s + fresh \<and> named s s' fresh) \<and> sys_inv s'"
  using assms(1)
proof (cases rule: step.cases)
  case (declare_exchange e)
  show ?thesis by (rule step_broker [OF inv _ _ _ _ declare_exchange])
      (use inv in \<open>simp_all add: DeclareExchange_def sys_inv_def\<close>)
next
  case (declare_queue q)
  show ?thesis
    by (rule step_broker [OF inv _ _ _ _ declare_queue])
      (use inv in \<open>auto simp: DeclareQueue_def sys_inv_def broker_tags_def broker_ok_def queue_tags_def
         filed_def map_of_eq_None_iff split: option.splits\<close>)
next
  case (bind_queue b)
  show ?thesis
    by (rule step_broker [OF inv _ _ _ _ bind_queue])
      (use inv in \<open>auto simp: Bind_def sys_inv_def split: sum.splits\<close>)
next
  case (publish target message b ps)
  then show ?thesis by (intro step_publish [OF inv publish(2)]) simp
next
  case (publish_fails target message b err)
  then show ?thesis by (intro step_publish [OF inv publish_fails(2)]) simp
next
  case (offered xs name d ps ys b)
  then show ?thesis by (intro step_offered [OF inv offered(2,3)]) simp
next
  case (turned_away xs name d ps ys b err)
  then show ?thesis by (intro step_turned_away [OF inv turned_away(2,3)]) simp
next
  case (take_next name b d)
  then show ?thesis by (intro step_take [OF inv take_next(2)]) simp
next
  case (record_next xs name d ys)
  then show ?thesis by (intro step_record [OF inv record_next(2)]) simp
next
  case (ack name tag)
  show ?thesis
  proof (cases "owed name (broker s) tag")
    case None
    with ack have "s' = s" by (simp add: Ack_def settle_def)
    with inv show ?thesis by (intro moves [OF inv]) (simp_all add: sys_inv_def)
  next
    case (Some d)
    with ack show ?thesis by (intro step_settle [OF inv Some refl]) (simp add: Ack_def settle_def)
  qed
next
  case (discard name tag)
  show ?thesis
  proof (cases "owed name (broker s) tag")
    case None
    with discard have "s' = s" by (simp add: Discard_def settle_def)
    with inv show ?thesis by (intro moves [OF inv]) (simp_all add: sys_inv_def)
  next
    case (Some d)
    with discard show ?thesis by (intro step_settle [OF inv Some refl]) (simp add: Discard_def settle_def)
  qed
next
  case (requeue name tag d)
  then show ?thesis by (intro step_settle [OF inv requeue(2) refl]) (simp add: settle_def)
qed

lemma start_inv: "sys_inv start"
  by (simp add: sys_inv_def start_def copies_def broker_tags_def NewBroker_def broker_ok_def)

lemma reachable_inv: "reachable s \<Longrightarrow> sys_inv s"
  by (induction rule: reachable.induct) (use start_inv step_conserves in blast)+

section \<open>What every run keeps\<close>

text \<open>C5: However producers and consumers interleave, each copy the broker ever named is in exactly one
place: no tag is counted twice among what is on its way, waiting, received, handed out, settled
or refused.\<close>

theorem each_copy_is_in_one_place:
  assumes "reachable s"
  shows "count (copies s) tag \<le> 1"
  using reachable_inv [OF assms] by (simp add: sys_inv_def)

text \<open>One message published to a queue, received and not yet recorded.\<close>

definition example_run :: sys where
  "example_run =
     (let d = copy_for \<lparr>to_Exchange = [], to_Key = ''q''\<rparr>
                \<lparr>m_Body = ''b'', m_ContentType = [], m_Headers = [], m_Durability = Durable\<rparr> 1
      in \<lparr>broker = (DeclareQueue NewBroker \<lparr>q_Name = ''q'', q_Durability = Durable, q_Access = Shared,
                    q_DeadLetter = \<lparr>dl_Exchange = [], dl_Key = []\<rparr>\<rparr>)\<lparr>last_tag := 1\<rparr>,
          transit = [[(''q'', d)]], received = [], refused = []\<rparr>)"

lemma example_run_reachable: "reachable example_run"
proof -
  let ?q = "\<lparr>q_Name = ''q'', q_Durability = Durable, q_Access = Shared,
             q_DeadLetter = \<lparr>dl_Exchange = [], dl_Key = []\<rparr>\<rparr>"
  let ?t = "\<lparr>to_Exchange = [], to_Key = ''q''\<rparr>"
  let ?m = "\<lparr>m_Body = ''b'', m_ContentType = [], m_Headers = [], m_Durability = Durable\<rparr>"
  let ?s = "start\<lparr>broker := DeclareQueue (broker start) ?q\<rparr>"
  have "reachable ?s" by (intro reach_step [OF reach_start] step.declare_queue)
  moreover have "queuesFor ?t ?m (broker ?s) =
      ((DeclareQueue NewBroker ?q)\<lparr>last_tag := 1\<rparr>, Inr [(''q'', copy_for ?t ?m 1)])"
    by (simp add: start_def queuesFor_def routeTargets_def DeclareQueue_def NewBroker_def findQueue_def Let_def)
  from step.publish [OF this] have "step ?s example_run"
    by (simp add: example_run_def start_def Let_def)
  ultimately show ?thesis by (rule reach_step)
qed

theorem each_copy_is_in_one_place_witness: "\<forall>tag. count (copies example_run) tag \<le> 1"
  using each_copy_is_in_one_place [OF example_run_reachable] by blast

section \<open>When a copy is lost\<close>

text \<open>
  What the broker and those at work on it hold of the copies: not those that a full queue turned away,
  which the source keeps nowhere. Copies go only to queues that are declared, and no queue is ever removed.
\<close>

definition held :: "sys \<Rightarrow> nat multiset" where
  "held s = broker_tags (broker s) + \<Sum>\<^sub># (mset (map placed_tags (transit s))) + placed_tags (received s)"

lemma copies_held: "copies s = held s + mset (map Tag (refused s))"
  by (simp add: copies_def held_def)

lemma place_known:
  assumes "place target message names b = (b', Inr ps)"
  shows "known b ps"
  using assms
proof (induction names arbitrary: b ps)
  case (Cons name names)
  then obtain q rest where rest: "findQueue b name = Inr q"
    "place target message names (b\<lparr>last_tag := Suc (last_tag b)\<rparr>) = (b', Inr rest)"
    "ps = (name, copy_for target message (Suc (last_tag b))) # rest"
    by (auto simp: go_results split: sum.splits prod.splits)
  have "known (b\<lparr>last_tag := Suc (last_tag b)\<rparr>) rest" by (rule Cons.IH [OF rest(2)])
  then have "known b rest" by (simp add: known_def)
  moreover have "map_of (queues b) name = Some q" using rest(1) by (auto simp: findQueue_def split: option.splits)
  then have "fst (name, d) \<in> set (map fst (queues b))" for d :: Delivery unfolding known_lookup by simp
  ultimately show ?case by (simp add: rest(3))
qed simp

lemma settle_names: "map fst (queues (fst (settle name tag decide b))) = map fst (queues b)"
  if "\<And>d b. queues (decide d b) = queues b"
  using that by (simp add: settle_def split: option.split del: map_map)

lemma place_names: "place target message names b = (b', r) \<Longrightarrow> queues b' = queues b"
  by (induction names arbitrary: b r) (auto split: sum.splits prod.splits)

lemma queuesFor_names: "queuesFor target message b = (b', r) \<Longrightarrow> queues b' = queues b"
  by (cases "routeTargets b target") (auto simp: queuesFor_def place_names)

lemma queues_remain:
  assumes "step s s'"
  shows "set (map fst (queues (broker s))) \<subseteq> set (map fst (queues (broker s')))"
  using assms
proof (cases rule: step.cases)
  case (bind_queue b)
  then show ?thesis by (auto simp: Bind_def split: sum.splits)
next
  case (publish target message b ps)
  then show ?thesis by (simp add: queuesFor_names)
next
  case (publish_fails target message b err)
  then show ?thesis by (simp add: queuesFor_names)
next
  case (offered xs name d ps ys b)
  then show ?thesis using offer_names [OF offered(3)] by (simp del: map_map)
next
  case (turned_away xs name d ps ys b err)
  then show ?thesis using offer_err [OF turned_away(3)] by simp
next
  case (take_next name b d)
  then show ?thesis using receive_names [OF take_next(2)] by (simp del: map_map)
next
  case (record_next xs name d ys)
  then show ?thesis by (simp add: hand_out_names del: set_map map_map)
next
  case (ack name tag)
  then show ?thesis by (simp add: Ack_def settle_names del: set_map map_map)
next
  case (discard name tag)
  then show ?thesis by (simp add: Discard_def settle_names del: set_map map_map)
next
  case (requeue name tag d)
  then show ?thesis by (simp add: settle_names del: set_map map_map)
qed (auto simp: DeclareExchange_def DeclareQueue_def split: option.splits)

lemma known_mono: "known b ps \<Longrightarrow> set (map fst (queues b)) \<subseteq> set (map fst (queues b')) \<Longrightarrow> known b' ps"
  unfolding known_def by blast

lemma transit_known: "reachable s \<Longrightarrow> \<forall>ps \<in> set (transit s). known (broker s) ps"
proof (induction rule: reachable.induct)
  case reach_start
  show ?case by (simp add: start_def)
next
  case (reach_step s s')
  have kept: "known (broker s') ps" if "ps \<in> set (transit s)" for ps
    using reach_step.IH that known_mono [OF _ queues_remain [OF reach_step.hyps(2)]] by blast
  from reach_step.hyps(2) show ?case
  proof (cases rule: step.cases)
    case (publish target message b ps)
    have same: "queues b = queues (broker s)" and "known (broker s) ps"
      using publish(2) by (auto simp: queuesFor_def dest: place_names place_known split: sum.splits)
    then have "known (broker s') ps" by (simp add: publish(1) known_def)
    with kept show ?thesis by (simp add: publish(1))
  next
    case (offered xs name d ps ys b)
    have "known (broker s') ((name, d) # ps)" by (rule kept) (simp add: offered(2))
    with kept show ?thesis by (auto simp: offered(1,2))
  next
    case (turned_away xs name d ps ys b err)
    with kept show ?thesis by auto
  next
    case (requeue name tag d)
    obtain q where "map_of (queues (broker s)) name = Some q" using requeue(2) by (auto simp: owed_def split: option.splits)
    then have "fst (name, d) \<in> set (map fst (queues (broker s)))" unfolding known_lookup by simp
    then have "known (broker s') [(name, d\<lparr>Redelivered := True\<rparr>)]"
      using queues_remain [OF reach_step.hyps(2)] by (simp add: subset_iff)
    with kept show ?thesis by (simp add: requeue(1))
  qed (use kept in simp_all)
qed

text \<open>The only step that lets go of a copy is an offer to a full queue.\<close>

definition turns_away :: "sys \<Rightarrow> sys \<Rightarrow> placement list \<Rightarrow> bool" where
  "turns_away s s' ps \<longleftrightarrow>
     (\<exists>xs ys q. transit s = xs @ ps # ys \<and> transit s' = xs @ ys \<and> broker s' = broker s \<and> ps \<noteq> [] \<and>
        map_of (queues (broker s)) (fst (hd ps)) = Some q \<and> capacity \<le> length (backlog q))"

lemma refused_grows:
  assumes "reachable s" and "step s s'"
  shows "refused s' = refused s \<or> (\<exists>ps. turns_away s s' ps \<and> refused s' = map snd ps @ refused s)"
  using assms(2)
proof (cases rule: step.cases)
  case (turned_away xs name d ps ys b err)
  have "known (broker s) ((name, d) # ps)" using transit_known [OF assms(1)] turned_away(2) by simp
  then have "fst (name, d) \<in> set (map fst (queues (broker s)))" by simp
  then obtain q where q: "map_of (queues (broker s)) name = Some q" unfolding known_lookup by auto
  have "capacity \<le> length (backlog q)"
    using turned_away(3) q by (cases "length (backlog q) < capacity") (simp_all add: offer_def)
  with q offer_err [OF turned_away(3)] have "turns_away s s' ((name, d) # ps)"
    unfolding turns_away_def by (intro exI [of _ xs] exI [of _ ys] exI [of _ q]) (simp add: turned_away(1,2))
  then show ?thesis by (intro disjI2 exI [of _ "(name, d) # ps"]) (simp add: turned_away(1))
qed simp_all

text \<open>C22: A copy is lost only at a full queue. A step that anyone takes either keeps every copy that is waiting,
on its way, received, handed out or settled, or it is an offer, published or given back, to a queue that
is declared and full, and then what is lost is that copy and those of its publication behind it.\<close>

theorem copies_are_lost_at_full_queues:
  assumes "reachable s" and "step s s'"
  shows "held s \<subseteq># held s' \<or> (\<exists>ps. turns_away s s' ps \<and> held s = held s' + placed_tags ps)"
proof -
  obtain fresh where fresh: "copies s' = copies s + fresh" "named s s' fresh"
    using step_conserves [OF assms(2) reachable_inv [OF assms(1)]] by blast
  from refused_grows [OF assms] show ?thesis
  proof (elim disjE exE conjE)
    assume "refused s' = refused s"
    with fresh(1) have "held s' = held s + fresh" by (simp add: copies_held)
    then show ?thesis by simp
  next
    fix ps assume away: "turns_away s s' ps" "refused s' = map snd ps @ refused s"
    have lost: "held s' + placed_tags ps = held s + fresh"
      using fresh(1) away(2) placed_tags_snd [of ps] by (simp add: copies_held)
    have "broker s' = broker s" using away(1) by (auto simp: turns_away_def)
    then have "fresh = {#}" using fresh(2) by (simp add: named_def)
    with lost away(1) show ?thesis by auto
  qed
qed

theorem copies_are_lost_at_full_queues_witness:
  "\<exists>s'. step example_run s' \<and> transit s' = [[]] \<and> held example_run = {#1#} \<and> held example_run \<subseteq># held s'"
proof -
  let ?d = "copy_for \<lparr>to_Exchange = [], to_Key = ''q''\<rparr>
              \<lparr>m_Body = ''b'', m_ContentType = [], m_Headers = [], m_Durability = Durable\<rparr> 1"
  have queue: "map_of (queues (broker example_run)) ''q'' = Some \<lparr>backlog = [], unsettled = []\<rparr>"
    by (simp add: example_run_def DeclareQueue_def NewBroker_def Let_def)
  then obtain b where "offer ''q'' ?d (broker example_run) = (b, None)" by (simp add: offer_def capacity_def)
  moreover have moving: "transit example_run = [] @ ((''q'', ?d) # []) # []" by (simp add: example_run_def Let_def)
  ultimately have step: "step example_run (example_run\<lparr>broker := b, transit := [] @ [] # []\<rparr>)"
    by (intro step.offered)
  have "\<not> turns_away example_run s' ps" for s' ps
    using queue moving by (auto simp: turns_away_def capacity_def Cons_eq_append_conv)
  with copies_are_lost_at_full_queues [OF example_run_reachable step] step
  have "step example_run (example_run\<lparr>broker := b, transit := [[]]\<rparr>) \<and> held example_run \<subseteq># held (example_run\<lparr>broker := b, transit := [[]]\<rparr>)"
    by simp
  moreover have "held example_run = {#1#}"
    by (simp add: held_def example_run_def Let_def broker_tags_def queue_tags_def DeclareQueue_def NewBroker_def copy_for_def)
  ultimately show ?thesis by (intro exI [of _ "example_run\<lparr>broker := b, transit := [[]]\<rparr>"]) simp
qed

end
