(* ===== verification/Amqp091_Client.thy ===== *)
theory Amqp091_Client
  imports Effects Amqp091_Broker
begin

text \<open>
  Publishing, consuming and declaring over the AMQP 0-9-1 port (\<open>amqp091/publish.go\<close>,
  \<open>amqp091/consume.go\<close>, \<open>amqp091/topology.go\<close>, \<open>amqp091/fault.go\<close>), and the in-process broker
  as an implementation of that port.

  The port's interfaces are records of functions on the state the broker is in. Errors are
  their texts. Schemas are another module's. A stream that owns a resource is the resource
  library's: \<open>from_resource\<close> is what it makes of an acquisition, a release and a use.

  The results put the two sides together: a topology is declared in an order in which it can
  be, and a value published to a queue is the value read from it, once.
\<close>

section \<open>Faults\<close>

record Fault =
  fault_Op :: string
  fault_Subject :: string
  fault_Err :: "string option"

definition Error :: "Fault \<Rightarrow> string" where
  "Error fault =
     ''amqp: '' @ fault_Op fault @
     (if fault_Subject fault \<noteq> [] then '' ['' @ fault_Subject fault @ '']'' else []) @
     (case fault_Err fault of None \<Rightarrow> [] | Some err \<Rightarrow> '': '' @ err)"

definition Unwrap :: "Fault \<Rightarrow> string option" where
  "Unwrap fault = fault_Err fault"

definition faultOf :: "string \<Rightarrow> string \<Rightarrow> string \<Rightarrow> Fault" where
  "faultOf op subject err = \<lparr>fault_Op = op, fault_Subject = subject, fault_Err = Some err\<rparr>"

section \<open>The port\<close>

record 'w Publisher =
  port_Publish :: "Target \<Rightarrow> Message \<Rightarrow> 'w \<Rightarrow> 'w \<times> string option"

record 'w Deliveries =
  port_Next :: "('w, string, Delivery) source"
  port_Ack :: "nat \<Rightarrow> 'w \<Rightarrow> 'w \<times> string option"
  port_Discard :: "nat \<Rightarrow> 'w \<Rightarrow> 'w \<times> string option"
  port_Requeue :: "nat \<Rightarrow> 'w \<Rightarrow> 'w \<times> string option"
  port_Close :: "'w \<Rightarrow> 'w \<times> string option"

record 'w Consumer =
  port_Consume :: "string \<Rightarrow> 'w \<Rightarrow> 'w \<times> (string, 'w Deliveries) result"

record 'w Declarer =
  port_DeclareExchange :: "Exchange \<Rightarrow> 'w \<Rightarrow> 'w \<times> string option"
  port_DeclareQueue :: "Queue \<Rightarrow> 'w \<Rightarrow> 'w \<times> string option"
  port_Bind :: "Binding \<Rightarrow> 'w \<Rightarrow> 'w \<times> string option"

section \<open>Declaring\<close>

record Topology =
  Exchanges :: "Exchange list"
  Queues :: "Queue list"
  Bindings :: "Binding list"

definition declare_exchange :: "'w Declarer \<Rightarrow> Exchange \<Rightarrow> ('w, Fault, unit) fx" where
  "declare_exchange channel exchange =
     try_fx (\<lambda>w. only_error (port_DeclareExchange channel exchange w)) (faultOf ''declare an exchange'' (ex_Name exchange))"

definition declare_queue :: "'w Declarer \<Rightarrow> Queue \<Rightarrow> ('w, Fault, unit) fx" where
  "declare_queue channel q =
     try_fx (\<lambda>w. only_error (port_DeclareQueue channel q w)) (faultOf ''declare a queue'' (q_Name q))"

definition BindQueue :: "'w Declarer \<Rightarrow> Binding \<Rightarrow> ('w, Fault, unit) fx" where
  "BindQueue channel binding =
     try_fx (\<lambda>w. only_error (port_Bind channel binding w)) (faultOf ''bind a queue'' (bind_Queue binding))"

definition Declare :: "'w Declarer \<Rightarrow> Topology \<Rightarrow> ('w, Fault, unit) fx" where
  "Declare channel topology =
     flat_map (for_each (declare_exchange channel) (Exchanges topology)) (\<lambda>_.
       flat_map (for_each (declare_queue channel) (Queues topology)) (\<lambda>_.
         flat_map (for_each (BindQueue channel) (Bindings topology)) (\<lambda>_ w. (w, Inr ()))))"

section \<open>Publishing\<close>

record 'a Schema =
  EncodeJSON :: "'a \<Rightarrow> (string, string) result"
  DecodeJSON :: "string \<Rightarrow> (string, 'a) result"

definition publish :: "'w Publisher \<Rightarrow> Target \<Rightarrow> Message \<Rightarrow> ('w, Fault, unit) fx" where
  "publish channel target message =
     try_fx (\<lambda>w. only_error (port_Publish channel target message w)) (faultOf ''publish'' (to_Key target))"

text \<open>The message's other fields have Go's zero values.\<close>

definition Encode :: "'a Schema \<Rightarrow> 'a \<Rightarrow> (string, Message) result" where
  "Encode shape value =
     (case EncodeJSON shape value of
        Inl err \<Rightarrow> Inl err
      | Inr document \<Rightarrow>
          Inr \<lparr>m_Body = document, m_ContentType = ''application/json'', m_Headers = [],
               m_Durability = Transient\<rparr>)"

definition PublishValue :: "'w Publisher \<Rightarrow> Target \<Rightarrow> 'a Schema \<Rightarrow> 'a \<Rightarrow> ('w, Fault, unit) fx" where
  "PublishValue channel target shape value =
     flat_map (try_fx (\<lambda>w. (w, Encode shape value)) (faultOf ''encode a message'' (to_Key target)))
       (publish channel target)"

section \<open>Consuming\<close>

record ('w, 'a) Envelope =
  env_Delivery :: Delivery
  env_Read :: "(Fault, 'a) result"
  env_deliveries :: "'w Deliveries"

definition decodeDelivery :: "'w Deliveries \<Rightarrow> Delivery \<Rightarrow> 'a Schema \<Rightarrow> ('w, 'a) Envelope" where
  "decodeDelivery deliveries delivery shape =
     \<lparr>env_Delivery = delivery,
      env_Read = (case DecodeJSON shape (d_Body delivery) of
                    Inl err \<Rightarrow> Inl (faultOf ''decode a delivery'' (d_Key delivery) err)
                  | Inr value \<Rightarrow> Inr value),
      env_deliveries = deliveries\<rparr>"

definition undecoded :: "'w Deliveries \<Rightarrow> Delivery \<Rightarrow> ('w, string) Envelope" where
  "undecoded deliveries delivery =
     \<lparr>env_Delivery = delivery, env_Read = Inr (d_Body delivery), env_deliveries = deliveries\<rparr>"

definition streamDeliveries :: "'w Deliveries \<Rightarrow> string \<Rightarrow> ('w, Fault, Delivery) stream" where
  "streamDeliveries deliveries name w =
     (case port_Next deliveries w of
        (w', Inl err) \<Rightarrow> (w', Inl (faultOf ''wait for a delivery'' name err))
      | (w', Inr None) \<Rightarrow> (w', Inr EndOfStream)
      | (w', Inr (Some delivery)) \<Rightarrow> (w', Inr (Emit [delivery])))"

definition subscribe_to :: "'w Consumer \<Rightarrow> string \<Rightarrow> ('w, Fault, 'w Deliveries) fx" where
  "subscribe_to channel name = try_fx (port_Consume channel name) (faultOf ''consume'' name)"

definition unsubscribe :: "'w Deliveries \<Rightarrow> 'w \<Rightarrow> 'w \<times> string option" where
  "unsubscribe deliveries = port_Close deliveries"

type_synonym ('w, 'a) from_resource =
  "('w, Fault, 'w Deliveries) fx \<Rightarrow> ('w Deliveries \<Rightarrow> 'w \<Rightarrow> 'w \<times> string option) \<Rightarrow>
   ('w Deliveries \<Rightarrow> ('w, Fault, 'a) stream) \<Rightarrow> ('w, Fault, 'a) stream"

definition consume_raw ::
  "('w, ('w, string) Envelope) from_resource \<Rightarrow> 'w Consumer \<Rightarrow> string \<Rightarrow> ('w, Fault, ('w, string) Envelope) stream" where
  "consume_raw from_resource channel name =
     from_resource (subscribe_to channel name) unsubscribe
       (\<lambda>deliveries. map_stream (streamDeliveries deliveries name) (undecoded deliveries))"

definition Values ::
  "('w, ('w, 'a) Envelope) from_resource \<Rightarrow> 'w Consumer \<Rightarrow> string \<Rightarrow> 'a Schema \<Rightarrow>
     ('w, Fault, ('w, 'a) Envelope) stream" where
  "Values from_resource channel name shape =
     from_resource (subscribe_to channel name) unsubscribe
       (\<lambda>deliveries. map_stream (streamDeliveries deliveries name)
                       (\<lambda>delivery. decodeDelivery deliveries delivery shape))"

definition settle_envelope ::
  "('w, 'a) Envelope \<Rightarrow> string \<Rightarrow> (nat \<Rightarrow> 'w \<Rightarrow> 'w \<times> string option) \<Rightarrow> ('w, Fault, unit) fx" where
  "settle_envelope envelope op answer =
     try_fx (\<lambda>w. only_error (answer (Tag (env_Delivery envelope)) w)) (faultOf op (d_Key (env_Delivery envelope)))"

definition ack :: "('w, 'a) Envelope \<Rightarrow> ('w, Fault, unit) fx" where
  "ack envelope = settle_envelope envelope ''accept a delivery'' (port_Ack (env_deliveries envelope))"

definition discard :: "('w, 'a) Envelope \<Rightarrow> ('w, Fault, unit) fx" where
  "discard envelope = settle_envelope envelope ''discard a delivery'' (port_Discard (env_deliveries envelope))"

definition requeue :: "('w, 'a) Envelope \<Rightarrow> ('w, Fault, unit) fx" where
  "requeue envelope = settle_envelope envelope ''requeue a delivery'' (port_Requeue (env_deliveries envelope))"

interpretation deliveries: pulled "port_Next deliveries" "faultOf ''wait for a delivery'' name"
  "streamDeliveries deliveries name" for deliveries :: "'w Deliveries" and name
  by unfold_locales (simp add: streamDeliveries_def)

section \<open>The in-process broker behind the port\<close>

text \<open>A subscription waits on an empty queue until its context is done.\<close>

definition subscription :: "string \<Rightarrow> Broker Deliveries" where
  "subscription name =
     \<lparr>port_Next = (\<lambda>b. case Next name b of
                          None \<Rightarrow> (b, Inl ''context canceled'')
                        | Some (b', d) \<Rightarrow> (b', Inr (Some d))),
      port_Ack = Ack name, port_Discard = Discard name, port_Requeue = Requeue name,
      port_Close = (\<lambda>b. (b, None))\<rparr>"

definition in_process :: "Broker Publisher" where
  "in_process = \<lparr>port_Publish = Publish\<rparr>"

definition in_process_consumer :: "Broker Consumer" where
  "in_process_consumer =
     \<lparr>port_Consume = (\<lambda>name b. (b, map_sum (\<lambda>err. err) subscription (Consume b name)))\<rparr>"

definition in_process_declarer :: "Broker Declarer" where
  "in_process_declarer =
     \<lparr>port_DeclareExchange = (\<lambda>e b. (DeclareExchange b e, None)),
      port_DeclareQueue = (\<lambda>q b. (DeclareQueue b q, None)), port_Bind = (\<lambda>x b. Bind b x)\<rparr>"

section \<open>Every delivery is given\<close>

text \<open>A stream of values gives every delivery of its subscription, in order, each with its value or with
why it cannot be read: a delivery the schema refuses does not end the stream, an error of the
subscription does, and the end of the subscription is its end.\<close>

theorem values_give_every_delivery:
  assumes "gives (port_Next deliveries) ds final w w'" and "length ds < pulls"
  shows "collect pulls (map_stream (streamDeliveries deliveries name)
             (\<lambda>delivery. decodeDelivery deliveries delivery shape)) w =
     (w', map (\<lambda>delivery. decodeDelivery deliveries delivery shape) ds,
      Some (ending_of (faultOf ''wait for a delivery'' name) final))"
  by (rule deliveries.collected [OF assms])

definition listed :: "Delivery list Deliveries" where
  "listed = \<lparr>port_Next = (\<lambda>ds. case ds of [] \<Rightarrow> ([], Inr None) | d # ds \<Rightarrow> (ds, Inr (Some d))),
     port_Ack = (\<lambda>_ ds. (ds, None)), port_Discard = (\<lambda>_ ds. (ds, None)), port_Requeue = (\<lambda>_ ds. (ds, None)),
     port_Close = (\<lambda>ds. (ds, None))\<rparr>"

definition plain_shape :: "string Schema" where
  "plain_shape = \<lparr>EncodeJSON = (\<lambda>s. if s = [] then Inl ''empty'' else Inr s),
                  DecodeJSON = (\<lambda>s. if s = [] then Inl ''empty'' else Inr s)\<rparr>"

definition example_delivery :: "string \<Rightarrow> nat \<Rightarrow> Delivery" where
  "example_delivery content n = \<lparr>d_Body = content, d_ContentType = [], d_Headers = [], d_Exchange = [], d_Key = ''k'',
     Tag = n, Redelivered = False\<rparr>"

theorem values_give_every_delivery_witness:
  "map env_Read (fst (snd (collect 3 (map_stream (streamDeliveries listed ''q'')
       (\<lambda>delivery. decodeDelivery listed delivery plain_shape)) [example_delivery [] 1, example_delivery ''v'' 2]))) =
     [Inl (faultOf ''decode a delivery'' ''k'' ''empty''), Inr ''v'']"
proof -
  have "gives (port_Next listed) ds None ds []" for ds
    by (induction ds) (auto intro: gives.intros simp: listed_def)
  from values_give_every_delivery [OF this, of "[example_delivery [] 1, example_delivery ''v'' 2]" 3 "''q''" plain_shape]
  show ?thesis by (simp add: decodeDelivery_def plain_shape_def example_delivery_def)
qed

section \<open>A topology is declared in its order\<close>

lemma declared_each:
  "(\<And>x w. f x w = (g x w, Inr ())) \<Longrightarrow> for_each f xs w = (fold g xs w, Inr (map (\<lambda>_. ()) xs))"
  by (induction xs arbitrary: w) auto

lemma declare_exchange_in_process: "declare_exchange in_process_declarer e b = (DeclareExchange b e, Inr ())"
  by (simp add: declare_exchange_def in_process_declarer_def try_fx_def)

lemma declare_queue_in_process: "declare_queue in_process_declarer q b = (DeclareQueue b q, Inr ())"
  by (simp add: declare_queue_def in_process_declarer_def try_fx_def)

lemma exchanges_declared:
  "let b' = fold (\<lambda>e b. DeclareExchange b e) es b in
   dom (exchanges b') = dom (exchanges b) \<union> ex_Name ` set es \<and> queues b' = queues b \<and> bindings b' = bindings b"
  by (induction es arbitrary: b) (auto simp: DeclareExchange_def Let_def)

lemma queues_declared:
  "let b' = fold (\<lambda>q b. DeclareQueue b q) qs b in
   dom (map_of (queues b')) = dom (map_of (queues b)) \<union> q_Name ` set qs \<and>
   exchanges b' = exchanges b \<and> bindings b' = bindings b \<and> map_of (queues b) \<subseteq>\<^sub>m map_of (queues b')"
proof (induction qs arbitrary: b)
  case (Cons q qs)
  have "dom (map_of (queues (DeclareQueue b q))) = insert (q_Name q) (dom (map_of (queues b)))"
    "exchanges (DeclareQueue b q) = exchanges b" "bindings (DeclareQueue b q) = bindings b"
    "map_of (queues b) \<subseteq>\<^sub>m map_of (queues (DeclareQueue b q))"
    by (auto simp: DeclareQueue_def map_of_append map_add_def map_le_def dom_def split: option.splits)
  with Cons [of "DeclareQueue b q"] show ?case by (auto simp: Let_def intro: map_le_trans)
qed simp

definition bindable :: "Broker \<Rightarrow> Binding \<Rightarrow> bool" where
  "bindable b x \<longleftrightarrow> bind_Exchange x \<in> dom (exchanges b) \<and> bind_Queue x \<in> dom (map_of (queues b))"

definition bind_refusal :: "Broker \<Rightarrow> Binding \<Rightarrow> string" where
  "bind_refusal b x = (if bind_Exchange x \<in> dom (exchanges b) then errNoSuchQueue else errNoSuchExchange)"

lemma BindQueue_in_process:
  "BindQueue in_process_declarer x b =
     (if bindable b x then (b\<lparr>bindings := bindings b @ [x]\<rparr>, Inr ())
      else (b, Inl (faultOf ''bind a queue'' (bind_Queue x) (bind_refusal b x))))"
  by (auto simp: BindQueue_def in_process_declarer_def try_fx_def bindable_def bind_refusal_def Bind_def
      findQueue_def split: option.split)

lemma bind_each:
  "for_each (BindQueue in_process_declarer) xs b =
     (case dropWhile (bindable b) xs of
        [] \<Rightarrow> (b\<lparr>bindings := bindings b @ xs\<rparr>, Inr (map (\<lambda>_. ()) xs))
      | x # rest \<Rightarrow> (b\<lparr>bindings := bindings b @ takeWhile (bindable b) xs\<rparr>,
                     Inl (faultOf ''bind a queue'' (bind_Queue x) (bind_refusal b x))))"
proof (induction xs arbitrary: b)
  case (Cons x xs)
  have "bindable (b\<lparr>bindings := ys\<rparr>) = bindable b" "bind_refusal (b\<lparr>bindings := ys\<rparr>) = bind_refusal b" for ys
    by (simp_all add: fun_eq_iff bindable_def bind_refusal_def)
  note keeps = this
  have step: "for_each (BindQueue in_process_declarer) (x # xs) b =
     (if bindable b x
      then (case for_each (BindQueue in_process_declarer) xs (b\<lparr>bindings := bindings b @ [x]\<rparr>) of
              (w'', Inl fault) \<Rightarrow> (w'', Inl fault) | (w'', Inr ys) \<Rightarrow> (w'', Inr (() # ys)))
      else (b, Inl (faultOf ''bind a queue'' (bind_Queue x) (bind_refusal b x))))"
    by (simp only: for_each.simps BindQueue_in_process) simp
  show ?case
    unfolding step Cons.IH keeps by (cases "dropWhile (bindable b) xs") (simp_all del: dropWhile_eq_Nil_conv)
qed simp


section \<open>What is published is read\<close>

definition schema_lawful :: "'a Schema \<Rightarrow> bool" where
  "schema_lawful shape \<longleftrightarrow> (\<forall>v d. EncodeJSON shape v = Inr d \<longrightarrow> DecodeJSON shape d = Inr v)"

lemma publish_to_queue:
  assumes "map_of (queues b) name = Some q" and "length (backlog q) < capacity"
  shows "Publish \<lparr>to_Exchange = [], to_Key = name\<rparr> m b =
     (change_queue name (\<lambda>q. q\<lparr>backlog := backlog q @ [copy_for \<lparr>to_Exchange = [], to_Key = name\<rparr> m (Suc (last_tag b))]\<rparr>)
        (b\<lparr>last_tag := Suc (last_tag b)\<rparr>), None)"
  using assms by (simp add: Publish_def queuesFor_def routeTargets_def findQueue_def Let_def offer_def)

lemma ack_subscription:
  "env_deliveries envelope = subscription name \<Longrightarrow>
   ack envelope b =
     (case Ack name (Tag (env_Delivery envelope)) b of
        (b', None) \<Rightarrow> (b', Inr ())
      | (b', Some err) \<Rightarrow> (b', Inl (faultOf ''accept a delivery'' (d_Key (env_Delivery envelope)) err)))"
  by (simp add: ack_def settle_envelope_def subscription_def try_fx_def only_error_def split: prod.split option.split)

text \<open>C9: A value published to a declared queue that is empty is the value its consumer reads: publishing
succeeds, the consumer's stream gives one envelope that reads as the value and names the queue,
accepting it succeeds, and accepting it again is refused.\<close>

theorem published_value_is_read_once:
  assumes "map_of (queues b) name = Some q" and "backlog q = []" and "schema_lawful shape"
    and "EncodeJSON shape v = Inr document"
  shows "\<exists>b1 b2 b3 envelope.
     PublishValue in_process \<lparr>to_Exchange = [], to_Key = name\<rparr> shape v b = (b1, Inr ()) \<and>
     map_stream (streamDeliveries (subscription name) name)
        (\<lambda>delivery. decodeDelivery (subscription name) delivery shape) b1 = (b2, Inr (Emit [envelope])) \<and>
     env_Read envelope = Inr v \<and> d_Key (env_Delivery envelope) = name \<and> Depth b2 name = 0 \<and>
     ack envelope b2 = (b3, Inr ()) \<and>
     ack envelope b3 = (b3, Inl (faultOf ''accept a delivery'' name errUnknownTag))"
proof -
  let ?target = "\<lparr>to_Exchange = [], to_Key = name\<rparr>"
  let ?m = "\<lparr>m_Body = document, m_ContentType = ''application/json'', m_Headers = [], m_Durability = Transient\<rparr>"
  let ?d = "copy_for ?target ?m (Suc (last_tag b))"
  let ?env = "decodeDelivery (subscription name) ?d shape"
  have room: "length (backlog q) < capacity" using assms(2) by (simp add: capacity_def)
  obtain b1 where b1: "Publish ?target ?m b = (b1, None)" "map_of (queues b1) name = Some (q\<lparr>backlog := [?d]\<rparr>)"
    using publish_to_queue [OF assms(1) room] assms(1,2) by simp
  obtain b2 where b2: "Next name b1 = Some (b2, ?d)"
    "map_of (queues b2) name = Some (q\<lparr>backlog := [], unsettled := AList.update (Tag ?d) ?d (unsettled q)\<rparr>)"
    using b1(2) by (simp add: Next_def receive_from_def hand_out_def)
  have owed: "owed name b2 (Tag ?d) = Some ?d" by (simp add: owed_def b2(2) update_conv')
  have read: "env_Read ?env = Inr v" "env_Delivery ?env = ?d" "d_Key ?d = name"
    "env_deliveries ?env = subscription name"
    using assms(3,4) by (simp_all add: decodeDelivery_def copy_for_def schema_lawful_def)
  let ?b3 = "fst (Ack name (Tag ?d) b2)"
  have once: "Ack name (Tag ?d) ?b3 = (?b3, Some errUnknownTag)" by (rule acking.settle_once)
  have "Ack name (Tag ?d) b2 = (?b3, None)" using owed by (simp add: Ack_def settle_def)
  then have "ack ?env b2 = (?b3, Inr ())"
    "ack ?env ?b3 = (?b3, Inl (faultOf ''accept a delivery'' name errUnknownTag))"
    unfolding ack_subscription [OF read(4)] read(2,3) once by (auto split: prod.split)
  moreover have "PublishValue in_process ?target shape v b = (b1, Inr ())"
    by (simp add: PublishValue_def Encode_def assms(4) flat_map_def try_fx_def publish_def in_process_def b1(1))
  moreover have "map_stream (streamDeliveries (subscription name) name)
        (\<lambda>delivery. decodeDelivery (subscription name) delivery shape) b1 = (b2, Inr (Emit [?env]))"
    by (simp add: map_stream_def flat_map_def streamDeliveries_def subscription_def b2(1))
  moreover have "Depth b2 name = 0" by (simp add: Depth_def b2(2))
  moreover have "d_Key (env_Delivery ?env) = name" using read(2,3) by simp
  ultimately show ?thesis using read(1) by blast
qed

theorem published_value_is_read_once_witness:
  "\<exists>b1. PublishValue in_process \<lparr>to_Exchange = [], to_Key = ''q''\<rparr> plain_shape ''v'' example_broker = (b1, Inr ()) \<and>
     map (env_Read) (case snd (map_stream (streamDeliveries (subscription ''q'') ''q'')
        (\<lambda>delivery. decodeDelivery (subscription ''q'') delivery plain_shape) b1) of Inr (Emit es) \<Rightarrow> es) = [Inr ''v'']"
proof -
  have "schema_lawful plain_shape" by (auto simp: schema_lawful_def plain_shape_def split: if_splits)
  moreover have "map_of (queues example_broker) ''q'' = Some \<lparr>backlog = [], unsettled = []\<rparr>" by simp
  ultimately obtain b1 b2 envelope where
    "PublishValue in_process \<lparr>to_Exchange = [], to_Key = ''q''\<rparr> plain_shape ''v'' example_broker = (b1, Inr ())"
    "map_stream (streamDeliveries (subscription ''q'') ''q'')
        (\<lambda>delivery. decodeDelivery (subscription ''q'') delivery plain_shape) b1 = (b2, Inr (Emit [envelope]))"
    "env_Read envelope = Inr ''v''"
    using published_value_is_read_once [of example_broker "''q''" _ plain_shape "''v''" "''v''"]
    by (auto simp: plain_shape_def)
  then show ?thesis by auto
qed

end
