(* ===== verification/Amqp091_Fields.thy ===== *)
theory Amqp091_Fields
  imports Amqp_Values
begin

text \<open>
  The field tables of AMQP 0-9-1 (\<open>amqp091/field_values.go\<close>): writing an object as a header
  table and reading a table back.

  A value of type \<open>any\<close> is one of the Go types the source's type switch names, or of another
  type, of which only the name is used. The integers keep their widths and are widened by
  sign, as Go's conversion does; widening a \<open>float32\<close> and quoting are parameters.
\<close>

section \<open>Fields\<close>

typedecl float32

datatype field =
    FNil
  | FBool bool
  | FInt8 "8 word"
  | FInt16 "16 word"
  | FInt32 "32 word"
  | FInt64 "64 word"
  | FInt "64 word"
  | FFloat32 float32
  | FFloat64 float64
  | FString string
  | FBytes string
  | FTime timestamp
  | FTable "(string \<times> field) list"
  | FMap "(string \<times> field) list"
  | FSlice "field list"
  | FOther string

record field_library =
  quote :: "string \<Rightarrow> string"
  widen :: "float32 \<Rightarrow> float64"

section \<open>Writing\<close>

primrec fieldOf :: "dynamic \<Rightarrow> field" where
  "fieldOf Absent = FNil"
| "fieldOf (Boolean b) = FBool b"
| "fieldOf (Integer i) = FInt64 i"
| "fieldOf (Number x) = FFloat64 x"
| "fieldOf (Text t) = FString t"
| "fieldOf (Bytes b) = FBytes b"
| "fieldOf (Timestamp t) = FTime t"
| "fieldOf (Object fs) = FTable (assign_all (map (map_prod (\<lambda>n. n) fieldOf) fs))"
| "fieldOf (List vs) = FSlice (map fieldOf vs)"

definition Table :: "(string \<times> dynamic) list \<Rightarrow> (string \<times> field) list" where
  "Table fs = assign_all (on_values fieldOf fs)"

section \<open>Reading\<close>

definition header_label :: "field_library \<Rightarrow> string \<Rightarrow> string" where
  "header_label lib name = ''header '' @ quote lib name"

primrec fieldValue :: "field_library \<Rightarrow> field \<Rightarrow> (string, dynamic) result" where
  "fieldValue lib FNil = Inr Absent"
| "fieldValue lib (FBool b) = Inr (Boolean b)"
| "fieldValue lib (FInt8 i) = Inr (Integer (scast i))"
| "fieldValue lib (FInt16 i) = Inr (Integer (scast i))"
| "fieldValue lib (FInt32 i) = Inr (Integer (scast i))"
| "fieldValue lib (FInt64 i) = Inr (Integer i)"
| "fieldValue lib (FInt i) = Inr (Integer i)"
| "fieldValue lib (FFloat32 x) = Inr (Number (widen lib x))"
| "fieldValue lib (FFloat64 x) = Inr (Number x)"
| "fieldValue lib (FString t) = Inr (Text t)"
| "fieldValue lib (FBytes b) = Inr (Bytes b)"
| "fieldValue lib (FTime t) = Inr (Timestamp t)"
| "fieldValue lib (FTable t) =
     bind_result (read_members (header_label lib) (by_name (map (map_prod (\<lambda>n. n) (fieldValue lib)) t)))
       (\<lambda>vs. Inr (Object vs))"
| "fieldValue lib (FMap t) =
     bind_result (read_members (header_label lib) (by_name (map (map_prod (\<lambda>n. n) (fieldValue lib)) t)))
       (\<lambda>vs. Inr (Object vs))"
| "fieldValue lib (FSlice vs) =
     bind_result (read_elements 0 (map (fieldValue lib) vs)) (\<lambda>vs. Inr (List vs))"
| "fieldValue lib (FOther kind_name) =
     Inl (''a broker sent '' @ kind_name @ '', which is not a value a header may hold'')"

definition Headers :: "field_library \<Rightarrow> (string \<times> field) list \<Rightarrow> (string, dynamic) result" where
  "Headers lib raw =
     bind_result (read_members (header_label lib) (by_name (on_values (fieldValue lib) raw)))
       (\<lambda>vs. Inr (Object vs))"

section \<open>The boundary\<close>

text \<open>A Go map has each key once, at every level.\<close>

primrec field_sound :: "field \<Rightarrow> bool" where
  "field_sound FNil = True"
| "field_sound (FBool b) = True"
| "field_sound (FInt8 i) = True"
| "field_sound (FInt16 i) = True"
| "field_sound (FInt32 i) = True"
| "field_sound (FInt64 i) = True"
| "field_sound (FInt i) = True"
| "field_sound (FFloat32 x) = True"
| "field_sound (FFloat64 x) = True"
| "field_sound (FString t) = True"
| "field_sound (FBytes b) = True"
| "field_sound (FTime t) = True"
| "field_sound (FTable t) =
     (distinct (map fst t) \<and> list_all (\<lambda>p. snd p) (map (map_prod (\<lambda>n. n) field_sound) t))"
| "field_sound (FMap t) =
     (distinct (map fst t) \<and> list_all (\<lambda>p. snd p) (map (map_prod (\<lambda>n. n) field_sound) t))"
| "field_sound (FSlice vs) = list_all (\<lambda>b. b) (map field_sound vs)"
| "field_sound (FOther kind_name) = True"

lemma fieldValue_fieldOf: "fieldValue lib (fieldOf v) = Inr (norm v)"
proof (induction v)
  case (Object fs)
  have "on_values (fieldValue lib) (assign_all (on_values fieldOf fs)) =
      assign_all (on_values (\<lambda>v. fieldValue lib (fieldOf v)) fs)"
    by (rule on_values_assigned)
  also have "on_values (\<lambda>v. fieldValue lib (fieldOf v)) fs = on_values Inr (on_values norm fs)"
    using Object by (auto simp: map_prod_def snds.simps split: prod.splits)
  finally show ?case by (simp only: fieldOf.simps fieldValue.simps norm.simps members_read bind_result.simps)
next
  case (List vs)
  then have "read_elements 0 (map (fieldValue lib) (map fieldOf vs)) = Inr (map norm vs)"
    unfolding read_elements_Inr by simp
  then show ?case by (simp only: fieldOf.simps fieldValue.simps norm.simps bind_result.simps)
qed simp_all

lemma fieldValue_normal: "field_sound f \<Longrightarrow> fieldValue lib f = Inr v \<Longrightarrow> norm v = v"
proof (induction f arbitrary: v)
  case (FTable t)
  then obtain vs where "read_members (header_label lib) (by_name (on_values (fieldValue lib) t)) = Inr vs"
    "v = Object vs" by (auto simp: go_results)
  with FTable members_normal [of t "fieldValue lib" "header_label lib" vs] show ?case
    by (fastforce simp: list_all_iff snds.simps)
next
  case (FMap t)
  then obtain vs where "read_members (header_label lib) (by_name (on_values (fieldValue lib) t)) = Inr vs"
    "v = Object vs" by (auto simp: go_results)
  with FMap members_normal [of t "fieldValue lib" "header_label lib" vs] show ?case
    by (fastforce simp: list_all_iff snds.simps)
next
  case (FSlice fs)
  then obtain vs where "read_elements 0 (map (fieldValue lib) fs) = Inr vs" "v = List vs"
    by (auto simp: go_results)
  with FSlice elements_normal [of fs "fieldValue lib" 0 vs] show ?case
    by (fastforce simp: list_all_iff)
qed auto

lemma fieldOf_sound: "field_sound (fieldOf v)"
proof (induction v)
  case (Object fs)
  then have "list_all snd (on_values field_sound (assign_all (on_values fieldOf fs)))"
    by (intro assigned_all) auto
  then show ?case by (simp add: assign_all_distinct)
next
  case (List vs)
  then show ?case by (simp add: list_all_iff)
qed simp_all

interpretation field_table: value_boundary fieldOf "fieldValue lib" field_sound for lib
  by unfold_locales (auto simp: fieldValue_fieldOf fieldOf_sound intro: fieldValue_normal)

lemma Headers_Table: "Headers lib (Table fs) = Inr (norm (Object fs))"
  using fieldValue_fieldOf [of lib "Object fs"] by (simp add: Headers_def Table_def)

section \<open>What headers promise\<close>

text \<open>C32: An object written as a header table is read back as its normal form: every value as it was,
each name once with its last value, in the order of the names.\<close>

theorem headers_roundtrip: "Headers lib (Table fs) = Inr (norm (Object fs))"
  by (rule Headers_Table)

text \<open>Headers read from a broker and written again arrive as they were received.\<close>

theorem forwarded_headers_arrive:
  assumes "field_sound raw" and "fieldValue lib raw = Inr v"
  shows "fieldValue lib (fieldOf v) = Inr v"
  by (rule field_table.forwarded [OF assms])

theorem forwarded_headers_arrive_witness:
  "let lib = \<lparr>quote = (\<lambda>s. s), widen = undefined\<rparr>;
       raw = FTable [(''b'', FInt8 (- 1)), (''a'', FSlice [FString ''x'', FNil])];
       v = Object [(''a'', List [Text ''x'', Absent]), (''b'', Integer (- 1))]
   in fieldValue lib raw = Inr v \<and> fieldValue lib (fieldOf v) = Inr v"
proof -
  let ?lib = "\<lparr>quote = (\<lambda>s. s), widen = undefined\<rparr> :: field_library"
  let ?raw = "FTable [(''b'', FInt8 (- 1)), (''a'', FSlice [FString ''x'', FNil])]"
  let ?v = "Object [(''a'', List [Text ''x'', Absent]), (''b'', Integer (- 1))]"
  have "fieldValue ?lib ?raw = Inr ?v"
    by (simp add: by_name_def less_eq_char_def less_char_def)
  with forwarded_headers_arrive [OF _ this] show ?thesis by (simp add: Let_def)
qed

end
