(* ===== verification/Amqp091_Adapter.thy ===== *)
theory Amqp091_Adapter
  imports Amqp091_Client Amqp091_Fields "HOL-Library.Word"
begin

text \<open>
  The adapter of the AMQP 0-9-1 port to the broker library (\<open>amqp091/channel.go\<close>,
  \<open>amqp091/deliveries.go\<close>, \<open>amqp091/connect.go\<close>).

  The library's channel is a record of its functions on the broker's state; where a flag of
  it is always false in the source, the function here takes it as the source passes it. A
  delivery channel that is closed gives no delivery. The consumers of a process are counted
  by \<open>consumers\<close>, Go's \<open>uint64\<close>, which is part of the state here. \<open>ErrClosed\<close> is the library's
  error for what is closed already.
\<close>

section \<open>The library\<close>

record Publishing =
  pub_Headers :: "(string \<times> field) list"
  pub_ContentType :: string
  DeliveryMode :: "8 word"
  pub_Body :: string

record raw_delivery =
  raw_Headers :: "(string \<times> field) list"
  raw_Body :: string
  raw_ContentType :: string
  raw_Exchange :: string
  RoutingKey :: string
  DeliveryTag :: nat
  raw_Redelivered :: bool

text \<open>What a wait on the library's delivery channel comes to: a delivery, its closing, or the context's end.\<close>

datatype received = Arrived raw_delivery | ChannelClosed | ContextDone string

record 'w library_channel =
  PublishWithContext :: "string \<Rightarrow> string \<Rightarrow> bool \<Rightarrow> bool \<Rightarrow> Publishing \<Rightarrow> 'w \<Rightarrow> 'w \<times> string option"
  ConsumeWithContext ::
    "string \<Rightarrow> string \<Rightarrow> bool \<Rightarrow> bool \<Rightarrow> bool \<Rightarrow> bool \<Rightarrow> 'w \<Rightarrow> 'w \<times> (string, 'w \<Rightarrow> 'w \<times> received) result"
  ExchangeDeclare :: "string \<Rightarrow> string \<Rightarrow> bool \<Rightarrow> bool \<Rightarrow> bool \<Rightarrow> bool \<Rightarrow> 'w \<Rightarrow> 'w \<times> string option"
  QueueDeclare ::
    "string \<Rightarrow> bool \<Rightarrow> bool \<Rightarrow> bool \<Rightarrow> bool \<Rightarrow> (string \<times> field) list option \<Rightarrow> 'w \<Rightarrow> 'w \<times> string option"
  QueueBind :: "string \<Rightarrow> string \<Rightarrow> string \<Rightarrow> bool \<Rightarrow> 'w \<Rightarrow> 'w \<times> string option"
  Qos :: "int \<Rightarrow> int \<Rightarrow> bool \<Rightarrow> 'w \<Rightarrow> 'w \<times> string option"
  library_Ack :: "nat \<Rightarrow> bool \<Rightarrow> 'w \<Rightarrow> 'w \<times> string option"
  library_Reject :: "nat \<Rightarrow> bool \<Rightarrow> 'w \<Rightarrow> 'w \<times> string option"
  Cancel :: "string \<Rightarrow> bool \<Rightarrow> 'w \<Rightarrow> 'w \<times> string option"
  library_Close :: "'w \<Rightarrow> 'w \<times> string option"

definition Persistent :: "8 word" where "Persistent = 2"
definition library_Transient :: "8 word" where "library_Transient = 1"

section \<open>The channel\<close>

definition deliveryMode :: "Durability \<Rightarrow> 8 word" where
  "deliveryMode durability = (if durability = Durable then Persistent else library_Transient)"

definition kindName :: "ExchangeKind \<Rightarrow> string" where
  "kindName routing =
     (case routing of Topic \<Rightarrow> ''topic'' | Fanout \<Rightarrow> ''fanout'' | ByHeader \<Rightarrow> ''headers'' | Direct \<Rightarrow> ''direct'')"

definition deadLetterArguments :: "DeadLetter \<Rightarrow> (string \<times> field) list option" where
  "deadLetterArguments letter =
     (if \<not> DeadLetter_IsStated letter then None
      else Some ((''x-dead-letter-exchange'', FString (dl_Exchange letter)) #
                 (if dl_Key letter \<noteq> [] then [(''x-dead-letter-routing-key'', FString (dl_Key letter))] else [])))"

definition publishing :: "Message \<Rightarrow> Publishing" where
  "publishing message =
     \<lparr>pub_Headers = Table (m_Headers message), pub_ContentType = m_ContentType message,
      DeliveryMode = deliveryMode (m_Durability message), pub_Body = m_Body message\<rparr>"

definition channel_Publish :: "'w library_channel \<Rightarrow> Target \<Rightarrow> Message \<Rightarrow> 'w \<Rightarrow> 'w \<times> string option" where
  "channel_Publish channel target message =
     PublishWithContext channel (to_Exchange target) (to_Key target) False False (publishing message)"

definition channel_DeclareExchange :: "'w library_channel \<Rightarrow> Exchange \<Rightarrow> 'w \<Rightarrow> 'w \<times> string option" where
  "channel_DeclareExchange channel exchange =
     ExchangeDeclare channel (ex_Name exchange) (kindName (Kind exchange))
       (ex_Durability exchange = Durable) False False False"

definition channel_DeclareQueue :: "'w library_channel \<Rightarrow> Queue \<Rightarrow> 'w \<Rightarrow> 'w \<times> string option" where
  "channel_DeclareQueue channel q =
     QueueDeclare channel (q_Name q) (q_Durability q = Durable) False (q_Access q = Exclusive) False
       (deadLetterArguments (q_DeadLetter q))"

definition channel_Bind :: "'w library_channel \<Rightarrow> Binding \<Rightarrow> 'w \<Rightarrow> 'w \<times> string option" where
  "channel_Bind channel binding =
     QueueBind channel (bind_Queue binding) (bind_Key binding) (bind_Exchange binding) False"

section \<open>A subscription\<close>

text \<open>Reading headers gives an object; its members are the delivery's headers.\<close>

definition members_of :: "dynamic \<Rightarrow> (string \<times> dynamic) list" where
  "members_of v = (case v of Object fs \<Rightarrow> fs | _ \<Rightarrow> [])"

definition deliveryOf :: "field_library \<Rightarrow> raw_delivery \<Rightarrow> (string, Delivery) result" where
  "deliveryOf lib raw =
     bind_result (Headers lib (raw_Headers raw)) (\<lambda>headers.
       Inr \<lparr>d_Body = raw_Body raw, d_ContentType = raw_ContentType raw, d_Headers = members_of headers,
            d_Exchange = raw_Exchange raw, d_Key = RoutingKey raw, Tag = DeliveryTag raw,
            Redelivered = raw_Redelivered raw\<rparr>)"

definition subscription_Next :: "field_library \<Rightarrow> ('w \<Rightarrow> 'w \<times> received) \<Rightarrow> ('w, string, Delivery) source" where
  "subscription_Next lib wait w =
     (case wait w of
        (w', Arrived raw) \<Rightarrow>
          (w', case deliveryOf lib raw of Inl err \<Rightarrow> Inl err | Inr delivery \<Rightarrow> Inr (Some delivery))
      | (w', ChannelClosed) \<Rightarrow> (w', Inr None)
      | (w', ContextDone err) \<Rightarrow> (w', Inl err))"

definition ignoreClosed :: "string \<Rightarrow> string option \<Rightarrow> string option" where
  "ignoreClosed ErrClosed err = (if err = None \<or> err = Some ErrClosed then None else err)"

definition library_subscription ::
  "field_library \<Rightarrow> string \<Rightarrow> 'w library_channel \<Rightarrow> ('w \<Rightarrow> 'w \<times> received) \<Rightarrow> string \<Rightarrow> 'w Deliveries" where
  "library_subscription lib ErrClosed channel wait tag =
     \<lparr>port_Next = subscription_Next lib wait,
      port_Ack = (\<lambda>t. library_Ack channel t False),
      port_Discard = (\<lambda>t. library_Reject channel t False),
      port_Requeue = (\<lambda>t. library_Reject channel t True),
      port_Close = (\<lambda>w. map_prod (\<lambda>w. w) (ignoreClosed ErrClosed) (Cancel channel tag False w))\<rparr>"

definition consumer_tag :: "string \<Rightarrow> 64 word \<Rightarrow> string" where
  "consumer_tag name n = name @ ''-'' @ digits (unat n)"

text \<open>The counter is advanced first, so it counts a consumer that the broker then refuses.\<close>

definition channel_Consume ::
  "field_library \<Rightarrow> string \<Rightarrow> 'w library_channel \<Rightarrow> string \<Rightarrow> 64 word \<times> 'w \<Rightarrow>
     (64 word \<times> 'w) \<times> (string, 'w Deliveries) result" where
  "channel_Consume lib ErrClosed channel name st =
     (let consumers = fst st + 1;
          tag = consumer_tag name consumers
      in case ConsumeWithContext channel name tag False False False False (snd st) of
           (w', Inl err) \<Rightarrow> ((consumers, w'), Inl err)
         | (w', Inr wait) \<Rightarrow> ((consumers, w'), Inr (library_subscription lib ErrClosed channel wait tag)))"

definition library_publisher :: "'w library_channel \<Rightarrow> 'w Publisher" where
  "library_publisher channel = \<lparr>port_Publish = channel_Publish channel\<rparr>"

definition library_declarer :: "'w library_channel \<Rightarrow> 'w Declarer" where
  "library_declarer channel =
     \<lparr>port_DeclareExchange = channel_DeclareExchange channel, port_DeclareQueue = channel_DeclareQueue channel,
      port_Bind = channel_Bind channel\<rparr>"

section \<open>The lifetime\<close>

text \<open>A connection and a channel are acquired in a scope, which closes them.\<close>

type_synonym ('w, 'x) acquire_release =
  "('w, Fault, 'x) fx \<Rightarrow> ('x \<Rightarrow> 'w \<Rightarrow> 'w \<times> string option) \<Rightarrow> ('w, Fault, 'x) fx"

record 'w library_connection =
  open_channel :: "'w \<Rightarrow> 'w \<times> (string, 'w library_channel) result"
  close_connection :: "'w \<Rightarrow> 'w \<times> string option"

definition disconnect :: "string \<Rightarrow> 'w library_connection \<Rightarrow> 'w \<Rightarrow> 'w \<times> string option" where
  "disconnect ErrClosed connection w = map_prod (\<lambda>w. w) (ignoreClosed ErrClosed) (close_connection connection w)"

definition closeChannel :: "string \<Rightarrow> 'w library_channel \<Rightarrow> 'w \<Rightarrow> 'w \<times> string option" where
  "closeChannel ErrClosed channel w = map_prod (\<lambda>w. w) (ignoreClosed ErrClosed) (library_Close channel w)"

definition Connect ::
  "('w, 'w library_connection) acquire_release \<Rightarrow> (string \<Rightarrow> 'w \<Rightarrow> 'w \<times> (string, 'w library_connection) result) \<Rightarrow>
     string \<Rightarrow> string \<Rightarrow> ('w, Fault, 'w library_connection) fx" where
  "Connect AcquireRelease dial ErrClosed address =
     AcquireRelease (try_fx (dial address) (faultOf ''connect'' [])) (disconnect ErrClosed)"

definition open_in ::
  "('w, 'w library_channel) acquire_release \<Rightarrow> string \<Rightarrow> 'w library_connection \<Rightarrow> ('w, Fault, 'w library_channel) fx" where
  "open_in AcquireRelease ErrClosed connection =
     AcquireRelease (try_fx (open_channel connection) (faultOf ''open a channel'' [])) (closeChannel ErrClosed)"

definition Prefetch :: "'w library_channel \<Rightarrow> int \<Rightarrow> ('w, Fault, unit) fx" where
  "Prefetch channel limit = try_fx (\<lambda>w. only_error (Qos channel limit 0 False w)) (faultOf ''set the prefetch'' [])"

section \<open>What the adapter promises\<close>

text \<open>What a broker makes of a publication that it routes unchanged.\<close>

definition routed :: "Target \<Rightarrow> Publishing \<Rightarrow> nat \<Rightarrow> raw_delivery" where
  "routed target p tag =
     \<lparr>raw_Headers = pub_Headers p, raw_Body = pub_Body p, raw_ContentType = pub_ContentType p,
      raw_Exchange = to_Exchange target, RoutingKey = to_Key target, DeliveryTag = tag, raw_Redelivered = False\<rparr>"

text \<open>A message that a broker routes as it was published arrives as the in-process broker delivers it: the
same body, content type, route and tag, and its headers up to their normal form.\<close>

theorem adapter_delivers_as_in_process:
  "deliveryOf lib (routed target (publishing message) tag) =
     Inr ((copy_for target message tag)\<lparr>d_Headers := members_of (norm (Object (m_Headers message)))\<rparr>)"
  by (simp add: deliveryOf_def routed_def publishing_def Headers_Table copy_for_def)

text \<open>No two consumers of a process have one tag, whatever their queues are called, until the counter of
64 bits has come round.\<close>

theorem consumer_tags_differ:
  "consumer_tag name n = consumer_tag name' n' \<longleftrightarrow> name = name' \<and> n = n'"
proof -
  have "consumer_tag name n = consumer_tag name' n' \<longleftrightarrow> name = name' \<and> unat n = unat n'"
    unfolding consumer_tag_def by (rule numbered_inject)
  then show ?thesis by (simp add: word_unat_eq_iff)
qed

end
