(* ===== verification/Amqp10_Values.thy ===== *)
theory Amqp10_Values
  imports Amqp091_Fields
begin

text \<open>
  The property maps of AMQP 1.0 (\<open>amqp10/property_values.go\<close>) and one message across the
  library's shape (\<open>amqp10/message_values.go\<close>, with the types of \<open>amqp10/port.go\<close>).

  The value set is this protocol's own: unsigned integers widened by value, and UUIDs, whose
  text form is the library's and so a parameter.
\<close>

section \<open>Properties\<close>

datatype property =
    PNil
  | PBool bool
  | PInt8 "8 word"
  | PInt16 "16 word"
  | PInt32 "32 word"
  | PInt64 "64 word"
  | PInt "64 word"
  | PUInt8 "8 word"
  | PUInt16 "16 word"
  | PUInt32 "32 word"
  | PFloat32 float32
  | PFloat64 float64
  | PString string
  | PUUID string
  | PBytes string
  | PTime timestamp
  | PMap "(string \<times> property) list"
  | PSlice "property list"
  | POther string

record property_library = field_library +
  uuid_String :: "string \<Rightarrow> string"

primrec propertyOf :: "dynamic \<Rightarrow> property" where
  "propertyOf Absent = PNil"
| "propertyOf (Boolean b) = PBool b"
| "propertyOf (Integer i) = PInt64 i"
| "propertyOf (Number x) = PFloat64 x"
| "propertyOf (Text t) = PString t"
| "propertyOf (Bytes b) = PBytes b"
| "propertyOf (Timestamp t) = PTime t"
| "propertyOf (Object fs) = PMap (assign_all (map (map_prod (\<lambda>n. n) propertyOf) fs))"
| "propertyOf (List vs) = PSlice (map propertyOf vs)"

definition Properties :: "(string \<times> dynamic) list \<Rightarrow> (string \<times> property) list" where
  "Properties fs = assign_all (on_values propertyOf fs)"

text \<open>Annotations are keyed by the same names.\<close>

definition Annotations :: "(string \<times> dynamic) list \<Rightarrow> (string \<times> property) list" where
  "Annotations fs = assign_all (on_values propertyOf fs)"

definition property_label :: "('z) property_library_scheme \<Rightarrow> string \<Rightarrow> string" where
  "property_label lib name = ''property '' @ quote lib name"

primrec propertyValue :: "property_library \<Rightarrow> property \<Rightarrow> (string, dynamic) result" where
  "propertyValue lib PNil = Inr Absent"
| "propertyValue lib (PBool b) = Inr (Boolean b)"
| "propertyValue lib (PInt8 i) = Inr (Integer (scast i))"
| "propertyValue lib (PInt16 i) = Inr (Integer (scast i))"
| "propertyValue lib (PInt32 i) = Inr (Integer (scast i))"
| "propertyValue lib (PInt64 i) = Inr (Integer i)"
| "propertyValue lib (PInt i) = Inr (Integer i)"
| "propertyValue lib (PUInt8 i) = Inr (Integer (ucast i))"
| "propertyValue lib (PUInt16 i) = Inr (Integer (ucast i))"
| "propertyValue lib (PUInt32 i) = Inr (Integer (ucast i))"
| "propertyValue lib (PFloat32 x) = Inr (Number (widen lib x))"
| "propertyValue lib (PFloat64 x) = Inr (Number x)"
| "propertyValue lib (PString t) = Inr (Text t)"
| "propertyValue lib (PUUID u) = Inr (Text (uuid_String lib u))"
| "propertyValue lib (PBytes b) = Inr (Bytes b)"
| "propertyValue lib (PTime t) = Inr (Timestamp t)"
| "propertyValue lib (PMap t) =
     bind_result (read_members (property_label lib) (by_name (map (map_prod (\<lambda>n. n) (propertyValue lib)) t)))
       (\<lambda>vs. Inr (Object vs))"
| "propertyValue lib (PSlice vs) =
     bind_result (read_elements 0 (map (propertyValue lib) vs)) (\<lambda>vs. Inr (List vs))"
| "propertyValue lib (POther kind_name) =
     Inl (''a broker sent '' @ kind_name @ '', which is not a value a property may hold'')"

definition ReadProperties ::
  "property_library \<Rightarrow> (string \<times> property) list \<Rightarrow> (string, (string \<times> dynamic) list) result" where
  "ReadProperties lib raw =
     read_members (property_label lib) (by_name (on_values (propertyValue lib) raw))"

section \<open>The boundary\<close>

primrec property_sound :: "property \<Rightarrow> bool" where
  "property_sound PNil = True"
| "property_sound (PBool b) = True"
| "property_sound (PInt8 i) = True"
| "property_sound (PInt16 i) = True"
| "property_sound (PInt32 i) = True"
| "property_sound (PInt64 i) = True"
| "property_sound (PInt i) = True"
| "property_sound (PUInt8 i) = True"
| "property_sound (PUInt16 i) = True"
| "property_sound (PUInt32 i) = True"
| "property_sound (PFloat32 x) = True"
| "property_sound (PFloat64 x) = True"
| "property_sound (PString t) = True"
| "property_sound (PUUID u) = True"
| "property_sound (PBytes b) = True"
| "property_sound (PTime t) = True"
| "property_sound (PMap t) =
     (distinct (map fst t) \<and> list_all (\<lambda>p. snd p) (map (map_prod (\<lambda>n. n) property_sound) t))"
| "property_sound (PSlice vs) = list_all (\<lambda>b. b) (map property_sound vs)"
| "property_sound (POther kind_name) = True"

lemma propertyValue_propertyOf: "propertyValue lib (propertyOf v) = Inr (norm v)"
proof (induction v)
  case (Object fs)
  have "on_values (propertyValue lib) (assign_all (on_values propertyOf fs)) =
      assign_all (on_values (\<lambda>v. propertyValue lib (propertyOf v)) fs)"
    by (rule on_values_assigned)
  also have "on_values (\<lambda>v. propertyValue lib (propertyOf v)) fs = on_values Inr (on_values norm fs)"
    using Object by (auto simp: map_prod_def snds.simps split: prod.splits)
  finally show ?case
    by (simp only: propertyOf.simps propertyValue.simps norm.simps members_read bind_result.simps)
next
  case (List vs)
  then have "read_elements 0 (map (propertyValue lib) (map propertyOf vs)) = Inr (map norm vs)"
    unfolding read_elements_Inr by simp
  then show ?case by (simp only: propertyOf.simps propertyValue.simps norm.simps bind_result.simps)
qed simp_all

lemma propertyValue_normal: "property_sound f \<Longrightarrow> propertyValue lib f = Inr v \<Longrightarrow> norm v = v"
proof (induction f arbitrary: v)
  case (PMap t)
  then obtain vs where
    "read_members (property_label lib) (by_name (on_values (propertyValue lib) t)) = Inr vs"
    "v = Object vs" by (auto simp: go_results)
  with PMap members_normal [of t "propertyValue lib" "property_label lib" vs] show ?case
    by (fastforce simp: list_all_iff snds.simps)
next
  case (PSlice fs)
  then obtain vs where "read_elements 0 (map (propertyValue lib) fs) = Inr vs" "v = List vs"
    by (auto simp: go_results)
  with PSlice elements_normal [of fs "propertyValue lib" 0 vs] show ?case
    by (fastforce simp: list_all_iff)
qed auto

lemma propertyOf_sound: "property_sound (propertyOf v)"
proof (induction v)
  case (Object fs)
  then have "list_all snd (on_values property_sound (assign_all (on_values propertyOf fs)))"
    by (intro assigned_all) auto
  then show ?case by (simp add: assign_all_distinct)
next
  case (List vs)
  then show ?case by (simp add: list_all_iff)
qed simp_all

interpretation property_map: value_boundary propertyOf "propertyValue lib" property_sound for lib
  by unfold_locales (auto simp: propertyValue_propertyOf propertyOf_sound intro: propertyValue_normal)

lemma ReadProperties_Properties:
  "ReadProperties lib (Properties fs) = Inr (by_name (assign_all (on_values norm fs)))"
  using propertyValue_propertyOf [of lib "Object fs"]
  by (simp add: ReadProperties_def Properties_def bind_result_Inr)

section \<open>Messages\<close>

datatype Durability = Transient | Durable

record Message =
  msg_Body :: string
  msg_ContentType :: string
  msg_Subject :: string
  msg_Properties :: "(string \<times> dynamic) list"
  msg_Durability :: Durability

record Delivery =
  del_Body :: string
  del_ContentType :: string
  del_Subject :: string
  del_Properties :: "(string \<times> dynamic) list"
  del_Tag :: string
  Attempts :: "32 word"

text \<open>The library's message: nil headers, properties and fields are \<open>None\<close>.\<close>

record message_properties =
  ContentType :: "string option"
  Subject :: "string option"

record message_header =
  header_Durable :: bool
  DeliveryCount :: "32 word"

record broker_message =
  Data :: "string list"
  ApplicationProperties :: "(string \<times> property) list"
  bm_Header :: "message_header option"
  bm_Properties :: "message_properties option"
  DeliveryTag :: string

definition brokerMessage :: "Message \<Rightarrow> broker_message" where
  "brokerMessage message =
     \<lparr>Data = [msg_Body message], ApplicationProperties = Properties (msg_Properties message),
      bm_Header = Some \<lparr>header_Durable = (msg_Durability message = Durable), DeliveryCount = 0\<rparr>,
      bm_Properties =
        (if msg_ContentType message \<noteq> [] \<or> msg_Subject message \<noteq> []
         then Some \<lparr>ContentType = (if msg_ContentType message \<noteq> [] then Some (msg_ContentType message) else None),
                    Subject = (if msg_Subject message \<noteq> [] then Some (msg_Subject message) else None)\<rparr>
         else None),
      DeliveryTag = []\<rparr>"

definition body :: "broker_message \<Rightarrow> string" where
  "body message =
     (case Data message of [section] \<Rightarrow> section | sections \<Rightarrow> concat sections)"

definition contentType :: "broker_message \<Rightarrow> string option" where
  "contentType message = (case bm_Properties message of None \<Rightarrow> None | Some p \<Rightarrow> ContentType p)"

definition subject :: "broker_message \<Rightarrow> string option" where
  "subject message = (case bm_Properties message of None \<Rightarrow> None | Some p \<Rightarrow> Subject p)"

definition text_of :: "string option \<Rightarrow> string" where
  "text_of t = (case t of None \<Rightarrow> [] | Some s \<Rightarrow> s)"

definition attempts :: "broker_message \<Rightarrow> 32 word" where
  "attempts message = (case bm_Header message of None \<Rightarrow> 0 | Some h \<Rightarrow> DeliveryCount h)"

definition errNoTag :: string where
  "errNoTag = ''the broker sent a message with no delivery tag, so it cannot be settled''"

definition deliveryOf :: "property_library \<Rightarrow> broker_message \<Rightarrow> (string, Delivery) result" where
  "deliveryOf lib message =
     (if length (DeliveryTag message) = 0 then Inl errNoTag
      else bind_result (ReadProperties lib (ApplicationProperties message)) (\<lambda>ps.
        Inr \<lparr>del_Body = body message, del_ContentType = text_of (contentType message),
             del_Subject = text_of (subject message), del_Properties = ps,
             del_Tag = DeliveryTag message, Attempts = attempts message\<rparr>))"

lemma body_concat: "body message = concat (Data message)"
  by (auto simp: body_def split: list.split)

text \<open>A message sent is the message received, up to the order of its properties.\<close>

lemma deliveryOf_brokerMessage:
  assumes "tag \<noteq> []"
  shows "deliveryOf lib ((brokerMessage m)\<lparr>DeliveryTag := tag\<rparr>) =
           Inr \<lparr>del_Body = msg_Body m, del_ContentType = msg_ContentType m, del_Subject = msg_Subject m,
                del_Properties = by_name (assign_all (on_values norm (msg_Properties m))),
                del_Tag = tag, Attempts = 0\<rparr>"
  using assms
  by (simp add: deliveryOf_def brokerMessage_def ReadProperties_Properties body_def contentType_def
      subject_def text_of_def attempts_def)

section \<open>What messages promise\<close>

text \<open>C33: What writing a message for the broker and reading a delivery of it make of a message, when it comes back
as it was written and with a tag -- in memory: what the wire's encoding does to a value, such as cutting a
time to milliseconds, is the library's. The delivery has the body, the content type and the subject of
the message, no attempt behind it, and its properties in normal form: one of a name, the last written,
in the order of the names. Durability is written in the header and is no part of a delivery.\<close>

theorem message_roundtrip:
  assumes "tag \<noteq> []"
  shows "deliveryOf lib ((brokerMessage m)\<lparr>DeliveryTag := tag\<rparr>) =
           Inr \<lparr>del_Body = msg_Body m, del_ContentType = msg_ContentType m, del_Subject = msg_Subject m,
                del_Properties = by_name (assign_all (on_values norm (msg_Properties m))),
                del_Tag = tag, Attempts = 0\<rparr> \<and>
         bm_Header (brokerMessage m) = Some \<lparr>header_Durable = (msg_Durability m = Durable), DeliveryCount = 0\<rparr>"
  using deliveryOf_brokerMessage [OF assms] by (simp add: brokerMessage_def)

definition example_message :: Message where
  "example_message = \<lparr>msg_Body = ''b'', msg_ContentType = ''text/plain'', msg_Subject = [],
     msg_Properties = [(''z'', Boolean True), (''a'', Text ''t'')], msg_Durability = Durable\<rparr>"

theorem message_roundtrip_witness:
  "\<forall>lib. deliveryOf lib ((brokerMessage example_message)\<lparr>DeliveryTag := ''t''\<rparr>) =
     Inr \<lparr>del_Body = ''b'', del_ContentType = ''text/plain'', del_Subject = [],
          del_Properties = [(''a'', Text ''t''), (''z'', Boolean True)], del_Tag = ''t'', Attempts = 0\<rparr>"
  using message_roundtrip [of "''t''" _ example_message]
  by (simp add: example_message_def by_name_def assign_all_def less_eq_char_def less_char_def)

end
