(* ===== verification/Amqp10_Broker.thy ===== *)
theory Amqp10_Broker
  imports Amqp10_Values Amqp_Settling
begin

text \<open>
  The AMQP 1.0 broker that runs inside a test (\<open>amqp10/inprocess\<close>): nodes, sender and
  receiver links, and the four dispositions.

  A link holds its own state beside the broker's; an operation on a link takes and returns
  both. The attempts of a delivery are Go's \<open>uint32\<close> and wrap. Tags count up from one; the
  counter, Go's \<open>uint64\<close>, is a number here.
\<close>

section \<open>The broker\<close>

record Change =
  DeliveryFailed :: bool
  UndeliverableHere :: bool
  change_Annotations :: "(string \<times> dynamic) list"

record Broker =
  nodes :: "string \<Rightarrow> Delivery list option"
  last_tag :: nat
  accepted :: "string list"
  rejected :: "(string \<times> string) list"
  released :: "string list"
  modified :: "(string \<times> Change) list"

definition NewBroker :: Broker where
  "NewBroker = \<lparr>nodes = Map.empty, last_tag = 0, accepted = [], rejected = [], released = [],
                modified = []\<rparr>"

definition errNoSuchNode :: string where
  "errNoSuchNode = ''no node has been declared at that address''"
definition errDetached :: string where
  "errDetached = ''the link has been detached''"
definition errUnknownTag :: string where
  "errUnknownTag = ''no unsettled delivery has that tag''"

definition Declare :: "Broker \<Rightarrow> string \<Rightarrow> Broker" where
  "Declare broker addr =
     (if nodes broker addr = None then broker\<lparr>nodes := (nodes broker)(addr \<mapsto> [])\<rparr> else broker)"

definition Depth :: "Broker \<Rightarrow> string \<Rightarrow> nat" where
  "Depth broker addr = (case nodes broker addr of None \<Rightarrow> 0 | Some waiting \<Rightarrow> length waiting)"

section \<open>Links\<close>

record sender =
  s_address :: string
  s_detached :: bool

record receiver =
  r_address :: string
  unsettled :: "string \<Rightarrow> Delivery option"
  r_detached :: bool

definition Sender :: "Broker \<Rightarrow> string \<Rightarrow> (string, sender) result" where
  "Sender broker addr =
     (if nodes broker addr = None then Inl errNoSuchNode
      else Inr \<lparr>s_address = addr, s_detached = False\<rparr>)"

definition Receiver :: "Broker \<Rightarrow> string \<Rightarrow> (string, receiver) result" where
  "Receiver broker addr =
     (if nodes broker addr = None then Inl errNoSuchNode
      else Inr \<lparr>r_address = addr, unsettled = Map.empty, r_detached = False\<rparr>)"

definition delivery_tag :: "string \<Rightarrow> nat \<Rightarrow> string" where
  "delivery_tag addr n = addr @ ''-'' @ digits n"

definition Send :: "sender \<Rightarrow> Message \<Rightarrow> Broker \<Rightarrow> Broker \<times> string option" where
  "Send link message broker =
     (if s_detached link then (broker, Some errDetached)
      else (case nodes broker (s_address link) of
              None \<Rightarrow> (broker, Some errNoSuchNode)
            | Some waiting \<Rightarrow>
                (let n = Suc (last_tag broker) in
                 (broker\<lparr>last_tag := n,
                         nodes := (nodes broker)(s_address link \<mapsto> waiting @
                           [\<lparr>del_Body = msg_Body message, del_ContentType = msg_ContentType message,
                             del_Subject = msg_Subject message, del_Properties = msg_Properties message,
                             del_Tag = delivery_tag (s_address link) n, Attempts = 0\<rparr>])\<rparr>, None))))"

definition sender_Close :: "sender \<Rightarrow> sender" where
  "sender_Close link = link\<lparr>s_detached := True\<rparr>"

definition receiver_Close :: "receiver \<Rightarrow> receiver" where
  "receiver_Close link = link\<lparr>r_detached := True\<rparr>"

text \<open>\<open>Receive\<close> does not wait: an empty node and a detached link both end the messages.\<close>

definition Receive ::
  "bool \<Rightarrow> Broker \<times> receiver \<Rightarrow> (Broker \<times> receiver) \<times> (string, Delivery option) result" where
  "Receive cancelled st =
     (case st of (broker, link) \<Rightarrow>
        if cancelled then (st, Inl ''context canceled'')
        else if r_detached link then (st, Inr None)
        else (case nodes broker (r_address link) of
                None \<Rightarrow> (st, Inl errNoSuchNode)
              | Some [] \<Rightarrow> (st, Inr None)
              | Some (d # ds) \<Rightarrow>
                  ((broker\<lparr>nodes := (nodes broker)(r_address link \<mapsto> ds)\<rparr>,
                    link\<lparr>unsettled := (unsettled link)(del_Tag d \<mapsto> d)\<rparr>), Inr (Some d))))"

section \<open>Dispositions\<close>

definition redeliver :: "string \<Rightarrow> Delivery \<Rightarrow> Broker \<Rightarrow> Broker" where
  "redeliver addr d broker =
     (case nodes broker addr of
        None \<Rightarrow> broker
      | Some waiting \<Rightarrow> broker\<lparr>nodes := (nodes broker)(addr \<mapsto> waiting @ [d])\<rparr>)"

definition settle ::
  "string \<Rightarrow> (string \<Rightarrow> Delivery \<Rightarrow> Broker \<Rightarrow> Broker) \<Rightarrow> Broker \<times> receiver \<Rightarrow>
   (Broker \<times> receiver) \<times> string option" where
  "settle tag decide st =
     (case st of (broker, link) \<Rightarrow>
        case unsettled link tag of
          None \<Rightarrow> ((broker, link\<lparr>unsettled := (unsettled link)(tag := None)\<rparr>), Some errUnknownTag)
        | Some d \<Rightarrow>
            ((decide (r_address link) d broker, link\<lparr>unsettled := (unsettled link)(tag := None)\<rparr>), None))"

definition Accept :: "string \<Rightarrow> Broker \<times> receiver \<Rightarrow> (Broker \<times> receiver) \<times> string option" where
  "Accept tag = settle tag (\<lambda>_ _ b. b\<lparr>accepted := accepted b @ [tag]\<rparr>)"

definition Reject :: "string \<Rightarrow> string \<Rightarrow> Broker \<times> receiver \<Rightarrow> (Broker \<times> receiver) \<times> string option" where
  "Reject why tag = settle tag (\<lambda>_ _ b. b\<lparr>rejected := rejected b @ [(tag, why)]\<rparr>)"

definition Release :: "string \<Rightarrow> Broker \<times> receiver \<Rightarrow> (Broker \<times> receiver) \<times> string option" where
  "Release tag = settle tag (\<lambda>addr d b. redeliver addr d (b\<lparr>released := released b @ [tag]\<rparr>))"

definition Modify :: "Change \<Rightarrow> string \<Rightarrow> Broker \<times> receiver \<Rightarrow> (Broker \<times> receiver) \<times> string option" where
  "Modify change tag = settle tag (\<lambda>addr d b.
     let recorded = b\<lparr>modified := modified b @ [(tag, change)]\<rparr> in
     if UndeliverableHere change then redeliver addr d recorded
     else redeliver addr (d\<lparr>Attempts := Attempts d + 1\<rparr>) recorded)"

section \<open>Settling keeps the port's contract\<close>

definition owed :: "Broker \<times> receiver \<Rightarrow> string \<Rightarrow> Delivery option" where
  "owed st tag = unsettled (snd st) tag"

lemma dispose_owed:
  "owed st tag = Some d \<Longrightarrow> owed (fst (settle tag decide st)) = (owed st)(tag := None)"
  by (auto simp: owed_def settle_def split: prod.splits)

lemma dispose_unowed: "owed st tag = None \<Longrightarrow> settle tag decide st = (st, Some errUnknownTag)"
proof -
  assume "owed st tag = None"
  then have "unsettled (snd st) tag = None" by (simp add: owed_def)
  moreover from this have "(unsettled (snd st))(tag := None) = unsettled (snd st)" by auto
  ultimately show ?thesis by (cases st) (simp add: settle_def)
qed

interpretation accepting: settling owed Accept errUnknownTag
  by unfold_locales (simp_all only: Accept_def dispose_owed dispose_unowed)

interpretation rejecting: settling owed "Reject why" errUnknownTag for why
  by unfold_locales (simp_all only: Reject_def dispose_owed dispose_unowed)

interpretation releasing: settling owed Release errUnknownTag
  by unfold_locales (simp_all only: Release_def dispose_owed dispose_unowed)

interpretation modifying: settling owed "Modify change" errUnknownTag for change
  by unfold_locales (simp_all only: Modify_def dispose_owed dispose_unowed)

section \<open>Tags\<close>

text \<open>The counter can be read back off a tag, whatever hyphens the address has.\<close>

lemma delivery_tag_inject:
  "delivery_tag addr n = delivery_tag addr' n' \<longleftrightarrow> addr = addr' \<and> n = n'"
  unfolding delivery_tag_def by (rule numbered_inject)

text \<open>Every tag a node holds or a link is owed was counted by the broker.\<close>

definition counted :: "Broker \<Rightarrow> string \<Rightarrow> bool" where
  "counted b tag \<longleftrightarrow> (\<exists>addr n. tag = delivery_tag addr n \<and> n \<le> last_tag b)"

definition counted_all :: "Broker \<Rightarrow> bool" where
  "counted_all b \<longleftrightarrow> (\<forall>addr waiting d. nodes b addr = Some waiting \<longrightarrow> d \<in> set waiting \<longrightarrow> counted b (del_Tag d))"

lemma Send_fresh:
  assumes "counted_all b" and "Send link m b = (b', None)"
  shows "\<exists>waiting d. nodes b (s_address link) = Some waiting \<and>
           nodes b' (s_address link) = Some (waiting @ [d]) \<and> del_Body d = msg_Body m \<and>
           \<not> counted b (del_Tag d)"
    and "counted_all b'"
proof -
  from assms(2) obtain waiting where w: "nodes b (s_address link) = Some waiting"
    and b': "b' = b\<lparr>last_tag := Suc (last_tag b),
                    nodes := (nodes b)(s_address link \<mapsto> waiting @
                      [\<lparr>del_Body = msg_Body m, del_ContentType = msg_ContentType m,
                        del_Subject = msg_Subject m, del_Properties = msg_Properties m,
                        del_Tag = delivery_tag (s_address link) (Suc (last_tag b)), Attempts = 0\<rparr>])\<rparr>"
    by (auto simp: Send_def Let_def split: if_splits option.splits)
  have "\<not> counted b (delivery_tag (s_address link) (Suc (last_tag b)))"
    by (auto simp: counted_def delivery_tag_inject)
  with w b' show "\<exists>waiting d. nodes b (s_address link) = Some waiting \<and>
           nodes b' (s_address link) = Some (waiting @ [d]) \<and> del_Body d = msg_Body m \<and>
           \<not> counted b (del_Tag d)" by simp
  have "counted b tag \<Longrightarrow> counted b' tag" for tag using b' by (fastforce simp: counted_def)
  moreover have "counted b' (delivery_tag (s_address link) (Suc (last_tag b)))"
    using b' by (auto simp: counted_def)
  ultimately show "counted_all b'"
    using assms(1) w unfolding counted_all_def b' by (auto split: if_splits)
qed

section \<open>What the broker promises\<close>

text \<open>A message sent gets a tag the broker has not given before, whatever the addresses are called,
and waits behind what waits at its address already.\<close>

theorem sent_under_a_fresh_tag:
  assumes "counted_all b" and "Send link m b = (b', None)"
  shows "counted_all b' \<and>
           (\<exists>waiting d. nodes b (s_address link) = Some waiting \<and>
              nodes b' (s_address link) = Some (waiting @ [d]) \<and> del_Body d = msg_Body m \<and>
              \<not> counted b (del_Tag d))"
  using Send_fresh [OF assms] by blast

definition one_node :: Broker where
  "one_node = Amqp10_Broker.Declare NewBroker ''a''"

lemma one_node_simps [simp]: "nodes one_node ''a'' = Some []" "last_tag one_node = 0"
  by (simp_all add: one_node_def Amqp10_Broker.Declare_def NewBroker_def)

lemma one_node_counted: "counted_all one_node"
  by (simp add: counted_all_def one_node_def Amqp10_Broker.Declare_def NewBroker_def)

theorem sent_under_a_fresh_tag_witness:
  "\<exists>b' waiting d. Send \<lparr>s_address = ''a'', s_detached = False\<rparr> example_message one_node = (b', None) \<and>
     nodes b' ''a'' = Some (waiting @ [d]) \<and> \<not> counted one_node (del_Tag d)"
proof -
  obtain b' where b': "Send \<lparr>s_address = ''a'', s_detached = False\<rparr> example_message one_node = (b', None)"
    by (simp add: Send_def Let_def)
  from sent_under_a_fresh_tag [OF one_node_counted this] b' show ?thesis by fastforce
qed

text \<open>What is sent to an empty node is what an attached receiver takes next, and the receiver owes an
answer for it.\<close>

theorem sent_is_received:
  assumes "nodes b (r_address link) = Some []" and "\<not> s_detached out" and "\<not> r_detached link"
    and "s_address out = r_address link"
  shows "\<exists>b' st d. Send out m b = (b', None) \<and> Receive False (b', link) = (st, Inr (Some d)) \<and>
           del_Body d = msg_Body m \<and> del_ContentType d = msg_ContentType m \<and>
           del_Subject d = msg_Subject m \<and> del_Properties d = msg_Properties m \<and> Attempts d = 0 \<and>
           owed st (del_Tag d) = Some d \<and> Depth (fst st) (r_address link) = 0"
  using assms by (simp add: Send_def Receive_def Let_def owed_def Depth_def)

theorem sent_is_received_witness:
  "\<exists>b' st d. Send \<lparr>s_address = ''a'', s_detached = False\<rparr> example_message one_node = (b', None) \<and>
     Receive False (b', \<lparr>r_address = ''a'', unsettled = Map.empty, r_detached = False\<rparr>) = (st, Inr (Some d)) \<and>
     del_Body d = ''b''"
  using sent_is_received [of one_node "\<lparr>r_address = ''a'', unsettled = Map.empty, r_detached = False\<rparr>"
      "\<lparr>s_address = ''a'', s_detached = False\<rparr>" example_message]
  by (auto simp: example_message_def)

text \<open>A delivery is settled once: after any of the four dispositions of a tag, every disposition of
that tag is refused and changes nothing.\<close>

theorem disposed_once:
  assumes "first \<in> {Accept tag, Reject why tag, Release tag, Modify change tag}"
    and "second \<in> {Accept tag, Reject why' tag, Release tag, Modify change' tag}"
  shows "second (fst (first st)) = (fst (first st), Some errUnknownTag)"
proof -
  have "owed (fst (first st)) tag = None"
    using assms(1) accepting.settled_unowed [of tag st] rejecting.settled_unowed [of why tag st]
      releasing.settled_unowed [of tag st] modifying.settled_unowed [of change tag st] by blast
  with assms(2) show ?thesis
    using accepting.settle_unowed rejecting.settle_unowed releasing.settle_unowed modifying.settle_unowed
    by blast
qed

definition example_owed :: "Broker \<times> receiver" where
  "example_owed =
     (one_node, \<lparr>r_address = ''a'', unsettled =
        [''t'' \<mapsto> \<lparr>del_Body = ''b'', del_ContentType = [], del_Subject = [], del_Properties = [],
                  del_Tag = ''t'', Attempts = 0\<rparr>], r_detached = False\<rparr>)"

theorem disposed_once_witness:
  "Accept ''t'' (fst (Release ''t'' example_owed)) = (fst (Release ''t'' example_owed), Some errUnknownTag)"
  by (rule disposed_once [where tag = "''t''"]) simp_all

text \<open>A delivery that is modified waits again at its address, counted as attempted exactly when it is
not called undeliverable here, whether or not it is called failed; one that is released waits again
as it was.\<close>

theorem modified_waits_again:
  assumes "owed (b, link) tag = Some d" and "nodes b (r_address link) = Some waiting"
  shows "nodes (fst (fst (Modify change tag (b, link)))) (r_address link) =
           Some (waiting @ [d\<lparr>Attempts := Attempts d + (if UndeliverableHere change then 0 else 1)\<rparr>]) \<and>
         nodes (fst (fst (Release tag (b, link)))) (r_address link) = Some (waiting @ [d])"
  using assms
  by (simp_all add: Modify_def Release_def settle_def redeliver_def owed_def Let_def)

theorem modified_waits_again_witness:
  "map Attempts (the (nodes (fst (fst (Modify \<lparr>DeliveryFailed = False, UndeliverableHere = False,
     change_Annotations = []\<rparr> ''t'' example_owed))) ''a'')) = [1]"
proof -
  let ?d = "\<lparr>del_Body = ''b'', del_ContentType = [], del_Subject = [], del_Properties = [],
                  del_Tag = ''t'', Attempts = 0\<rparr> :: Delivery"
  let ?link = "\<lparr>r_address = ''a'', unsettled = [''t'' \<mapsto> ?d], r_detached = False\<rparr>"
  have e: "example_owed = (one_node, ?link)" by (simp add: example_owed_def)
  have "owed (one_node, ?link) ''t'' = Some ?d" by (simp add: owed_def)
  from modified_waits_again [OF this, of "[]"] show ?thesis unfolding e by simp
qed

end
