(* ===== verification/Amqp10_Client.thy ===== *)
theory Amqp10_Client
  imports Effects Amqp10_Broker
begin

text \<open>
  Sending and receiving over the AMQP 1.0 port (\<open>amqp10/send.go\<close>, \<open>amqp10/receive.go\<close>,
  \<open>amqp10/fault.go\<close>), the in-process links as an implementation of that port, and the links
  of the broker library as another (\<open>amqp10/links.go\<close>, \<open>amqp10/connect.go\<close>).

  A link of the port is a record of functions on a state. The library's receiver is a record
  of its own functions; which of its errors say that a connection, a session or a link is
  gone are three predicates. The messages a receiver link has not settled are part of the
  state here, beside the library's.
\<close>

section \<open>Faults\<close>

record Fault =
  fault_Op :: string
  fault_Address :: string
  fault_Err :: "string option"

definition Error :: "Fault \<Rightarrow> string" where
  "Error fault =
     ''amqp10: '' @ fault_Op fault @
     (if fault_Address fault \<noteq> [] then '' ['' @ fault_Address fault @ '']'' else []) @
     (case fault_Err fault of None \<Rightarrow> [] | Some err \<Rightarrow> '': '' @ err)"

definition Unwrap :: "Fault \<Rightarrow> string option" where
  "Unwrap fault = fault_Err fault"

definition faultOf :: "string \<Rightarrow> string \<Rightarrow> string \<Rightarrow> Fault" where
  "faultOf op addr err = \<lparr>fault_Op = op, fault_Address = addr, fault_Err = Some err\<rparr>"

section \<open>The port\<close>

record 'w SenderLink =
  link_Send :: "Message \<Rightarrow> 'w \<Rightarrow> 'w \<times> string option"
  sender_Address :: string
  sender_Detach :: "'w \<Rightarrow> 'w \<times> string option"

record 'w ReceiverLink =
  link_Receive :: "('w, string, Delivery) source"
  receiver_Address :: string
  link_Accept :: "string \<Rightarrow> 'w \<Rightarrow> 'w \<times> string option"
  link_Reject :: "string \<Rightarrow> string \<Rightarrow> 'w \<Rightarrow> 'w \<times> string option"
  link_Release :: "string \<Rightarrow> 'w \<Rightarrow> 'w \<times> string option"
  link_Modify :: "string \<Rightarrow> Change \<Rightarrow> 'w \<Rightarrow> 'w \<times> string option"
  receiver_Detach :: "'w \<Rightarrow> 'w \<times> string option"

section \<open>Sending\<close>

record 'a Schema =
  EncodeJSON :: "'a \<Rightarrow> (string, string) result"
  DecodeJSON :: "string \<Rightarrow> (string, 'a) result"

definition send :: "'w SenderLink \<Rightarrow> Message \<Rightarrow> ('w, Fault, unit) fx" where
  "send link message =
     try_fx (\<lambda>w. only_error (link_Send link message w)) (faultOf ''send'' (sender_Address link))"

text \<open>The message's other fields have Go's zero values.\<close>

definition Encode :: "'a Schema \<Rightarrow> 'a \<Rightarrow> (string, Message) result" where
  "Encode shape value =
     (case EncodeJSON shape value of
        Inl err \<Rightarrow> Inl err
      | Inr document \<Rightarrow>
          Inr \<lparr>msg_Body = document, msg_ContentType = ''application/json'', msg_Subject = [],
               msg_Properties = [], msg_Durability = Transient\<rparr>)"

definition SendValue :: "'w SenderLink \<Rightarrow> 'a Schema \<Rightarrow> 'a \<Rightarrow> ('w, Fault, unit) fx" where
  "SendValue link shape value =
     flat_map (try_fx (\<lambda>w. (w, Encode shape value)) (faultOf ''encode a message'' (sender_Address link))) (send link)"

section \<open>Receiving\<close>

definition receive :: "'w ReceiverLink \<Rightarrow> ('w, Fault, Delivery) stream" where
  "receive link w =
     (case link_Receive link w of
        (w', Inl err) \<Rightarrow> (w', Inl (faultOf ''wait for a message'' (receiver_Address link) err))
      | (w', Inr None) \<Rightarrow> (w', Inr EndOfStream)
      | (w', Inr (Some delivery)) \<Rightarrow> (w', Inr (Emit [delivery])))"

record ('w, 'a) Envelope =
  env_Delivery :: Delivery
  env_Read :: "(Fault, 'a) result"
  env_from :: "'w ReceiverLink"

definition decodeDelivery :: "'w ReceiverLink \<Rightarrow> Delivery \<Rightarrow> 'a Schema \<Rightarrow> ('w, 'a) Envelope" where
  "decodeDelivery link delivery shape =
     \<lparr>env_Delivery = delivery,
      env_Read = (case DecodeJSON shape (del_Body delivery) of
                    Inl err \<Rightarrow> Inl (faultOf ''decode a message'' (del_Subject delivery) err)
                  | Inr value \<Rightarrow> Inr value),
      env_from = link\<rparr>"

definition Values :: "'w ReceiverLink \<Rightarrow> 'a Schema \<Rightarrow> ('w, Fault, ('w, 'a) Envelope) stream" where
  "Values link shape = map_stream (receive link) (\<lambda>delivery. decodeDelivery link delivery shape)"

definition settleDelivery ::
  "('w, 'a) Envelope \<Rightarrow> string \<Rightarrow> (string \<Rightarrow> 'w \<Rightarrow> 'w \<times> string option) \<Rightarrow> ('w, Fault, unit) fx" where
  "settleDelivery envelope op disposition =
     try_fx (\<lambda>w. only_error (disposition (del_Tag (env_Delivery envelope)) w))
       (faultOf op (del_Subject (env_Delivery envelope)))"

definition accept :: "('w, 'a) Envelope \<Rightarrow> ('w, Fault, unit) fx" where
  "accept envelope = settleDelivery envelope ''accept a message'' (link_Accept (env_from envelope))"

definition reject :: "('w, 'a) Envelope \<Rightarrow> string \<Rightarrow> ('w, Fault, unit) fx" where
  "reject envelope reason =
     settleDelivery envelope ''reject a message'' (\<lambda>tag. link_Reject (env_from envelope) tag reason)"

definition release :: "('w, 'a) Envelope \<Rightarrow> ('w, Fault, unit) fx" where
  "release envelope = settleDelivery envelope ''release a message'' (link_Release (env_from envelope))"

definition modify :: "('w, 'a) Envelope \<Rightarrow> Change \<Rightarrow> ('w, Fault, unit) fx" where
  "modify envelope change =
     settleDelivery envelope ''modify a message'' (\<lambda>tag. link_Modify (env_from envelope) tag change)"

interpretation received: pulled "link_Receive link" "faultOf ''wait for a message'' (receiver_Address link)"
  "receive link" for link :: "'w ReceiverLink"
  by unfold_locales (simp add: receive_def)

section \<open>The in-process links behind the port\<close>

text \<open>A sender link behind the port, on the broker and the link's own state: closing detaches it.\<close>

definition in_process_sending :: "string \<Rightarrow> (Broker \<times> sender) SenderLink" where
  "in_process_sending addr =
     \<lparr>link_Send = (\<lambda>message st. map_prod (\<lambda>b. (b, snd st)) (\<lambda>err. err) (Send (snd st) message (fst st))),
      sender_Address = addr, sender_Detach = (\<lambda>st. ((fst st, sender_Close (snd st)), None))\<rparr>"

text \<open>Both links of a node on one state: the broker and the receiver link's own. The sender link is a value here, as it
is between two uses of its \<open>Close\<close>; what closing does to it is \<open>in_process_sending\<close>'s.\<close>

definition in_process_sender :: "sender \<Rightarrow> (Broker \<times> receiver) SenderLink" where
  "in_process_sender link =
     \<lparr>link_Send = (\<lambda>message st. map_prod (\<lambda>b. (b, snd st)) (\<lambda>err. err) (Send link message (fst st))),
      sender_Address = s_address link, sender_Detach = (\<lambda>st. (st, None))\<rparr>"

definition in_process_receiver :: "string \<Rightarrow> (Broker \<times> receiver) ReceiverLink" where
  "in_process_receiver addr =
     \<lparr>link_Receive = Receive False, receiver_Address = addr, link_Accept = Accept,
      link_Reject = (\<lambda>tag why. Reject why tag), link_Release = Release,
      link_Modify = (\<lambda>tag change. Modify change tag),
      receiver_Detach = (\<lambda>st. ((fst st, receiver_Close (snd st)), None))\<rparr>"

text \<open>Both say the same of a link that stays as it is, and a link that was closed refuses to send, the broker unchanged.\<close>

lemma in_process_sending_agrees:
  "fst (fst (link_Send (in_process_sending addr) message (b, link))) = fst (fst (link_Send (in_process_sender link) message (b, r)))"
  "snd (link_Send (in_process_sending addr) message (b, link)) = snd (link_Send (in_process_sender link) message (b, r))"
  by (simp_all add: in_process_sending_def in_process_sender_def)

lemma closed_sender_refuses:
  "send (in_process_sending addr) message (fst (sender_Detach (in_process_sending addr) (b, link))) =
     ((b, link\<lparr>s_detached := True\<rparr>), Inl (faultOf ''send'' addr errDetached))"
  by (simp add: send_def try_fx_def only_error_def in_process_sending_def sender_Close_def Send_def)

section \<open>The library's links\<close>

record 'w library_receiver =
  library_Receive :: "'w \<Rightarrow> 'w \<times> (string, broker_message) result"
  AcceptMessage :: "broker_message \<Rightarrow> 'w \<Rightarrow> 'w \<times> string option"
  RejectMessage :: "broker_message \<Rightarrow> string \<Rightarrow> string \<Rightarrow> 'w \<Rightarrow> 'w \<times> string option"
  ReleaseMessage :: "broker_message \<Rightarrow> 'w \<Rightarrow> 'w \<times> string option"
  ModifyMessage :: "broker_message \<Rightarrow> bool \<Rightarrow> bool \<Rightarrow> (string \<times> property) list \<Rightarrow> 'w \<Rightarrow> 'w \<times> string option"
  library_Close :: "'w \<Rightarrow> 'w \<times> string option"

record 'w library_sender =
  library_Send :: "broker_message \<Rightarrow> 'w \<Rightarrow> 'w \<times> string option"
  library_sender_Close :: "'w \<Rightarrow> 'w \<times> string option"

record library_errors =
  is_ConnError :: "string \<Rightarrow> bool"
  is_SessionError :: "string \<Rightarrow> bool"
  is_LinkError :: "string \<Rightarrow> bool"

type_synonym 'w linked = "'w \<times> (string \<Rightarrow> broker_message option)"

definition library_sender_link :: "'w library_sender \<Rightarrow> string \<Rightarrow> 'w SenderLink" where
  "library_sender_link sender addr =
     \<lparr>link_Send = (\<lambda>message. library_Send sender (brokerMessage message)), sender_Address = addr,
      sender_Detach = library_sender_Close sender\<rparr>"

definition library_receive ::
  "property_library \<Rightarrow> library_errors \<Rightarrow> 'w library_receiver \<Rightarrow> ('w linked, string, Delivery) source" where
  "library_receive lib errs receiver st =
     (case library_Receive receiver (fst st) of
        (w', Inl err) \<Rightarrow> ((w', snd st), if is_LinkError errs err then Inr None else Inl err)
      | (w', Inr message) \<Rightarrow>
          (case deliveryOf lib message of
             Inl err \<Rightarrow> ((w', snd st), Inl err)
           | Inr delivery \<Rightarrow> ((w', (snd st)(del_Tag delivery \<mapsto> message)), Inr (Some delivery))))"

text \<open>A delivery is forgotten before it is settled, whatever the broker says to the disposition.\<close>

definition settle_link ::
  "(broker_message \<Rightarrow> 'w \<Rightarrow> 'w \<times> string option) \<Rightarrow> string \<Rightarrow> 'w linked \<Rightarrow> 'w linked \<times> string option" where
  "settle_link disposition tag st =
     (let unsettled = (snd st)(tag := None) in
      case snd st tag of
        None \<Rightarrow> ((fst st, unsettled), Some errUnknownTag)
      | Some message \<Rightarrow> map_prod (\<lambda>w. (w, unsettled)) (\<lambda>err. err) (disposition message (fst st)))"

definition library_accept :: "'w library_receiver \<Rightarrow> string \<Rightarrow> 'w linked \<Rightarrow> 'w linked \<times> string option" where
  "library_accept receiver = settle_link (AcceptMessage receiver)"

definition library_reject ::
  "'w library_receiver \<Rightarrow> string \<Rightarrow> string \<Rightarrow> 'w linked \<Rightarrow> 'w linked \<times> string option" where
  "library_reject receiver why =
     settle_link (\<lambda>message. RejectMessage receiver message ''amqp:precondition-failed'' why)"

definition library_release :: "'w library_receiver \<Rightarrow> string \<Rightarrow> 'w linked \<Rightarrow> 'w linked \<times> string option" where
  "library_release receiver = settle_link (ReleaseMessage receiver)"

definition library_modify ::
  "'w library_receiver \<Rightarrow> Change \<Rightarrow> string \<Rightarrow> 'w linked \<Rightarrow> 'w linked \<times> string option" where
  "library_modify receiver change =
     settle_link (\<lambda>message. ModifyMessage receiver message (DeliveryFailed change) (UndeliverableHere change)
                             (Annotations (change_Annotations change)))"

definition library_receiver_link ::
  "property_library \<Rightarrow> library_errors \<Rightarrow> 'w library_receiver \<Rightarrow> string \<Rightarrow> 'w linked ReceiverLink" where
  "library_receiver_link lib errs receiver addr =
     \<lparr>link_Receive = library_receive lib errs receiver, receiver_Address = addr,
      link_Accept = library_accept receiver, link_Reject = (\<lambda>tag why. library_reject receiver why tag),
      link_Release = library_release receiver, link_Modify = (\<lambda>tag change. library_modify receiver change tag),
      receiver_Detach = (\<lambda>st. map_prod (\<lambda>w. (w, snd st)) (\<lambda>err. err) (library_Close receiver (fst st)))\<rparr>"

definition ignoreClosed :: "library_errors \<Rightarrow> string option \<Rightarrow> string option" where
  "ignoreClosed errs err =
     (case err of
        None \<Rightarrow> None
      | Some e \<Rightarrow> if is_ConnError errs e \<or> is_SessionError errs e \<or> is_LinkError errs e then None else Some e)"

section \<open>The lifetime\<close>

type_synonym ('w, 'x) acquire_release =
  "('w, Fault, 'x) fx \<Rightarrow> ('x \<Rightarrow> 'w \<Rightarrow> 'w \<times> string option) \<Rightarrow> ('w, Fault, 'x) fx"

record 'w library_session =
  NewSender :: "string \<Rightarrow> 'w \<Rightarrow> 'w \<times> (string, 'w library_sender) result"
  NewReceiver :: "string \<Rightarrow> 32 word \<Rightarrow> 'w \<Rightarrow> 'w \<times> (string, 'w library_receiver) result"
  close_session :: "'w \<Rightarrow> 'w \<times> string option"

record 'w library_connection =
  NewSession :: "'w \<Rightarrow> 'w \<times> (string, 'w library_session) result"
  close_connection :: "'w \<Rightarrow> 'w \<times> string option"

text \<open>A release closes what was acquired and does not mind that it was closed already.\<close>

definition released_by ::
  "library_errors \<Rightarrow> ('x \<Rightarrow> 'w \<Rightarrow> 'w \<times> string option) \<Rightarrow> 'x \<Rightarrow> 'w \<Rightarrow> 'w \<times> string option" where
  "released_by errs close x w = map_prod (\<lambda>w. w) (ignoreClosed errs) (close x w)"

definition Connect ::
  "('w, 'w library_connection) acquire_release \<Rightarrow> library_errors \<Rightarrow>
     (string \<Rightarrow> 'opt \<Rightarrow> 'w \<Rightarrow> 'w \<times> (string, 'w library_connection) result) \<Rightarrow> string \<Rightarrow> 'opt \<Rightarrow>
     ('w, Fault, 'w library_connection) fx" where
  "Connect AcquireRelease errs dial addr options =
     AcquireRelease (try_fx (dial addr options) (faultOf ''connect'' addr)) (released_by errs close_connection)"

definition open_session ::
  "('w, 'w library_session) acquire_release \<Rightarrow> library_errors \<Rightarrow> 'w library_connection \<Rightarrow>
     ('w, Fault, 'w library_session) fx" where
  "open_session AcquireRelease errs connection =
     AcquireRelease (try_fx (NewSession connection) (faultOf ''open a session'' [])) (released_by errs close_session)"

definition attach_sender ::
  "('w, 'w SenderLink) acquire_release \<Rightarrow> library_errors \<Rightarrow> 'w library_session \<Rightarrow> string \<Rightarrow>
     ('w, Fault, 'w SenderLink) fx" where
  "attach_sender AcquireRelease errs session addr =
     AcquireRelease
       (try_fx (\<lambda>w. map_prod (\<lambda>w. w) (map_sum (\<lambda>err. err) (\<lambda>s. library_sender_link s addr)) (NewSender session addr w))
          (faultOf ''attach a sender'' addr))
       (released_by errs sender_Detach)"

text \<open>A receiver link begins with nothing unsettled, beside the state the library attached it in.\<close>

definition newReceiverLink ::
  "property_library \<Rightarrow> library_errors \<Rightarrow> 'w library_receiver \<Rightarrow> string \<Rightarrow> 'w \<Rightarrow> 'w linked \<times> 'w linked ReceiverLink" where
  "newReceiverLink lib errs receiver addr w = ((w, Map.empty), library_receiver_link lib errs receiver addr)"

definition attach_receiver ::
  "('w linked, 'w linked ReceiverLink) acquire_release \<Rightarrow> property_library \<Rightarrow> library_errors \<Rightarrow>
     'w library_session \<Rightarrow> string \<Rightarrow> 32 word \<Rightarrow> ('w linked, Fault, 'w linked ReceiverLink) fx" where
  "attach_receiver AcquireRelease lib errs session addr credit =
     AcquireRelease
       (try_fx (\<lambda>st. case NewReceiver session addr credit (fst st) of
                   (w', Inl err) \<Rightarrow> ((w', snd st), Inl err)
                 | (w', Inr r) \<Rightarrow> map_prod (\<lambda>st. st) Inr (newReceiverLink lib errs r addr w'))
          (faultOf ''attach a receiver'' addr))
       (released_by errs receiver_Detach)"

section \<open>A link settles a delivery once\<close>

lemma settle_link_owed:
  "snd st tag = Some message \<Longrightarrow> snd (fst (settle_link disposition tag st)) = (snd st)(tag := None)"
  by (simp add: settle_link_def Let_def)

lemma settle_link_unowed: "snd st tag = None \<Longrightarrow> settle_link disposition tag st = (st, Some errUnknownTag)"
proof -
  assume none: "snd st tag = None"
  then have "(snd st)(tag := None) = snd st" by auto
  with none show ?thesis by (simp add: settle_link_def Let_def)
qed

interpretation linked_accepting: settling snd "library_accept receiver" errUnknownTag for receiver :: "'w library_receiver"
  by unfold_locales (simp_all only: library_accept_def settle_link_owed settle_link_unowed)

interpretation linked_rejecting: settling snd "library_reject receiver why" errUnknownTag
  for receiver :: "'w library_receiver" and why
  by unfold_locales (simp_all only: library_reject_def settle_link_owed settle_link_unowed)

interpretation linked_releasing: settling snd "library_release receiver" errUnknownTag for receiver :: "'w library_receiver"
  by unfold_locales (simp_all only: library_release_def settle_link_owed settle_link_unowed)

interpretation linked_modifying: settling snd "library_modify receiver change" errUnknownTag
  for receiver :: "'w library_receiver" and change
  by unfold_locales (simp_all only: library_modify_def settle_link_owed settle_link_unowed)

text \<open>C27: A receiver link asks the broker for one disposition of a delivery at most: after any of the four,
even one the broker refused, every further disposition of the tag is refused by the link itself
and neither the broker nor what else is unsettled hears of it.\<close>

theorem link_disposes_once:
  assumes "first \<in> {library_accept r tag, library_reject r why tag, library_release r tag, library_modify r change tag}"
    and "second \<in> {library_accept r tag, library_reject r why' tag, library_release r tag, library_modify r change' tag}"
  shows "second (fst (first st)) = (fst (first st), Some errUnknownTag) \<and>
     snd (fst (first st)) = (snd st)(tag := None)"
proof -
  have forgotten: "snd (fst (settle_link f tag st)) = (snd st)(tag := None)" for f
    using settle_link_owed [of st tag _ f] settle_link_unowed [of st tag f] by (cases "snd st tag") auto
  then have first: "snd (fst (first st)) = (snd st)(tag := None)"
    using assms(1) by (auto simp: library_accept_def library_reject_def library_release_def library_modify_def)
  then have "snd (fst (first st)) tag = None" by simp
  with first assms(2) show ?thesis
    using linked_accepting.settle_unowed linked_rejecting.settle_unowed linked_releasing.settle_unowed
      linked_modifying.settle_unowed by blast
qed

text \<open>A receiver that counts what it is asked and refuses every disposition.\<close>

definition refusing_receiver :: "nat library_receiver" where
  "refusing_receiver =
     \<lparr>library_Receive = (\<lambda>n. (n, Inl ''gone'')), AcceptMessage = (\<lambda>_ n. (Suc n, Some ''refused'')),
      RejectMessage = (\<lambda>_ _ _ n. (Suc n, Some ''refused'')), ReleaseMessage = (\<lambda>_ n. (Suc n, Some ''refused'')),
      ModifyMessage = (\<lambda>_ _ _ _ n. (Suc n, Some ''refused'')), library_Close = (\<lambda>n. (n, None))\<rparr>"

theorem link_disposes_once_witness:
  "let st = (0, [''t'' \<mapsto> brokerMessage example_message, ''u'' \<mapsto> brokerMessage example_message]);
       st' = fst (library_release refusing_receiver ''t'' st)
   in fst st' = 1 \<and> library_accept refusing_receiver ''t'' st' = (st', Some errUnknownTag)"
proof -
  let ?st = "(0, [''t'' \<mapsto> brokerMessage example_message, ''u'' \<mapsto> brokerMessage example_message])"
  have "fst (fst (library_release refusing_receiver ''t'' ?st)) = 1"
    by (simp add: library_release_def settle_link_def refusing_receiver_def)
  with link_disposes_once [of "library_release refusing_receiver ''t''" refusing_receiver "''t''" _ _
      "library_accept refusing_receiver ''t''" _ _ ?st] show ?thesis by (simp add: Let_def)
qed

section \<open>What is sent is received\<close>

definition schema_lawful :: "'a Schema \<Rightarrow> bool" where
  "schema_lawful shape \<longleftrightarrow> (\<forall>v d. EncodeJSON shape v = Inr d \<longrightarrow> DecodeJSON shape d = Inr v)"

lemma accept_in_process:
  "env_from envelope = in_process_receiver addr \<Longrightarrow>
   accept envelope st =
     (case Accept (del_Tag (env_Delivery envelope)) st of
        (st', None) \<Rightarrow> (st', Inr ())
      | (st', Some err) \<Rightarrow> (st', Inl (faultOf ''accept a message'' (del_Subject (env_Delivery envelope)) err)))"
  by (simp add: accept_def settleDelivery_def in_process_receiver_def try_fx_def only_error_def split: prod.split option.split)

text \<open>C25: A value sent to a node that is empty is the value its receiver reads: sending succeeds, the stream of
values gives one envelope that reads as the value, never attempted before, then ends; accepting
the envelope succeeds, and accepting it again is refused.\<close>

theorem sent_value_is_accepted_once:
  assumes "nodes b addr = Some []" and "\<not> s_detached out_link" and "s_address out_link = addr"
    and "\<not> r_detached in_link" and "r_address in_link = addr"
    and "schema_lawful shape" and "EncodeJSON shape v = Inr document"
  shows "\<exists>st1 st2 st3 envelope.
     SendValue (in_process_sender out_link) shape v (b, in_link) = (st1, Inr ()) \<and>
     Values (in_process_receiver addr) shape st1 = (st2, Inr (Emit [envelope])) \<and>
     env_Read envelope = Inr v \<and> Attempts (env_Delivery envelope) = 0 \<and>
     Values (in_process_receiver addr) shape st2 = (st2, Inr EndOfStream) \<and>
     accept envelope st2 = (st3, Inr ()) \<and>
     accept envelope st3 = (st3, Inl (faultOf ''accept a message'' [] errUnknownTag))"
proof -
  let ?d = "\<lparr>del_Body = document, del_ContentType = ''application/json'', del_Subject = [], del_Properties = [],
             del_Tag = delivery_tag addr (Suc (last_tag b)), Attempts = 0\<rparr>"
  let ?b1 = "b\<lparr>last_tag := Suc (last_tag b), nodes := (nodes b)(addr \<mapsto> [?d])\<rparr>"
  let ?st2 = "(?b1\<lparr>nodes := (nodes ?b1)(addr \<mapsto> [])\<rparr>, in_link\<lparr>unsettled := (unsettled in_link)(del_Tag ?d \<mapsto> ?d)\<rparr>)"
  let ?env = "decodeDelivery (in_process_receiver addr) ?d shape"
  let ?st3 = "fst (Accept (del_Tag ?d) ?st2)"
  have sent: "SendValue (in_process_sender out_link) shape v (b, in_link) = ((?b1, in_link), Inr ())"
    using assms(1-3) by (simp add: SendValue_def flat_map_def try_fx_def Encode_def assms(7) send_def
        in_process_sender_def Send_def Let_def)
  have "Receive False (?b1, in_link) = (?st2, Inr (Some ?d))" "Receive False ?st2 = (?st2, Inr None)"
    using assms(4,5) by (simp_all add: Receive_def)
  then have given: "Values (in_process_receiver addr) shape (?b1, in_link) = (?st2, Inr (Emit [?env]))"
    and over: "Values (in_process_receiver addr) shape ?st2 = (?st2, Inr EndOfStream)"
    by (simp_all add: Values_def map_stream_def flat_map_def receive_def in_process_receiver_def)
  have env: "env_Read ?env = Inr v" "env_Delivery ?env = ?d" "env_from ?env = in_process_receiver addr"
    using assms(6,7) by (simp_all add: decodeDelivery_def schema_lawful_def)
  have "Accept (del_Tag ?d) ?st2 = (?st3, None)" by (simp add: Accept_def settle_def)
  moreover have "Accept (del_Tag ?d) ?st3 = (?st3, Some errUnknownTag)" by (rule accepting.settle_once)
  ultimately have "accept ?env ?st2 = (?st3, Inr ())"
    "accept ?env ?st3 = (?st3, Inl (faultOf ''accept a message'' (del_Subject ?d) errUnknownTag))"
    unfolding accept_in_process [OF env(3)] env(2) by (auto split: prod.split)
  moreover have "Attempts (env_Delivery ?env) = 0" "del_Subject ?d = []" by (simp_all add: env(2))
  ultimately show ?thesis using sent given over env(1) by metis
qed

definition plain_shape :: "string Schema" where
  "plain_shape = \<lparr>EncodeJSON = (\<lambda>s. if s = [] then Inl ''empty'' else Inr s),
                  DecodeJSON = (\<lambda>s. if s = [] then Inl ''empty'' else Inr s)\<rparr>"

theorem sent_value_is_accepted_once_witness:
  "\<exists>st1 st2 envelope.
     SendValue (in_process_sender \<lparr>s_address = ''a'', s_detached = False\<rparr>) plain_shape ''v''
       (one_node, \<lparr>r_address = ''a'', unsettled = Map.empty, r_detached = False\<rparr>) = (st1, Inr ()) \<and>
     Values (in_process_receiver ''a'') plain_shape st1 = (st2, Inr (Emit [envelope])) \<and>
     env_Read envelope = Inr ''v''"
proof -
  have "schema_lawful plain_shape" by (auto simp: schema_lawful_def plain_shape_def split: if_splits)
  moreover have "nodes one_node ''a'' = Some []" by (simp add: one_node_def Declare_def NewBroker_def)
  ultimately show ?thesis
    using sent_value_is_accepted_once [of one_node "''a''" "\<lparr>s_address = ''a'', s_detached = False\<rparr>"
      "\<lparr>r_address = ''a'', unsettled = Map.empty, r_detached = False\<rparr>" plain_shape "''v''" "''v''"]
    by (auto simp: plain_shape_def)
qed

end
