(* ===== verification/Openapi_Project.thy ===== *)
theory Openapi_Project
  imports Web_Endpoint
begin

text \<open>
  Projecting route declarations into an OpenAPI document (\<open>openapi/document.go\<close>,
  \<open>openapi/project.go\<close>, \<open>openapi/project_operation.go\<close>).

  Shapes are another module's: \<open>'n\<close> is its type of projected schemas and \<open>projection\<close> what the
  source calls of it. The projection is given every shape of every declaration at once and
  answers with as many schemas; a cursor hands them out in the order they were collected.
  Taking one past the end is an index out of range in Go, a failure here. The result is that
  the cursor never gets there and each operation gets the schemas of its own shapes.

  A Go string is the list of its bytes. Methods are ASCII, for which lowering a letter is
  what \<open>strings.ToLower\<close> does; raising the first byte of a segment is written out for all.
\<close>

section \<open>The document\<close>

record Info =
  info_Title :: string
  info_Version :: string
  info_Description :: string

record Server =
  server_URL :: string
  server_Description :: string

record 'n Param =
  par_Name :: string
  par_In :: string
  par_Required :: bool
  par_Description :: string
  par_Schema :: 'n

record 'n RequestBody =
  body_Required :: bool
  body_MediaType :: string
  body_Schema :: 'n

record 'n Answer =
  ans_Status :: int
  ans_Description :: string
  ans_MediaType :: string
  ans_Schema :: "'n option"

record 'n Operation =
  op_Method :: string
  op_ID :: string
  op_Summary :: string
  op_Description :: string
  op_Parameters :: "'n Param list"
  op_RequestBody :: "'n RequestBody option"
  op_Responses :: "'n Answer list"

record 'n Path =
  path_Path :: string
  path_Operations :: "'n Operation list"

record 'n Document =
  doc_Info :: Info
  doc_Servers :: "Server list"
  doc_Paths :: "'n Path list"
  doc_Components :: "(string \<times> 'n) list"

definition ComponentPointer :: "string \<Rightarrow> string" where
  "ComponentPointer name = ''#/components/schemas/'' @ name"

text \<open>The schema module's part: \<open>ProjectAllWithPointer\<close> and the node of a string.\<close>

record 'n projection =
  ProjectAll :: "(string \<Rightarrow> string) \<Rightarrow> Node option list \<Rightarrow> 'n list \<times> (string \<times> 'n) list"
  string_node :: 'n

section \<open>Collecting\<close>

record entry =
  entry_declaration :: Declaration
  entry_parameters :: nat
  hasEntity :: bool
  hasContent :: bool

record collection =
  coll_declarations :: "entry list"
  coll_nodes :: "Node option list"

definition described :: "Content option \<Rightarrow> bool" where
  "described c = (case c of None \<Rightarrow> False | Some x \<Rightarrow> content_Node x \<noteq> None)"

definition content_shape :: "Content option \<Rightarrow> Node option" where
  "content_shape c = (case c of None \<Rightarrow> None | Some x \<Rightarrow> content_Node x)"

definition gather_one :: "collection \<Rightarrow> Declaration \<Rightarrow> collection" where
  "gather_one inventory decl =
     (let contribution = \<lparr>entry_declaration = decl, entry_parameters = length (Parameters decl),
            hasEntity = described (decl_Entity decl), hasContent = described (decl_Content decl)\<rparr>;
          nodes = coll_nodes inventory @ map param_Node (Parameters decl);
          nodes = (if hasEntity contribution then nodes @ [content_shape (decl_Entity decl)] else nodes);
          nodes = (if hasContent contribution then nodes @ [content_shape (decl_Content decl)] else nodes)
      in \<lparr>coll_declarations = coll_declarations inventory @ [contribution], coll_nodes = nodes\<rparr>)"

definition gather :: "Declaration list \<Rightarrow> collection" where
  "gather decls = foldl gather_one \<lparr>coll_declarations = [], coll_nodes = []\<rparr> decls"

text \<open>What is left of the schemas is the state of the cursor.\<close>

definition next_shape :: "'n list \<Rightarrow> ('n \<times> 'n list) option" where
  "next_shape shapes = (case shapes of [] \<Rightarrow> None | n # rest \<Rightarrow> Some (n, rest))"

section \<open>Paths and names\<close>

definition Trim :: "string \<Rightarrow> string \<Rightarrow> string" where
  "Trim s cutset =
     rev (dropWhile (\<lambda>c. c \<in> set cutset) (rev (dropWhile (\<lambda>c. c \<in> set cutset) s)))"

definition captures_segment :: "string \<Rightarrow> bool" where
  "captures_segment part \<longleftrightarrow> HasPrefix part ''{'' \<and> HasSuffix part ''}''"

definition captured_name :: "string \<Rightarrow> string" where
  "captured_name part = TrimSuffix (Trim part ''{}'') ''...''"

definition templateParameters :: "string \<Rightarrow> string list" where
  "templateParameters path = map captured_name (filter captures_segment (split_on (CHR ''/'') path))"

definition templatePath :: "string \<Rightarrow> string" where
  "templatePath path =
     join ''/'' (map (\<lambda>part. if captures_segment part then ''{'' @ captured_name part @ ''}'' else part)
                   (split_on (CHR ''/'') path))"

text \<open>\<open>strings.ToUpper\<close> of one byte: a byte that is no ASCII character is no text by itself and
becomes the replacement character.\<close>

definition upper_byte :: "char \<Rightarrow> string" where
  "upper_byte c = (if byte c < 128 then [to_upper c] else [char_of (239 :: nat), char_of (191 :: nat), char_of (189 :: nat)])"

definition capitalise :: "string \<Rightarrow> string" where
  "capitalise word = (case word of [] \<Rightarrow> [] | c # rest \<Rightarrow> upper_byte c @ rest)"

definition ToLower :: "string \<Rightarrow> string" where
  "ToLower s = map to_lower s"

definition identify_part :: "string \<Rightarrow> string" where
  "identify_part part =
     (if part = [] then []
      else if HasPrefix part ''{'' then ''By'' @ capitalise (Trim part ''{}.'')
      else capitalise part)"

definition identify :: "Declaration \<Rightarrow> string" where
  "identify decl =
     ToLower (decl_Method decl) @
     concat (map identify_part (split_on (CHR ''/'') (TrimPrefix (decl_Path decl) ''/'')))"

section \<open>Operations\<close>

fun parameters_of :: "Parameter list \<Rightarrow> 'n list \<Rightarrow> ('n Param list \<times> 'n list) option" where
  "parameters_of [] shapes = Some ([], shapes)"
| "parameters_of (p # ps) shapes =
     (case next_shape shapes of
        None \<Rightarrow> None
      | Some (n, rest) \<Rightarrow>
          (case parameters_of ps rest of
             None \<Rightarrow> None
           | Some (qs, rest') \<Rightarrow>
               Some (\<lparr>par_Name = param_Name p, par_In = In p, par_Required = Required p,
                      par_Description = param_Description p, par_Schema = n\<rparr> # qs, rest')))"

definition withPathTemplate :: "'n projection \<Rightarrow> Declaration \<Rightarrow> 'n Param list \<Rightarrow> 'n Param list" where
  "withPathTemplate proj decl list =
     list @ map (\<lambda>name. \<lparr>par_Name = name, par_In = InPath, par_Required = True, par_Description = [],
                          par_Schema = string_node proj\<rparr>)
              (filter (\<lambda>name. \<not> list_ex (\<lambda>p. par_In p = InPath \<and> par_Name p = name) list)
                 (templateParameters (decl_Path decl)))"

definition requestBody :: "entry \<Rightarrow> 'n list \<Rightarrow> ('n RequestBody option \<times> 'n list) option" where
  "requestBody endpoint shapes =
     (if \<not> hasEntity endpoint then Some (None, shapes)
      else (case next_shape shapes of
              None \<Rightarrow> None
            | Some (n, rest) \<Rightarrow>
                Some (Some \<lparr>body_Required = True,
                            body_MediaType = (case decl_Entity (entry_declaration endpoint) of
                                                None \<Rightarrow> [] | Some c \<Rightarrow> MediaType c),
                            body_Schema = n\<rparr>, rest)))"

text \<open>\<open>http.StatusText\<close>, with nothing for a status it does not know.\<close>

definition status_texts :: "(int \<times> string) list" where
  "status_texts =
    [(100, ''Continue''), (101, ''Switching Protocols''), (102, ''Processing''), 
     (103, ''Early Hints''), (200, ''OK''), (201, ''Created''), (202, ''Accepted''), 
     (203, ''Non-Authoritative Information''), (204, ''No Content''), (205, ''Reset Content''), 
     (206, ''Partial Content''), (207, ''Multi-Status''), (208, ''Already Reported''), 
     (226, ''IM Used''), (300, ''Multiple Choices''), (301, ''Moved Permanently''), 
     (302, ''Found''), (303, ''See Other''), (304, ''Not Modified''), (305, ''Use Proxy''), 
     (307, ''Temporary Redirect''), (308, ''Permanent Redirect''), (400, ''Bad Request''), 
     (401, ''Unauthorized''), (402, ''Payment Required''), (403, ''Forbidden''), 
     (404, ''Not Found''), (405, ''Method Not Allowed''), (406, ''Not Acceptable''), 
     (407, ''Proxy Authentication Required''), (408, ''Request Timeout''), (409, ''Conflict''), 
     (410, ''Gone''), (411, ''Length Required''), (412, ''Precondition Failed''), 
     (413, ''Request Entity Too Large''), (414, ''Request URI Too Long''), 
     (415, ''Unsupported Media Type''), (416, ''Requested Range Not Satisfiable''), 
     (417, ''Expectation Failed''), (418, ''I'' @ [CHR 0x27] @ ''m a teapot''), 
     (421, ''Misdirected Request''), (422, ''Unprocessable Entity''), (423, ''Locked''), 
     (424, ''Failed Dependency''), (425, ''Too Early''), (426, ''Upgrade Required''), 
     (428, ''Precondition Required''), (429, ''Too Many Requests''), 
     (431, ''Request Header Fields Too Large''), (451, ''Unavailable For Legal Reasons''), 
     (500, ''Internal Server Error''), (501, ''Not Implemented''), (502, ''Bad Gateway''), 
     (503, ''Service Unavailable''), (504, ''Gateway Timeout''), 
     (505, ''HTTP Version Not Supported''), (506, ''Variant Also Negotiates''), 
     (507, ''Insufficient Storage''), (508, ''Loop Detected''), (510, ''Not Extended''), 
     (511, ''Network Authentication Required'')]"

definition StatusText :: "int \<Rightarrow> string" where
  "StatusText code = (case map_of status_texts code of None \<Rightarrow> [] | Some t \<Rightarrow> t)"

definition responseDescription :: "int \<Rightarrow> string \<Rightarrow> string" where
  "responseDescription code given_doc =
     (if given_doc \<noteq> [] then given_doc
      else if StatusText code \<noteq> [] then StatusText code
      else ''Response'')"

definition success :: "entry \<Rightarrow> 'n list \<Rightarrow> ('n Answer \<times> 'n list) option" where
  "success endpoint shapes =
     (let decl = entry_declaration endpoint;
          response = \<lparr>ans_Status = decl_Status decl,
                      ans_Description = responseDescription (decl_Status decl) [],
                      ans_MediaType = (case decl_Content decl of None \<Rightarrow> [] | Some c \<Rightarrow> MediaType c),
                      ans_Schema = None\<rparr>
      in if \<not> hasContent endpoint then Some (response, shapes)
         else (case next_shape shapes of
                 None \<Rightarrow> None
               | Some (n, rest) \<Rightarrow> Some (response\<lparr>ans_Schema := Some n\<rparr>, rest)))"

definition documented :: "int \<Rightarrow> string \<Rightarrow> 'n Answer" where
  "documented code given_doc =
     \<lparr>ans_Status = code, ans_Description = responseDescription code given_doc, ans_MediaType = [],
      ans_Schema = None\<rparr>"

definition responses :: "entry \<Rightarrow> 'n list \<Rightarrow> ('n Answer list \<times> 'n list) option" where
  "responses endpoint shapes =
     (let decl = entry_declaration endpoint in
      case success endpoint shapes of
        None \<Rightarrow> None
      | Some (first, rest) \<Rightarrow>
          Some (sort_key ans_Status
                  (first #
                   map (\<lambda>a. documented (alternative_Status a) (alternative_Description a)) (Alternatives decl) @
                   map (\<lambda>f. documented (failure_Status f) (failure_Description f)) (Failures decl)), rest))"

text \<open>The parts of an operation are built in the order Go evaluates them in.\<close>

definition operation :: "'n projection \<Rightarrow> entry \<Rightarrow> 'n list \<Rightarrow> ('n Operation \<times> 'n list) option" where
  "operation proj endpoint shapes =
     (let decl = entry_declaration endpoint in
      case parameters_of (take (entry_parameters endpoint) (Parameters decl)) shapes of
        None \<Rightarrow> None
      | Some (ps, shapes1) \<Rightarrow>
          (case requestBody endpoint shapes1 of
             None \<Rightarrow> None
           | Some (body, shapes2) \<Rightarrow>
               (case responses endpoint shapes2 of
                  None \<Rightarrow> None
                | Some (answers, shapes3) \<Rightarrow>
                    Some (\<lparr>op_Method = decl_Method decl, op_ID = identify decl,
                           op_Summary = Summary decl, op_Description = Description decl,
                           op_Parameters = withPathTemplate proj decl ps,
                           op_RequestBody = body, op_Responses = answers\<rparr>, shapes3))))"

section \<open>Assembling\<close>

fun add_operation :: "string \<Rightarrow> 'n Operation \<Rightarrow> 'n Path list \<Rightarrow> 'n Path list" where
  "add_operation path op [] = [\<lparr>path_Path = path, path_Operations = [op]\<rparr>]"
| "add_operation path op (p # ps) =
     (if path_Path p = path then p\<lparr>path_Operations := path_Operations p @ [op]\<rparr> # ps
      else p # add_operation path op ps)"

fun assemble :: "'n projection \<Rightarrow> entry list \<Rightarrow> 'n list \<Rightarrow> 'n Path list \<Rightarrow> 'n Path list option" where
  "assemble proj [] shapes paths = Some paths"
| "assemble proj (endpoint # rest) shapes paths =
     (case operation proj endpoint shapes of
        None \<Rightarrow> None
      | Some (op, shapes') \<Rightarrow>
          assemble proj rest shapes'
            (add_operation (templatePath (decl_Path (entry_declaration endpoint))) op paths))"

definition Describe :: "'n projection \<Rightarrow> Info \<Rightarrow> Declaration list \<Rightarrow> Server list \<Rightarrow> 'n Document option" where
  "Describe proj info decls servers =
     (let inventory = gather decls in
      case ProjectAll proj ComponentPointer (coll_nodes inventory) of
        (schemas, components) \<Rightarrow>
          (case assemble proj (coll_declarations inventory) schemas [] of
             None \<Rightarrow> None
           | Some paths \<Rightarrow>
               Some \<lparr>doc_Info = info, doc_Servers = servers, doc_Paths = paths, doc_Components = components\<rparr>))"

section \<open>The projection without a cursor\<close>

text \<open>The shapes a declaration contributes, and its operation when each shape's schema is known.\<close>

definition shapes_of :: "Declaration \<Rightarrow> Node option list" where
  "shapes_of decl =
     map param_Node (Parameters decl) @
     (if described (decl_Entity decl) then [content_shape (decl_Entity decl)] else []) @
     (if described (decl_Content decl) then [content_shape (decl_Content decl)] else [])"

definition contribution :: "Declaration \<Rightarrow> entry" where
  "contribution decl =
     \<lparr>entry_declaration = decl, entry_parameters = length (Parameters decl),
      hasEntity = described (decl_Entity decl), hasContent = described (decl_Content decl)\<rparr>"

definition described_parameter :: "(Node option \<Rightarrow> 'n) \<Rightarrow> Parameter \<Rightarrow> 'n Param" where
  "described_parameter f p =
     \<lparr>par_Name = param_Name p, par_In = In p, par_Required = Required p,
      par_Description = param_Description p, par_Schema = f (param_Node p)\<rparr>"

definition described_body :: "(Node option \<Rightarrow> 'n) \<Rightarrow> Content option \<Rightarrow> 'n RequestBody option" where
  "described_body f c =
     (case c of None \<Rightarrow> None
      | Some x \<Rightarrow> if content_Node x = None then None
                 else Some \<lparr>body_Required = True, body_MediaType = MediaType x, body_Schema = f (content_Node x)\<rparr>)"

definition described_success :: "(Node option \<Rightarrow> 'n) \<Rightarrow> Declaration \<Rightarrow> 'n Answer" where
  "described_success f decl =
     \<lparr>ans_Status = decl_Status decl, ans_Description = responseDescription (decl_Status decl) [],
      ans_MediaType = (case decl_Content decl of None \<Rightarrow> [] | Some c \<Rightarrow> MediaType c),
      ans_Schema = (if described (decl_Content decl) then Some (f (content_shape (decl_Content decl))) else None)\<rparr>"

definition described_operation :: "'n projection \<Rightarrow> (Node option \<Rightarrow> 'n) \<Rightarrow> Declaration \<Rightarrow> 'n Operation" where
  "described_operation proj f decl =
     \<lparr>op_Method = decl_Method decl, op_ID = identify decl, op_Summary = Summary decl,
      op_Description = Description decl,
      op_Parameters = withPathTemplate proj decl (map (described_parameter f) (Parameters decl)),
      op_RequestBody = described_body f (decl_Entity decl),
      op_Responses = sort_key ans_Status
        (described_success f decl #
         map (\<lambda>a. documented (alternative_Status a) (alternative_Description a)) (Alternatives decl) @
         map (\<lambda>x. documented (failure_Status x) (failure_Description x)) (Failures decl))\<rparr>"

lemma gather_eq: "gather decls = \<lparr>coll_declarations = map contribution decls, coll_nodes = concat (map shapes_of decls)\<rparr>"
proof -
  have "gather_one inventory decl =
      \<lparr>coll_declarations = coll_declarations inventory @ [contribution decl],
       coll_nodes = coll_nodes inventory @ shapes_of decl\<rparr>" for inventory decl
    by (simp add: gather_one_def Let_def shapes_of_def contribution_def)
  then have "foldl gather_one inventory decls =
      \<lparr>coll_declarations = coll_declarations inventory @ map contribution decls,
       coll_nodes = coll_nodes inventory @ concat (map shapes_of decls)\<rparr>" for inventory
    by (induction decls arbitrary: inventory) simp_all
  then show ?thesis by (simp add: gather_def)
qed

lemma parameters_described:
  "parameters_of ps (map f (map param_Node ps) @ rest) = Some (map (described_parameter f) ps, rest)"
  by (induction ps) (simp_all add: next_shape_def described_parameter_def)

lemma operation_described:
  "operation proj (contribution decl) (map f (shapes_of decl) @ rest) = Some (described_operation proj f decl, rest)"
proof -
  let ?e = "if described (decl_Entity decl) then [f (content_shape (decl_Entity decl))] else []"
  let ?c = "if described (decl_Content decl) then [f (content_shape (decl_Content decl))] else []"
  have split: "map f (shapes_of decl) @ rest = map f (map param_Node (Parameters decl)) @ (?e @ ?c @ rest)"
    by (simp add: shapes_of_def)
  have body: "requestBody (contribution decl) (?e @ more) = Some (described_body f (decl_Entity decl), more)" for more
    by (auto simp: requestBody_def contribution_def described_def described_body_def content_shape_def
        next_shape_def split: option.splits)
  have succ: "success (contribution decl) (?c @ more) = Some (described_success f decl, more)" for more
    by (simp add: success_def contribution_def described_success_def next_shape_def Let_def)
  show ?thesis
    unfolding operation_def split
    using body [of "?c @ rest"] succ [of rest]
    by (simp add: contribution_def parameters_described [unfolded list.map_comp comp_def] responses_def Let_def
        described_operation_def comp_def)
qed

lemma assemble_described:
  "assemble proj (map contribution decls) (map f (concat (map shapes_of decls))) paths =
     Some (foldl (\<lambda>ps decl. add_operation (templatePath (decl_Path decl)) (described_operation proj f decl) ps)
             paths decls)"
proof (induction decls arbitrary: paths)
  case (Cons decl decls)
  have "map f (concat (map shapes_of (decl # decls))) = map f (shapes_of decl) @ map f (concat (map shapes_of decls))"
    by simp
  with Cons operation_described [of proj decl f] show ?case
    by (simp add: contribution_def)
qed simp

lemma Describe_eq:
  assumes "ProjectAll proj ComponentPointer (concat (map shapes_of decls)) =
             (map f (concat (map shapes_of decls)), components)"
  shows "Describe proj info decls servers =
           Some \<lparr>doc_Info = info, doc_Servers = servers,
                 doc_Paths = foldl (\<lambda>ps decl. add_operation (templatePath (decl_Path decl))
                                                (described_operation proj f decl) ps) [] decls,
                 doc_Components = components\<rparr>"
  using assms by (simp add: Describe_def gather_eq Let_def assemble_described)

section \<open>Paths\<close>

lemma add_operation_paths:
  "map path_Path (add_operation path op ps) =
     (if path \<in> set (map path_Path ps) then map path_Path ps else map path_Path ps @ [path])"
  by (induction ps) auto

lemma add_operation_distinct: "distinct (map path_Path ps) \<Longrightarrow> distinct (map path_Path (add_operation path op ps))"
  by (simp only: add_operation_paths) auto

text \<open>The operations of a document with the paths they are under.\<close>

definition operations_of :: "'n Path list \<Rightarrow> (string \<times> 'n Operation) multiset" where
  "operations_of ps = mset (concat (map (\<lambda>p. map (Pair (path_Path p)) (path_Operations p)) ps))"

lemma add_operation_operations: "operations_of (add_operation path op ps) = add_mset (path, op) (operations_of ps)"
  by (induction ps) (auto simp: operations_of_def)

definition document_paths :: "(Declaration \<Rightarrow> 'n Operation) \<Rightarrow> Declaration list \<Rightarrow> 'n Path list" where
  "document_paths g decls = foldl (\<lambda>ps decl. add_operation (templatePath (decl_Path decl)) (g decl) ps) [] decls"

lemma document_paths_ok:
  "distinct (map path_Path (document_paths g decls))"
  "operations_of (document_paths g decls) = mset (map (\<lambda>d. (templatePath (decl_Path d), g d)) decls)"
proof -
  have "distinct (map path_Path ps) \<Longrightarrow>
      distinct (map path_Path (foldl (\<lambda>ps d. add_operation (templatePath (decl_Path d)) (g d) ps) ps decls))" for ps
    by (induction decls arbitrary: ps) (simp_all add: add_operation_distinct)
  from this [of "[]"] show "distinct (map path_Path (document_paths g decls))" by (simp add: document_paths_def)
  have "operations_of (foldl (\<lambda>ps d. add_operation (templatePath (decl_Path d)) (g d) ps) ps decls) =
      operations_of ps + mset (map (\<lambda>d. (templatePath (decl_Path d), g d)) decls)" for ps
    by (induction decls arbitrary: ps) (simp_all add: add_operation_operations)
  from this [of "[]"]
  show "operations_of (document_paths g decls) = mset (map (\<lambda>d. (templatePath (decl_Path d), g d)) decls)"
    by (simp add: document_paths_def operations_of_def)
qed

section \<open>Templates\<close>

text \<open>A captured name that the projection writes as it is: no brace at either end.\<close>

definition clean_name :: "string \<Rightarrow> bool" where
  "clean_name name \<longleftrightarrow> \<not> ContainsAny name ''{}''"

lemma Trim_braces:
  assumes "name \<noteq> []" and "clean_name name"
  shows "Trim (''{'' @ name @ ''}'') ''{}'' = name"
proof -
  have out: "c \<noteq> CHR ''{'' \<and> c \<noteq> CHR ''}''" if "c \<in> set name" for c
    using assms(2) that by (auto simp: clean_name_def ContainsAny_def)
  obtain c cs where name: "name = c # cs" using assms(1) by (cases name) auto
  obtain l d where last: "name = l @ [d]" using assms(1) by (cases name rule: rev_cases) auto
  have "dropWhile (\<lambda>c. c \<in> set ''{}'') (''{'' @ name @ ''}'') = name @ ''}''"
    using out [of c] by (simp add: name)
  moreover have "dropWhile (\<lambda>c. c \<in> set ''{}'') (rev (name @ ''}'')) = rev name"
    using out [of d] by (simp add: last)
  ultimately show ?thesis unfolding Trim_def by simp
qed

lemma captured_name_capture:
  assumes "name \<noteq> []" and "clean_name name" and "\<not> HasSuffix name ''...''"
  shows "captured_name (''{'' @ name @ ''}'') = name"
  using assms Trim_braces [OF assms(1,2)] by (simp add: captured_name_def TrimSuffix_def)

lemma captured_name_wildcard:
  assumes "name \<noteq> []" and "clean_name name"
  shows "captured_name (''{'' @ name @ ''...}'') = name"
proof -
  have "clean_name (name @ ''...'')" using assms(2) by (auto simp: clean_name_def ContainsAny_def)
  from Trim_braces [OF _ this] have "Trim (''{'' @ name @ ''...}'') ''{}'' = name @ ''...''" by simp
  then show ?thesis using TrimSuffix_append [of name "''...''"] by (simp add: captured_name_def)
qed

lemma captures_segment_brace: "captures_segment (CHR ''{'' # name @ ''}'')"
  using HasSuffix_snoc [of "CHR ''{'' # name" "CHR ''}''" "CHR ''}''"] by (simp add: captures_segment_def)

lemma captures_segment_render:
  assumes "wf_segment s"
  shows "captures_segment (renderSegment s) \<longleftrightarrow> kind s \<noteq> literalSegment"
proof (cases "kind s")
  case literalSegment
  with assms have "CHR ''{'' \<notin> set (seg_text s)" by (auto simp: wf_segment_def ContainsAny_def)
  with literalSegment show ?thesis
    by (cases "seg_text s") (auto simp: captures_segment_def)
next
  case captureSegment
  with captures_segment_brace [of "seg_text s"] show ?thesis by simp
next
  case wildcardSegment
  with captures_segment_brace [of "seg_text s @ ''...''"] show ?thesis by simp
qed

lemma captured_name_render:
  "wf_segment s \<Longrightarrow> kind s \<noteq> literalSegment \<Longrightarrow> clean_name (seg_text s) \<Longrightarrow>
   captured_name (renderSegment s) = seg_text s"
  by (cases "kind s")
    (auto simp: wf_segment_def intro!: captured_name_capture [simplified] captured_name_wildcard [simplified])

text \<open>How a segment is written in a document.\<close>

definition template_segment :: "segment \<Rightarrow> string" where
  "template_segment s = (if kind s = literalSegment then seg_text s else ''{'' @ seg_text s @ ''}'')"

lemma split_rendered:
  assumes "wf_segments segs"
  shows "split_on (CHR ''/'') (renderPattern segs) = [] # map renderSegment segs"
proof -
  have "split_on (CHR ''/'') (renderPattern segs) = [] # split_on (CHR ''/'') (join ''/'' (map renderSegment segs))"
    by (simp add: renderPattern_def)
  also have "split_on (CHR ''/'') (join ''/'' (map renderSegment segs)) = map renderSegment segs"
    using assms renderSegment_no_slash by (intro split_on_join) (auto simp: wf_segments_def)
  finally show ?thesis .
qed

lemma templateParameters_rendered:
  assumes "wf_segments segs" and "list_all clean_name (capture_names segs)"
  shows "templateParameters (renderPattern segs) = capture_names segs"
proof -
  have wf: "wf_segment s" if "s \<in> set segs" for s using assms(1) that by (simp add: wf_segments_def)
  have clean: "clean_name (seg_text s)" if "s \<in> set segs" "kind s \<noteq> literalSegment" for s
    using assms(2) that by (auto simp: capture_names_def list_all_iff)
  have "map captured_name (filter captures_segment (map renderSegment segs)) = capture_names segs"
    using wf clean unfolding capture_names_def
    by (induction segs) (auto simp: captures_segment_render captured_name_render)
  moreover have "\<not> captures_segment []" by (simp add: captures_segment_def)
  ultimately show ?thesis by (simp add: templateParameters_def split_rendered [OF assms(1)])
qed

lemma templatePath_rendered:
  assumes "wf_segments segs" and "list_all clean_name (capture_names segs)"
  shows "templatePath (renderPattern segs) = ''/'' @ join ''/'' (map template_segment segs)"
proof -
  have wf: "wf_segment s" if "s \<in> set segs" for s using assms(1) that by (simp add: wf_segments_def)
  have clean: "clean_name (seg_text s)" if "s \<in> set segs" "kind s \<noteq> literalSegment" for s
    using assms(2) that by (auto simp: capture_names_def list_all_iff)
  have each: "(if captures_segment (renderSegment s) then ''{'' @ captured_name (renderSegment s) @ ''}''
      else renderSegment s) = template_segment s" if "s \<in> set segs" for s
    using wf [OF that] clean [OF that]
    by (simp add: captures_segment_render captured_name_render template_segment_def)
  have "segs \<noteq> []" using assms(1) by (simp add: wf_segments_def)
  moreover have "\<not> captures_segment []" by (simp add: captures_segment_def)
  ultimately show ?thesis
    using each by (simp add: templatePath_def split_rendered [OF assms(1)] join_Cons comp_def cong: map_cong)
qed

lemma withPathTemplate_names:
  "set (map par_Name (filter (\<lambda>p. par_In p = InPath) (withPathTemplate proj decl list))) =
     set (map par_Name (filter (\<lambda>p. par_In p = InPath) list)) \<union> set (templateParameters (decl_Path decl))"
  by (auto simp: withPathTemplate_def list_ex_iff image_iff)

section \<open>What the projection promises\<close>

text \<open>C24: A document describes every declared route once, under its path template, each operation with the
schemas of its own shapes, and has one entry per path: the cursor never runs past the schemas and
never falls out of step.\<close>

theorem document_describes_every_route:
  assumes "ProjectAll proj ComponentPointer (concat (map shapes_of decls)) =
             (map f (concat (map shapes_of decls)), components)"
  shows "\<exists>document. Describe proj info decls servers = Some document \<and>
           distinct (map path_Path (doc_Paths document)) \<and>
           operations_of (doc_Paths document) =
             mset (map (\<lambda>decl. (templatePath (decl_Path decl), described_operation proj f decl)) decls)"
  using Describe_eq [OF assms, of info servers] document_paths_ok [of "described_operation proj f" decls]
  by (simp add: document_paths_def)

definition plain_projection :: "string projection" where
  "plain_projection = \<lparr>ProjectAll = (\<lambda>_ shapes. (map (\<lambda>_. ''shape'') shapes, [])), string_node = ''string''\<rparr>"

definition example_endpoint_at :: "string \<Rightarrow> (string, string) Endpoint" where
  "example_endpoint_at path =
     Declare ''GET'' path (PathParam plain_library ''id'' verbatim) (Returns 200 verbatim)"

theorem document_describes_every_route_witness:
  "\<exists>document. Describe plain_projection \<lparr>info_Title = ''t'', info_Version = ''1'', info_Description = []\<rparr>
       [endpoint_Declaration (example_endpoint_at ''/a/{id}''), endpoint_Declaration (example_endpoint_at ''/b/{id}'')]
       [] = Some document \<and>
     distinct (map path_Path (doc_Paths document)) \<and> size (operations_of (doc_Paths document)) = 2"
  using document_describes_every_route [of plain_projection
      "[endpoint_Declaration (example_endpoint_at ''/a/{id}''), endpoint_Declaration (example_endpoint_at ''/b/{id}'')]"
      "\<lambda>_. ''shape''" "[]" "\<lparr>info_Title = ''t'', info_Version = ''1'', info_Description = []\<rparr>" "[]"]
  by (auto simp: plain_projection_def)

text \<open>The operation of a usable endpoint declares the parameters its path template names and no other
path parameter, whether or not a codec reads them, where no captured name has a brace in it.\<close>

theorem operation_declares_its_template:
  assumes "ValidateEndpoint (Declare method path inp outp) = None"
    and "parsePattern path = Inr segs" and "list_all clean_name (capture_names segs)"
  shows "set (map par_Name (filter (\<lambda>p. par_In p = InPath)
           (op_Parameters (described_operation proj f (endpoint_Declaration (Declare method path inp outp)))))) =
         set (capture_names segs)"
proof -
  let ?decl = "endpoint_Declaration (Declare method path inp outp)"
  have segs: "wf_segments segs" "path = renderPattern segs" using assms(2) by (simp_all add: parsePattern_iff)
  from assms(1) obtain segs' where segs': "wf_segments segs'" "path = renderPattern segs'"
    "\<forall>p \<in> set (parameters inp). In p = InPath \<longrightarrow> param_Name p \<in> set (capture_names segs')"
    unfolding Declare_valid by blast
  with segs have "segs' = segs" using renderPattern_inject by blast
  then have declared: "set (map par_Name (filter (\<lambda>p. par_In p = InPath)
      (map (described_parameter f) (parameters inp)))) \<subseteq> set (capture_names segs)"
    using segs'(3) by (auto simp: described_parameter_def)
  have "Parameters ?decl = parameters inp" by (simp add: endpoint_Declaration_def)
  moreover have "templateParameters (decl_Path ?decl) = capture_names segs"
    using Declare_path [OF assms(1)] templateParameters_rendered [OF segs(1) assms(3)] segs(2) by simp
  ultimately show ?thesis
    using declared by (simp only: described_operation_def Operation.select_convs withPathTemplate_names) auto
qed

lemma example_endpoint_usable:
  assumes "wf_segments segs" and "''id'' \<in> set (capture_names segs)"
  shows "ValidateEndpoint (example_endpoint_at (renderPattern segs)) = None"
proof -
  have "parameterFault ''id'' verbatim = None" by (simp add: parameterFault_def TrimSpace_visible)
  then show ?thesis
    unfolding example_endpoint_at_def Declare_valid using assms
    by (intro exI [of _ segs])
      (simp add: PathParam_def requiredParameter_def ValidateCodec_def Let_def Returns_def)
qed

theorem operation_declares_its_template_witness:
  "set (map par_Name (filter (\<lambda>p. par_In p = InPath)
     (op_Parameters (described_operation plain_projection (\<lambda>_. ''shape'')
        (endpoint_Declaration (example_endpoint_at ''/{id}/{rest...}'')))))) = {''id'', ''rest''}"
proof -
  let ?segs = "[capturing ''id'', wild ''rest'']"
  have segs: "wf_segments ?segs" "renderPattern ?segs = ''/{id}/{rest...}''" "capture_names ?segs = [''id'', ''rest'']"
    by code_simp+
  then have "parsePattern ''/{id}/{rest...}'' = Inr ?segs" by (simp add: parsePattern_iff)
  moreover have "list_all clean_name (capture_names ?segs)" by code_simp
  moreover have "ValidateEndpoint (example_endpoint_at ''/{id}/{rest...}'') = None"
    using example_endpoint_usable [OF segs(1)] segs(2,3) by simp
  ultimately show ?thesis
    using operation_declares_its_template [of "''GET''" "''/{id}/{rest...}''" _ _ ?segs plain_projection "\<lambda>_. ''shape''"]
      segs(3) unfolding example_endpoint_at_def by simp
qed

end
