(* ===== verification/Openapi_Render.thy ===== *)
theory Openapi_Render
  imports Openapi_Project
begin

text \<open>
  Rendering a document (\<open>openapi/render.go\<close>, \<open>openapi/render_operation.go\<close>).

  The writers are the source's, one after another on an encoder that each may fail on. The
  encoder is \<open>encoding/json/jsontext\<close>'s: it keeps the objects and arrays that are open, and
  refuses a value where a name is due, a name already used in the object, an ending that does
  not fit, and text that is not UTF-8; its output is the sequence of tokens, of which the
  bytes are a function. Whether text and a rendered shape are valid, and the rendering of a
  shape, are parameters.

  The result is a refinement: \<open>Render\<close> writes the document that \<open>document_json\<close> describes as a
  tree, and fails exactly when that tree has a name twice or a part that is not valid.
\<close>

section \<open>The encoder\<close>

datatype token =
    BeginObject
  | EndObject
  | BeginArray
  | EndArray
  | TextToken string
  | BoolToken bool
  | RawValue string

datatype json_error =
    DuplicateName string
  | MissingName
  | MissingValue
  | MismatchedEnd
  | InvalidText string
  | NodeError string

text \<open>An open object has the names written so far and says whether a name awaits its value.\<close>

datatype frame = in_object "string list" bool | in_array

record encoder =
  open_frames :: "frame list"
  written :: "token list"

text \<open>What the encoder and the schema module decide by themselves.\<close>

record 'n rendering =
  text_ok :: "string \<Rightarrow> bool"
  raw_ok :: "string \<Rightarrow> bool"
  render_node :: "'n \<Rightarrow> (string, string) result"
  ComponentNames :: "(string \<times> 'n) list \<Rightarrow> string list"
  zero_node :: 'n

fun after_value :: "frame list \<Rightarrow> frame list" where
  "after_value (in_object names True # rest) = in_object names False # rest"
| "after_value frames = frames"

fun name_due :: "frame list \<Rightarrow> bool" where
  "name_due (in_object names False # rest) = True"
| "name_due frames = False"

definition emit :: "token \<Rightarrow> frame list \<Rightarrow> encoder \<Rightarrow> encoder" where
  "emit t frames e = \<lparr>open_frames = frames, written = written e @ [t]\<rparr>"

fun WriteToken :: "'n rendering \<Rightarrow> token \<Rightarrow> encoder \<Rightarrow> (json_error, encoder) result" where
  "WriteToken ops BeginObject e =
     (if name_due (open_frames e) then Inl MissingName
      else Inr (emit BeginObject (in_object [] False # open_frames e) e))"
| "WriteToken ops BeginArray e =
     (if name_due (open_frames e) then Inl MissingName
      else Inr (emit BeginArray (in_array # open_frames e) e))"
| "WriteToken ops EndObject e =
     (case open_frames e of
        in_object names False # rest \<Rightarrow> Inr (emit EndObject (after_value rest) e)
      | in_object names True # rest \<Rightarrow> Inl MissingValue
      | _ \<Rightarrow> Inl MismatchedEnd)"
| "WriteToken ops EndArray e =
     (case open_frames e of
        in_array # rest \<Rightarrow> Inr (emit EndArray (after_value rest) e)
      | _ \<Rightarrow> Inl MismatchedEnd)"
| "WriteToken ops (TextToken s) e =
     (if \<not> text_ok ops s then Inl (InvalidText s)
      else (case open_frames e of
              in_object names False # rest \<Rightarrow>
                if s \<in> set names then Inl (DuplicateName s)
                else Inr (emit (TextToken s) (in_object (names @ [s]) True # rest) e)
            | frames \<Rightarrow> Inr (emit (TextToken s) (after_value frames) e)))"
| "WriteToken ops (BoolToken b) e =
     (if name_due (open_frames e) then Inl MissingName
      else Inr (emit (BoolToken b) (after_value (open_frames e)) e))"
| "WriteToken ops (RawValue s) e =
     (if \<not> raw_ok ops s then Inl (InvalidText s)
      else if name_due (open_frames e) then Inl MissingName
      else Inr (emit (RawValue s) (after_value (open_frames e)) e))"

section \<open>Writers\<close>

type_synonym jwriter = "encoder \<Rightarrow> (json_error, encoder) result"

definition andThen :: "jwriter \<Rightarrow> jwriter \<Rightarrow> jwriter" where
  "andThen f g e = bind_result (f e) g"

definition nothing_written :: jwriter where
  "nothing_written e = Inr e"

primrec write_each :: "('a \<Rightarrow> jwriter) \<Rightarrow> 'a list \<Rightarrow> jwriter" where
  "write_each f [] = nothing_written"
| "write_each f (x # xs) = andThen (f x) (write_each f xs)"

definition json_begin :: "'n rendering \<Rightarrow> jwriter" where
  "json_begin ops = WriteToken ops BeginObject"

definition writeMember :: "'n rendering \<Rightarrow> string \<Rightarrow> jwriter" where
  "writeMember ops name = WriteToken ops (TextToken name)"

definition writeText :: "'n rendering \<Rightarrow> string \<Rightarrow> string \<Rightarrow> jwriter" where
  "writeText ops name value =
     (if value = [] then nothing_written
      else andThen (writeMember ops name) (WriteToken ops (TextToken value)))"

definition writeSchema :: "'n rendering \<Rightarrow> 'n \<Rightarrow> jwriter" where
  "writeSchema ops node e =
     (case render_node ops node of
        Inl err \<Rightarrow> Inl (NodeError err)
      | Inr value \<Rightarrow> WriteToken ops (RawValue value) e)"

definition writeContent :: "'n rendering \<Rightarrow> string \<Rightarrow> 'n option \<Rightarrow> jwriter" where
  "writeContent ops mediaType shape =
     (if mediaType = [] then nothing_written
      else andThen (writeMember ops ''content'') (andThen (json_begin ops)
        (andThen (writeMember ops mediaType) (andThen (json_begin ops)
          (andThen (case shape of
                      None \<Rightarrow> nothing_written
                    | Some node \<Rightarrow> andThen (writeMember ops ''schema'') (writeSchema ops node))
            (andThen (WriteToken ops EndObject) (WriteToken ops EndObject)))))))"

definition writeParameter :: "'n rendering \<Rightarrow> 'n Param \<Rightarrow> jwriter" where
  "writeParameter ops parameter =
     andThen (json_begin ops) (andThen (writeText ops ''name'' (par_Name parameter))
       (andThen (writeText ops ''in'' (par_In parameter))
         (andThen (writeText ops ''description'' (par_Description parameter))
           (andThen (writeMember ops ''required'') (andThen (WriteToken ops (BoolToken (par_Required parameter)))
             (andThen (writeMember ops ''schema'') (andThen (writeSchema ops (par_Schema parameter))
               (WriteToken ops EndObject))))))))"

definition writeParameters :: "'n rendering \<Rightarrow> 'n Param list \<Rightarrow> jwriter" where
  "writeParameters ops list =
     (if list = [] then nothing_written
      else andThen (writeMember ops ''parameters'') (andThen (WriteToken ops BeginArray)
        (andThen (write_each (writeParameter ops) list) (WriteToken ops EndArray))))"

definition writeRequestBody :: "'n rendering \<Rightarrow> 'n RequestBody option \<Rightarrow> jwriter" where
  "writeRequestBody ops body =
     (case body of
        None \<Rightarrow> nothing_written
      | Some b \<Rightarrow>
          andThen (writeMember ops ''requestBody'') (andThen (json_begin ops)
            (andThen (writeMember ops ''required'') (andThen (WriteToken ops (BoolToken (body_Required b)))
              (andThen (writeContent ops (body_MediaType b) (Some (body_Schema b)))
                (WriteToken ops EndObject))))))"

definition writeResponse :: "'n rendering \<Rightarrow> 'n Answer \<Rightarrow> jwriter" where
  "writeResponse ops response =
     andThen (writeMember ops (itoa (ans_Status response))) (andThen (json_begin ops)
       (andThen (writeText ops ''description'' (ans_Description response))
         (andThen (writeContent ops (ans_MediaType response) (ans_Schema response))
           (WriteToken ops EndObject))))"

definition writeResponses :: "'n rendering \<Rightarrow> 'n Answer list \<Rightarrow> jwriter" where
  "writeResponses ops list =
     andThen (writeMember ops ''responses'') (andThen (json_begin ops)
       (andThen (write_each (writeResponse ops) list) (WriteToken ops EndObject)))"

definition writeOperation :: "'n rendering \<Rightarrow> 'n Operation \<Rightarrow> jwriter" where
  "writeOperation ops op =
     andThen (json_begin ops)
       (andThen (write_each (\<lambda>(name, value). writeText ops name value)
                  [(''operationId'', op_ID op), (''summary'', op_Summary op), (''description'', op_Description op)])
         (andThen (writeParameters ops (op_Parameters op))
           (andThen (writeRequestBody ops (op_RequestBody op))
             (andThen (writeResponses ops (op_Responses op)) (WriteToken ops EndObject)))))"

definition writePath :: "'n rendering \<Rightarrow> 'n Path \<Rightarrow> jwriter" where
  "writePath ops path =
     andThen (writeMember ops (path_Path path)) (andThen (json_begin ops)
       (andThen (write_each (\<lambda>op. andThen (writeMember ops (ToLower (op_Method op))) (writeOperation ops op))
                  (path_Operations path))
         (WriteToken ops EndObject)))"

definition writeInfo :: "'n rendering \<Rightarrow> Info \<Rightarrow> jwriter" where
  "writeInfo ops info =
     andThen (writeMember ops ''info'') (andThen (json_begin ops)
       (andThen (write_each (\<lambda>(name, value). writeText ops name value)
                  [(''title'', info_Title info), (''version'', info_Version info),
                   (''description'', info_Description info)])
         (WriteToken ops EndObject)))"

definition writeServer :: "'n rendering \<Rightarrow> Server \<Rightarrow> jwriter" where
  "writeServer ops server =
     andThen (json_begin ops) (andThen (writeText ops ''url'' (server_URL server))
       (andThen (writeText ops ''description'' (server_Description server)) (WriteToken ops EndObject)))"

definition writeServers :: "'n rendering \<Rightarrow> Server list \<Rightarrow> jwriter" where
  "writeServers ops servers =
     (if servers = [] then nothing_written
      else andThen (writeMember ops ''servers'') (andThen (WriteToken ops BeginArray)
        (andThen (write_each (writeServer ops) servers) (WriteToken ops EndArray))))"

definition writePaths :: "'n rendering \<Rightarrow> 'n Path list \<Rightarrow> jwriter" where
  "writePaths ops paths =
     andThen (writeMember ops ''paths'') (andThen (json_begin ops)
       (andThen (write_each (writePath ops) paths) (WriteToken ops EndObject)))"

definition component_at :: "'n rendering \<Rightarrow> (string \<times> 'n) list \<Rightarrow> string \<Rightarrow> 'n" where
  "component_at ops components name =
     (case map_of components name of None \<Rightarrow> zero_node ops | Some node \<Rightarrow> node)"

definition writeComponents :: "'n rendering \<Rightarrow> (string \<times> 'n) list \<Rightarrow> jwriter" where
  "writeComponents ops components =
     (if components = [] then nothing_written
      else andThen (writeMember ops ''components'') (andThen (json_begin ops)
        (andThen (writeMember ops ''schemas'') (andThen (json_begin ops)
          (andThen (write_each (\<lambda>name. andThen (writeMember ops name)
                                            (writeSchema ops (component_at ops components name)))
                     (ComponentNames ops components))
            (andThen (WriteToken ops EndObject) (WriteToken ops EndObject)))))))"

definition write_document :: "'n rendering \<Rightarrow> 'n Document \<Rightarrow> jwriter" where
  "write_document ops document =
     andThen (json_begin ops) (andThen (writeText ops ''openapi'' ''3.1.0'')
       (andThen (writeInfo ops (doc_Info document)) (andThen (writeServers ops (doc_Servers document))
         (andThen (writePaths ops (doc_Paths document)) (andThen (writeComponents ops (doc_Components document))
           (WriteToken ops EndObject))))))"

definition Render :: "'n rendering \<Rightarrow> 'n Document \<Rightarrow> (json_error, token list) result" where
  "Render ops document =
     bind_result (write_document ops document \<lparr>open_frames = [], written = []\<rparr>) (\<lambda>e. Inr (written e))"

section \<open>The document as a tree\<close>

datatype 'n json =
    JText string
  | JBool bool
  | JShape 'n
  | JArray "'n json list"
  | JObject "(string \<times> 'n json) list"

definition shape_raw :: "'n rendering \<Rightarrow> 'n \<Rightarrow> string option" where
  "shape_raw ops node =
     (case render_node ops node of Inl err \<Rightarrow> None | Inr raw \<Rightarrow> if raw_ok ops raw then Some raw else None)"

text \<open>What can be written: texts and shapes are valid and no object has a name twice.\<close>

primrec json_ok :: "'n rendering \<Rightarrow> 'n json \<Rightarrow> bool" where
  "json_ok ops (JText s) = text_ok ops s"
| "json_ok ops (JBool b) = True"
| "json_ok ops (JShape n) = (shape_raw ops n \<noteq> None)"
| "json_ok ops (JArray vs) = list_all (\<lambda>b. b) (map (json_ok ops) vs)"
| "json_ok ops (JObject ms) =
     (distinct (map fst ms) \<and> list_all (text_ok ops) (map fst ms) \<and>
      list_all (\<lambda>b. b) (map snd (map (map_prod (\<lambda>n. n) (json_ok ops)) ms)))"

primrec json_tokens :: "'n rendering \<Rightarrow> 'n json \<Rightarrow> token list" where
  "json_tokens ops (JText s) = [TextToken s]"
| "json_tokens ops (JBool b) = [BoolToken b]"
| "json_tokens ops (JShape n) = [RawValue (the (shape_raw ops n))]"
| "json_tokens ops (JArray vs) = [BeginArray] @ concat (map (json_tokens ops) vs) @ [EndArray]"
| "json_tokens ops (JObject ms) =
     [BeginObject] @
     concat (map (\<lambda>m. TextToken (fst m) # snd m) (map (map_prod (\<lambda>n. n) (json_tokens ops)) ms)) @
     [EndObject]"

definition text_member :: "string \<Rightarrow> string \<Rightarrow> (string \<times> 'n json) list" where
  "text_member name value = (if value = [] then [] else [(name, JText value)])"

definition content_json :: "string \<Rightarrow> 'n option \<Rightarrow> (string \<times> 'n json) list" where
  "content_json mediaType shape =
     (if mediaType = [] then []
      else [(''content'', JObject [(mediaType, JObject (case shape of None \<Rightarrow> [] | Some n \<Rightarrow> [(''schema'', JShape n)]))])])"

definition parameter_json :: "'n Param \<Rightarrow> 'n json" where
  "parameter_json p =
     JObject (text_member ''name'' (par_Name p) @ text_member ''in'' (par_In p) @
              text_member ''description'' (par_Description p) @
              [(''required'', JBool (par_Required p)), (''schema'', JShape (par_Schema p))])"

definition response_json :: "'n Answer \<Rightarrow> string \<times> 'n json" where
  "response_json r =
     (itoa (ans_Status r),
      JObject (text_member ''description'' (ans_Description r) @ content_json (ans_MediaType r) (ans_Schema r)))"

definition operation_json :: "'n Operation \<Rightarrow> 'n json" where
  "operation_json op =
     JObject (text_member ''operationId'' (op_ID op) @ text_member ''summary'' (op_Summary op) @
              text_member ''description'' (op_Description op) @
              (if op_Parameters op = [] then []
               else [(''parameters'', JArray (map parameter_json (op_Parameters op)))]) @
              (case op_RequestBody op of
                 None \<Rightarrow> []
               | Some b \<Rightarrow>
                   [(''requestBody'', JObject ((''required'', JBool (body_Required b)) #
                                               content_json (body_MediaType b) (Some (body_Schema b))))]) @
              [(''responses'', JObject (map response_json (op_Responses op)))])"

definition path_json :: "'n Path \<Rightarrow> string \<times> 'n json" where
  "path_json p =
     (path_Path p, JObject (map (\<lambda>op. (ToLower (op_Method op), operation_json op)) (path_Operations p)))"

definition server_json :: "Server \<Rightarrow> 'n json" where
  "server_json s =
     JObject (text_member ''url'' (server_URL s) @ text_member ''description'' (server_Description s))"

definition document_json :: "'n rendering \<Rightarrow> 'n Document \<Rightarrow> 'n json" where
  "document_json ops d =
     JObject ([(''openapi'', JText ''3.1.0''),
               (''info'', JObject (text_member ''title'' (info_Title (doc_Info d)) @
                                   text_member ''version'' (info_Version (doc_Info d)) @
                                   text_member ''description'' (info_Description (doc_Info d))))] @
              (if doc_Servers d = [] then [] else [(''servers'', JArray (map server_json (doc_Servers d)))]) @
              [(''paths'', JObject (map path_json (doc_Paths d)))] @
              (if doc_Components d = [] then []
               else [(''components'', JObject [(''schemas'', JObject (map (\<lambda>name.
                       (name, JShape (component_at ops (doc_Components d) name)))
                         (ComponentNames ops (doc_Components d))))])]))"

section \<open>Writers that write a tree\<close>

definition outcome :: "('e, 'a) result \<Rightarrow> 'a option" where
  "outcome r = (case r of Inl err \<Rightarrow> None | Inr x \<Rightarrow> Some x)"

lemma outcome_simps [simp]: "outcome (Inl err) = None" "outcome (Inr x) = Some x"
  by (simp_all add: outcome_def)

lemma outcome_andThen [simp]: "outcome (andThen f g e) = Option.bind (outcome (f e)) (\<lambda>e. outcome (g e))"
  by (cases "f e") (simp_all add: andThen_def)

lemma andThen_assoc: "andThen (andThen f g) h = andThen f (andThen g h)"
proof
  show "andThen (andThen f g) h e = andThen f (andThen g h) e" for e
    by (cases "f e") (simp_all add: andThen_def)
qed

definition member_tokens :: "'n rendering \<Rightarrow> (string \<times> 'n json) list \<Rightarrow> token list" where
  "member_tokens ops ms = concat (map (\<lambda>m. TextToken (fst m) # json_tokens ops (snd m)) ms)"

definition members_ok :: "'n rendering \<Rightarrow> string list \<Rightarrow> (string \<times> 'n json) list \<Rightarrow> bool" where
  "members_ok ops names ms \<longleftrightarrow>
     distinct (map fst ms) \<and> set (map fst ms) \<inter> set names = {} \<and>
     list_all (text_ok ops) (map fst ms) \<and> list_all (json_ok ops) (map snd ms)"

definition writes_value :: "'n rendering \<Rightarrow> jwriter \<Rightarrow> 'n json \<Rightarrow> bool" where
  "writes_value ops f v \<longleftrightarrow>
     (\<forall>frames w. \<not> name_due frames \<longrightarrow>
        outcome (f \<lparr>open_frames = frames, written = w\<rparr>) =
          (if json_ok ops v
           then Some \<lparr>open_frames = after_value frames, written = w @ json_tokens ops v\<rparr> else None))"

lemma writes_valueD:
  "writes_value ops f v \<Longrightarrow> \<not> name_due frames \<Longrightarrow>
   outcome (f \<lparr>open_frames = frames, written = w\<rparr>) =
     (if json_ok ops v
      then Some \<lparr>open_frames = after_value frames, written = w @ json_tokens ops v\<rparr> else None)"
  by (simp add: writes_value_def)

definition writes_members :: "'n rendering \<Rightarrow> jwriter \<Rightarrow> (string \<times> 'n json) list \<Rightarrow> bool" where
  "writes_members ops f ms \<longleftrightarrow>
     (\<forall>names rest w.
        outcome (f \<lparr>open_frames = in_object names False # rest, written = w\<rparr>) =
          (if members_ok ops names ms
           then Some \<lparr>open_frames = in_object (names @ map fst ms) False # rest, written = w @ member_tokens ops ms\<rparr>
           else None))"

definition writes_elements :: "'n rendering \<Rightarrow> jwriter \<Rightarrow> 'n json list \<Rightarrow> bool" where
  "writes_elements ops f vs \<longleftrightarrow>
     (\<forall>rest w.
        outcome (f \<lparr>open_frames = in_array # rest, written = w\<rparr>) =
          (if list_all (json_ok ops) vs
           then Some \<lparr>open_frames = in_array # rest, written = w @ concat (map (json_tokens ops) vs)\<rparr>
           else None))"

lemma members_ok_append: "members_ok ops names (ms @ ms') \<longleftrightarrow> members_ok ops names ms \<and> members_ok ops (names @ map fst ms) ms'"
  by (auto simp: members_ok_def)

lemma member_tokens_append: "member_tokens ops (ms @ ms') = member_tokens ops ms @ member_tokens ops ms'"
  by (simp add: member_tokens_def)

lemma members_nothing: "writes_members ops nothing_written []"
  by (simp add: writes_members_def nothing_written_def members_ok_def member_tokens_def)

lemma members_append:
  "writes_members ops f ms \<Longrightarrow> writes_members ops g ms' \<Longrightarrow> writes_members ops (andThen f g) (ms @ ms')"
  by (simp add: writes_members_def members_ok_append member_tokens_append)

lemma members_each:
  "(\<And>x. x \<in> set xs \<Longrightarrow> writes_members ops (f x) (m x)) \<Longrightarrow>
   writes_members ops (write_each f xs) (concat (map m xs))"
  by (induction xs) (simp_all add: members_nothing members_append)

lemma members_one:
  assumes "writes_value ops f v"
  shows "writes_members ops (andThen (writeMember ops name) f) [(name, v)]"
  by (auto simp: writes_members_def writeMember_def emit_def members_ok_def member_tokens_def
      writes_valueD [OF assms])

lemma value_object:
  assumes "writes_members ops f ms"
  shows "writes_value ops (andThen (json_begin ops) (andThen f (WriteToken ops EndObject))) (JObject ms)"
  using assms
  by (auto simp: writes_value_def writes_members_def json_begin_def emit_def members_ok_def member_tokens_def
      comp_def list_all_iff image_iff split: if_splits)

lemma elements_nothing: "writes_elements ops nothing_written []"
  by (simp add: writes_elements_def nothing_written_def)

lemma elements_Cons:
  "writes_value ops f v \<Longrightarrow> writes_elements ops g vs \<Longrightarrow> writes_elements ops (andThen f g) (v # vs)"
  by (simp add: writes_elements_def writes_value_def)

lemma elements_each:
  "(\<And>x. x \<in> set xs \<Longrightarrow> writes_value ops (f x) (v x)) \<Longrightarrow> writes_elements ops (write_each f xs) (map v xs)"
  by (induction xs) (simp_all add: elements_nothing elements_Cons)

lemma value_array:
  assumes "writes_elements ops f vs"
  shows "writes_value ops (andThen (WriteToken ops BeginArray) (andThen f (WriteToken ops EndArray))) (JArray vs)"
  using assms
  by (simp add: writes_value_def writes_elements_def emit_def list_all_iff split: if_splits)

lemma value_text: "writes_value ops (WriteToken ops (TextToken s)) (JText s)"
proof -
  have "WriteToken ops (TextToken s) \<lparr>open_frames = frames, written = w\<rparr> =
      (if text_ok ops s then Inr (emit (TextToken s) (after_value frames) \<lparr>open_frames = frames, written = w\<rparr>)
       else Inl (InvalidText s))" if "\<not> name_due frames" for frames w
    using that by (cases frames rule: name_due.cases) auto
  then show ?thesis by (simp add: writes_value_def emit_def)
qed

lemma value_bool: "writes_value ops (WriteToken ops (BoolToken b)) (JBool b)"
  by (simp add: writes_value_def emit_def)

lemma value_shape: "writes_value ops (writeSchema ops node) (JShape node)"
  by (auto simp: writes_value_def writeSchema_def shape_raw_def emit_def split: sum.splits)

lemmas json_values = value_text value_bool value_shape

section \<open>What each writer writes\<close>

lemma text_members: "writes_members ops (writeText ops name value) (text_member name value)"
  by (simp add: writeText_def text_member_def members_nothing members_one value_text)

lemma text_members_each:
  "writes_members ops (write_each (\<lambda>(name, value). writeText ops name value) pairs)
     (concat (map (\<lambda>(name, value). text_member name value) pairs))"
  by (rule members_each) (auto simp: text_members)

lemma content_members: "writes_members ops (writeContent ops mediaType shape) (content_json mediaType shape)"
proof -
  let ?shape = "case shape of None \<Rightarrow> nothing_written
      | Some node \<Rightarrow> andThen (writeMember ops ''schema'') (writeSchema ops node)"
  have "writes_members ops ?shape (case shape of None \<Rightarrow> [] | Some n \<Rightarrow> [(''schema'', JShape n)])"
    by (cases shape) (simp_all add: members_nothing members_one value_shape)
  from members_one [OF value_object [OF members_one [OF value_object [OF this]]], of "''content''" mediaType]
  show ?thesis
    by (simp add: writeContent_def content_json_def members_nothing andThen_assoc)
qed

lemma parameter_value: "writes_value ops (writeParameter ops p) (parameter_json p)"
proof -
  have "writes_members ops
     (andThen (writeText ops ''name'' (par_Name p)) (andThen (writeText ops ''in'' (par_In p))
       (andThen (writeText ops ''description'' (par_Description p))
         (andThen (andThen (writeMember ops ''required'') (WriteToken ops (BoolToken (par_Required p))))
           (andThen (writeMember ops ''schema'') (writeSchema ops (par_Schema p)))))))
     (text_member ''name'' (par_Name p) @ text_member ''in'' (par_In p) @
      text_member ''description'' (par_Description p) @
      [(''required'', JBool (par_Required p))] @ [(''schema'', JShape (par_Schema p))])"
    by (intro members_append text_members members_one json_values)
  from value_object [OF this] show ?thesis
    by (simp add: writeParameter_def parameter_json_def andThen_assoc)
qed

lemma parameters_members:
  "writes_members ops (writeParameters ops ps) (if ps = [] then [] else [(''parameters'', JArray (map parameter_json ps))])"
proof -
  have "writes_elements ops (write_each (writeParameter ops) ps) (map parameter_json ps)"
    by (intro elements_each parameter_value)
  from members_one [OF value_array [OF this]] show ?thesis by (simp add: writeParameters_def members_nothing)
qed

lemma body_members:
  "writes_members ops (writeRequestBody ops body)
     (case body of
        None \<Rightarrow> []
      | Some b \<Rightarrow>
          [(''requestBody'', JObject ((''required'', JBool (body_Required b)) #
                                      content_json (body_MediaType b) (Some (body_Schema b))))])"
proof (cases body)
  case (Some b)
  have "writes_members ops
     (andThen (andThen (writeMember ops ''required'') (WriteToken ops (BoolToken (body_Required b))))
       (writeContent ops (body_MediaType b) (Some (body_Schema b))))
     ([(''required'', JBool (body_Required b))] @ content_json (body_MediaType b) (Some (body_Schema b)))"
    by (intro members_append members_one content_members json_values)
  from members_one [OF value_object [OF this], of "''requestBody''"] Some show ?thesis
    by (simp add: writeRequestBody_def andThen_assoc)
qed (simp add: writeRequestBody_def members_nothing)

lemma response_members: "writes_members ops (writeResponse ops r) [response_json r]"
proof -
  have "writes_members ops
     (andThen (writeText ops ''description'' (ans_Description r)) (writeContent ops (ans_MediaType r) (ans_Schema r)))
     (text_member ''description'' (ans_Description r) @ content_json (ans_MediaType r) (ans_Schema r))"
    by (intro members_append text_members content_members)
  from members_one [OF value_object [OF this], of "itoa (ans_Status r)"] show ?thesis
    by (simp add: writeResponse_def response_json_def andThen_assoc)
qed

lemma concat_singles: "concat (map (\<lambda>x. [f x]) xs) = map f xs"
  by (induction xs) auto

lemma responses_members: "writes_members ops (writeResponses ops rs) [(''responses'', JObject (map response_json rs))]"
proof -
  have "writes_members ops (write_each (writeResponse ops) rs) (concat (map (\<lambda>r. [response_json r]) rs))"
    by (intro members_each response_members)
  from members_one [OF value_object [OF this]] show ?thesis by (simp add: writeResponses_def concat_singles)
qed

lemma operation_value: "writes_value ops (writeOperation ops op) (operation_json op)"
proof -
  have "writes_members ops
     (andThen (write_each (\<lambda>(name, value). writeText ops name value)
                 [(''operationId'', op_ID op), (''summary'', op_Summary op), (''description'', op_Description op)])
       (andThen (writeParameters ops (op_Parameters op)) (andThen (writeRequestBody ops (op_RequestBody op))
         (writeResponses ops (op_Responses op)))))
     (concat (map (\<lambda>(name, value). text_member name value)
                [(''operationId'', op_ID op), (''summary'', op_Summary op), (''description'', op_Description op)]) @
      (if op_Parameters op = [] then [] else [(''parameters'', JArray (map parameter_json (op_Parameters op)))]) @
      (case op_RequestBody op of
         None \<Rightarrow> []
       | Some b \<Rightarrow> [(''requestBody'', JObject ((''required'', JBool (body_Required b)) #
                                               content_json (body_MediaType b) (Some (body_Schema b))))]) @
      [(''responses'', JObject (map response_json (op_Responses op)))])"
    by (intro members_append text_members_each parameters_members body_members responses_members)
  from value_object [OF this] show ?thesis
    by (simp add: writeOperation_def operation_json_def andThen_assoc)
qed

lemma path_members: "writes_members ops (writePath ops p) [path_json p]"
proof -
  let ?f = "\<lambda>op. andThen (writeMember ops (ToLower (op_Method op))) (writeOperation ops op)"
  have "writes_members ops (write_each ?f (path_Operations p))
      (concat (map (\<lambda>op. [(ToLower (op_Method op), operation_json op)]) (path_Operations p)))"
    by (intro members_each members_one operation_value)
  from members_one [OF value_object [OF this], of "path_Path p"] show ?thesis
    by (simp add: writePath_def path_json_def concat_singles)
qed

lemma server_value: "writes_value ops (writeServer ops s) (server_json s)"
proof -
  have "writes_members ops
     (andThen (writeText ops ''url'' (server_URL s)) (writeText ops ''description'' (server_Description s)))
     (text_member ''url'' (server_URL s) @ text_member ''description'' (server_Description s))"
    by (intro members_append text_members)
  from value_object [OF this] show ?thesis by (simp add: writeServer_def server_json_def andThen_assoc)
qed

lemma servers_members:
  "writes_members ops (writeServers ops ss) (if ss = [] then [] else [(''servers'', JArray (map server_json ss))])"
proof -
  have "writes_elements ops (write_each (writeServer ops) ss) (map server_json ss)"
    by (intro elements_each server_value)
  from members_one [OF value_array [OF this]] show ?thesis by (simp add: writeServers_def members_nothing)
qed

lemma paths_members: "writes_members ops (writePaths ops ps) [(''paths'', JObject (map path_json ps))]"
proof -
  have "writes_members ops (write_each (writePath ops) ps) (concat (map (\<lambda>p. [path_json p]) ps))"
    by (intro members_each path_members)
  from members_one [OF value_object [OF this]] show ?thesis by (simp add: writePaths_def concat_singles)
qed

lemma info_members:
  "writes_members ops (writeInfo ops info)
     [(''info'', JObject (text_member ''title'' (info_Title info) @ text_member ''version'' (info_Version info) @
                          text_member ''description'' (info_Description info)))]"
  using members_one [OF value_object [OF text_members_each [of ops
      "[(''title'', info_Title info), (''version'', info_Version info), (''description'', info_Description info)]"]]]
  by (simp add: writeInfo_def)

lemma components_members:
  "writes_members ops (writeComponents ops cs)
     (if cs = [] then []
      else [(''components'', JObject [(''schemas'', JObject (map (\<lambda>name.
              (name, JShape (component_at ops cs name))) (ComponentNames ops cs)))])])"
proof -
  have "writes_members ops
      (write_each (\<lambda>name. andThen (writeMember ops name) (writeSchema ops (component_at ops cs name)))
         (ComponentNames ops cs))
      (concat (map (\<lambda>name. [(name, JShape (component_at ops cs name))]) (ComponentNames ops cs)))"
    by (intro members_each members_one value_shape)
  from members_one [OF value_object [OF members_one [OF value_object [OF this]]], of "''components''" "''schemas''"]
  show ?thesis by (simp add: writeComponents_def concat_singles members_nothing andThen_assoc)
qed

lemma document_value: "writes_value ops (write_document ops d) (document_json ops d)"
proof -
  have "writes_members ops
     (andThen (writeText ops ''openapi'' ''3.1.0'') (andThen (writeInfo ops (doc_Info d))
       (andThen (writeServers ops (doc_Servers d)) (andThen (writePaths ops (doc_Paths d))
         (writeComponents ops (doc_Components d))))))
     (text_member ''openapi'' ''3.1.0'' @
      [(''info'', JObject (text_member ''title'' (info_Title (doc_Info d)) @
                           text_member ''version'' (info_Version (doc_Info d)) @
                           text_member ''description'' (info_Description (doc_Info d))))] @
      (if doc_Servers d = [] then [] else [(''servers'', JArray (map server_json (doc_Servers d)))]) @
      [(''paths'', JObject (map path_json (doc_Paths d)))] @
      (if doc_Components d = [] then []
       else [(''components'', JObject [(''schemas'', JObject (map (\<lambda>name.
               (name, JShape (component_at ops (doc_Components d) name))) (ComponentNames ops (doc_Components d))))])]))"
    by (intro members_append text_members info_members servers_members paths_members components_members)
  from value_object [OF this] show ?thesis
    by (simp add: write_document_def document_json_def andThen_assoc text_member_def)
qed

section \<open>The contract\<close>

lemma Render_outcome:
  "outcome (Render ops document) =
     (if json_ok ops (document_json ops document)
      then Some (json_tokens ops (document_json ops document)) else None)"
proof -
  have "outcome (Render ops document) =
      Option.bind (outcome (write_document ops document \<lparr>open_frames = [], written = []\<rparr>)) (\<lambda>e. Some (written e))"
    by (cases "write_document ops document \<lparr>open_frames = [], written = []\<rparr>") (simp_all add: Render_def)
  then show ?thesis by (simp add: writes_valueD [OF document_value])
qed

text \<open>C28: Rendering writes the document it is given and nothing else: when every text and shape of the
document's tree is valid and no object of it has a name twice, the tokens written are those of
the tree, member by member in its order; otherwise the rendering fails.\<close>

theorem render_writes_the_document:
  "outcome (Render ops document) =
     (if json_ok ops (document_json ops document)
      then Some (json_tokens ops (document_json ops document)) else None)"
  by (rule Render_outcome)

section \<open>Which documents can be rendered\<close>

text \<open>The tree condition apart: the texts, the shapes, and that no object has a name twice.\<close>

primrec tree_texts :: "'n json \<Rightarrow> string list" where
  "tree_texts (JText s) = [s]"
| "tree_texts (JBool b) = []"
| "tree_texts (JShape n) = []"
| "tree_texts (JArray vs) = concat (map tree_texts vs)"
| "tree_texts (JObject ms) =
     concat (map (\<lambda>m. fst m # snd m) (map (map_prod (\<lambda>n. n) tree_texts) ms))"

primrec tree_shapes :: "'n json \<Rightarrow> 'n list" where
  "tree_shapes (JText s) = []"
| "tree_shapes (JBool b) = []"
| "tree_shapes (JShape n) = [n]"
| "tree_shapes (JArray vs) = concat (map tree_shapes vs)"
| "tree_shapes (JObject ms) = concat (map snd (map (map_prod (\<lambda>n. n) tree_shapes) ms))"

primrec names_once :: "'n json \<Rightarrow> bool" where
  "names_once (JText s) = True"
| "names_once (JBool b) = True"
| "names_once (JShape n) = True"
| "names_once (JArray vs) = list_all (\<lambda>b. b) (map names_once vs)"
| "names_once (JObject ms) =
     (distinct (map fst ms) \<and> list_all (\<lambda>b. b) (map snd (map (map_prod (\<lambda>n. n) names_once) ms)))"

definition valid_parts :: "'n rendering \<Rightarrow> 'n json \<Rightarrow> bool" where
  "valid_parts ops v \<longleftrightarrow>
     list_all (text_ok ops) (tree_texts v) \<and> list_all (\<lambda>n. shape_raw ops n \<noteq> None) (tree_shapes v)"

lemma json_ok_parts: "json_ok ops v \<longleftrightarrow> valid_parts ops v \<and> names_once v"
proof (induction v)
  case (JArray vs)
  then show ?case by (auto simp: valid_parts_def list_all_iff)
next
  case (JObject ms)
  then have "json_ok ops (snd m) \<longleftrightarrow> valid_parts ops (snd m) \<and> names_once (snd m)" if "m \<in> set ms" for m
    using that by (metis snds.intros surjective_pairing)
  then show ?case by (fastforce simp: valid_parts_def list_all_iff)
qed (auto simp: valid_parts_def)

lemma names_once_text [simp]: "list_all (\<lambda>m. names_once (snd m)) (text_member name value)"
  by (simp add: text_member_def)

lemma names_once_content [simp]: "list_all (\<lambda>m. names_once (snd m)) (content_json mediaType shape)"
  by (simp add: content_json_def split: option.split)

lemma fst_text_member: "map fst (text_member name value) = (if value = [] then [] else [name])"
  by (simp add: text_member_def)

lemma fst_content_json: "map fst (content_json mediaType shape) = (if mediaType = [] then [] else [''content''])"
  by (simp add: content_json_def)

lemma names_once_object:
  "names_once (JObject ms) \<longleftrightarrow> distinct (map fst ms) \<and> list_all (\<lambda>m. names_once (snd m)) ms"
  by (simp add: list_all_iff)

lemma names_once_array: "names_once (JArray vs) \<longleftrightarrow> list_all names_once vs"
  by (simp add: list_all_iff)

lemmas names_once_rules = names_once_object names_once_array fst_text_member fst_content_json

lemma names_once_parameter: "names_once (parameter_json p)"
  unfolding parameter_json_def names_once_object by (simp add: fst_text_member)

lemma names_once_server: "names_once (server_json s)"
  unfolding server_json_def names_once_object by (simp add: fst_text_member)

lemma names_once_response: "names_once (snd (response_json r))"
  unfolding response_json_def snd_conv names_once_object by (simp add: fst_text_member fst_content_json)

lemma names_once_operation:
  "names_once (operation_json op) \<longleftrightarrow> distinct (map ans_Status (op_Responses op))"
proof -
  have body: "list_all (\<lambda>m. names_once (snd m)) (case op_RequestBody op of None \<Rightarrow> []
      | Some b \<Rightarrow> [(''requestBody'', JObject ((''required'', JBool (body_Required b)) #
                                              content_json (body_MediaType b) (Some (body_Schema b))))])"
    by (simp only: names_once_object split: option.split) (simp add: fst_content_json names_once_object del: names_once.simps(4,5))
  have pars: "names_once (JArray (map parameter_json (op_Parameters op)))"
    by (simp only: names_once_array list_all_iff) (auto simp: names_once_parameter)
  have resp: "names_once (JObject (map response_json (op_Responses op))) \<longleftrightarrow>
      distinct (map ans_Status (op_Responses op))"
    unfolding names_once_object
    by (simp add: list_all_iff names_once_response comp_def) (simp add: response_json_def distinct_map inj_on_def)
  show ?thesis
    unfolding operation_json_def names_once_object using body pars resp
    by (auto simp add: fst_text_member split: option.split simp del: names_once.simps(4,5))
qed

lemma names_once_path:
  "names_once (snd (path_json p)) \<longleftrightarrow>
     distinct (map (\<lambda>op. ToLower (op_Method op)) (path_Operations p)) \<and>
     list_all (\<lambda>op. distinct (map ans_Status (op_Responses op))) (path_Operations p)"
  unfolding path_json_def snd_conv names_once_object
  by (simp add: list_all_iff names_once_operation comp_def)

lemma names_once_document:
  fixes d :: "'n Document"
  shows "names_once (document_json ops d) \<longleftrightarrow>
     distinct (map path_Path (doc_Paths d)) \<and> list_all (\<lambda>p. names_once (snd (path_json p))) (doc_Paths d) \<and>
     (doc_Components d \<noteq> [] \<longrightarrow> distinct (ComponentNames ops (doc_Components d)))"
proof -
  have info: "names_once (JObject (text_member ''title'' a @ text_member ''version'' b @ text_member ''description'' c))"
    for a b c unfolding names_once_object by (simp add: fst_text_member)
  have servers: "names_once (JArray (map server_json (doc_Servers d)))"
    by (simp only: names_once_array list_all_iff) (auto simp: names_once_server)
  have paths: "names_once (JObject (map path_json (doc_Paths d))) \<longleftrightarrow>
      distinct (map path_Path (doc_Paths d)) \<and> list_all (\<lambda>p. names_once (snd (path_json p))) (doc_Paths d)"
    unfolding names_once_object by (simp add: list_all_iff comp_def) (simp add: path_json_def)
  have components: "names_once (JObject [(''schemas'', JObject (map (\<lambda>name. (name, JShape (g name))) names))]) \<longleftrightarrow>
      distinct names" for g :: "string \<Rightarrow> 'n" and names
    by (simp add: names_once_object list_all_iff comp_def del: names_once.simps(5))
  show ?thesis
    unfolding document_json_def names_once_object using info servers paths components
    by (auto simp del: names_once.simps(4,5))
qed

lemma Render_succeeds:
  "(\<exists>tokens. Render ops document = Inr tokens) \<longleftrightarrow>
     valid_parts ops (document_json ops document) \<and> names_once (document_json ops document)"
proof -
  have "(\<exists>tokens. Render ops document = Inr tokens) \<longleftrightarrow> outcome (Render ops document) \<noteq> None"
    by (cases "Render ops document") simp_all
  then show ?thesis
    by (simp add: Render_outcome json_ok_parts)
qed

lemma operations_keyed:
  "distinct (map path_Path ps) \<Longrightarrow>
   distinct (concat (map (\<lambda>p. map (\<lambda>op. (path_Path p, g op)) (path_Operations p)) ps)) \<longleftrightarrow>
     list_all (\<lambda>p. distinct (map g (path_Operations p))) ps"
  by (induction ps) (auto simp: distinct_map inj_on_def)

text \<open>The statuses a declaration gives an answer for.\<close>

definition answered_statuses :: "Declaration \<Rightarrow> int list" where
  "answered_statuses decl =
     decl_Status decl # map alternative_Status (Alternatives decl) @ map failure_Status (Failures decl)"

lemma described_statuses:
  "distinct (map ans_Status (op_Responses (described_operation proj f decl))) \<longleftrightarrow> distinct (answered_statuses decl)"
proof -
  have "mset (map ans_Status (op_Responses (described_operation proj f decl))) = mset (answered_statuses decl)"
    by (simp add: described_operation_def answered_statuses_def described_success_def documented_def
        multiset.map_comp comp_def)
  then show ?thesis by (rule mset_eq_imp_distinct_iff)
qed

lemma described_document_names:
  assumes "operations_of (doc_Paths document) =
             mset (map (\<lambda>decl. (templatePath (decl_Path decl), described_operation proj f decl)) decls)"
    and "distinct (map path_Path (doc_Paths document))" and "distinct (ComponentNames ops (doc_Components document))"
  shows "names_once (document_json ops document) \<longleftrightarrow>
     distinct (map (\<lambda>decl. (templatePath (decl_Path decl), ToLower (decl_Method decl))) decls) \<and>
     list_all (\<lambda>decl. distinct (answered_statuses decl)) decls"
proof -
  let ?all = "concat (map (\<lambda>p. map (Pair (path_Path p)) (path_Operations p)) (doc_Paths document))"
  let ?key = "map_prod (\<lambda>p. p) (\<lambda>op :: 'a Operation. ToLower (op_Method op))"
  have all: "mset ?all = mset (map (\<lambda>decl. (templatePath (decl_Path decl), described_operation proj f decl)) decls)"
    using assms(1) by (simp add: operations_of_def)
  have "mset (map ?key ?all) =
      mset (map (\<lambda>decl. (templatePath (decl_Path decl), ToLower (decl_Method decl))) decls)"
    unfolding mset_map all by (simp add: multiset.map_comp comp_def described_operation_def flip: mset_map)
  from mset_eq_imp_distinct_iff [OF this] operations_keyed [OF assms(2), of "\<lambda>op. ToLower (op_Method op)"]
  have keys: "list_all (\<lambda>p. distinct (map (\<lambda>op. ToLower (op_Method op)) (path_Operations p))) (doc_Paths document) \<longleftrightarrow>
      distinct (map (\<lambda>decl. (templatePath (decl_Path decl), ToLower (decl_Method decl))) decls)"
    by (simp add: map_concat comp_def)
  have "list_all (\<lambda>p. list_all (\<lambda>op. distinct (map ans_Status (op_Responses op))) (path_Operations p)) (doc_Paths document) \<longleftrightarrow>
      list_all (\<lambda>x. distinct (map ans_Status (op_Responses (snd x)))) ?all"
    by (auto simp: list_all_iff)
  also have "\<dots> \<longleftrightarrow> list_all (\<lambda>decl. distinct (answered_statuses decl)) decls"
    using arg_cong [OF all, of set_mset] by (simp add: list_all_iff described_statuses)
  finally show ?thesis
    using keys assms(2,3) by (auto simp: names_once_document names_once_path list_all_iff)
qed

text \<open>C7: The document of a set of declarations can be rendered exactly when no two of them have the same
template and method and none of them answers two outcomes with one status -- given texts and
shapes that are valid and components with different names. An endpoint with two failures of one
status is accepted and served, but has no document.\<close>

theorem described_document_renders:
  assumes "ProjectAll proj ComponentPointer (concat (map shapes_of decls)) =
             (map f (concat (map shapes_of decls)), components)"
    and "Describe proj info decls servers = Some document"
    and "valid_parts ops (document_json ops document)" and "distinct (ComponentNames ops components)"
  shows "(\<exists>tokens. Render ops document = Inr tokens) \<longleftrightarrow>
     distinct (map (\<lambda>decl. (templatePath (decl_Path decl), ToLower (decl_Method decl))) decls) \<and>
     list_all (\<lambda>decl. distinct (answered_statuses decl)) decls"
proof -
  have "doc_Components document = components" "distinct (map path_Path (doc_Paths document))"
    "operations_of (doc_Paths document) =
       mset (map (\<lambda>decl. (templatePath (decl_Path decl), described_operation proj f decl)) decls)"
    using Describe_eq [OF assms(1), of info servers] assms(2) document_paths_ok [of "described_operation proj f" decls]
    by (auto simp: document_paths_def)
  with described_document_names [of document proj f decls ops] assms(3,4) show ?thesis
    by (simp add: Render_succeeds)
qed

definition plain_rendering :: "string rendering" where
  "plain_rendering = \<lparr>text_ok = (\<lambda>_. True), raw_ok = (\<lambda>_. True), render_node = Inr, ComponentNames = map fst,
     zero_node = []\<rparr>"

lemma plain_valid: "valid_parts plain_rendering v"
  by (simp add: valid_parts_def plain_rendering_def shape_raw_def list_all_iff)

definition example_document :: "Declaration list \<Rightarrow> string Document" where
  "example_document decls =
     (case Describe plain_projection \<lparr>info_Title = ''t'', info_Version = ''1'', info_Description = []\<rparr> decls [] of
        Some d \<Rightarrow> d)"

theorem described_document_renders_witness:
  "(\<exists>tokens. Render plain_rendering (example_document
      [endpoint_Declaration (WithFailure (example_endpoint_at ''/a/{id}'') 404 ''x''),
       endpoint_Declaration (example_endpoint_at ''/b/{id}'')]) = Inr tokens) \<and>
   \<not> (\<exists>tokens. Render plain_rendering (example_document
      [endpoint_Declaration (WithFailure (WithFailure (example_endpoint_at ''/a/{id}'') 404 ''x'') 404 ''y'')]) =
        Inr tokens)"
proof -
  have renders: "(\<exists>tokens. Render plain_rendering (example_document decls) = Inr tokens) \<longleftrightarrow>
     distinct (map (\<lambda>decl. (templatePath (decl_Path decl), ToLower (decl_Method decl))) decls) \<and>
     list_all (\<lambda>decl. distinct (answered_statuses decl)) decls" for decls
  proof -
    have project: "ProjectAll plain_projection ComponentPointer (concat (map shapes_of decls)) =
        (map (\<lambda>_. ''shape'') (concat (map shapes_of decls)), [])"
      by (simp add: plain_projection_def)
    from Describe_eq [OF this] obtain d where d: "Describe plain_projection
        \<lparr>info_Title = ''t'', info_Version = ''1'', info_Description = []\<rparr> decls [] = Some d" by blast
    have "distinct (ComponentNames plain_rendering [])" by (simp add: plain_rendering_def)
    from described_document_renders [OF project d plain_valid this] d show ?thesis
      by (simp add: example_document_def)
  qed
  have path: "decl_Path (endpoint_Declaration (example_endpoint_at (renderPattern segs))) = renderPattern segs"
    if "wf_segments segs" "''id'' \<in> set (capture_names segs)" for segs
    using example_endpoint_usable [OF that] unfolding example_endpoint_at_def by (rule Declare_path)
  have segs: "wf_segments [literal ''a'', capturing ''id'']" "renderPattern [literal ''a'', capturing ''id''] = ''/a/{id}''"
    "wf_segments [literal ''b'', capturing ''id'']" "renderPattern [literal ''b'', capturing ''id''] = ''/b/{id}''"
    "''id'' \<in> set (capture_names [literal ''a'', capturing ''id''])"
    "''id'' \<in> set (capture_names [literal ''b'', capturing ''id''])"
    by code_simp+
  have paths: "decl_Path (endpoint_Declaration (example_endpoint_at ''/a/{id}'')) = ''/a/{id}''"
    "decl_Path (endpoint_Declaration (example_endpoint_at ''/b/{id}'')) = ''/b/{id}''"
    using path [OF segs(1,5)] path [OF segs(3,6)] unfolding segs(2,4) .
  have failing: "decl_Path (endpoint_Declaration (WithFailure e c x)) = decl_Path (endpoint_Declaration e)"
    "answered_statuses (endpoint_Declaration (WithFailure e c x)) = answered_statuses (endpoint_Declaration e) @ [c]"
    "decl_Method (endpoint_Declaration (WithFailure e c x)) = decl_Method (endpoint_Declaration e)"
    for e :: "(string, string) Endpoint" and c x
    by (simp_all add: endpoint_Declaration_def WithFailure_def answered_statuses_def)
  have plain: "answered_statuses (endpoint_Declaration (example_endpoint_at p)) = [200]" for p
    by (simp add: endpoint_Declaration_def example_endpoint_at_def Declare_def answered_statuses_def Returns_def Let_def
        split: sum.splits prod.splits)
  have templates: "templatePath ''/a/{id}'' \<noteq> templatePath ''/b/{id}''" by code_simp
  show ?thesis using templates by (simp add: renders paths failing plain)
qed

end
