(* ===== verification/Grpc_Transport.thy ===== *)
theory Grpc_Transport
  imports Prelude "HOL-Library.Word"
begin

text \<open>
  The transport of remote procedure calls: the faults and the codes a call fails with
  (\<open>grpc/fault.go\<close>, \<open>grpc/port.go\<close>) and the adapter for Connect on both sides
  (\<open>grpc/connect_server.go\<close>, \<open>grpc/connect_client.go\<close>, \<open>grpc/connect_codec.go\<close>).

  A \<open>Code\<close> is the source's eight bits, so the values no constant names are values here too.
  Connect is another module. Its codes are a datatype of the ones the source names and the
  rest; its error is a code and a text; its client is a function that is asked for an
  address and a message. That a call reaches the handler that is mounted at the address's
  path, and comes back with what it said, is the hypothesis \<open>delivers\<close>.

  \<open>http.ServeMux\<close> is given paths of the form slash, name, slash, name. For names of letters,
  digits and the marks dot, hyphen and underscore a pattern is matched as it is written; for
  any other pattern, which the multiplexer may refuse or read as a wildcard, mounting is not
  defined here.
\<close>

section \<open>Faults and codes\<close>

datatype rpc_fault =
    Reason string
  | Fault (fault_Op: string) (fault_Procedure: string) (fault_Err: "rpc_fault option")

fun Error :: "rpc_fault \<Rightarrow> string" where
  "Error (Reason txt) = txt"
| "Error (Fault op procedure None) =
     ''grpc: '' @ op @ (if procedure \<noteq> [] then '' ['' @ procedure @ '']'' else [])"
| "Error (Fault op procedure (Some err)) =
     ''grpc: '' @ op @ (if procedure \<noteq> [] then '' ['' @ procedure @ '']'' else []) @ '': '' @ Error err"

fun Unwrap :: "rpc_fault \<Rightarrow> rpc_fault option" where
  "Unwrap (Fault op procedure err) = err"
| "Unwrap (Reason txt) = None"

definition faultOf :: "string \<Rightarrow> string \<Rightarrow> rpc_fault \<Rightarrow> rpc_fault" where
  "faultOf op procedure err = Fault op procedure (Some err)"

type_synonym Code = "8 word"

definition Cancelled :: Code where "Cancelled = 1"
definition Unknown :: Code where "Unknown = 2"
definition InvalidArgument :: Code where "InvalidArgument = 3"
definition DeadlineExceeded :: Code where "DeadlineExceeded = 4"
definition NotFound :: Code where "NotFound = 5"
definition AlreadyExists :: Code where "AlreadyExists = 6"
definition PermissionDenied :: Code where "PermissionDenied = 7"
definition ResourceExhausted :: Code where "ResourceExhausted = 8"
definition FailedPrecondition :: Code where "FailedPrecondition = 9"
definition Aborted :: Code where "Aborted = 10"
definition OutOfRange :: Code where "OutOfRange = 11"
definition Unimplemented :: Code where "Unimplemented = 12"
definition Internal :: Code where "Internal = 13"
definition Unavailable :: Code where "Unavailable = 14"
definition DataLoss :: Code where "DataLoss = 15"
definition Unauthenticated :: Code where "Unauthenticated = 16"

lemmas code_defs = Cancelled_def Unknown_def InvalidArgument_def DeadlineExceeded_def NotFound_def
  AlreadyExists_def PermissionDenied_def ResourceExhausted_def FailedPrecondition_def Aborted_def
  OutOfRange_def Unimplemented_def Internal_def Unavailable_def DataLoss_def Unauthenticated_def

record Failure =
  failure_Code :: Code
  failure_Message :: string

definition errNoRuntime :: rpc_fault where
  "errNoRuntime = Reason ''a boundary needs a runtime to interpret handlers''"

definition errNoFailureMapping :: rpc_fault where
  "errNoFailureMapping = Reason ''a boundary needs to know what a failure answers with''"

definition errNoService :: rpc_fault where
  "errNoService = Reason ''a procedure belongs to a named service''"

definition errNoMethod :: rpc_fault where
  "errNoMethod = Reason ''a procedure has a name''"

definition errNoTransport :: rpc_fault where
  "errNoTransport = Reason ''a boundary needs a transport to serve procedures''"

definition errAnsweredTwice :: rpc_fault where
  "errAnsweredTwice = Reason ''two answers for one procedure means the author meant one thing and wrote two''"

definition errNoProcedures :: rpc_fault where
  "errNoProcedures = Reason ''a transport with no procedures answers nothing''"

section \<open>The port\<close>

text \<open>A context is a value of \<open>'x\<close> and what a handler changes a value of \<open>'w\<close>.\<close>

type_synonym ('x, 'w) UnaryHandler = "'x \<Rightarrow> string \<Rightarrow> 'w \<Rightarrow> 'w \<times> (Failure, string) result"

type_synonym ('x, 'w) ClientTransport =
  "'x \<Rightarrow> string \<Rightarrow> string \<Rightarrow> 'w \<Rightarrow> 'w \<times> (Failure, string) result"

section \<open>Connect's codes and the codec\<close>

datatype rpc_Code =
    CodeCanceled | CodeUnknown | CodeInvalidArgument | CodeDeadlineExceeded | CodeNotFound
  | CodeAlreadyExists | CodePermissionDenied | CodeResourceExhausted | CodeFailedPrecondition
  | CodeAborted | CodeOutOfRange | CodeUnimplemented | CodeInternal | CodeUnavailable
  | CodeDataLoss | CodeUnauthenticated
  | UnlistedCode "32 word"

record rpc_Error =
  rpc_code :: rpc_Code
  rpc_message :: string

text \<open>What a call fails with: Connect's error, or one that says nothing of a code.\<close>

datatype call_error = RpcError rpc_Error | OtherError string

definition connectCode :: "Code \<Rightarrow> rpc_Code" where
  "connectCode c =
     (if c = Cancelled then CodeCanceled
      else if c = InvalidArgument then CodeInvalidArgument
      else if c = DeadlineExceeded then CodeDeadlineExceeded
      else if c = NotFound then CodeNotFound
      else if c = AlreadyExists then CodeAlreadyExists
      else if c = PermissionDenied then CodePermissionDenied
      else if c = ResourceExhausted then CodeResourceExhausted
      else if c = FailedPrecondition then CodeFailedPrecondition
      else if c = Aborted then CodeAborted
      else if c = OutOfRange then CodeOutOfRange
      else if c = Unimplemented then CodeUnimplemented
      else if c = Internal then CodeInternal
      else if c = Unavailable then CodeUnavailable
      else if c = DataLoss then CodeDataLoss
      else if c = Unauthenticated then CodeUnauthenticated
      else CodeUnknown)"

definition everyCode :: "Code list" where
  "everyCode =
     [Cancelled, Unknown, InvalidArgument, DeadlineExceeded, NotFound, AlreadyExists,
      PermissionDenied, ResourceExhausted, FailedPrecondition, Aborted, OutOfRange,
      Unimplemented, Internal, Unavailable, DataLoss, Unauthenticated]"

definition codeFromConnect :: "rpc_Code \<Rightarrow> Code" where
  "codeFromConnect k =
     (case find (\<lambda>ours. connectCode ours = k) everyCode of None \<Rightarrow> Unknown | Some ours \<Rightarrow> ours)"

record payload =
  payload_bytes :: string

text \<open>What Connect offers the codec: one of this package's payloads, or a value of another type.\<close>

datatype any_message = ours payload | theirs string

definition codec_Name :: string where
  "codec_Name = ''proto''"

definition Marshal :: "any_message \<Rightarrow> (rpc_fault, string) result" where
  "Marshal message =
     (case message of
        ours envelope \<Rightarrow> Inr (payload_bytes envelope)
      | theirs t \<Rightarrow> Inl (Reason (''this codec carries bytes, and Connect offered a '' @ t)))"

definition Unmarshal :: "string \<Rightarrow> any_message \<Rightarrow> (rpc_fault, any_message) result" where
  "Unmarshal received into =
     (case into of
        ours target \<Rightarrow> Inr (ours (target\<lparr>payload_bytes := received\<rparr>))
      | theirs t \<Rightarrow> Inl (Reason (''this codec carries bytes, and Connect offered a '' @ t)))"

section \<open>The serving side\<close>

definition refusal :: "Failure \<Rightarrow> rpc_Error" where
  "refusal failure = \<lparr>rpc_code = connectCode (failure_Code failure), rpc_message = failure_Message failure\<rparr>"

type_synonym ('x, 'w) rpc_handler = "'x \<Rightarrow> payload \<Rightarrow> 'w \<Rightarrow> 'w \<times> (rpc_Error, payload) result"

record ('x, 'w) ConnectServer =
  srv_paths :: "string \<Rightarrow> bool option"
  srv_mux :: "(string \<times> ('x, 'w) rpc_handler) list"

definition NewConnectServer :: "('x, 'w) ConnectServer" where
  "NewConnectServer = \<lparr>srv_paths = Map.empty, srv_mux = []\<rparr>"

definition plain_char :: "char \<Rightarrow> bool" where
  "plain_char c \<longleftrightarrow>
     (CHR ''a'' \<le> c \<and> c \<le> CHR ''z'') \<or> (CHR ''A'' \<le> c \<and> c \<le> CHR ''Z'') \<or>
     (CHR ''0'' \<le> c \<and> c \<le> CHR ''9'') \<or> c \<in> set ''._-''"

definition plain_name :: "string \<Rightarrow> bool" where
  "plain_name s \<longleftrightarrow> s \<noteq> [] \<and> s \<noteq> ''.'' \<and> s \<noteq> ''..'' \<and> list_all plain_char s"

definition plain_path :: "string \<Rightarrow> bool" where
  "plain_path p \<longleftrightarrow> HasPrefix p ''/'' \<and> list_all plain_name (split_on (CHR ''/'') (TrimPrefix p ''/''))"

definition mux_Handle ::
  "(string \<times> 'h) list \<Rightarrow> string \<Rightarrow> 'h \<Rightarrow> (string \<times> 'h) list option" where
  "mux_Handle mux pattern handler =
     (if plain_path pattern \<and> pattern \<notin> set (map fst mux) then Some (mux @ [(pattern, handler)]) else None)"

definition answering :: "('x, 'w) UnaryHandler \<Rightarrow> ('x, 'w) rpc_handler" where
  "answering answer ctx request w =
     (case answer ctx (payload_bytes request) w of
        (w', Inl failure) \<Rightarrow> (w', Inl (refusal failure))
      | (w', Inr message) \<Rightarrow> (w', Inr \<lparr>payload_bytes = message\<rparr>))"

text \<open>No value where the multiplexer is given a pattern that is not modelled.\<close>

definition server_Answer ::
  "('x, 'w) ConnectServer \<Rightarrow> string \<Rightarrow> ('x, 'w) UnaryHandler \<Rightarrow>
     (rpc_fault, ('x, 'w) ConnectServer) result option" where
  "server_Answer transport path answer =
     (if srv_paths transport path = Some True
      then Some (Inl (faultOf ''answer a procedure'' path errAnsweredTwice))
      else (case mux_Handle (srv_mux transport) path (answering answer) of
              None \<Rightarrow> None
            | Some mux \<Rightarrow> Some (Inr \<lparr>srv_paths = (srv_paths transport)(path \<mapsto> True), srv_mux = mux\<rparr>)))"

definition server_Handler ::
  "('x, 'w) ConnectServer \<Rightarrow> (rpc_fault, (string \<times> ('x, 'w) rpc_handler) list) result" where
  "server_Handler transport =
     (if dom (srv_paths transport) = {} then Inl (faultOf ''build a handler'' [] errNoProcedures)
      else Inr (srv_mux transport))"

definition server_Paths :: "('x, 'w) ConnectServer \<Rightarrow> string set" where
  "server_Paths transport = dom (srv_paths transport)"

section \<open>The calling side\<close>

record ConnectClient =
  client_address :: string
  grpcProtocol :: bool

definition Dial :: "string \<Rightarrow> ConnectClient" where
  "Dial address = \<lparr>client_address = address, grpcProtocol = True\<rparr>"

definition DialConnect :: "string \<Rightarrow> ConnectClient" where
  "DialConnect address = \<lparr>client_address = address, grpcProtocol = False\<rparr>"

text \<open>Connect's client over the caller's HTTP client: protocol, address, context, message.\<close>

type_synonym ('x, 'w) CallUnary =
  "bool \<Rightarrow> string \<Rightarrow> 'x \<Rightarrow> payload \<Rightarrow> 'w \<Rightarrow> 'w \<times> (call_error, payload) result"

definition callRefusal :: "call_error \<Rightarrow> Failure" where
  "callRefusal err =
     (case err of
        OtherError txt \<Rightarrow> \<lparr>failure_Code = Unavailable, failure_Message = txt\<rparr>
      | RpcError e \<Rightarrow> \<lparr>failure_Code = codeFromConnect (rpc_code e), failure_Message = rpc_message e\<rparr>)"

definition Call :: "('x, 'w) CallUnary \<Rightarrow> ConnectClient \<Rightarrow> ('x, 'w) ClientTransport" where
  "Call connect transport ctx path request w =
     (case connect (grpcProtocol transport) (client_address transport @ path) ctx \<lparr>payload_bytes = request\<rparr> w of
        (w', Inl err) \<Rightarrow> (w', Inl (callRefusal err))
      | (w', Inr answer) \<Rightarrow> (w', Inr (payload_bytes answer)))"

section \<open>Codes survive the wire\<close>

lemma find_code:
  "find (\<lambda>ours. connectCode ours = connectCode c) everyCode =
     (if c \<in> set everyCode then Some c else Some Unknown)"
proof (cases "c \<in> set everyCode")
  case True
  moreover have "list_all (\<lambda>c. find (\<lambda>ours. connectCode ours = connectCode c) everyCode = Some c) everyCode"
    by code_simp
  ultimately show ?thesis by (simp add: list_all_iff)
next
  case False
  then have "connectCode c = CodeUnknown" by (simp add: connectCode_def everyCode_def)
  moreover have "find (\<lambda>ours. connectCode ours = CodeUnknown) everyCode = Some Unknown" by code_simp
  ultimately show ?thesis using False by simp
qed

lemma code_back: "codeFromConnect (connectCode c) = (if c \<in> set everyCode then c else Unknown)"
  by (simp add: codeFromConnect_def find_code)

lemma everyCode_bounds: "c \<in> set everyCode \<longleftrightarrow> 1 \<le> unat c \<and> unat c \<le> 16"
proof
  have "list_all (\<lambda>c. 1 \<le> unat c \<and> unat c \<le> 16) everyCode" by code_simp
  then show "c \<in> set everyCode \<Longrightarrow> 1 \<le> unat c \<and> unat c \<le> 16" by (auto simp: list_all_iff)
  have all: "\<forall>n \<in> set [1..<17]. word_of_nat n \<in> set everyCode" by code_simp
  assume "1 \<le> unat c \<and> unat c \<le> 16"
  then have "unat c \<in> set [1..<17]" by simp
  from bspec [OF all this] show "c \<in> set everyCode" by simp
qed

section \<open>What is mounted\<close>

text \<open>A server's table of paths is what its multiplexer serves, each path once.\<close>

definition server_ok :: "('x, 'w) ConnectServer \<Rightarrow> bool" where
  "server_ok transport \<longleftrightarrow>
     srv_paths transport = (\<lambda>p. if p \<in> set (map fst (srv_mux transport)) then Some True else None) \<and>
     distinct (map fst (srv_mux transport)) \<and> list_all plain_path (map fst (srv_mux transport))"

lemma server_ok_new: "server_ok NewConnectServer"
  by (simp add: server_ok_def NewConnectServer_def)

lemma server_Answer_ok:
  assumes "server_ok transport" and "plain_path path"
  shows "server_Answer transport path answer =
     Some (if path \<in> server_Paths transport then Inl (faultOf ''answer a procedure'' path errAnsweredTwice)
           else Inr \<lparr>srv_paths = (srv_paths transport)(path \<mapsto> True),
                     srv_mux = srv_mux transport @ [(path, answering answer)]\<rparr>)"
  using assms by (auto simp: server_Answer_def server_ok_def mux_Handle_def server_Paths_def dom_def)

lemma server_Answer_keeps:
  assumes "server_ok transport" and "server_Answer transport path answer = Some (Inr transport')"
  shows "server_ok transport'" and "server_Paths transport' = insert path (server_Paths transport)"
    and "map_of (srv_mux transport') path = Some (answering answer)"
    and "p \<noteq> path \<Longrightarrow> map_of (srv_mux transport') p = map_of (srv_mux transport) p"
proof -
  have plain: "plain_path path" and new: "path \<notin> set (map fst (srv_mux transport))"
    and transport': "transport' = \<lparr>srv_paths = (srv_paths transport)(path \<mapsto> True),
                       srv_mux = srv_mux transport @ [(path, answering answer)]\<rparr>"
    using assms(2) by (auto simp: server_Answer_def mux_Handle_def split: if_splits option.splits)
  show "server_ok transport'"
    using assms(1) plain new by (auto simp: server_ok_def transport' fun_eq_iff)
  show "server_Paths transport' = insert path (server_Paths transport)" by (simp add: transport' server_Paths_def)
  have "map_of (srv_mux transport) path = None" using new by (simp add: map_of_eq_None_iff)
  then show "map_of (srv_mux transport') path = Some (answering answer)" by (simp add: transport' map_of_append map_add_def)
  show "p \<noteq> path \<Longrightarrow> map_of (srv_mux transport') p = map_of (srv_mux transport) p"
    by (simp add: transport' map_of_append map_add_def split: option.split)
qed

text \<open>The canonical codes survive the wire: a code is read back as itself, a value outside the canonical
ones as Unknown, and every code of Connect that the source names is the image of the code it is
read as; codes that Connect adds are Unknown.\<close>

theorem codes_survive_the_wire:
  "codeFromConnect (connectCode c) = (if 1 \<le> unat c \<and> unat c \<le> 16 then c else Unknown) \<and>
   connectCode (codeFromConnect k) = (case k of UnlistedCode n \<Rightarrow> CodeUnknown | _ \<Rightarrow> k)"
proof
  show "codeFromConnect (connectCode c) = (if 1 \<le> unat c \<and> unat c \<le> 16 then c else Unknown)"
    by (simp only: code_back everyCode_bounds)
  have "connectCode d \<noteq> UnlistedCode n" for d n by (simp add: connectCode_def)
  then have unlisted: "connectCode (codeFromConnect (UnlistedCode n)) = CodeUnknown" for n
    by (simp add: codeFromConnect_def everyCode_def) (simp add: connectCode_def code_defs)
  have listed: "list_all (\<lambda>k. connectCode (codeFromConnect k) = k)
      [CodeCanceled, CodeUnknown, CodeInvalidArgument, CodeDeadlineExceeded, CodeNotFound, CodeAlreadyExists,
       CodePermissionDenied, CodeResourceExhausted, CodeFailedPrecondition, CodeAborted, CodeOutOfRange,
       CodeUnimplemented, CodeInternal, CodeUnavailable, CodeDataLoss, CodeUnauthenticated]" by code_simp
  show "connectCode (codeFromConnect k) = (case k of UnlistedCode n \<Rightarrow> CodeUnknown | _ \<Rightarrow> k)"
    using listed unlisted by (cases k) auto
qed

section \<open>What a server serves\<close>

text \<open>The servers that come of answering procedures, with what has been accepted on the way.\<close>

inductive reached :: "(string \<times> ('x, 'w) UnaryHandler) list \<Rightarrow> ('x, 'w) ConnectServer \<Rightarrow> bool" where
  start: "reached [] NewConnectServer"
| accepted: "reached answers server \<Longrightarrow> server_Answer server path answer = Some (Inr server') \<Longrightarrow>
    reached (answers @ [(path, answer)]) server'"
| refused: "reached answers server \<Longrightarrow> server_Answer server path answer = Some (Inl err) \<Longrightarrow>
    reached answers server"

text \<open>A transport serves exactly what it was given: after any sequence of answers its paths are those of
the accepted ones, each once, every path is served by the handler it was answered with, and there
is a handler to mount as soon as one answer was accepted.\<close>

theorem server_serves_what_it_was_given:
  assumes "reached answers server"
  shows "srv_mux server = map (\<lambda>(path, answer). (path, answering answer)) answers \<and>
     distinct (map fst answers) \<and> server_Paths server = set (map fst answers) \<and>
     server_Handler server =
       (if answers = [] then Inl (faultOf ''build a handler'' [] errNoProcedures) else Inr (srv_mux server))"
proof -
  have "server_ok server \<and> srv_mux server = map (\<lambda>(path, answer). (path, answering answer)) answers"
    using assms
  proof induction
    case (accepted answers server path answer server')
    moreover from accepted(2) have "srv_mux server' = srv_mux server @ [(path, answering answer)]"
      by (auto simp: server_Answer_def mux_Handle_def split: if_splits option.splits)
    ultimately show ?case using server_Answer_keeps(1) by auto
  qed (simp_all add: server_ok_new, simp add: NewConnectServer_def)
  then have ok: "server_ok server" and mux: "srv_mux server = map (\<lambda>(path, answer). (path, answering answer)) answers"
    by simp_all
  have fst_mux: "map fst (srv_mux server) = map fst answers" by (simp add: mux comp_def case_prod_beta)
  have distinct: "distinct (map fst answers)" using ok by (simp only: server_ok_def fst_mux)
  have "srv_paths server = (\<lambda>p. if p \<in> set (map fst answers) then Some True else None)"
    using ok by (simp only: server_ok_def fst_mux)
  then have "dom (srv_paths server) = set (map fst answers)" by (auto simp: dom_def split: if_splits)
  with distinct mux show ?thesis by (simp add: server_Paths_def server_Handler_def)
qed

theorem server_serves_what_it_was_given_witness:
  "\<exists>server :: (unit, nat) ConnectServer.
     server_Handler server = Inr (srv_mux server) \<and> server_Paths server = {''/a/B'', ''/a/C''}"
proof -
  let ?answer = "(\<lambda>_ m w. (Suc w, Inr m)) :: (unit, nat) UnaryHandler"
  have plain: "plain_path ''/a/B''" "plain_path ''/a/C''" by code_simp+
  obtain t where t: "server_Answer NewConnectServer ''/a/B'' ?answer = Some (Inr t)"
    using server_Answer_ok [OF server_ok_new plain(1), of ?answer] by (simp add: server_Paths_def NewConnectServer_def)
  note keeps = server_Answer_keeps [OF server_ok_new t]
  obtain t' where t': "server_Answer t ''/a/C'' ?answer = Some (Inr t')"
    using server_Answer_ok [OF keeps(1) plain(2), of ?answer] keeps(2)
    by (simp add: server_Paths_def NewConnectServer_def)
  have again: "server_Answer t' ''/a/B'' ?answer = Some (Inl (faultOf ''answer a procedure'' ''/a/B'' errAnsweredTwice))"
    using server_Answer_ok [OF server_Answer_keeps(1) [OF keeps(1) t'] plain(1), of ?answer]
      server_Answer_keeps(2) [OF keeps(1) t'] keeps(2) by simp
  have "reached [(''/a/B'', ?answer), (''/a/C'', ?answer)] t'"
    using refused [OF accepted [OF accepted [OF start t] t'] again] by simp
  from server_serves_what_it_was_given [OF this] show ?thesis by (intro exI [of _ t']) auto
qed

end
