(* ===== verification/Grpc_Calls.thy ===== *)
theory Grpc_Calls
  imports Grpc_Transport
begin

text \<open>
  Remote procedures: their declaration (\<open>grpc/procedure.go\<close>), the contract a set of them
  implies (\<open>grpc/contract.go\<close>), the boundary that interprets their handlers
  (\<open>grpc/boundary.go\<close>) and the typed call (\<open>Ask\<close> of \<open>grpc/connect_client.go\<close>).

  Schemas and their protobuf encoding are another module's, here a record of functions, and
  so is the runtime: running a handler is a function that gives what the handler did to the
  state and either a cause or a value. Reporting a fault is the boundary's own function on
  that state. A cause is known by the four observers the source calls.

  A boundary is shared by the handlers that are mounted through it: what they answer with and
  where they report is read when a call comes in, not when the procedure was answered. So a
  mounted handler is given the boundary's settings together with the context of the call.

  The main result follows one call from \<open>Ask\<close> through the wire to the handler and back.
\<close>

section \<open>Procedures\<close>

record ('a, 'n) proto_schema =
  proto_Structure :: 'n
  proto_Validate :: "rpc_fault option"
  proto_Encode :: "'a \<Rightarrow> (rpc_fault, string) result"
  proto_Decode :: "string \<Rightarrow> (rpc_fault, 'a) result"

record ('i, 'out, 'n) Procedure =
  proc_service :: string
  proc_method :: string
  proc_doc :: string
  proc_request :: "('i, 'n) proto_schema"
  proc_response :: "('out, 'n) proto_schema"
  proc_fault :: "rpc_fault option"

definition Path :: "('i, 'out, 'n) Procedure \<Rightarrow> string" where
  "Path procedure = ''/'' @ proc_service procedure @ ''/'' @ proc_method procedure"

definition firstSchemaFault :: "('i, 'out, 'n) Procedure \<Rightarrow> rpc_fault option" where
  "firstSchemaFault procedure =
     (case proto_Validate (proc_request procedure) of
        Some err \<Rightarrow> Some (faultOf ''declare a procedure'' (Path procedure) err)
      | None \<Rightarrow>
          (case proto_Validate (proc_response procedure) of
             Some err \<Rightarrow> Some (faultOf ''declare a procedure'' (Path procedure) err)
           | None \<Rightarrow> None))"

definition Unary ::
  "string \<Rightarrow> string \<Rightarrow> ('i, 'n) proto_schema \<Rightarrow> ('out, 'n) proto_schema \<Rightarrow> ('i, 'out, 'n) Procedure" where
  "Unary service verb request response =
     (let procedure = \<lparr>proc_service = service, proc_method = verb, proc_doc = [],
                       proc_request = request, proc_response = response, proc_fault = None\<rparr>;
          named = (if TrimSpace service = []
                   then procedure\<lparr>proc_fault := Some (faultOf ''declare a procedure'' verb errNoService)\<rparr>
                   else if TrimSpace verb = []
                   then procedure\<lparr>proc_fault := Some (faultOf ''declare a procedure'' service errNoMethod)\<rparr>
                   else procedure)
      in if proc_fault named = None then named\<lparr>proc_fault := firstSchemaFault named\<rparr> else named)"

definition procedure_WithDescription ::
  "('i, 'out, 'n) Procedure \<Rightarrow> string \<Rightarrow> ('i, 'out, 'n) Procedure" where
  "procedure_WithDescription procedure prose = procedure\<lparr>proc_doc := prose\<rparr>"

text \<open>What a contract is projected from: the accessors of a procedure, whatever its types.\<close>

record 'n Declaration =
  Service :: string
  Method :: string
  Description :: string
  Shapes :: "'n \<times> 'n"
  declaration_Fault :: "rpc_fault option"

definition declared :: "('i, 'out, 'n) Procedure \<Rightarrow> 'n Declaration" where
  "declared procedure =
     \<lparr>Service = proc_service procedure, Method = proc_method procedure, Description = proc_doc procedure,
      Shapes = (proto_Structure (proc_request procedure), proto_Structure (proc_response procedure)),
      declaration_Fault = proc_fault procedure\<rparr>"

section \<open>The contract\<close>

record 'n proto_procedure =
  pp_Service :: string
  pp_Method :: string
  pp_Description :: string
  pp_Request :: 'n
  pp_Response :: 'n

text \<open>\<open>ProjectServices\<close> is the schema module's; \<open>Quote\<close> writes a name the way \<open>%q\<close> does.\<close>

record ('n, 'd) contract_ops =
  ProjectServices :: "string \<Rightarrow> 'n proto_procedure list \<Rightarrow> (rpc_fault, 'd) result"
  Quote :: "string \<Rightarrow> string"

definition bareServiceName ::
  "('n, 'd) contract_ops \<Rightarrow> string \<Rightarrow> string \<Rightarrow> (rpc_fault, string) result" where
  "bareServiceName ops packageName service =
     (let prefix = packageName @ ''.'' in
      if \<not> HasPrefix service prefix
      then Inl (faultOf ''project a contract'' service (Reason (Quote ops service @
             '' is not in package '' @ Quote ops packageName @
             '', so the path a client calls would not be the path this answers at'')))
      else (let bare = TrimPrefix service prefix in
            if bare = [] \<or> CHR ''.'' \<in> set bare
            then Inl (faultOf ''project a contract'' service (Reason (Quote ops service @
                   '' names a service inside a nested package, and a file declares one'')))
            else Inr bare))"

fun proto_procedures ::
  "('n, 'd) contract_ops \<Rightarrow> string \<Rightarrow> 'n Declaration list \<Rightarrow> (rpc_fault, 'n proto_procedure list) result" where
  "proto_procedures ops packageName [] = Inr []"
| "proto_procedures ops packageName (procedure # rest) =
     (case declaration_Fault procedure of
        Some err \<Rightarrow> Inl err
      | None \<Rightarrow>
          bind_result (bareServiceName ops packageName (Service procedure)) (\<lambda>bare.
          bind_result (proto_procedures ops packageName rest) (\<lambda>more.
            Inr (\<lparr>pp_Service = bare, pp_Method = Method procedure, pp_Description = Description procedure,
                  pp_Request = fst (Shapes procedure), pp_Response = snd (Shapes procedure)\<rparr> # more))))"

definition Contract ::
  "('n, 'd) contract_ops \<Rightarrow> string \<Rightarrow> 'n Declaration list \<Rightarrow> (rpc_fault, 'd) result" where
  "Contract ops packageName procedures =
     bind_result (proto_procedures ops packageName procedures) (ProjectServices ops packageName)"

section \<open>The boundary\<close>

record ('c, 'e) cause_ops =
  ContainsDefect :: "'c \<Rightarrow> bool"
  cause_Failure :: "'c \<Rightarrow> 'e option"
  HasInterruptsOnly :: "'c \<Rightarrow> bool"
  cause_String :: "'c \<Rightarrow> string"

record ('x, 'w, 'r, 'c, 'e) settings =
  environment :: 'r
  onFailure :: "'e \<Rightarrow> Failure"
  onDefect :: "'c \<Rightarrow> Failure"
  report :: "'x \<Rightarrow> rpc_fault \<Rightarrow> 'w \<Rightarrow> 'w"

record ('x, 'w, 'r, 'c, 'e) Boundary =
  settings_of :: "('x, 'w, 'r, 'c, 'e) settings"
  transport :: "(('x, 'w, 'r, 'c, 'e) settings \<times> 'x, 'w) ConnectServer"

definition defectFailure :: "('c, 'e) cause_ops \<Rightarrow> 'c \<Rightarrow> Failure" where
  "defectFailure ops cause =
     (if HasInterruptsOnly ops cause
      then \<lparr>failure_Code = Cancelled, failure_Message = ''the call was cancelled''\<rparr>
      else \<lparr>failure_Code = Unknown, failure_Message = ''the service failed''\<rparr>)"

definition reportToStandardError :: "(string \<Rightarrow> 'w \<Rightarrow> 'w) \<Rightarrow> 'x \<Rightarrow> rpc_fault \<Rightarrow> 'w \<Rightarrow> 'w" where
  "reportToStandardError stderr ctx err = stderr (Error err @ [CHR 0x0A])"

definition NewBoundary ::
  "('c, 'e) cause_ops \<Rightarrow> (string \<Rightarrow> 'w \<Rightarrow> 'w) \<Rightarrow> bool \<Rightarrow> 'r \<Rightarrow>
     (('x, 'w, 'r, 'c, 'e) settings \<times> 'x, 'w) ConnectServer option \<Rightarrow> ('e \<Rightarrow> Failure) option \<Rightarrow>
     (rpc_fault, ('x, 'w, 'r, 'c, 'e) Boundary) result" where
  "NewBoundary ops stderr has_runtime env server on_failure =
     (if \<not> has_runtime then Inl (faultOf ''build a boundary'' [] errNoRuntime)
      else (case server of
              None \<Rightarrow> Inl (faultOf ''build a boundary'' [] errNoTransport)
            | Some t \<Rightarrow>
                (case on_failure of
                   None \<Rightarrow> Inl (faultOf ''build a boundary'' [] errNoFailureMapping)
                 | Some f \<Rightarrow>
                     Inr \<lparr>settings_of = \<lparr>environment = env, onFailure = f, onDefect = defectFailure ops,
                                          report = reportToStandardError stderr\<rparr>,
                          transport = t\<rparr>)))"

definition WithDefectFailure ::
  "('x, 'w, 'r, 'c, 'e) Boundary \<Rightarrow> ('c \<Rightarrow> Failure) \<Rightarrow> ('x, 'w, 'r, 'c, 'e) Boundary" where
  "WithDefectFailure boundary answer = boundary\<lparr>settings_of := (settings_of boundary)\<lparr>onDefect := answer\<rparr>\<rparr>"

definition WithReport ::
  "('x, 'w, 'r, 'c, 'e) Boundary \<Rightarrow> ('x \<Rightarrow> rpc_fault \<Rightarrow> 'w \<Rightarrow> 'w) \<Rightarrow> ('x, 'w, 'r, 'c, 'e) Boundary" where
  "WithReport boundary reporting = boundary\<lparr>settings_of := (settings_of boundary)\<lparr>report := reporting\<rparr>\<rparr>"

definition boundary_Handler ::
  "('x, 'w, 'r, 'c, 'e) Boundary \<Rightarrow>
     (rpc_fault, (string \<times> (('x, 'w, 'r, 'c, 'e) settings \<times> 'x, 'w) rpc_handler) list) result" where
  "boundary_Handler boundary = server_Handler (transport boundary)"

definition failureForCause ::
  "('c, 'e) cause_ops \<Rightarrow> ('x, 'w, 'r, 'c, 'e) settings \<Rightarrow> 'x \<Rightarrow> 'c \<Rightarrow> 'w \<Rightarrow> 'w \<times> Failure" where
  "failureForCause ops boundary ctx cause w =
     (if ContainsDefect ops cause
      then (report boundary ctx (Reason (''grpc: a handler failed: '' @ cause_String ops cause)) w,
            onDefect boundary cause)
      else (case cause_Failure ops cause of
              Some failure \<Rightarrow> (w, onFailure boundary failure)
            | None \<Rightarrow> (w, onDefect boundary cause)))"

text \<open>Running an effect: the context, the environment, the effect and the state it starts in.\<close>

type_synonym ('x, 'r, 'fx, 'w, 'c, 'out) Run = "'x \<Rightarrow> 'r \<Rightarrow> 'fx \<Rightarrow> 'w \<Rightarrow> 'w \<times> ('c, 'out) result"

definition handleCall ::
  "('c, 'e) cause_ops \<Rightarrow> ('x, 'r, 'fx, 'w, 'c, 'out) Run \<Rightarrow> ('i, 'out, 'n) Procedure \<Rightarrow> ('i \<Rightarrow> 'fx) \<Rightarrow>
     (('x, 'w, 'r, 'c, 'e) settings \<times> 'x, 'w) UnaryHandler" where
  "handleCall ops run procedure handle = (\<lambda>(boundary, ctx) request w.
     case proto_Decode (proc_request procedure) request of
        Inl err \<Rightarrow>
          (w, Inl \<lparr>failure_Code = InvalidArgument,
                   failure_Message = ''the request does not satisfy '' @ Path procedure @ '': '' @ Error err\<rparr>)
      | Inr input \<Rightarrow>
          (case run ctx (environment boundary) (handle input) w of
             (w', Inl cause) \<Rightarrow>
               (let (w'', failure) = failureForCause ops boundary ctx cause w' in (w'', Inl failure))
           | (w', Inr answer) \<Rightarrow>
               (case proto_Encode (proc_response procedure) answer of
                  Inl err \<Rightarrow>
                    (report boundary ctx (faultOf ''encode a response'' (Path procedure) err) w',
                     Inl \<lparr>failure_Code = Internal, failure_Message = ''the response could not be encoded''\<rparr>)
                | Inr message \<Rightarrow> (w', Inr message))))"

definition Answer ::
  "('c, 'e) cause_ops \<Rightarrow> ('x, 'r, 'fx, 'w, 'c, 'out) Run \<Rightarrow> ('x, 'w, 'r, 'c, 'e) Boundary \<Rightarrow>
     ('i, 'out, 'n) Procedure \<Rightarrow> ('i \<Rightarrow> 'fx) option \<Rightarrow>
     (rpc_fault, ('x, 'w, 'r, 'c, 'e) Boundary) result option" where
  "Answer ops run boundary procedure handle =
     (case proc_fault procedure of
        Some err \<Rightarrow> Some (Inl err)
      | None \<Rightarrow>
          (case handle of
             None \<Rightarrow> Some (Inl (faultOf ''answer a procedure'' (Path procedure)
                                  (Reason ''a procedure needs a handler'')))
           | Some f \<Rightarrow>
               map_option (map_sum (\<lambda>err. err) (\<lambda>t. boundary\<lparr>transport := t\<rparr>))
                 (server_Answer (transport boundary) (Path procedure)
                    (handleCall ops run procedure f))))"

section \<open>The typed call\<close>

definition sendRequest ::
  "('x, 'w) ClientTransport \<Rightarrow> ('i, 'out, 'n) Procedure \<Rightarrow> string \<Rightarrow> 'x \<Rightarrow> 'w \<Rightarrow> 'w \<times> (Failure, 'out) result" where
  "sendRequest call procedure request ctx w =
     (case call ctx (Path procedure) request w of
        (w', Inl failure) \<Rightarrow> (w', Inl failure)
      | (w', Inr answer) \<Rightarrow>
          (case proto_Decode (proc_response procedure) answer of
             Inl err \<Rightarrow>
               (w', Inl \<lparr>failure_Code = Internal,
                         failure_Message = ''the response does not satisfy '' @ Path procedure @ '': '' @ Error err\<rparr>)
           | Inr outp \<Rightarrow> (w', Inr outp)))"

definition callFault :: "Code \<Rightarrow> string \<Rightarrow> 'w \<Rightarrow> 'w \<times> (Failure, 'out) result" where
  "callFault code message w = (w, Inl \<lparr>failure_Code = code, failure_Message = message\<rparr>)"

definition Ask ::
  "('x, 'w) ClientTransport \<Rightarrow> ('i, 'out, 'n) Procedure \<Rightarrow> 'i \<Rightarrow> 'x \<Rightarrow> 'w \<Rightarrow> 'w \<times> (Failure, 'out) result" where
  "Ask call procedure request ctx =
     (case proc_fault procedure of
        Some err \<Rightarrow> callFault InvalidArgument (Error err)
      | None \<Rightarrow>
          (case proto_Encode (proc_request procedure) request of
             Inl err \<Rightarrow> callFault InvalidArgument (Error err)
           | Inr message \<Rightarrow> sendRequest call procedure message ctx))"

section \<open>A call reaches its handler\<close>

text \<open>What the codec makes of a message on its way through Connect.\<close>

definition carried :: "payload \<Rightarrow> payload" where
  "carried p =
     (case Marshal (ours p) of
        Inr sent \<Rightarrow> (case Unmarshal sent (ours \<lparr>payload_bytes = []\<rparr>) of Inr (ours q) \<Rightarrow> q | _ \<Rightarrow> p)
      | Inl err \<Rightarrow> p)"

lemma carried_same [simp]: "carried p = p"
  by (simp add: carried_def Marshal_def Unmarshal_def)

text \<open>Connect's part, when a call gets through: the message passes the codec on either way, and an
error of the handler arrives with its code and its text. \<open>arriving\<close> is what the handler reads for
a call made in a context.\<close>

definition delivers ::
  "('y, 'w) CallUnary \<Rightarrow> ('y \<Rightarrow> 'x) \<Rightarrow> string \<Rightarrow> (string \<times> ('x, 'w) rpc_handler) list \<Rightarrow> bool" where
  "delivers connect arriving address mux \<longleftrightarrow>
     (\<forall>grpc path impl ctx p w. map_of mux path = Some impl \<longrightarrow>
        connect grpc (address @ path) ctx p w =
          (case impl (arriving ctx) (carried p) w of
             (w', Inl err) \<Rightarrow> (w', Inl (RpcError err))
           | (w', Inr q) \<Rightarrow> (w', Inr (carried q))))"

definition proto_lawful :: "('a, 'n) proto_schema \<Rightarrow> bool" where
  "proto_lawful shape \<longleftrightarrow> (\<forall>v m. proto_Encode shape v = Inr m \<longrightarrow> proto_Decode shape m = Inr v)"

definition carried_failure :: "Failure \<Rightarrow> Failure" where
  "carried_failure failure = callRefusal (RpcError (refusal failure))"

lemma carried_failure_code:
  "carried_failure failure =
     (if failure_Code failure \<in> set everyCode then failure else failure\<lparr>failure_Code := Unknown\<rparr>)"
  by (simp add: carried_failure_def callRefusal_def refusal_def code_back)

lemma Call_delivered:
  assumes "delivers connect arriving (client_address client) mux" and "map_of mux path = Some (answering answer)"
  shows "Call connect client ctx path request w =
     (case answer (arriving ctx) request w of
        (w', Inl failure) \<Rightarrow> (w', Inl (carried_failure failure))
      | (w', Inr message) \<Rightarrow> (w', Inr message))"
  using assms unfolding delivers_def
  by (simp add: Call_def answering_def carried_failure_def split: prod.split sum.split)

lemma Answer_mounts:
  assumes "server_ok (transport boundary)"
    and "Answer ops run boundary procedure (Some handle) = Some (Inr boundary')"
  shows "server_ok (transport boundary')" and "settings_of boundary' = settings_of boundary"
    and "proc_fault procedure = None"
    and "map_of (srv_mux (transport boundary')) (Path procedure) =
           Some (answering (handleCall ops run procedure handle))"
    and "p \<noteq> Path procedure \<Longrightarrow>
           map_of (srv_mux (transport boundary')) p = map_of (srv_mux (transport boundary)) p"
proof -
  show "proc_fault procedure = None" using assms(2) by (simp add: Answer_def split: option.splits)
  then obtain r where r: "server_Answer (transport boundary) (Path procedure) (handleCall ops run procedure handle) = Some r"
    "map_sum (\<lambda>err. err) (\<lambda>t. boundary\<lparr>transport := t\<rparr>) r = Inr boundary'"
    using assms(2) by (auto simp: Answer_def)
  then obtain t where t: "boundary' = boundary\<lparr>transport := t\<rparr>"
    "server_Answer (transport boundary) (Path procedure) (handleCall ops run procedure handle) = Some (Inr t)"
    by (cases r) auto
  note keeps = server_Answer_keeps [OF assms(1) t(2)]
  show "server_ok (transport boundary')" "settings_of boundary' = settings_of boundary"
    "map_of (srv_mux (transport boundary')) (Path procedure) = Some (answering (handleCall ops run procedure handle))"
    "p \<noteq> Path procedure \<Longrightarrow> map_of (srv_mux (transport boundary')) p = map_of (srv_mux (transport boundary)) p"
    using keeps by (simp_all add: t(1))
qed

lemma ask_answered:
  assumes "server_ok (transport boundary)"
    and "Answer ops run boundary procedure (Some handle) = Some (Inr boundary')"
    and "delivers connect arriving (client_address client) (srv_mux (transport boundary'))"
    and "arriving ctx = (settings_of boundary', ctx')"
    and "proto_lawful (proc_request procedure)" and "proto_lawful (proc_response procedure)"
    and "proto_Encode (proc_request procedure) request = Inr message"
  shows "Ask (Call connect client) procedure request ctx w =
     (case run ctx' (environment (settings_of boundary)) (handle request) w of
        (w', Inr v) \<Rightarrow>
          (case proto_Encode (proc_response procedure) v of
             Inr _ \<Rightarrow> (w', Inr v)
           | Inl err \<Rightarrow>
               (report (settings_of boundary) ctx' (faultOf ''encode a response'' (Path procedure) err) w',
                Inl \<lparr>failure_Code = Internal, failure_Message = ''the response could not be encoded''\<rparr>))
      | (w', Inl cause) \<Rightarrow>
          (let (w'', failure) = failureForCause ops (settings_of boundary) ctx' cause w'
           in (w'', Inl (if failure_Code failure \<in> set everyCode then failure
                         else failure\<lparr>failure_Code := Unknown\<rparr>))))"
proof -
  note mounts = Answer_mounts [OF assms(1,2)]
  have request: "proto_Decode (proc_request procedure) message = Inr request"
    using assms(5,7) by (auto simp: proto_lawful_def)
  have response: "proto_Decode (proc_response procedure) m = Inr v" if "proto_Encode (proc_response procedure) v = Inr m" for v m
    using assms(6) that by (auto simp: proto_lawful_def)
  have internal: "Internal \<in> set everyCode" by (simp add: everyCode_def)
  show ?thesis
    using mounts(3) assms(7) internal
    by (simp add: Ask_def sendRequest_def Call_delivered [OF assms(3) mounts(4)] assms(4) handleCall_def
        mounts(2) request response carried_failure_code Let_def split: prod.split sum.split)
qed

text \<open>C4: A call gets what its handler gives: asking a procedure that a boundary answers, over a connection
that gets through, runs the handler with the request that was asked and comes to its value; a
typed failure comes back as the boundary maps it, a defect or a response that cannot be encoded
as what the boundary answers with, after reporting it -- each with its code, or Unknown for a
code outside the canonical ones.\<close>

theorem ask_runs_the_handler:
  assumes "server_ok (transport boundary)"
    and "Answer ops run boundary procedure (Some handle) = Some (Inr boundary')"
    and "delivers connect arriving (client_address client) (srv_mux (transport boundary'))"
    and "arriving ctx = (settings_of boundary', ctx')"
    and "proto_lawful (proc_request procedure)" and "proto_lawful (proc_response procedure)"
    and "proto_Encode (proc_request procedure) request = Inr message"
  shows "Ask (Call connect client) procedure request ctx w =
     (case run ctx' (environment (settings_of boundary)) (handle request) w of
        (w', Inr v) \<Rightarrow>
          (case proto_Encode (proc_response procedure) v of
             Inr _ \<Rightarrow> (w', Inr v)
           | Inl err \<Rightarrow>
               (report (settings_of boundary) ctx' (faultOf ''encode a response'' (Path procedure) err) w',
                Inl \<lparr>failure_Code = Internal, failure_Message = ''the response could not be encoded''\<rparr>))
      | (w', Inl cause) \<Rightarrow>
          (let (w'', failure) = failureForCause ops (settings_of boundary) ctx' cause w'
           in (w'', Inl (if failure_Code failure \<in> set everyCode then failure
                         else failure\<lparr>failure_Code := Unknown\<rparr>))))"
  using assms by (rule ask_answered)

section \<open>An instance\<close>

text \<open>Texts sent as they are, a runtime that answers, and a connection that is the server itself.\<close>

definition text_schema :: "(string, unit) proto_schema" where
  "text_schema = \<lparr>proto_Structure = (), proto_Validate = None, proto_Encode = Inr, proto_Decode = Inr\<rparr>"

definition echo_procedure :: "string \<Rightarrow> (string, string, unit) Procedure" where
  "echo_procedure verb = Unary ''a.v1.Echo'' verb text_schema text_schema"

type_synonym example_boundary = "(unit, nat, unit, string, Code) Boundary"

definition example_causes :: "(string, Code) cause_ops" where
  "example_causes = \<lparr>ContainsDefect = (\<lambda>c. c = ''defect''), cause_Failure = (\<lambda>c. if c = ''typed'' then Some 99 else None),
     HasInterruptsOnly = (\<lambda>c. c = ''gone''), cause_String = (\<lambda>c. c)\<rparr>"

definition example_boundary :: example_boundary where
  "example_boundary =
     \<lparr>settings_of = \<lparr>environment = (), onFailure = (\<lambda>code. \<lparr>failure_Code = code, failure_Message = ''typed''\<rparr>),
                     onDefect = defectFailure example_causes, report = (\<lambda>_ _ w. w + 100)\<rparr>,
      transport = NewConnectServer\<rparr>"

definition example_run :: "(unit, unit, string, nat, string, string) Run" where
  "example_run ctx env effect w =
     (if effect \<in> {''defect'', ''typed'', ''gone''} then (w + 1, Inl effect) else (w + 1, Inr effect))"

text \<open>A connection that looks the path up where the address is empty.\<close>

definition local_connection :: "('x \<Rightarrow> 'y) \<Rightarrow> (string \<times> ('y, 'w) rpc_handler) list \<Rightarrow> ('x, 'w) CallUnary" where
  "local_connection arriving mux grpc path ctx p w =
     (case map_of mux path of
        None \<Rightarrow> (w, Inl (OtherError ''no such path''))
      | Some impl \<Rightarrow>
          (case impl (arriving ctx) (carried p) w of
             (w', Inl err) \<Rightarrow> (w', Inl (RpcError err))
           | (w', Inr q) \<Rightarrow> (w', Inr (carried q))))"

lemma local_delivers: "delivers (local_connection arriving mux) arriving [] mux"
  by (simp add: delivers_def local_connection_def)

lemma text_lawful: "proto_lawful text_schema"
  by (simp add: proto_lawful_def text_schema_def)

lemma echo_simps [simp]:
  "proc_request (echo_procedure ''Say'') = text_schema" "proc_response (echo_procedure ''Say'') = text_schema"
  "proc_fault (echo_procedure ''Say'') = None" "Path (echo_procedure ''Say'') = ''/a.v1.Echo/Say''"
proof -
  have "TrimSpace ''a.v1.Echo'' \<noteq> []" "TrimSpace ''Say'' \<noteq> []" by code_simp+
  then show "proc_request (echo_procedure ''Say'') = text_schema" "proc_response (echo_procedure ''Say'') = text_schema"
    "proc_fault (echo_procedure ''Say'') = None" "Path (echo_procedure ''Say'') = ''/a.v1.Echo/Say''"
    by (simp_all add: echo_procedure_def Unary_def Let_def Path_def firstSchemaFault_def) (simp add: text_schema_def)
qed

lemma echo_answered:
  "\<exists>boundary. Answer example_causes example_run example_boundary (echo_procedure ''Say'') (Some (\<lambda>x. x)) =
     Some (Inr boundary)"
proof -
  have "server_Answer (transport example_boundary) ''/a.v1.Echo/Say''
      (handleCall example_causes example_run (echo_procedure ''Say'') (\<lambda>x. x)) \<noteq> None"
    "plain_path ''/a.v1.Echo/Say''" by code_simp+
  moreover have "server_ok (transport example_boundary)" by (simp add: example_boundary_def server_ok_new)
  ultimately show ?thesis
    by (simp add: Answer_def server_Answer_ok) (simp add: example_boundary_def NewConnectServer_def server_Paths_def)
qed

theorem ask_runs_the_handler_witness:
  "\<exists>boundary. Answer example_causes example_run example_boundary (echo_procedure ''Say'') (Some (\<lambda>x. x)) =
       Some (Inr boundary) \<and>
     (let call = Call (local_connection (Pair (settings_of boundary)) (srv_mux (transport boundary))) (Dial [])
      in Ask call (echo_procedure ''Say'') ''hello'' () 5 = (6, Inr ''hello'') \<and>
         Ask call (echo_procedure ''Say'') ''gone'' () 5 =
           (6, Inl \<lparr>failure_Code = Cancelled, failure_Message = ''the call was cancelled''\<rparr>) \<and>
         Ask call (echo_procedure ''Say'') ''typed'' () 5 =
           (6, Inl \<lparr>failure_Code = Unknown, failure_Message = ''typed''\<rparr>) \<and>
         Ask call (echo_procedure ''Say'') ''defect'' () 5 =
           (106, Inl \<lparr>failure_Code = Unknown, failure_Message = ''the service failed''\<rparr>))"
proof -
  obtain boundary where b: "Answer example_causes example_run example_boundary (echo_procedure ''Say'') (Some (\<lambda>x. x)) =
     Some (Inr boundary)" using echo_answered by blast
  have ok: "server_ok (transport example_boundary)" by (simp add: example_boundary_def server_ok_new)
  let ?connect = "local_connection (Pair (settings_of boundary)) (srv_mux (transport boundary))"
  have d: "delivers ?connect (Pair (settings_of boundary)) (client_address (Dial [])) (srv_mux (transport boundary))"
    by (simp add: Dial_def local_delivers)
  have asked: "Ask (Call ?connect (Dial [])) (echo_procedure ''Say'') request () w =
     (case example_run () () request w of
        (w', Inr v) \<Rightarrow> (w', Inr v)
      | (w', Inl cause) \<Rightarrow>
          (let (w'', failure) = failureForCause example_causes (settings_of example_boundary) () cause w'
           in (w'', Inl (if failure_Code failure \<in> set everyCode then failure
                         else failure\<lparr>failure_Code := Unknown\<rparr>))))" for request w
    using ask_runs_the_handler [OF ok b d, where ctx = "()" and ctx' = "()" and request = request and message = request and w = w]
    by (simp add: text_lawful) (simp add: text_schema_def split: prod.split sum.split)
  have codes: "(99 :: Code) \<notin> set everyCode" "Cancelled \<in> set everyCode" "Unknown \<in> set everyCode" by code_simp+
  show ?thesis
    using b by (intro exI [of _ boundary])
      (simp add: Let_def asked example_run_def failureForCause_def example_causes_def example_boundary_def
        defectFailure_def codes)
qed

section \<open>What a contract says\<close>

lemma bareServiceName_Inr:
  "bareServiceName ops packageName service = Inr bare \<longleftrightarrow>
     service = packageName @ ''.'' @ bare \<and> bare \<noteq> [] \<and> CHR ''.'' \<notin> set bare"
proof
  assume bare: "bareServiceName ops packageName service = Inr bare"
  then have "HasPrefix service (packageName @ ''.'')"
    by (auto simp: bareServiceName_def Let_def split: if_splits)
  then obtain r where "service = (packageName @ ''.'') @ r" by (auto simp only: HasPrefix_iff)
  with bare show "service = packageName @ ''.'' @ bare \<and> bare \<noteq> [] \<and> CHR ''.'' \<notin> set bare"
    using HasPrefix_append [of "packageName @ ''.''" r] TrimPrefix_append [of "packageName @ ''.''" r]
    by (auto simp: bareServiceName_def Let_def split: if_splits)
next
  assume "service = packageName @ ''.'' @ bare \<and> bare \<noteq> [] \<and> CHR ''.'' \<notin> set bare"
  then show "bareServiceName ops packageName service = Inr bare"
    using HasPrefix_append [of "packageName @ ''.''" bare] TrimPrefix_append [of "packageName @ ''.''" bare]
    by (simp add: bareServiceName_def Let_def)
qed

definition contract_path :: "string \<Rightarrow> 'n proto_procedure \<Rightarrow> string" where
  "contract_path packageName p = ''/'' @ packageName @ ''.'' @ pp_Service p @ ''/'' @ pp_Method p"

text \<open>A contract covers what is served under the paths it is served at: it is projected exactly when
every procedure is usable and every service is a bare name inside the package, and then it has a
procedure per declaration, in order, with its shapes, whose path is the one the declaration is
answered and called at.\<close>

theorem contract_covers_what_is_served:
  "proto_procedures ops packageName (map declared procedures) = Inr pps \<longleftrightarrow>
     list_all (\<lambda>p. proc_fault p = None) procedures \<and>
     list_all (\<lambda>pp. pp_Service pp \<noteq> [] \<and> CHR ''.'' \<notin> set (pp_Service pp)) pps \<and>
     map proc_service procedures = map (\<lambda>pp. packageName @ ''.'' @ pp_Service pp) pps \<and>
     map Path procedures = map (contract_path packageName) pps \<and>
     map (\<lambda>p. (proc_doc p, proto_Structure (proc_request p), proto_Structure (proc_response p))) procedures =
       map (\<lambda>pp. (pp_Description pp, pp_Request pp, pp_Response pp)) pps"
proof (induction procedures arbitrary: pps)
  case (Cons p procedures)
  show ?case
  proof (cases pps)
    case Nil
    then show ?thesis
      by (auto simp: declared_def go_results split: option.splits)
  next
    case (Cons pp more)
    have "proto_procedures ops packageName (map declared (p # procedures)) = Inr (pp # more) \<longleftrightarrow>
       proc_fault p = None \<and> bareServiceName ops packageName (proc_service p) = Inr (pp_Service pp) \<and>
       proto_procedures ops packageName (map declared procedures) = Inr more \<and>
       pp = \<lparr>pp_Service = pp_Service pp, pp_Method = proc_method p, pp_Description = proc_doc p,
             pp_Request = proto_Structure (proc_request p), pp_Response = proto_Structure (proc_response p)\<rparr>"
      by (cases pp) (auto simp: declared_def go_results split: option.splits)
    then show ?thesis
      unfolding Cons
      by (cases pp) (auto simp: Cons.IH bareServiceName_Inr Path_def contract_path_def)
  qed
qed auto

end
