(* ===== verification/Websocket.thy ===== *)
theory Websocket
  imports Effects "HOL-Library.Word"
begin

text \<open>
  Conversations over an upgraded connection (\<open>websocket/socket.go\<close>, \<open>websocket/inbound.go\<close>,
  \<open>websocket/value.go\<close>, \<open>websocket/accept.go\<close>, \<open>websocket/dial.go\<close>, \<open>websocket/fault.go\<close>).

  The connection is the websocket library's: a record of its four operations on a state
  \<open>'w\<close>, which is all that the two ends share. Errors are values of \<open>'e\<close>, known by their text,
  by the close status they carry and by whether they are a context's. A cancelled context shows as an error of the operation that
  was waiting. For a stream that ends after \<open>n\<close> messages every bound above \<open>n\<close> on the pulls
  gives the same answer.

  Schemas are another module's, and so is the scope that owns a socket: what the source
  passes to it are its acquisition, its release and its use.
\<close>

section \<open>Faults\<close>

record 'e error_ops =
  error_text :: "'e \<Rightarrow> string"
  CloseStatus :: "'e \<Rightarrow> int"
  is_Canceled :: "'e \<Rightarrow> bool"
  is_DeadlineExceeded :: "'e \<Rightarrow> bool"

record 'e Fault =
  fault_Op :: string
  fault_Err :: "'e option"

definition Error :: "'e error_ops \<Rightarrow> 'e Fault \<Rightarrow> string" where
  "Error ops fault =
     (case fault_Err fault of
        None \<Rightarrow> ''websocket: '' @ fault_Op fault
      | Some err \<Rightarrow> ''websocket: '' @ fault_Op fault @ '': '' @ error_text ops err)"

definition Unwrap :: "'e Fault \<Rightarrow> 'e option" where
  "Unwrap fault = fault_Err fault"

definition faultOf :: "string \<Rightarrow> 'e \<Rightarrow> 'e Fault" where
  "faultOf op err = \<lparr>fault_Op = op, fault_Err = Some err\<rparr>"

section \<open>Messages and sockets\<close>

text \<open>The library's message types: two, and whatever else a number may say.\<close>

datatype MessageType = MessageText | MessageBinary | OtherType int

type_synonym Kind = "8 word"

definition Text :: Kind where "Text = 0"
definition Binary :: Kind where "Binary = 1"

record Message =
  Kind_of :: Kind
  Data :: string

definition messageType :: "Kind \<Rightarrow> MessageType" where
  "messageType k = (if k = Binary then MessageBinary else MessageText)"

definition messageKind :: "MessageType \<Rightarrow> Kind" where
  "messageKind t = (if t = MessageBinary then Binary else Text)"

record ('w, 'e) connection =
  conn_Write :: "MessageType \<Rightarrow> string \<Rightarrow> 'w \<Rightarrow> 'w \<times> 'e option"
  conn_Read :: "'w \<Rightarrow> 'w \<times> ('e, MessageType \<times> string) result"
  conn_Close :: "int \<Rightarrow> string \<Rightarrow> 'w \<Rightarrow> 'w \<times> 'e option"
  conn_CloseNow :: "'w \<Rightarrow> 'w \<times> 'e option"

record ('w, 'e, 's) Socket =
  sock_connection :: "('w, 'e) connection"
  strategy :: 's

definition NamingStrategy :: "('w, 'e, 's) Socket \<Rightarrow> 's" where
  "NamingStrategy socket = strategy socket"

definition WithNaming :: "('w, 'e, 's) Socket \<Rightarrow> 's \<Rightarrow> ('w, 'e, 's) Socket" where
  "WithNaming socket naming = socket\<lparr>strategy := naming\<rparr>"

definition Send :: "('w, 'e, 's) Socket \<Rightarrow> Message \<Rightarrow> ('w, 'e Fault, unit) fx" where
  "Send socket message =
     try_fx (\<lambda>w. only_error (conn_Write (sock_connection socket) (messageType (Kind_of message)) (Data message) w))
       (faultOf ''send a message'')"

definition read_next :: "('w, 'e) connection \<Rightarrow> 'w \<Rightarrow> 'w \<times> ('e, Message) result" where
  "read_next conn w =
     (case conn_Read conn w of
        (w', Inl err) \<Rightarrow> (w', Inl err)
      | (w', Inr (t, received)) \<Rightarrow> (w', Inr \<lparr>Kind_of = messageKind t, Data = received\<rparr>))"

definition Receive :: "('w, 'e, 's) Socket \<Rightarrow> ('w, 'e Fault, Message) fx" where
  "Receive socket = try_fx (read_next (sock_connection socket)) (faultOf ''read a message'')"

definition SendText :: "('w, 'e, 's) Socket \<Rightarrow> string \<Rightarrow> ('w, 'e Fault, unit) fx" where
  "SendText socket txt = Send socket \<lparr>Kind_of = Text, Data = txt\<rparr>"

definition StatusNormalClosure :: int where "StatusNormalClosure = 1000"
definition StatusGoingAway :: int where "StatusGoingAway = 1001"

definition Close :: "('w, 'e, 's) Socket \<Rightarrow> string \<Rightarrow> ('w, 'e Fault, unit) fx" where
  "Close socket reason =
     try_fx (\<lambda>w. only_error (conn_Close (sock_connection socket) StatusNormalClosure reason w))
       (faultOf ''close the connection'')"

text \<open>A finalizer has no failure: what it reports is always nothing.\<close>

definition closeSocket :: "('w, 'e, 's) Socket \<Rightarrow> 'w \<Rightarrow> 'w" where
  "closeSocket socket w =
     (case conn_Close (sock_connection socket) StatusNormalClosure [] w of
        (w', None) \<Rightarrow> w'
      | (w', Some err) \<Rightarrow> fst (conn_CloseNow (sock_connection socket) w'))"

section \<open>The inbound side\<close>

definition isShutdown :: "'e error_ops \<Rightarrow> 'e \<Rightarrow> bool" where
  "isShutdown ops err =
     (if CloseStatus ops err = StatusNormalClosure \<or> CloseStatus ops err = StatusGoingAway then True
      else is_Canceled ops err \<or> is_DeadlineExceeded ops err)"

definition readExit :: "'e error_ops \<Rightarrow> 'e \<Rightarrow> ('e Fault, Message step) result" where
  "readExit ops err = (if isShutdown ops err then Inr EndOfStream else Inl (faultOf ''read a message'' err))"

definition Inbound :: "'e error_ops \<Rightarrow> ('w, 'e, 's) Socket \<Rightarrow> ('w, 'e Fault, Message) stream" where
  "Inbound ops socket w =
     (case conn_Read (sock_connection socket) w of
        (w', Inl err) \<Rightarrow> (w', readExit ops err)
      | (w', Inr (t, received)) \<Rightarrow> (w', Inr (Emit [\<lparr>Kind_of = messageKind t, Data = received\<rparr>])))"

section \<open>Values\<close>

text \<open>A schema's two directions, at a way of spelling members.\<close>

record ('a, 's, 'e) Schema =
  EncodeJSON :: "'s \<Rightarrow> 'a \<Rightarrow> ('e, string) result"
  DecodeJSON :: "'s \<Rightarrow> string \<Rightarrow> ('e, 'a) result"

definition SendValue :: "('w, 'e, 's) Socket \<Rightarrow> ('a, 's, 'e) Schema \<Rightarrow> 'a \<Rightarrow> ('w, 'e Fault, unit) fx" where
  "SendValue socket shape value w =
     (case EncodeJSON shape (strategy socket) value of
        Inl err \<Rightarrow> (w, Inl (faultOf ''encode a message'' err))
      | Inr document \<Rightarrow> Send socket \<lparr>Kind_of = Text, Data = document\<rparr> w)"

definition decodeMessage :: "('w, 'e, 's) Socket \<Rightarrow> ('a, 's, 'e) Schema \<Rightarrow> Message \<Rightarrow> ('w, 'e Fault, 'a) fx" where
  "decodeMessage socket shape message =
     try_fx (\<lambda>w. (w, DecodeJSON shape (strategy socket) (Data message))) (faultOf ''read a message'')"

definition ReceiveValue :: "('w, 'e, 's) Socket \<Rightarrow> ('a, 's, 'e) Schema \<Rightarrow> ('w, 'e Fault, 'a) fx" where
  "ReceiveValue socket shape = flat_map (Receive socket) (decodeMessage socket shape)"

definition Values :: "'e error_ops \<Rightarrow> ('w, 'e, 's) Socket \<Rightarrow> ('a, 's, 'e) Schema \<Rightarrow> ('w, 'e Fault, 'a) stream" where
  "Values ops socket shape = map_stream_effect (Inbound ops socket) (decodeMessage socket shape)"

section \<open>Accepting and dialling\<close>

record Settings =
  Origins :: "string list"
  Subprotocols :: "string list"

record AcceptOptions =
  OriginPatterns :: "string list"
  accept_Subprotocols :: "string list"

definition acceptOptions :: "Settings \<Rightarrow> AcceptOptions" where
  "acceptOptions settings = \<lparr>OriginPatterns = Origins settings, accept_Subprotocols = Subprotocols settings\<rparr>"

text \<open>What the scope makes of an acquisition, a release and a use; \<open>'r\<close> is what an exit is.\<close>

type_synonym ('w, 's, 'r) scope = "('w \<Rightarrow> 'w \<times> 's) \<Rightarrow> ('s \<Rightarrow> 'w \<Rightarrow> 'w) \<Rightarrow> ('s \<Rightarrow> 'w \<Rightarrow> 'w \<times> 'r) \<Rightarrow> 'w \<Rightarrow> 'w \<times> 'r"

definition runConversation ::
  "('w, ('w, 'e, 's) Socket, 'r) scope \<Rightarrow> ('w, 'e, 's) Socket \<Rightarrow>
     (('w, 'e, 's) Socket \<Rightarrow> 'w \<Rightarrow> 'w \<times> 'r) \<Rightarrow> 'w \<Rightarrow> 'w \<times> 'r" where
  "runConversation scoped socket talk = scoped (\<lambda>w. (w, socket)) closeSocket talk"

text \<open>The upgrade of a request, which answers it when it fails; \<open>interpret\<close> is the boundary's.\<close>

definition Accept ::
  "('w, ('w, 'e, 's) Socket, 'r) scope \<Rightarrow> (AcceptOptions \<Rightarrow> 'w \<Rightarrow> 'w \<times> ('e, ('w, 'e) connection) result) \<Rightarrow>
     (('w \<Rightarrow> 'w \<times> 'r) \<Rightarrow> 'w \<Rightarrow> 'w) \<Rightarrow> (('w, 'e, 's) Socket \<Rightarrow> 'w \<Rightarrow> 'w \<times> 'r) \<Rightarrow> Settings \<Rightarrow> 's \<Rightarrow> 'w \<Rightarrow> 'w" where
  "Accept scoped upgrade interpret_in talk settings naming w =
     (case upgrade (acceptOptions settings) w of
        (w', Inl err) \<Rightarrow> w'
      | (w', Inr conn) \<Rightarrow>
          interpret_in (runConversation scoped \<lparr>sock_connection = conn, strategy = naming\<rparr> talk) w')"

text \<open>Dialling gives a response, whose body may have to be closed, and an error or a connection.\<close>

record ('w, 'e) dialled =
  handshake_body :: "('w \<Rightarrow> 'w) option"
  dial_outcome :: "('e, ('w, 'e) connection) result"

definition dial_acquire ::
  "(string \<Rightarrow> string list \<Rightarrow> 'w \<Rightarrow> 'w \<times> ('w, 'e) dialled) \<Rightarrow> 's \<Rightarrow> string \<Rightarrow> string list \<Rightarrow>
     ('w, 'e Fault, ('w, 'e, 's) Socket) fx" where
  "dial_acquire dial zero address protocols w =
     (let (w1, d) = dial address protocols w;
          w2 = (case handshake_body d of None \<Rightarrow> w1 | Some close_body \<Rightarrow> close_body w1)
      in case dial_outcome d of
           Inl err \<Rightarrow> (w2, Inl (faultOf (''dial '' @ address) err))
         | Inr conn \<Rightarrow> (w2, Inr \<lparr>sock_connection = conn, strategy = zero\<rparr>))"

text \<open>Dialling inside a scope: \<open>AcquireRelease\<close> is the scope's.\<close>

definition Dial ::
  "(('w, 'e Fault, ('w, 'e, 's) Socket) fx \<Rightarrow> (('w, 'e, 's) Socket \<Rightarrow> 'w \<Rightarrow> 'w) \<Rightarrow> ('w, 'e Fault, ('w, 'e, 's) Socket) fx) \<Rightarrow>
     (string \<Rightarrow> string list \<Rightarrow> 'w \<Rightarrow> 'w \<times> ('w, 'e) dialled) \<Rightarrow> 's \<Rightarrow> string \<Rightarrow> string list \<Rightarrow>
     ('w, 'e Fault, ('w, 'e, 's) Socket) fx" where
  "Dial AcquireRelease dial zero address protocols =
     AcquireRelease (dial_acquire dial zero address protocols) closeSocket"

section \<open>What a reader sees\<close>

text \<open>The inbound side pulls the connection, for which a polite end is no error.\<close>

definition inbound_source :: "'e error_ops \<Rightarrow> ('w, 'e, 's) Socket \<Rightarrow> ('w, 'e, Message) source" where
  "inbound_source ops socket w =
     (case conn_Read (sock_connection socket) w of
        (w', Inl err) \<Rightarrow> (w', if isShutdown ops err then Inr None else Inl err)
      | (w', Inr (t, received)) \<Rightarrow> (w', Inr (Some \<lparr>Kind_of = messageKind t, Data = received\<rparr>)))"

interpretation inbound: pulled "inbound_source ops socket" "faultOf ''read a message''" "Inbound ops socket"
  for ops and socket :: "('w, 'e, 's) Socket"
  by unfold_locales (simp add: Inbound_def inbound_source_def readExit_def split: prod.split sum.split)

text \<open>A connection gives these messages, one per read, and then this error.\<close>

inductive delivers :: "('w, 'e) connection \<Rightarrow> (MessageType \<times> string) list \<Rightarrow> 'e \<Rightarrow> 'w \<Rightarrow> 'w \<Rightarrow> bool" for conn where
  closing: "conn_Read conn w = (w', Inl err) \<Longrightarrow> delivers conn [] err w w'"
| message: "conn_Read conn w = (w1, Inr m) \<Longrightarrow> delivers conn ms err w1 w' \<Longrightarrow> delivers conn (m # ms) err w w'"

definition read_message :: "MessageType \<times> string \<Rightarrow> Message" where
  "read_message m = \<lparr>Kind_of = messageKind (fst m), Data = snd m\<rparr>"

lemma inbound_gives:
  "delivers (sock_connection socket) ms err w w' \<Longrightarrow>
   gives (inbound_source ops socket) (map read_message ms) (if isShutdown ops err then None else Some err) w w'"
  by (induction rule: delivers.induct)
    (auto simp: inbound_source_def read_message_def intro!: gives.intros split: prod.split)

text \<open>C29: The inbound side gives every message the peer sent, in order and with its kind, and then ends: as a
stream that is over when the peer closed politely or the scope is closing, as a fault otherwise.
It needs one pull per message and one for the end, and more change nothing.\<close>

theorem inbound_gives_the_conversation:
  assumes "delivers (sock_connection socket) ms err w w'" and "length ms < pulls"
  shows "collect pulls (Inbound ops socket) w =
     (w', map read_message ms,
      Some (if isShutdown ops err then Ended else FailedWith (faultOf ''read a message'' err)))"
  using inbound.collected_plain [OF inbound_gives [OF assms(1), of ops], of pulls] assms(2)
  by (simp add: ending_of_def)

text \<open>An end of a pipe: the state is what has been sent and not yet read.\<close>

definition pipe_end :: "((MessageType \<times> string) list, int) connection" where
  "pipe_end =
     \<lparr>conn_Write = (\<lambda>t s w. (w @ [(t, s)], None)),
      conn_Read = (\<lambda>w. case w of [] \<Rightarrow> (w, Inl 1000) | m # ms \<Rightarrow> (ms, Inr m)),
      conn_Close = (\<lambda>_ _ w. (w, None)), conn_CloseNow = (\<lambda>w. (w, None))\<rparr>"

definition status_errors :: "int error_ops" where
  "status_errors = \<lparr>error_text = itoa, CloseStatus = (\<lambda>c. c), is_Canceled = (\<lambda>c. c = 1), is_DeadlineExceeded = (\<lambda>c. c = 2)\<rparr>"

lemma pipe_delivers: "delivers pipe_end ms 1000 ms []"
  by (induction ms) (auto intro: delivers.intros simp: pipe_end_def)

theorem inbound_gives_the_conversation_witness:
  "collect 5 (Inbound status_errors \<lparr>sock_connection = pipe_end, strategy = ()\<rparr>)
     [(MessageText, ''a''), (MessageBinary, ''b'')] =
   ([], [\<lparr>Kind_of = Text, Data = ''a''\<rparr>, \<lparr>Kind_of = Binary, Data = ''b''\<rparr>], Some Ended)"
  using inbound_gives_the_conversation [where socket = "\<lparr>sock_connection = pipe_end, strategy = ()\<rparr>" and
      ms = "[(MessageText, ''a''), (MessageBinary, ''b'')]" and pulls = 5 and ops = status_errors]
    pipe_delivers [of "[(MessageText, ''a''), (MessageBinary, ''b'')]"]
  by (simp add: read_message_def messageKind_def isShutdown_def status_errors_def
      StatusNormalClosure_def)

section \<open>What two ends exchange\<close>

text \<open>
  What is on its way from one end to the other: a write that succeeds is appended to it, and a read that
  succeeds takes its front. Either may fail -- a message may be longer than the library reads, the
  connection may be lost, a context may be cancelled -- and nothing is said of when it does.
\<close>

definition carries ::
  "('w, 'e) connection \<Rightarrow> ('w, 'e) connection \<Rightarrow> ('w \<Rightarrow> (MessageType \<times> string) list) \<Rightarrow> bool" where
  "carries here there unread \<longleftrightarrow>
     (\<forall>t s w w'. conn_Write here t s w = (w', None) \<longrightarrow> unread w' = unread w @ [(t, s)]) \<and>
     (\<forall>w w' m. conn_Read there w = (w', Inr m) \<longrightarrow> unread w = m # unread w')"

definition schema_lawful :: "('a, 's, 'e) Schema \<Rightarrow> bool" where
  "schema_lawful shape \<longleftrightarrow> (\<forall>s v d. EncodeJSON shape s v = Inr d \<longrightarrow> DecodeJSON shape s d = Inr v)"

lemma encoded_back:
  "schema_lawful shape \<Longrightarrow> map (EncodeJSON shape naming) vs = map Inr ds \<Longrightarrow> map (DecodeJSON shape naming) ds = map Inr vs"
  unfolding schema_lawful_def by (induction vs arbitrary: ds) auto

text \<open>A value is sent by writing its document.\<close>

lemma value_sent:
  assumes "SendValue socket shape v w = (w', Inr u)"
  obtains d where "EncodeJSON shape (strategy socket) v = Inr d" "conn_Write (sock_connection socket) MessageText d w = (w', None)"
  using assms
  by (auto simp: SendValue_def Send_def try_fx_def only_error_def messageType_def Text_def Binary_def
      split: sum.splits prod.splits option.splits)

lemma sent_unread:
  assumes "carries (sock_connection socket) there unread"
    and "for_each (SendValue socket shape) vs w = (w1, Inr us)"
  shows "\<exists>ds. map (EncodeJSON shape (strategy socket)) vs = map Inr ds \<and>
     unread w1 = unread w @ map (Pair MessageText) ds"
  using assms(2)
proof (induction vs arbitrary: w us)
  case (Cons v vs)
  then obtain w' u us' where w': "SendValue socket shape v w = (w', Inr u)"
    "for_each (SendValue socket shape) vs w' = (w1, Inr us')" by (auto split: prod.splits sum.splits)
  obtain d where d: "EncodeJSON shape (strategy socket) v = Inr d"
    "conn_Write (sock_connection socket) MessageText d w = (w', None)" by (rule value_sent [OF w'(1)])
  from d(2) assms(1) have "unread w' = unread w @ [(MessageText, d)]" unfolding carries_def by blast
  moreover obtain ds where "map (EncodeJSON shape (strategy socket)) vs = map Inr ds"
    "unread w1 = unread w' @ map (Pair MessageText) ds" using Cons.IH [OF w'(2)] by blast
  ultimately show ?case using d(1) by (intro exI [of _ "d # ds"]) simp
qed (auto intro: exI [of _ "[]"])

lemma delivered_unread:
  "delivers there ms err w w' \<Longrightarrow> carries here there unread \<Longrightarrow> take (length ms) (unread w) = ms"
  by (induction rule: delivers.induct) (auto simp: carries_def)

text \<open>A pull of the values ends the stream, fails, or gives the value whose document was read.\<close>

lemma Values_cases:
  obtains (stop) w' fault where "Values ops there shape w = (w', Inl fault)"
  | (over) w' where "Values ops there shape w = (w', Inr EndOfStream)"
  | (one) w' t d v where "Values ops there shape w = (w', Inr (Emit [v]))"
      "conn_Read (sock_connection there) w = (w', Inr (t, d))" "DecodeJSON shape (strategy there) d = Inr v"
proof (cases "conn_Read (sock_connection there) w")
  case (Pair w' r)
  note read = Pair
  show thesis
  proof (cases r)
    case (Inl err)
    then show thesis using stop over
      by (cases "isShutdown ops err") (simp_all add: Values_def map_stream_effect_def Inbound_def flat_map_def read readExit_def)
  next
    case (Inr m)
    obtain t d where m: "m = (t, d)" by (cases m)
    show thesis
    proof (cases "DecodeJSON shape (strategy there) d")
      case (Inl err)
      with stop show thesis
        by (simp add: Values_def map_stream_effect_def Inbound_def flat_map_def read \<open>r = Inr m\<close> m decodeMessage_def try_fx_def)
    next
      case (Inr v)
      with one [of w' v t d] show thesis
        by (simp add: Values_def map_stream_effect_def Inbound_def flat_map_def read \<open>r = Inr m\<close> m decodeMessage_def try_fx_def)
    qed
  qed
qed

text \<open>However a reader's pulls end, it has read an initial part of what was on its way.\<close>

lemma collected_in_order:
  assumes "carries here (sock_connection there) unread"
  shows "unread w = map (Pair MessageText) ds \<Longrightarrow> map (DecodeJSON shape (strategy there)) ds = map Inr vs \<Longrightarrow>
     collect pulls (Values ops there shape) w = (w', us, ended) \<Longrightarrow> take (length us) vs = us"
proof (induction pulls arbitrary: w ds vs us)
  case (Suc n)
  show ?case
  proof (cases rule: Values_cases [of ops there shape w])
    case (one w1 t d v)
    from one(2) assms have "unread w = (t, d) # unread w1" unfolding carries_def by blast
    with Suc.prems(1) obtain ds' where ds: "ds = d # ds'" "unread w1 = map (Pair MessageText) ds'" by (cases ds) auto
    with Suc.prems(2) one(3) obtain vs' where vs: "vs = v # vs'" "map (DecodeJSON shape (strategy there)) ds' = map Inr vs'"
      by (cases vs) auto
    obtain us' where us: "us = v # us'" "collect n (Values ops there shape) w1 = (w', us', ended)"
      using Suc.prems(3) one(1) by (auto split: prod.splits)
    from Suc.IH [OF ds(2) vs(2) us(2)] show ?thesis by (simp add: us(1) vs(1))
  qed (use Suc.prems(3) in auto)
qed simp

text \<open>What a connection delivers is read through a schema, to its polite end.\<close>

lemma values_read:
  assumes "delivers (sock_connection there) (map (Pair MessageText) ds) goodbye w1 w2" and "isShutdown ops goodbye"
    and "map (DecodeJSON shape (strategy there)) ds = map Inr vs" and "length ds < pulls"
  shows "collect pulls (Values ops there shape) w1 = (w2, vs, Some Ended)"
proof -
  let ?read = "\<lambda>m. map_sum (faultOf ''read a message'') (\<lambda>v. v) (DecodeJSON shape (strategy there) (Data m))"
  have decode: "decodeMessage there shape = (\<lambda>m w. (w, ?read m))"
    by (simp add: fun_eq_iff decodeMessage_def try_fx_def split: sum.split)
  have "map ?read (map read_message (map (Pair MessageText) ds)) = map Inr vs"
    using assms(3) unfolding read_message_def by (induction vs arbitrary: ds) auto
  then have "collect pulls (Values ops there shape) w1 =
      (w2, vs, Some (ending_of (faultOf ''read a message'') (if isShutdown ops goodbye then None else Some goodbye)))"
    unfolding Values_def decode
    by (intro inbound.collected_effect [OF inbound_gives [OF assms(1)]]) (simp_all add: assms(4))
  with assms(2) show ?thesis by (simp add: ending_of_def)
qed

text \<open>C8: A conversation carries values: when both ends spell members alike and the schema reads back what it
writes, what the other end's stream of values gives -- whatever the pulls, and however reading ends --
is an initial part of the values sent, in order and unaltered. When as many reads succeed as values were
sent and the peer's goodbye is read next, the stream has given all of them and ends rather than fails.\<close>

theorem values_cross_the_conversation:
  assumes "carries (sock_connection here) (sock_connection there) unread"
    and "NamingStrategy here = NamingStrategy there" and "schema_lawful shape"
    and "unread w = []" and "for_each (SendValue here shape) vs w = (w1, Inr us)"
  shows "take (length (fst (snd (collect pulls (Values ops there shape) w1)))) vs =
        fst (snd (collect pulls (Values ops there shape) w1)) \<and>
     (\<forall>ms goodbye w2. delivers (sock_connection there) ms goodbye w1 w2 \<and> length ms = length vs \<and>
        isShutdown ops goodbye \<and> length vs < pulls \<longrightarrow> collect pulls (Values ops there shape) w1 = (w2, vs, Some Ended))"
proof -
  obtain ds where ds: "map (EncodeJSON shape (strategy here)) vs = map Inr ds"
    "unread w1 = map (Pair MessageText) ds" using sent_unread [OF assms(1,5)] assms(4) by auto
  have decoded: "map (DecodeJSON shape (strategy there)) ds = map Inr vs"
    using encoded_back [OF assms(3) ds(1)] assms(2) by (simp add: NamingStrategy_def)
  have many: "length ds = length vs" using map_eq_imp_length_eq [OF ds(1)] by simp
  obtain w' us' final where c: "collect pulls (Values ops there shape) w1 = (w', us', final)"
    by (cases "collect pulls (Values ops there shape) w1") auto
  have "collect pulls (Values ops there shape) w1 = (w2, vs, Some Ended)"
    if all: "delivers (sock_connection there) ms goodbye w1 w2" "length ms = length vs" "isShutdown ops goodbye" "length vs < pulls"
    for ms goodbye w2
  proof -
    have "ms = map (Pair MessageText) ds" using delivered_unread [OF all(1) assms(1)] all(2) ds(2) many by simp
    with values_read [OF _ all(3) decoded] all(1,4) many show ?thesis by simp
  qed
  with collected_in_order [OF assms(1) ds(2) decoded c] c show ?thesis by auto
qed

text \<open>A schema of texts of one and more characters; a pipe that fails to read a text of more than three.\<close>

definition plain_shape :: "(string, unit, int) Schema" where
  "plain_shape = \<lparr>EncodeJSON = (\<lambda>_ s. if s = [] then Inl 7 else Inr s), DecodeJSON = (\<lambda>_. Inr)\<rparr>"

definition narrow_end :: "((MessageType \<times> string) list, int) connection" where
  "narrow_end = pipe_end
     \<lparr>conn_Read := (\<lambda>w. case w of [] \<Rightarrow> (w, Inl 1000) | m # ms \<Rightarrow> if 3 < length (snd m) then (w, Inl 1009) else (ms, Inr m))\<rparr>"

lemma narrow_carries: "carries narrow_end narrow_end (\<lambda>w. w)"
  by (auto simp: carries_def narrow_end_def pipe_end_def split: list.splits if_splits)

lemma narrow_delivers: "\<forall>m \<in> set ms. length (snd m) \<le> 3 \<Longrightarrow> delivers narrow_end ms 1000 ms []"
  by (induction ms) (auto intro: delivers.intros simp: narrow_end_def)

theorem values_cross_the_conversation_witness:
  "let s = \<lparr>sock_connection = narrow_end, strategy = ()\<rparr> in
   (\<exists>w1 w2. for_each (SendValue s plain_shape) [''a'', ''b''] [] = (w1, Inr [(), ()]) \<and>
     collect 3 (Values status_errors s plain_shape) w1 = (w2, [''a'', ''b''], Some Ended)) \<and>
   (\<exists>w1 us. for_each (SendValue s plain_shape) [''a'', ''wide'', ''b''] [] = (w1, Inr [(), (), ()]) \<and>
     fst (snd (collect 5 (Values status_errors s plain_shape) w1)) = us \<and> take (length us) [''a'', ''wide'', ''b''] = us)"
proof -
  let ?s = "\<lparr>sock_connection = narrow_end, strategy = ()\<rparr>"
  have carried: "carries (sock_connection ?s) (sock_connection ?s) (\<lambda>w. w)" by (simp add: narrow_carries)
  have lawful: "schema_lawful plain_shape" by (auto simp: schema_lawful_def plain_shape_def split: if_splits)
  have polite: "isShutdown status_errors 1000" by (simp add: isShutdown_def status_errors_def StatusNormalClosure_def)
  have sent: "for_each (SendValue ?s plain_shape) [''a'', ''b''] [] = ([(MessageText, ''a''), (MessageText, ''b'')], Inr [(), ()])"
    by (simp add: SendValue_def plain_shape_def Send_def narrow_end_def pipe_end_def messageType_def Text_def Binary_def)
  have "delivers (sock_connection ?s) [(MessageText, ''a''), (MessageText, ''b'')] 1000 [(MessageText, ''a''), (MessageText, ''b'')] []"
    using narrow_delivers by simp
  moreover note values_cross_the_conversation [OF carried refl lawful refl sent, of 3 status_errors, THEN conjunct2, rule_format,
      of "[(MessageText, ''a''), (MessageText, ''b'')]" 1000 "[]"]
  ultimately have all: "collect 3 (Values status_errors ?s plain_shape) [(MessageText, ''a''), (MessageText, ''b'')] =
      ([], [''a'', ''b''], Some Ended)" using polite by simp
  obtain w1 where wide: "for_each (SendValue ?s plain_shape) [''a'', ''wide'', ''b''] [] = (w1, Inr [(), (), ()])"
    by (simp add: SendValue_def plain_shape_def Send_def narrow_end_def pipe_end_def)
  from values_cross_the_conversation [OF carried refl lawful refl wide, of 5 status_errors] wide all sent
  show ?thesis by (auto simp: Let_def)
qed

section \<open>The scope that owns a socket\<close>

text \<open>A scope releases what it acquired, after the use and whatever its exit is.\<close>

definition releases :: "('w, 's, 'r) scope \<Rightarrow> bool" where
  "releases scoped \<longleftrightarrow>
     (\<forall>acquire release body w. scoped acquire release body w =
        (let (w1, s) = acquire w; (w2, r) = body s w1 in (release s w2, r)))"

text \<open>A conversation cannot outlive its scope: however it exits, its exit is passed on and its
connection is closed -- politely, or abruptly when the polite close could not be sent.\<close>

theorem conversation_closes_its_socket:
  assumes "releases scoped"
    and "\<And>reason w w'. conn_Close (sock_connection socket) StatusNormalClosure reason w = (w', None) \<Longrightarrow> closed w'"
    and "\<And>w. closed (fst (conn_CloseNow (sock_connection socket) w))"
  shows "closed (fst (runConversation scoped socket talk w)) \<and>
         snd (runConversation scoped socket talk w) = snd (talk socket w)"
proof -
  have "closed (closeSocket socket w)" for w
    using assms(2,3) by (simp add: closeSocket_def split: prod.split option.split)
  then show ?thesis
    using assms(1) by (simp add: runConversation_def releases_def Let_def split: prod.split)
qed

text \<open>A connection whose polite close fails; its state says whether it is closed and counts.\<close>

definition rude_end :: "(bool \<times> nat, int) connection" where
  "rude_end =
     \<lparr>conn_Write = (\<lambda>_ _ w. (w, None)), conn_Read = (\<lambda>w. (w, Inl 1006)),
      conn_Close = (\<lambda>_ _ w. (w, Some 1006)), conn_CloseNow = (\<lambda>w. ((True, snd w), Some 1006))\<rparr>"

definition plain_scope :: "('w, 's, 'r) scope" where
  "plain_scope acquire release body w = (let (w1, s) = acquire w; (w2, r) = body s w1 in (release s w2, r))"

theorem conversation_closes_its_socket_witness:
  "let s = \<lparr>sock_connection = rude_end, strategy = ()\<rparr>
   in fst (fst (runConversation plain_scope s (\<lambda>_ w. ((fst w, snd w + 1), ''failed'')) (False, 3))) = True \<and>
      snd (runConversation plain_scope s (\<lambda>_ w. ((fst w, snd w + 1), ''failed'')) (False, 3)) = ''failed''"
proof -
  let ?s = "\<lparr>sock_connection = rude_end, strategy = ()\<rparr>"
  have "releases (plain_scope :: (bool \<times> nat, _, string) scope)" by (simp add: releases_def plain_scope_def)
  from conversation_closes_its_socket [OF this, where socket = ?s and closed = fst
      and talk = "\<lambda>_ w. ((fst w, snd w + 1), ''failed'')" and w = "(False, 3)"]
  show ?thesis by (simp add: Let_def rude_end_def)
qed

end
