(* ===== verification/Bookstore.thy ===== *)
theory Bookstore
  imports Web_Remote Web_Serve
begin

text \<open>
  A complete program on the web core: the bookstore of \<open>examples/bookstore\<close>. Its store
  (\<open>store.go\<close>), its faults and what they answer with (\<open>fault.go\<close>), its endpoints and surface
  (\<open>endpoints.go\<close>, \<open>schema.go\<close>, \<open>shapes.go\<close>) and its boundary (\<open>serve.go\<close>).

  The store's cell is the state, and an effect of the store is a function on it: a \<open>Modify\<close> is one
  step, which is what the cell promises. The three schemas belong to the schema module and are a
  record of their own; what is relied on of them is \<open>reads_back\<close>. The text of the contract is an
  argument of the surface that serves it.

  What is proved: no request, whatever it asks, makes the store hold a title twice; and a book
  that one client adds over a network is the book that another finds.
\<close>

section \<open>The store\<close>

record Book =
  Title :: string
  Authors :: "string list"
  Pages :: int

record store_fault =
  fault_Kind :: string
  fault_Err :: "error option"

definition NotFound :: string where
  "NotFound = ''not-found''"

definition AlreadyExists :: string where
  "AlreadyExists = ''already-held''"

definition store_Error :: "store_fault \<Rightarrow> string" where
  "store_Error fault =
     (case fault_Err fault of
        None \<Rightarrow> fault_Kind fault
      | Some err \<Rightarrow> fault_Kind fault @ '': '' @ Error err)"

definition store_Unwrap :: "store_fault \<Rightarrow> error option" where
  "store_Unwrap fault = fault_Err fault"

type_synonym 'a storeEffect = "Book list \<Rightarrow> Book list \<times> (store_fault, 'a) exit"

definition Modify :: "('s \<Rightarrow> 's \<times> 'a) \<Rightarrow> 's \<Rightarrow> 's \<times> ('e, 'a) exit" where
  "Modify change s = (case change s of (s', a) \<Rightarrow> (s', Done a))"

definition Get :: "'s \<Rightarrow> 's \<times> ('e, 's) exit" where
  "Get s = (s, Done s)"

definition sameTitle :: "string \<Rightarrow> Book \<Rightarrow> bool" where
  "sameTitle wanted book \<longleftrightarrow> Title book = wanted"

definition NewStore :: "Book list \<Rightarrow> Book list" where
  "NewStore books = books"

definition All :: "Book list storeEffect" where
  "All w = Get w"

definition Add :: "Book \<Rightarrow> unit storeEffect" where
  "Add book w =
     continue
       (Modify (\<lambda>books. if list_ex (sameTitle (Title book)) books then (books, False)
                        else (books @ [book], True)) w)
       (\<lambda>inserted w1.
          if \<not> inserted
          then (w1, Failed \<lparr>fault_Kind = AlreadyExists, fault_Err = Some (Reason (Title book @ '' is already held''))\<rparr>)
          else (w1, Done ()))"

definition Find :: "string \<Rightarrow> Book storeEffect" where
  "Find wanted w =
     continue (Get w)
       (\<lambda>books w1.
          case find (sameTitle wanted) books of
            None \<Rightarrow> (w1, Failed \<lparr>fault_Kind = NotFound, fault_Err = None\<rparr>)
          | Some book \<Rightarrow> (w1, Done book))"

section \<open>What a fault answers with\<close>

definition StatusFor :: "store_fault \<Rightarrow> Response" where
  "StatusFor fault =
     (if fault_Kind fault = NotFound then Empty 404
      else if fault_Kind fault = AlreadyExists then Text 409 (store_Error fault)
      else Empty 500)"

definition Boundary ::
  "((store_fault, Response) exit, store_fault) cause_ops \<Rightarrow> bool \<Rightarrow>
   (error, ((store_fault, Response) exit, store_fault) Adapter) result" where
  "Boundary causes has_runtime = NewAdapter causes has_runtime (Some StatusFor)"

section \<open>Endpoints and routes\<close>

record schemas =
  BookSchema :: "Book Schema"
  CatalogueSchema :: "Book list Schema"
  TextSchema :: "string Schema"
  library :: text_library

definition ListBooks :: "schemas \<Rightarrow> (unit, Book list) Endpoint" where
  "ListBooks sch =
     endpoint_WithDescription
       (WithSummary (GET ''/books'' Nothing (Returns 200 (CatalogueSchema sch))) ''List the catalogue'')
       ''Every entry, in the order the store holds them.''"

definition AddBook :: "schemas \<Rightarrow> (Book, Book) Endpoint" where
  "AddBook sch =
     WithFailure
       (endpoint_WithDescription
          (WithSummary (POST ''/books'' (Entity (BookSchema sch)) (Returns 201 (BookSchema sch))) ''Add a book'')
          ''The entity is the book to add; its title identifies it.'')
       409 ''the store already holds that title''"

definition FindBook :: "schemas \<Rightarrow> (string, Book) Endpoint" where
  "FindBook sch =
     WithFailure
       (WithSummary
          (GET ''/books/{title}''
             (WithDescription (PathParam (library sch) ''title'' (TextSchema sch)) ''the title to look for'')
             (Returns 200 (BookSchema sch)))
          ''Find a book by title'')
       404 ''no book with that title is held''"

type_synonym store_route = "(Response storeEffect Handler, unit) Route"

definition listBooks :: "schemas \<Rightarrow> store_route" where
  "listBooks sch = Handle direct_ops (ListBooks sch) (Some (\<lambda>_. All))"

definition addBook :: "schemas \<Rightarrow> store_route" where
  "addBook sch = Handle direct_ops (AddBook sch) (Some (\<lambda>book w. continue (Add book w) (\<lambda>_ w1. (w1, Done book))))"

definition findBook :: "schemas \<Rightarrow> store_route" where
  "findBook sch = Handle direct_ops (FindBook sch) (Some Find)"

definition store_routes :: "schemas \<Rightarrow> store_route list" where
  "store_routes sch = [listBooks sch, addBook sch, findBook sch]"

definition Surface :: "schemas \<Rightarrow> (error, (Response storeEffect Handler, unit) Routes) result" where
  "Surface sch = NewRoutes (store_routes sch)"

definition serveContract :: "string \<Rightarrow> store_route" where
  "serveContract contract =
     Handle direct_ops
       (WithSummary (GET ''/openapi.json'' Nothing (ReturnsRaw 200 ''application/json''))
          ''The contract this API is served from'')
       (Some (\<lambda>_ w. (w, Done contract)))"

definition SurfaceWithContract ::
  "((Response storeEffect Handler, unit) Routes \<Rightarrow> (error, string) result) \<Rightarrow> schemas \<Rightarrow>
   (error, (Response storeEffect Handler, unit) Routes) result" where
  "SurfaceWithContract Contract sch =
     bind_result (Surface sch) (\<lambda>surface.
       bind_result (Contract surface) (\<lambda>contract.
         NewRoutes (store_routes sch @ [serveContract contract])))"

text \<open>Serving the surface behind the boundary until the program is stopped; the loop is an argument.\<close>

definition bookstore_Serve ::
  "(string \<Rightarrow> (error, 'l) result) \<Rightarrow> ('l \<Rightarrow> 'a) \<Rightarrow>
   (('l, 'a) Server \<Rightarrow> (http_request \<Rightarrow> Book list \<Rightarrow> Book list \<times> writer) \<Rightarrow> Book list \<Rightarrow> Book list \<times> (Fault, unit) result) \<Rightarrow>
   ((store_fault, Response) exit, store_fault) cause_ops \<Rightarrow> 'l \<Rightarrow> ((store_fault, Response) exit, store_fault) Adapter \<Rightarrow>
   (Response storeEffect Handler, unit) Routes \<Rightarrow> Book list \<Rightarrow> Book list \<times> (Fault, unit) result" where
  "bookstore_Serve net_Listen Addr loop causes listener boundary surface =
     serve_and_await net_Listen Addr (\<lambda>fault. fault) loop listener
       (served_by causes (\<lambda>fx. fx) boundary (Routes_Handler (\<lambda>response w. (w, Done response)) surface))"

section \<open>Endpoints are usable\<close>

definition describes :: "schemas \<Rightarrow> bool" where
  "describes sch \<longleftrightarrow>
     schema_Validate (BookSchema sch) = None \<and> schema_Validate (CatalogueSchema sch) = None \<and>
     schema_Validate (TextSchema sch) = None"

lemma store_patterns:
  "wf_segments [literal ''books'']" "renderPattern [literal ''books''] = ''/books''"
  "wf_segments [literal ''books'', capturing ''title'']" "renderPattern [literal ''books'', capturing ''title''] = ''/books/{title}''"
  "wf_segments [literal ''openapi.json'']" "renderPattern [literal ''openapi.json''] = ''/openapi.json''"
  by code_simp+

lemmas declared = GET_def POST_def ListBooks_def AddBook_def FindBook_def

lemma store_parts [simp]:
  "segments (ListBooks sch) = [literal ''books'']" "end_method (ListBooks sch) = ''GET''"
  "segments (AddBook sch) = [literal ''books'']" "end_method (AddBook sch) = ''POST''"
  "segments (FindBook sch) = [literal ''books'', capturing ''title'']" "end_method (FindBook sch) = ''GET''"
  "end_input (AddBook sch) = Entity (BookSchema sch)" "end_output (AddBook sch) = Returns 201 (BookSchema sch)"
  "end_input (FindBook sch) = WithDescription (PathParam (library sch) ''title'' (TextSchema sch)) ''the title to look for''"
  "end_output (FindBook sch) = Returns 200 (BookSchema sch)"
  using Declare_of_pattern(1) [OF store_patterns(1,2)] Declare_of_pattern(1) [OF store_patterns(3,4)]
  by (simp_all add: declared)

lemma well_declared_store [simp]:
  "well_declared (ListBooks sch)" "well_declared (AddBook sch)" "well_declared (FindBook sch)"
  by (auto simp: declared)

lemma title_param:
  assumes "describes sch"
  shows "ValidateCodec (WithDescription (PathParam (library sch) ''title'' (TextSchema sch)) prose) = None"
    and "set (parameters (WithDescription (PathParam (library sch) ''title'' (TextSchema sch)) prose)) =
         {\<lparr>param_Name = ''title'', In = InPath, Required = True, param_Description = prose,
           param_Node = Structure (TextSchema sch)\<rparr>}"
    and "Decode (WithDescription (PathParam (library sch) ''title'' (TextSchema sch)) prose) request =
         Decode (PathParam (library sch) ''title'' (TextSchema sch)) request"
proof -
  have "parameterFault ''title'' (TextSchema sch) = None"
    using assms by (simp add: parameterFault_def TrimSpace_visible describes_def)
  then show "ValidateCodec (WithDescription (PathParam (library sch) ''title'' (TextSchema sch)) prose) = None"
    "set (parameters (WithDescription (PathParam (library sch) ''title'' (TextSchema sch)) prose)) =
         {\<lparr>param_Name = ''title'', In = InPath, Required = True, param_Description = prose,
           param_Node = Structure (TextSchema sch)\<rparr>}"
    "Decode (WithDescription (PathParam (library sch) ''title'' (TextSchema sch)) prose) request =
         Decode (PathParam (library sch) ''title'' (TextSchema sch)) request"
    by (simp_all add: WithDescription_def PathParam_def requiredParameter_def Let_def ValidateCodec_def Decode_def)
qed

lemma store_valid:
  assumes "describes sch"
  shows "ValidateEndpoint (ListBooks sch) = None" "ValidateEndpoint (AddBook sch) = None" "ValidateEndpoint (FindBook sch) = None"
proof -
  have s: "schema_Validate (BookSchema sch) = None" "schema_Validate (CatalogueSchema sch) = None"
    using assms by (simp_all add: describes_def)
  have entity: "ValidateCodec (Entity (BookSchema sch)) = None" "parameters (Entity (BookSchema sch)) = []"
    using s by (simp_all add: Entity_def ValidateCodec_def Let_def)
  show "ValidateEndpoint (ListBooks sch) = None"
    unfolding declared described_endpoints
    by (rule Declare_of_pattern(2) [OF store_patterns(1,2)]) (simp_all add: Nothing_def Returns_usable s)
  show "ValidateEndpoint (AddBook sch) = None"
    unfolding declared described_endpoints
    by (rule Declare_of_pattern(2) [OF store_patterns(1,2)]) (simp_all add: entity Returns_usable s)
  show "ValidateEndpoint (FindBook sch) = None"
    unfolding declared described_endpoints
    by (rule Declare_of_pattern(2) [OF store_patterns(3,4)])
      (simp_all add: title_param [OF assms] Returns_usable s capture_names_def)
qed

lemma store_usable:
  assumes "describes sch" and "r \<in> set (store_routes sch)"
  shows "usable r"
  using assms(2) store_valid [OF assms(1)]
  by (auto simp: store_routes_def listBooks_def addBook_def findBook_def usable_def Handle_def firstRouteFault_def)

lemma Surface_assembles: "describes sch \<Longrightarrow> \<exists>surface. Surface sch = Inr surface"
proof -
  assume "describes sch"
  moreover have "no_clash (store_routes sch)"
    by (simp add: store_routes_def listBooks_def addBook_def findBook_def clashing_def Handle_def endpoint_Declaration_def)
  ultimately show ?thesis
    using NewRoutesWithRejection_ok [of "Some rejectRequest" "store_routes sch"] store_usable
    by (auto simp: Surface_def NewRoutes_def store_routes_def)
qed

section \<open>What requests do to the store\<close>

abbreviation respond :: "Response \<Rightarrow> Response storeEffect" where
  "respond response w \<equiv> (w, Done response)"

lemma Add_cases:
  "Add book books =
     (if Title book \<in> Title ` set books
      then (books, Failed \<lparr>fault_Kind = AlreadyExists, fault_Err = Some (Reason (Title book @ '' is already held''))\<rparr>)
      else (books @ [book], Done ()))"
proof -
  have "list_ex (sameTitle (Title book)) books \<longleftrightarrow> Title book \<in> Title ` set books"
    by (induction books) (auto simp: sameTitle_def)
  then show ?thesis by (simp add: Add_def Modify_def)
qed

lemma Find_cases:
  "Find wanted books =
     (books, case find (sameTitle wanted) books of
               None \<Rightarrow> Failed \<lparr>fault_Kind = NotFound, fault_Err = None\<rparr> | Some book \<Rightarrow> Done book)"
  by (simp add: Find_def Get_def split: option.split)

definition grows :: "Book list \<Rightarrow> Book list \<Rightarrow> bool" where
  "grows books books' \<longleftrightarrow> books' = books \<or> (\<exists>book. books' = books @ [book] \<and> Title book \<notin> Title ` set books)"

lemma handlers_grow:
  "grows books (fst (All books))" "grows books (fst (Find wanted books))"
  "grows books (fst (continue (Add book books) (\<lambda>_ w1. (w1, Done book))))"
  by (auto simp: grows_def All_def Get_def Find_cases Add_cases)

lemma request_grows:
  assumes "Surface sch = Inr surface"
  shows "grows books (fst (Routes_Handler respond surface request books))"
proof -
  have new: "NewRoutesWithRejection (Some rejectRequest) (store_routes sch) = Inr surface"
    using assms by (simp add: Surface_def NewRoutes_def)
  then have usable: "\<And>r. r \<in> set (store_routes sch) \<Longrightarrow> usable r"
    using NewRoutesWithRejection_ok [of "Some rejectRequest" "store_routes sch"] by auto
  have same: "grows books books" by (simp add: grows_def)
  show ?thesis
  proof (rule dispatch_cases [OF new, of respond request])
    fix r arrived
    assume r: "r \<in> set (store_routes sch)" "Routes_Handler respond surface request = route_handler rejectRequest r arrived"
    from r(1) consider "r = listBooks sch" | "r = addBook sch" | "r = findBook sch" by (auto simp: store_routes_def)
    then show ?thesis
    proof cases
      case 1
      with direct_route_world [OF refl usable [OF r(1), unfolded 1 listBooks_def], of rejectRequest arrived books]
      show ?thesis using handlers_grow(1) same by (auto simp: r(2) listBooks_def)
    next
      case 2
      with direct_route_world [OF refl usable [OF r(1), unfolded 2 addBook_def], of rejectRequest arrived books]
      show ?thesis using handlers_grow(3) same by (auto simp: r(2) addBook_def)
    next
      case 3
      with direct_route_world [OF refl usable [OF r(1), unfolded 3 findBook_def], of rejectRequest arrived books]
      show ?thesis using handlers_grow(2) same by (auto simp: r(2) findBook_def)
    qed
  next
    fix response
    assume "Routes_Handler respond surface request = respond response"
    then show ?thesis by (simp add: same)
  qed
qed

section \<open>What the bookstore promises\<close>

text \<open>C13: Whatever is asked of the bookstore, in whatever order, it never holds two books of one title and
never forgets or reorders a book: what it holds is what it held with books added behind.\<close>

theorem titles_stay_distinct:
  assumes "Surface sch = Inr surface" and "distinct (map Title books)"
  shows "distinct (map Title (after_requests (Routes_Handler respond surface) requests books)) \<and>
     (\<exists>added. after_requests (Routes_Handler respond surface) requests books = books @ added)"
proof (rule after_requests_keep)
  fix request held
  assume "distinct (map Title held) \<and> (\<exists>added. held = books @ added)"
  with request_grows [OF assms(1), of held request]
  show "distinct (map Title (fst (Routes_Handler respond surface request held))) \<and>
      (\<exists>added. fst (Routes_Handler respond surface request held) = books @ added)"
    by (auto simp: grows_def)
qed (simp add: assms(2))

text \<open>What is relied on of the schemas: they can be used, a document is read as what was written, and a
text parameter is its text.\<close>

definition reads_back :: "schemas \<Rightarrow> bool" where
  "reads_back sch \<longleftrightarrow>
     describes sch \<and>
     (\<forall>book document. schema_EncodeJSON (BookSchema sch) None book = Inr document \<longrightarrow>
        schema_DecodeJSON (BookSchema sch) None document = Inr book \<and>
        schema_DecodeJSONFrom (BookSchema sch) None document = Inr book) \<and>
     (\<forall>s. schema_Decode (TextSchema sch) (textSource (library sch) s) = Inr s)"

text \<open>What the calls below have in common: the store's routes, and others that serve no path of its books,
behind a boundary that is reached.\<close>

definition elsewhere :: "store_route list \<Rightarrow> bool" where
  "elsewhere extra \<longleftrightarrow> (\<forall>s \<in> set extra. \<forall>verb ts. \<not> serves verb (''books'' # ts) s)"

lemma direct_runtime:
  "Succeed direct_ops = respond" "see_response direct_observer = (\<lambda>fx. fx)" "see_output direct_observer = (\<lambda>fx. fx)"
  "succeeds direct_ops direct_observer"
  by (auto simp: direct_ops_def direct_observer_def succeeds_def)

lemma store_verbs: "token ''POST''" "token ''GET''"
  by (simp_all add: token_def validHeaderFieldByte_def is_capital_def)

lemma boundary_unstated: "Boundary causes True = Inr adapter \<Longrightarrow> \<not> IsStated (crossOrigin adapter)"
  and boundary_status: "Boundary causes True = Inr adapter \<Longrightarrow> onFailure adapter = StatusFor"
  by (auto simp: Boundary_def NewAdapter_def noCrossOrigin_def IsStated_def)

lemma only_serves:
  assumes "s \<in> set (store_routes sch @ extra)" and "elsewhere extra"
  shows "serves ''POST'' [''books''] s \<Longrightarrow> s = addBook sch" and "serves ''GET'' [''books'', t] s \<Longrightarrow> s = findBook sch"
  using assms
  by (auto simp: elsewhere_def store_routes_def listBooks_def addBook_def findBook_def serves_def matches_def Handle_def
      endpoint_Declaration_def)

lemmas call_parts = fits_def plain_path_def is_control_def bodyAllowedForStatus_def

lemma book_added:
  assumes "reads_back sch" and "NewRoutesWithRejection (Some rejectRequest) (store_routes sch @ extra) = Inr surface"
    and "elsewhere extra" and "Boundary causes True = Inr adapter"
    and "hosts lib (served_by causes (\<lambda>fx. fx) adapter (Routes_Handler respond surface))"
    and "reaches lib client" and "client_strategy client = None"
    and "WithEntity blank (BookSchema sch) book None = Inr adding" and "cr_Path blank = Map.empty"
    and "Title book \<notin> Title ` set books"
  shows "Call lib client (AddBook sch) adding books = (books @ [book], Inr book)"
proof -
  have d: "describes sch" using assms(1) by (simp add: reads_back_def)
  obtain document where document: "schema_EncodeJSON (BookSchema sch) None book = Inr document"
    "cr_Entity adding = document" "cr_Path adding = Map.empty"
    using assms(8,9) by (auto simp: WithEntity_def split: sum.splits)
  have same_book: "schema_DecodeJSON (BookSchema sch) None document = Inr book"
    "schema_DecodeJSONFrom (BookSchema sch) None document = Inr book"
    using assms(1) document(1) by (auto simp: reads_back_def)
  show ?thesis
  proof (rule remote_call [OF direct_lawful direct_runtime(4) store_valid(2) [OF d] well_declared_store(2) store_parts(8) assms(2),
        where handle = "\<lambda>book w. continue (Add book w) (\<lambda>_ w1. (w1, Done book))", folded addBook_def])
    show "addBook sch \<in> set (store_routes sch @ extra)" by (simp add: store_routes_def)
    show "fillPattern (segments (AddBook sch)) (cr_Path adding) = Inr ''/books''"
      by (simp add: fillPattern_def go_results)
    show "s \<noteq> addBook sch \<Longrightarrow> map kind (segments (AddBook sch)) < kinds s"
      if "s \<in> set (store_routes sch @ extra)" "serves (end_method (AddBook sch)) (pathSegments ''/books'') s" for s
      using only_serves(1) [OF that(1) assms(3)] that(2) by (simp add: pathSegments_def)
    show "hosts lib (served_by causes (see_response direct_observer) adapter (Routes_Handler (Succeed direct_ops) surface))"
      using assms(5) by (simp add: direct_runtime)
    show "Decode (end_input (AddBook sch)) \<lparr>req_source = arrived, captures = caps, strategy = None\<rparr> = Inr book"
      if "asked_for (end_method (AddBook sch)) ''/books'' adding arrived" for arrived caps
      using that d same_book(2) document(2)
      by (simp add: asked_for_def asked_def Entity_def Decode_def ValidateCodec_def describes_def Source_def NamingStrategy_def Let_def)
    show "see_output direct_observer (\<lambda>w. continue (Add book w) (\<lambda>_ w1. (w1, Done book))) books = (books @ [book], Done book)"
      using assms(10) by (simp add: direct_runtime Add_cases)
  qed (use assms(6,7) boundary_unstated [OF assms(4)] document(1) same_book(1) store_verbs in \<open>simp_all add: call_parts\<close>)
qed

text \<open>What asking for a title comes to, whether it is held or not.\<close>

lemma title_asked:
  assumes "reads_back sch" and "elsewhere extra" and "CHR ''/'' \<notin> set wanted"
  shows "fillPattern (segments (FindBook sch)) [''title'' \<mapsto> wanted] = Inr (''/books/'' @ wanted)"
    and "s \<in> set (store_routes sch @ extra) \<Longrightarrow> serves (end_method (FindBook sch)) (pathSegments (''/books/'' @ wanted)) s \<Longrightarrow>
         s = findBook sch"
    and "restrict_map caps (set (capture_names (segments (FindBook sch)))) =
           restrict_map [''title'' \<mapsto> wanted] (set (capture_names (segments (FindBook sch)))) \<Longrightarrow>
         Decode (end_input (FindBook sch)) \<lparr>req_source = arrived, captures = caps, strategy = None\<rparr> = Inr wanted"
proof -
  have d: "describes sch" using assms(1) by (simp add: reads_back_def)
  show "fillPattern (segments (FindBook sch)) [''title'' \<mapsto> wanted] = Inr (''/books/'' @ wanted)"
    by (simp add: fillPattern_def go_results)
  show "s = findBook sch" if "s \<in> set (store_routes sch @ extra)"
    "serves (end_method (FindBook sch)) (pathSegments (''/books/'' @ wanted)) s"
    using only_serves(2) [OF that(1) assms(2), of wanted] that(2) split_on_append [of "CHR ''/''" "''books''" wanted]
    by (simp add: pathSegments_def split_on_no_sep [OF assms(3)])
  assume caps: "restrict_map caps (set (capture_names (segments (FindBook sch)))) =
      restrict_map [''title'' \<mapsto> wanted] (set (capture_names (segments (FindBook sch))))"
  have "caps ''title'' = Some wanted" using fun_cong [OF caps, of "''title''"] by (simp add: capture_names_def)
  moreover have "parameterFault ''title'' (TextSchema sch) = None"
    using d by (simp add: parameterFault_def TrimSpace_visible describes_def)
  ultimately show "Decode (end_input (FindBook sch)) \<lparr>req_source = arrived, captures = caps, strategy = None\<rparr> = Inr wanted"
    using assms(1) by (simp add: title_param(3) [OF d])
      (simp add: PathParam_def requiredParameter_def Decode_def ValidateCodec_def Let_def Capture_def reads_back_def)
qed

lemma book_found:
  assumes "reads_back sch" and "NewRoutesWithRejection (Some rejectRequest) (store_routes sch @ extra) = Inr surface"
    and "elsewhere extra" and "Boundary causes True = Inr adapter"
    and "hosts lib (served_by causes (\<lambda>fx. fx) adapter (Routes_Handler respond surface))"
    and "reaches lib client" and "client_strategy client = None"
    and "cr_Path finding = [''title'' \<mapsto> wanted]" and "plain_path wanted" and "CHR ''/'' \<notin> set wanted"
    and "find (sameTitle wanted) books = Some book" and "schema_EncodeJSON (BookSchema sch) None book = Inr document"
  shows "Call lib client (FindBook sch) finding books = (books, Inr book)"
proof -
  have d: "describes sch" using assms(1) by (simp add: reads_back_def)
  note asked = title_asked [OF assms(1,3,10)]
  show ?thesis
  proof (rule remote_call [OF direct_lawful direct_runtime(4) store_valid(3) [OF d] well_declared_store(3) store_parts(10) assms(2),
        where handle = Find, folded findBook_def])
    show "findBook sch \<in> set (store_routes sch @ extra)" by (simp add: store_routes_def)
    show "fillPattern (segments (FindBook sch)) (cr_Path finding) = Inr (''/books/'' @ wanted)"
      using asked(1) by (simp add: assms(8))
    show "s \<noteq> findBook sch \<Longrightarrow> map kind (segments (FindBook sch)) < kinds s"
      if "s \<in> set (store_routes sch @ extra)" "serves (end_method (FindBook sch)) (pathSegments (''/books/'' @ wanted)) s" for s
      using asked(2) [OF that] by simp
    show "hosts lib (served_by causes (see_response direct_observer) adapter (Routes_Handler (Succeed direct_ops) surface))"
      using assms(5) by (simp add: direct_runtime)
    show "Decode (end_input (FindBook sch)) \<lparr>req_source = arrived, captures = caps, strategy = None\<rparr> = Inr wanted"
      if "restrict_map caps (set (capture_names (segments (FindBook sch)))) =
          restrict_map (cr_Path finding) (set (capture_names (segments (FindBook sch))))" for arrived caps
      using asked(3) that by (simp add: assms(8))
    show "see_output direct_observer (Find wanted) books = (books, Done book)"
      by (simp add: direct_runtime Find_cases assms(11))
    show "schema_DecodeJSON (BookSchema sch) None document = Inr book" using assms(1,12) by (auto simp: reads_back_def)
  qed (use assms(6-10,12) boundary_unstated [OF assms(4)] store_verbs in \<open>simp_all add: call_parts\<close>)
qed

lemma book_missing:
  assumes "reads_back sch" and "NewRoutesWithRejection (Some rejectRequest) (store_routes sch @ extra) = Inr surface"
    and "elsewhere extra" and "Boundary causes True = Inr adapter"
    and "hosts lib (served_by causes (\<lambda>fx. fx) adapter (Routes_Handler respond surface))"
    and "reaches lib client"
    and "cr_Path finding = [''title'' \<mapsto> wanted]" and "plain_path wanted" and "CHR ''/'' \<notin> set wanted"
    and "find (sameTitle wanted) books = None"
    and "\<And>fault. \<not> ContainsDefect causes (Failed fault) \<and> cause_Failures causes (Failed fault) = [fault]"
  shows "Call lib client (FindBook sch) finding books =
    (books, Inl (Fault (''call GET /books/'' @ wanted)
       (Some (RefusalErr \<lparr>Refusal_Status = 404, Refusal_Entity = [], Refusal_header = Map.empty\<rparr>))))"
proof -
  let ?none = "\<lparr>fault_Kind = NotFound, fault_Err = None\<rparr>"
  have d: "describes sch" using assms(1) by (simp add: reads_back_def)
  note asked = title_asked [OF assms(1,3,9)]
  have "Call lib client (FindBook sch) finding books =
    (books, Inl (Fault (''call '' @ end_method (FindBook sch) @ '' '' @ (''/books/'' @ wanted))
       (Some (RefusalErr \<lparr>Refusal_Status = 404, Refusal_Entity = (if end_method (FindBook sch) = ''HEAD'' then [] else []),
                          Refusal_header = Map.empty\<rparr>))))"
  proof (rule remote_failure [OF direct_lawful store_valid(3) [OF d] well_declared_store(3) store_parts(10) assms(2),
        where handle = Find and e = ?none and others = "[]", folded findBook_def])
    show "findBook sch \<in> set (store_routes sch @ extra)" by (simp add: store_routes_def)
    show "fillPattern (segments (FindBook sch)) (cr_Path finding) = Inr (''/books/'' @ wanted)"
      using asked(1) by (simp add: assms(7))
    show "s \<noteq> findBook sch \<Longrightarrow> map kind (segments (FindBook sch)) < kinds s"
      if "s \<in> set (store_routes sch @ extra)" "serves (end_method (FindBook sch)) (pathSegments (''/books/'' @ wanted)) s" for s
      using asked(2) [OF that] by simp
    show "hosts lib (served_by causes (see_response direct_observer) adapter (Routes_Handler (Succeed direct_ops) surface))"
      using assms(5) by (simp add: direct_runtime)
    show "Decode (end_input (FindBook sch)) \<lparr>req_source = arrived, captures = caps, strategy = None\<rparr> = Inr wanted"
      if "restrict_map caps (set (capture_names (segments (FindBook sch)))) =
          restrict_map (cr_Path finding) (set (capture_names (segments (FindBook sch))))" for arrived caps
      using asked(3) that by (simp add: assms(7))
    show "see_output direct_observer (Find wanted) books = (books, Failed ?none)"
      by (simp add: direct_runtime Find_cases assms(10))
    show "is_received (onFailure adapter ?none) 404 []"
      using written_Empty [of 404] by (simp add: boundary_status [OF assms(4)] StatusFor_def informational_def)
  qed (use assms(6-9,11) boundary_unstated [OF assms(4)] store_verbs in \<open>simp_all add: call_parts\<close>)
  then show ?thesis by simp
qed

text \<open>C12: A book that is added over a network is the book that is found over it: adding it answers with it
and leaves it in the store, behind what was there, and asking for its title then answers with it
and leaves the store as it is -- if the store had no book of its title and the title can stand in
a path as it is.\<close>

theorem added_book_is_found:
  assumes "reads_back sch" and "Surface sch = Inr surface" and "Boundary causes True = Inr adapter"
    and "hosts lib (served_by causes (\<lambda>fx. fx) adapter (Routes_Handler respond surface))"
    and "reaches lib client" and "client_strategy client = None"
    and "WithEntity blank (BookSchema sch) book None = Inr adding" and "cr_Path blank = Map.empty"
    and "Title book \<notin> Title ` set books" and "plain_path (Title book)" and "CHR ''/'' \<notin> set (Title book)"
  shows "Call lib client (AddBook sch) adding books = (books @ [book], Inr book) \<and>
     Call lib client (FindBook sch) (blank\<lparr>cr_Path := [''title'' \<mapsto> Title book]\<rparr>) (books @ [book]) =
       (books @ [book], Inr book)"
proof -
  have new: "NewRoutesWithRejection (Some rejectRequest) (store_routes sch @ []) = Inr surface" and none: "elsewhere []"
    using assms(2) by (simp_all add: Surface_def NewRoutes_def elsewhere_def)
  obtain document where document: "schema_EncodeJSON (BookSchema sch) None book = Inr document"
    using assms(7) by (auto simp: WithEntity_def split: sum.splits)
  have "find (sameTitle (Title book)) (books @ [book]) = Some book"
    using assms(9) by (induction books) (auto simp: sameTitle_def)
  then show ?thesis
    using book_added [OF assms(1) new none assms(3-9)] book_found [OF assms(1) new none assms(3-6) _ assms(10,11) _ document] by simp
qed

text \<open>Schemas for a store of books that are their titles: an instance of the parameters.\<close>

definition title_book :: "string \<Rightarrow> Book" where
  "title_book s = \<lparr>Title = s, Authors = [], Pages = 1\<rparr>"

definition title_schema :: "Book Schema" where
  "title_schema =
     \<lparr>Structure = None, schema_Validate = None,
      schema_Decode = (\<lambda>src. map_sum (\<lambda>err. err) title_book (src_Text src)),
      schema_DecodeJSONFrom = (\<lambda>_ s. Inr (title_book s)), schema_DecodeJSON = (\<lambda>_ s. Inr (title_book s)),
      schema_EncodeJSON = (\<lambda>_ book. if book = title_book (Title book) then Inr (Title book) else Inl (Reason []))\<rparr>"

definition titles_schema :: "Book list Schema" where
  "titles_schema =
     \<lparr>Structure = None, schema_Validate = None, schema_Decode = (\<lambda>_. Inl (Reason [])),
      schema_DecodeJSONFrom = (\<lambda>_ s. Inl (Reason [])), schema_DecodeJSON = (\<lambda>_ s. Inl (Reason [])),
      schema_EncodeJSON = (\<lambda>_ books. Inr (join '','' (map Title books)))\<rparr>"

definition title_schemas :: schemas where
  "title_schemas = \<lparr>BookSchema = title_schema, CatalogueSchema = titles_schema, TextSchema = verbatim, library = plain_library\<rparr>"

lemma title_schemas_read_back: "reads_back title_schemas"
  unfolding reads_back_def
proof (intro conjI allI impI)
  show "describes title_schemas"
    by (simp add: describes_def title_schemas_def title_schema_def titles_schema_def)
  fix book document
  assume "schema_EncodeJSON (BookSchema title_schemas) None book = Inr document"
  then have "book = title_book (Title book)" "document = Title book"
    by (auto simp: title_schemas_def title_schema_def split: if_splits)
  then show "schema_DecodeJSON (BookSchema title_schemas) None document = Inr book"
    "schema_DecodeJSONFrom (BookSchema title_schemas) None document = Inr book"
    by (simp_all add: title_schemas_def title_schema_def)
qed (simp add: title_schemas_def textSource_def)

theorem titles_stay_distinct_witness:
  "\<exists>surface. Surface title_schemas = Inr surface \<and>
     distinct (map Title (after_requests (Routes_Handler respond surface) [RequestFrom \<lparr>req_Method = ''POST'', URL_Path = ''/books'', URL_Query = Map.empty,
        req_Header = Map.empty, req_Body = Some ''b''\<rparr>] [title_book ''a'']))"
proof -
  obtain surface where "Surface title_schemas = Inr surface"
    using Surface_assembles [of title_schemas] title_schemas_read_back unfolding reads_back_def by blast
  with titles_stay_distinct [OF this, of "[title_book ''a'']"] show ?thesis by (auto simp: title_book_def)
qed

definition store_causes :: "((store_fault, Response) exit, store_fault) cause_ops" where
  "store_causes =
     \<lparr>ContainsDefect = (\<lambda>cause. case cause of Died _ \<Rightarrow> True | _ \<Rightarrow> False),
      cause_Failures = (\<lambda>cause. case cause of Failed fault \<Rightarrow> [fault] | _ \<Rightarrow> []),
      HasInterruptsOnly = (\<lambda>_. False),
      cause_String = (\<lambda>cause. case cause of Failed fault \<Rightarrow> store_Error fault | Died err \<Rightarrow> Error err | _ \<Rightarrow> [])\<rparr>"

theorem added_book_is_found_witness:
  "\<exists>surface adapter adding. Surface title_schemas = Inr surface \<and> Boundary store_causes True = Inr adapter \<and>
     Call (direct_http (served_by store_causes (\<lambda>fx. fx) adapter (Routes_Handler respond surface)))
       (Dial True ''http://host'') (AddBook title_schemas) adding [] = ([title_book ''a''], Inr (title_book ''a'')) \<and>
     Call (direct_http (served_by store_causes (\<lambda>fx. fx) adapter (Routes_Handler respond surface)))
       (Dial True ''http://host'') (FindBook title_schemas) (bare_request\<lparr>cr_Path := [''title'' \<mapsto> ''a'']\<rparr>) [title_book ''a''] =
       ([title_book ''a''], Inr (title_book ''a''))"
proof -
  obtain surface where surface: "Surface title_schemas = Inr surface"
    using Surface_assembles [of title_schemas] title_schemas_read_back unfolding reads_back_def by blast
  obtain adapter where adapter: "Boundary store_causes True = Inr adapter"
    by (simp add: Boundary_def NewAdapter_def)
  let ?lib = "direct_http (served_by store_causes (\<lambda>fx. fx) adapter (Routes_Handler respond surface))"
  have client: "reaches ?lib (Dial True ''http://host'')"
    using dialled_reaches [of "''host''" ?lib] by (simp add: plain_host_def is_control_def) (simp add: direct_http_def)
  obtain adding where adding: "WithEntity bare_request (BookSchema title_schemas) (title_book ''a'') None = Inr adding"
    by (simp add: WithEntity_def title_schemas_def title_schema_def title_book_def)
  show ?thesis
    using added_book_is_found [OF title_schemas_read_back surface adapter direct_hosts client _ adding, of "[]"] surface adapter
    by (auto simp: Dial_def bare_request_def plain_path_def is_control_def title_book_def)
qed

end
