(* ===== verification/Bookstore_Contract.thy ===== *)
theory Bookstore_Contract
  imports Bookstore Openapi_Render
begin

text \<open>
  The contract of the bookstore (\<open>Contract\<close> of \<open>examples/bookstore/endpoints.go\<close>): the document of
  its surface, rendered, and served beside the routes it describes.

  The projection of schemas and the encoder are the parameters of the \<open>openapi\<close> theories. The bytes
  of the tokens and the error of a failed rendering are the encoder's. A projection that gives too few
  schemas makes \<open>Describe\<close> read past their end, which panics; the panic is kept as an error of its own.
\<close>

section \<open>The contract\<close>

definition bookstore_info :: Info where
  "bookstore_info =
     \<lparr>info_Title = ''Bookstore'', info_Version = ''1.0.0'',
      info_Description = ''A small catalogue, served from one description.''\<rparr>"

definition index_out_of_range :: error where
  "index_out_of_range = Reason ''runtime error: index out of range''"

definition Contract ::
  "'n projection \<Rightarrow> 'n rendering \<Rightarrow> (json_error \<Rightarrow> error) \<Rightarrow> (token list \<Rightarrow> string) \<Rightarrow>
   (Response storeEffect Handler, unit) Routes \<Rightarrow> (error, string) result" where
  "Contract proj ops error_of bytes_of surface =
     (case Describe proj bookstore_info (declarations surface) [] of
        None \<Rightarrow> Inl index_out_of_range
      | Some document \<Rightarrow>
          (case Render ops document of Inl err \<Rightarrow> Inl (error_of err) | Inr parts \<Rightarrow> Inr (bytes_of parts)))"

section \<open>What is declared\<close>

lemma serveContract_parts [simp]:
  "route_segments (serveContract contract) = [literal ''openapi.json'']" "route_method (serveContract contract) = ''GET''"
  using Declare_of_pattern(1) [OF store_patterns(5,6)]
  by (simp_all add: serveContract_def Handle_def GET_def endpoint_Declaration_def)

lemma serveContract_usable: "usable (serveContract contract)"
proof -
  have "ValidateEndpoint (GET ''/openapi.json'' Nothing (ReturnsRaw 200 ''application/json'')) = None"
    unfolding GET_def by (rule Declare_of_pattern(2) [OF store_patterns(5,6)]) (simp_all add: Nothing_def ReturnsRaw_def)
  then show ?thesis by (simp add: serveContract_def usable_def Handle_def firstRouteFault_def)
qed

lemma Declare_outcomes:
  "failures (Declare verb path inp outp) = []" "alternatives (Declare verb path inp outp) = []"
  by (simp_all add: Declare_def Let_def split: sum.splits)

lemma declared_keys:
  "map (\<lambda>decl. (templatePath (decl_Path decl), ToLower (decl_Method decl))) (map route_declaration (store_routes sch)) =
     [(''/books'', ''get''), (''/books'', ''post''), (''/books/{title}'', ''get'')]"
proof -
  have "templatePath ''/books'' = ''/books''" "templatePath ''/books/{title}'' = ''/books/{title}''"
    "ToLower ''GET'' = ''get''" "ToLower ''POST'' = ''post''" by code_simp+
  then show ?thesis
    by (simp add: store_routes_def listBooks_def addBook_def findBook_def Handle_def endpoint_Declaration_def
        store_patterns(2,4))
qed

lemma declared_statuses:
  "list_all (\<lambda>decl. distinct (answered_statuses decl)) (map route_declaration (store_routes sch))"
  by (simp add: store_routes_def listBooks_def addBook_def findBook_def Handle_def endpoint_Declaration_def answered_statuses_def)
    (simp add: declared WithFailure_def WithSummary_def endpoint_WithDescription_def Declare_outcomes Returns_def Let_def
      split: option.split)

section \<open>What is served\<close>

lemma serveContract_answers:
  "route_handler rejects (serveContract contract) request books = (books, Done (Bytes 200 ''application/json'' contract))"
  using serveContract_usable [of contract]
  by (simp add: serveContract_def spelled_route_handler(2) plainHandler_def direct_ops_def direct_phase_def Decode_def
      Nothing_def ValidateCodec_def Let_def)
    (simp add: GET_def WithSummary_def Declare_def ReturnsRaw_def encodeOutput_def Let_def split: sum.split prod.split)

lemma contract_assembles:
  assumes "describes sch"
  shows "\<exists>served. NewRoutesWithRejection (Some rejectRequest) (store_routes sch @ [serveContract contract]) = Inr served"
proof -
  have "no_clash (store_routes sch @ [serveContract contract])"
    by (simp add: store_routes_def clashing_def) (simp add: listBooks_def addBook_def findBook_def Handle_def endpoint_Declaration_def)
  then show ?thesis
    using NewRoutesWithRejection_ok [of "Some rejectRequest" "store_routes sch @ [serveContract contract]"]
      store_usable [OF assms] serveContract_usable by auto
qed

lemma best_route_beside:
  "\<not> matches path r \<Longrightarrow> best_route (rs @ [r]) verb path = best_route rs verb path"
  "\<forall>q \<in> set rs. \<not> matches path q \<Longrightarrow> best_route (rs @ [r]) verb path = (if serves verb path r then Some r else None)"
  by (induction rs) (auto simp: serves_def split: option.split)

lemma scan_beside:
  assumes "\<not> matches (pathSegments (Path request)) r"
  shows "scan_dispatch succeed rejects (rs @ [r]) request = scan_dispatch succeed rejects rs request"
  using assms by (simp add: scan_dispatch_def Let_def best_route_beside split: option.split)

lemma contract_beside_the_store:
  assumes "pathSegments (Path request) = [''openapi.json'']"
  shows "scan_dispatch respond rejects (store_routes sch @ [serveContract contract]) request books =
     (books, Done (if Method request = ''GET'' then Bytes 200 ''application/json'' contract else methodNotAllowed [''GET'']))"
proof -
  have "\<forall>q \<in> set (store_routes sch). \<not> matches [''openapi.json''] q"
    by (auto simp: store_routes_def listBooks_def addBook_def findBook_def matches_def Handle_def)
  moreover have "matches [''openapi.json''] (serveContract contract)" by (simp add: matches_def)
  ultimately show ?thesis
    by (simp add: scan_dispatch_def Let_def assms best_route_beside(2) serves_def serveContract_answers filter_False)
qed

text \<open>C11: The contract served is the contract of what is served. When the schemas have a projection and the
encoder can write it, the surface of the bookstore has a document with one operation for each of its
declarations, rendering that document never fails, and the surface that serves it assembles: a request
for its path is answered with the rendering, whatever the store holds, and every other request as the
surface described answers it.\<close>

theorem contract_is_served:
  assumes "describes sch" and "Surface sch = Inr surface"
    and "ProjectAll proj ComponentPointer (concat (map shapes_of (declarations surface))) =
           (map f (concat (map shapes_of (declarations surface))), components)"
    and "distinct (ComponentNames ops components)"
    and "\<And>document. Describe proj bookstore_info (declarations surface) [] = Some document \<Longrightarrow>
           valid_parts ops (document_json ops document)"
  shows "\<exists>document parts served. Describe proj bookstore_info (declarations surface) [] = Some document \<and>
     operations_of (doc_Paths document) =
       mset (map (\<lambda>decl. (templatePath (decl_Path decl), described_operation proj f decl)) (declarations surface)) \<and>
     Render ops document = Inr parts \<and>
     SurfaceWithContract (Contract proj ops error_of bytes_of) sch = Inr served \<and>
     (\<forall>request books. Routes_Handler respond served request books =
        (if pathSegments (Path request) = [''openapi.json'']
         then (books, Done (if Method request = ''GET'' then Bytes 200 ''application/json'' (bytes_of parts)
                            else methodNotAllowed [''GET'']))
         else Routes_Handler respond surface request books))"
proof -
  have new: "NewRoutesWithRejection (Some rejectRequest) (store_routes sch) = Inr surface"
    using assms(2) by (simp add: Surface_def NewRoutes_def)
  have decls: "declarations surface = map route_declaration (store_routes sch)"
    by (rule NewRoutesWithRejection_Inr(2) [OF new])
  note described = Describe_eq [OF assms(3), of bookstore_info "[]"]
  then obtain document where document: "Describe proj bookstore_info (declarations surface) [] = Some document" by blast
  have parts_of: "doc_Components document = components" "distinct (map path_Path (doc_Paths document))"
    "operations_of (doc_Paths document) =
       mset (map (\<lambda>decl. (templatePath (decl_Path decl), described_operation proj f decl)) (declarations surface))"
    using described document document_paths_ok [of "described_operation proj f" "declarations surface"]
    by (auto simp: document_paths_def)
  have "names_once (document_json ops document)"
    using described_document_names [OF parts_of(3,2), of ops] assms(4) declared_keys [of sch] declared_statuses [of sch]
    by (simp add: parts_of(1) decls comp_def)
  then obtain parts where parts: "Render ops document = Inr parts"
    using assms(5) [OF document] Render_succeeds [of ops document] by blast
  obtain served where served:
    "NewRoutesWithRejection (Some rejectRequest) (store_routes sch @ [serveContract (bytes_of parts)]) = Inr served"
    using contract_assembles [OF assms(1)] by blast
  have "SurfaceWithContract (Contract proj ops error_of bytes_of) sch = Inr served"
    by (simp add: SurfaceWithContract_def assms(2) Contract_def document parts NewRoutes_def served)
  moreover have "Routes_Handler respond served request books =
        (if pathSegments (Path request) = [''openapi.json'']
         then (books, Done (if Method request = ''GET'' then Bytes 200 ''application/json'' (bytes_of parts)
                            else methodNotAllowed [''GET'']))
         else Routes_Handler respond surface request books)" for request books
  proof (cases "pathSegments (Path request) = [''openapi.json'']")
    case True
    then show ?thesis by (simp add: dispatch_is_scan [OF served] contract_beside_the_store)
  next
    case False
    then have "\<not> matches (pathSegments (Path request)) (serveContract (bytes_of parts))"
      by (cases "pathSegments (Path request)"; cases "tl (pathSegments (Path request))") (auto simp: matches_def)
    with False show ?thesis by (simp add: dispatch_is_scan [OF served] dispatch_is_scan [OF new] scan_beside)
  qed
  ultimately show ?thesis using document parts parts_of(3) by blast
qed

theorem contract_is_served_witness:
  "\<exists>surface document parts served. Surface title_schemas = Inr surface \<and>
     Describe plain_projection bookstore_info (declarations surface) [] = Some document \<and>
     Render plain_rendering document = Inr parts \<and>
     SurfaceWithContract (Contract plain_projection plain_rendering (\<lambda>_. Reason []) (\<lambda>parts. itoa (int (length parts)))) title_schemas = Inr served \<and>
     Routes_Handler respond served (RequestFrom \<lparr>req_Method = ''GET'', URL_Path = ''/openapi.json'', URL_Query = Map.empty,
        req_Header = Map.empty, req_Body = None\<rparr>) [] =
       ([], Done (Bytes 200 ''application/json'' (itoa (int (length parts)))))"
proof -
  have d: "describes title_schemas" using title_schemas_read_back by (simp add: reads_back_def)
  obtain surface where surface: "Surface title_schemas = Inr surface" using Surface_assembles [OF d] by blast
  have projects: "ProjectAll plain_projection ComponentPointer (concat (map shapes_of (declarations surface))) =
      (map (\<lambda>_. ''shape'') (concat (map shapes_of (declarations surface))), [])" by (simp add: plain_projection_def)
  have names: "distinct (ComponentNames plain_rendering [])" by (simp add: plain_rendering_def)
  have asked: "pathSegments (Path (RequestFrom \<lparr>req_Method = ''GET'', URL_Path = ''/openapi.json'', URL_Query = Map.empty,
      req_Header = Map.empty, req_Body = None\<rparr>)) = [''openapi.json'']" by code_simp
  obtain document parts served where "Describe plain_projection bookstore_info (declarations surface) [] = Some document"
    "Render plain_rendering document = Inr parts"
    "SurfaceWithContract (Contract plain_projection plain_rendering (\<lambda>_. Reason []) (\<lambda>parts. itoa (int (length parts)))) title_schemas = Inr served"
    "\<forall>request books. Routes_Handler respond served request books =
        (if pathSegments (Path request) = [''openapi.json'']
         then (books, Done (if Method request = ''GET'' then Bytes 200 ''application/json'' (itoa (int (length parts)))
                            else methodNotAllowed [''GET'']))
         else Routes_Handler respond surface request books)"
    using contract_is_served [OF d surface projects names plain_valid, of "\<lambda>_. Reason []" "\<lambda>parts. itoa (int (length parts))"] by blast
  moreover from this(4) [THEN spec, of "RequestFrom \<lparr>req_Method = ''GET'', URL_Path = ''/openapi.json'', URL_Query = Map.empty,
      req_Header = Map.empty, req_Body = None\<rparr>", unfolded asked] have "Routes_Handler respond served (RequestFrom \<lparr>req_Method = ''GET'',
        URL_Path = ''/openapi.json'', URL_Query = Map.empty, req_Header = Map.empty, req_Body = None\<rparr>) [] =
       ([], Done (Bytes 200 ''application/json'' (itoa (int (length parts)))))" by (simp add: Method_def RequestFrom_def)
  ultimately show ?thesis using surface by blast
qed

end
