(* ===== verification/Shelf_Book.thy ===== *)
theory Shelf_Book
  imports Web_Fault "HOL-Library.Word"
begin

text \<open>
  What a book is in the shelf example (\<open>examples/shelf/domain/book.go\<close>): its members, the check
  digit of its number, and the constructor that every book is made by.

  A string is its bytes, and the difference of two bytes wraps at 256, so the sum of a text that is
  no number is a sum all the same.
\<close>

section \<open>Books\<close>

type_synonym ISBN = string

record Edition =
  Format :: string
  Language :: string

record Book =
  isbn_of :: ISBN
  title_of :: string
  author_of :: string
  pages_of :: int
  year_of :: int
  edition_of :: Edition
  shelfMark_of :: string

definition ErrCheckDigit :: error where
  "ErrCheckDigit = Reason (''the ISBN'' @ [CHR 0x27] @ ''s check digit does not hold'')"

definition digit_byte :: "char \<Rightarrow> 8 word" where
  "digit_byte c = of_char c"

definition weigh :: "int \<times> nat \<Rightarrow> char \<Rightarrow> int \<times> nat" where
  "weigh state digit =
     (case state of (acc, at) \<Rightarrow>
        (acc + int (unat (digit_byte digit - digit_byte CHR ''0'')) * (if at mod 2 = 1 then 3 else 1), Suc at))"

definition checkDigitHolds :: "ISBN \<Rightarrow> bool" where
  "checkDigitHolds isbn \<longleftrightarrow>
     (if length isbn \<noteq> 13 then False else fst (foldl weigh (0, 0) isbn) mod 10 = 0)"

definition NewBook ::
  "ISBN \<Rightarrow> string \<Rightarrow> string \<Rightarrow> int \<Rightarrow> int \<Rightarrow> Edition \<Rightarrow> string \<Rightarrow> (error, Book) result" where
  "NewBook isbn title author pages year edition shelfMark =
     (if \<not> checkDigitHolds isbn
      then Inl (Foreign (Error ErrCheckDigit @ '': '' @ isbn) (Some ErrCheckDigit))
      else Inr \<lparr>isbn_of = isbn, title_of = title, author_of = author, pages_of = pages, year_of = year,
                edition_of = edition, shelfMark_of = shelfMark\<rparr>)"

text \<open>A count is an \<open>int32\<close> on the wire, \<open>int\<close> in the program.\<close>

definition count_in :: "32 word \<Rightarrow> int" where
  "count_in value = sint value"

definition count_out :: "int \<Rightarrow> 32 word" where
  "count_out value = word_of_int value"

section \<open>What the check digit catches\<close>

definition worth :: "char \<Rightarrow> int" where
  "worth c = int (unat (digit_byte c - digit_byte CHR ''0''))"

definition weight :: "nat \<Rightarrow> int" where
  "weight at = (if at mod 2 = 1 then 3 else 1)"

fun weighted :: "nat \<Rightarrow> string \<Rightarrow> int" where
  "weighted at [] = 0"
| "weighted at (c # cs) = worth c * weight at + weighted (Suc at) cs"

lemma weigh_all: "foldl weigh (acc, at) cs = (acc + weighted at cs, at + length cs)"
  by (induction cs arbitrary: acc at) (simp_all add: weigh_def worth_def weight_def)

lemma checkDigitHolds_weighted: "checkDigitHolds isbn \<longleftrightarrow> length isbn = 13 \<and> weighted 0 isbn mod 10 = 0"
  by (simp add: checkDigitHolds_def weigh_all)

lemma weighted_update:
  "i < length cs \<Longrightarrow> weighted at (cs[i := d]) = weighted at cs + (worth d - worth (cs ! i)) * weight (at + i)"
proof (induction cs arbitrary: at i)
  case (Cons c cs)
  show ?case
  proof (cases i)
    case (Suc j)
    with Cons show ?thesis by simp
  qed (simp add: algebra_simps)
qed simp

definition is_digit :: "char \<Rightarrow> bool" where
  "is_digit c \<longleftrightarrow> CHR ''0'' \<le> c \<and> c \<le> CHR ''9''"

lemma digits_listed: "is_digit c \<longleftrightarrow> c \<in> set ''0123456789''"
proof -
  have "list_all (\<lambda>c. is_digit c \<longleftrightarrow> c \<in> set ''0123456789'') Enum.enum" by code_simp
  then show ?thesis by (simp add: list_all_iff enum_UNIV)
qed

lemma worth_of_digit:
  assumes "is_digit c"
  shows "0 \<le> worth c \<and> worth c \<le> 9"
proof -
  have "list_all (\<lambda>c. 0 \<le> worth c \<and> worth c \<le> 9) ''0123456789''" by code_simp
  with assms show ?thesis unfolding digits_listed list_all_iff by blast
qed

lemma worth_inject:
  assumes "is_digit c" and "is_digit d" and "worth c = worth d"
  shows "c = d"
proof -
  have "list_all (\<lambda>c. list_all (\<lambda>d. worth c = worth d \<longrightarrow> c = d) ''0123456789'') ''0123456789''" by code_simp
  with assms show ?thesis unfolding digits_listed list_all_iff by blast
qed

text \<open>C40: The check digit catches the slips of a hand. Of thirteen digits whose check digit holds, none can be
another digit, and two neighbours can change places exactly when they are the same modulo five --
so a book is refused for each of those slips in its number, and otherwise made of what was given.\<close>

theorem slips_are_refused:
  assumes "NewBook isbn title author pages year edition shelfMark = Inr book" and "list_all is_digit isbn"
    and "i < 13" and "is_digit d"
  shows "isbn_of book = isbn \<and>
    ((\<exists>other. NewBook (isbn[i := d]) title author pages year edition shelfMark = Inr other) \<longleftrightarrow> d = isbn ! i) \<and>
    (Suc i < 13 \<longrightarrow>
      ((\<exists>other. NewBook (isbn[i := isbn ! Suc i, Suc i := isbn ! i]) title author pages year edition shelfMark = Inr other) \<longleftrightarrow>
       worth (isbn ! i) mod 5 = worth (isbn ! Suc i) mod 5))"
proof (intro conjI impI)
  have holds: "length isbn = 13" "weighted 0 isbn mod 10 = 0"
    using assms(1) by (auto simp: NewBook_def checkDigitHolds_weighted split: if_splits)
  have made: "(\<exists>other. NewBook x title author pages year edition shelfMark = Inr other) \<longleftrightarrow> checkDigitHolds x" for x
    by (simp add: NewBook_def)
  show "isbn_of book = isbn" using assms(1) by (auto simp: NewBook_def split: if_splits)
  have old: "is_digit (isbn ! i)" using assms(2,3) holds(1) by (simp add: list_all_length)
  have "(weighted 0 (isbn[i := d])) mod 10 = ((worth d - worth (isbn ! i)) * weight i) mod 10"
    using assms(3) holds by (simp add: weighted_update) (metis add_0 mod_add_left_eq)
  moreover have "((worth d - worth (isbn ! i)) * weight i) mod 10 = 0 \<longleftrightarrow> worth d = worth (isbn ! i)"
    using worth_of_digit [OF old] worth_of_digit [OF assms(4)] by (simp add: weight_def) presburger
  ultimately show "(\<exists>other. NewBook (isbn[i := d]) title author pages year edition shelfMark = Inr other) \<longleftrightarrow> d = isbn ! i"
    unfolding made checkDigitHolds_weighted using holds(1) worth_inject [OF assms(4) old] by auto
  assume next_to: "Suc i < 13"
  let ?a = "worth (isbn ! i)" and ?b = "worth (isbn ! Suc i)"
  have "weighted 0 (isbn[i := isbn ! Suc i, Suc i := isbn ! i]) = weighted 0 isbn + (?b - ?a) * weight i + (?a - ?b) * weight (Suc i)"
    using next_to holds(1) by (simp add: weighted_update)
  also have "\<dots> = weighted 0 isbn + (?b - ?a) * (weight i - weight (Suc i))" by (simp add: algebra_simps)
  finally have "weighted 0 (isbn[i := isbn ! Suc i, Suc i := isbn ! i]) mod 10 = ((?b - ?a) * (weight i - weight (Suc i))) mod 10"
    using holds(2) by (metis add_0 mod_add_left_eq)
  moreover have "weight i - weight (Suc i) = 2 \<or> weight i - weight (Suc i) = - 2" by (simp add: weight_def) presburger
  then have "((?b - ?a) * (weight i - weight (Suc i))) mod 10 = 0 \<longleftrightarrow> ?a mod 5 = ?b mod 5" by (elim disjE) (simp, presburger)+
  ultimately show "(\<exists>other. NewBook (isbn[i := isbn ! Suc i, Suc i := isbn ! i]) title author pages year edition shelfMark = Inr other) \<longleftrightarrow>
      ?a mod 5 = ?b mod 5"
    unfolding made checkDigitHolds_weighted using holds(1) by simp
qed

theorem slips_are_refused_witness:
  "(\<exists>book. NewBook ''9780306406157'' ''t'' ''a'' 1 2000 \<lparr>Format = ''ebook'', Language = ''en''\<rparr> [] = Inr book) \<and>
   \<not> (\<exists>book. NewBook (''9780306406157''[3 := CHR ''1'']) ''t'' ''a'' 1 2000 \<lparr>Format = ''ebook'', Language = ''en''\<rparr> [] = Inr book) \<and>
   (\<exists>book. NewBook (''9780306406157''[9 := CHR ''1'', 10 := CHR ''6'']) ''t'' ''a'' 1 2000
      \<lparr>Format = ''ebook'', Language = ''en''\<rparr> [] = Inr book)"
proof -
  have "checkDigitHolds ''9780306406157''" "list_all is_digit ''9780306406157''" "is_digit CHR ''1''" by code_simp+
  moreover from this obtain book where book:
    "NewBook ''9780306406157'' ''t'' ''a'' 1 2000 \<lparr>Format = ''ebook'', Language = ''en''\<rparr> [] = Inr book"
    by (auto simp: NewBook_def)
  moreover have "''9780306406157'' ! 3 \<noteq> CHR ''1''" "''9780306406157'' ! 9 = CHR ''6''"
    "''9780306406157'' ! Suc 9 = CHR ''1''" "worth CHR ''6'' mod 5 = worth CHR ''1'' mod 5" by code_simp+
  ultimately show ?thesis
    using slips_are_refused [OF book, of 3 "CHR ''1''"] slips_are_refused [OF book, of 9 "CHR ''1''"] book by simp
qed

end
