(* ===== verification/Shelf_Api.thy ===== *)
theory Shelf_Api
  imports Web_Remote Shelf_Book
begin

text \<open>
  The catalogue of the shelf example over HTTP (\<open>examples/shelf/api/api.go\<close>,
  \<open>examples/shelf/api/fault.go\<close>): what it is asked, its endpoints, its handlers and what their
  failures answer with.

  The database is another module's: the repository and the listing of \<open>store.Books\<close> and
  \<open>store.Catalogue\<close> are a record of functions on the session, their faults a type of which the
  three questions the source asks and its text are known, and a condition is a value they make. The
  schemas are the schema module's. A book is decoded through its constructor: \<open>BookSchema\<close> gives the
  library's \<open>Object\<close> the construction, \<open>decodes_books\<close> says that nothing else decodes, and
  \<open>BookSchema_decodes\<close> has it from the one law of \<open>Object\<close>.

  What is proved: no request makes the database hold a book whose check digit does not hold, and
  every failure of a handler is answered, with nothing of the database's own in it.
\<close>

section \<open>Faults\<close>

record api_fault =
  api_Kind :: string
  api_Err :: "error option"

definition NotFound :: string where "NotFound = ''not-found''"
definition Refused :: string where "Refused = ''refused''"
definition api_Unavailable :: string where "api_Unavailable = ''unavailable''"

definition api_Error :: "api_fault \<Rightarrow> string" where
  "api_Error fault =
     (case api_Err fault of None \<Rightarrow> api_Kind fault | Some err \<Rightarrow> api_Kind fault @ '': '' @ Error err)"

definition api_Unwrap :: "api_fault \<Rightarrow> error option" where
  "api_Unwrap fault = api_Err fault"

text \<open>Reading the text of an error that is not there panics.\<close>

definition StatusFor :: "api_fault \<Rightarrow> (error, Response) result" where
  "StatusFor fault =
     (if api_Kind fault = NotFound then Inr (Empty 404)
      else if api_Kind fault = Refused
      then (case api_Err fault of None \<Rightarrow> Inl nil_call | Some err \<Rightarrow> Inr (Text 400 (Error err)))
      else Inr (Empty 500))"

record 'f sql_faults =
  is_ErrNoRows :: "'f \<Rightarrow> bool"
  is_ErrPageQuery :: "'f \<Rightarrow> bool"
  is_ErrPageCursor :: "'f \<Rightarrow> bool"
  as_error :: "'f \<Rightarrow> error"

type_synonym ('w, 'a) apiEffect = "'w \<Rightarrow> 'w \<times> (api_fault, 'a) exit"

definition api_fault_of :: "'f sql_faults \<Rightarrow> 'f \<Rightarrow> api_fault" where
  "api_fault_of faults fault =
     (if is_ErrNoRows faults fault then \<lparr>api_Kind = NotFound, api_Err = Some (as_error faults fault)\<rparr>
      else if is_ErrPageQuery faults fault \<or> is_ErrPageCursor faults fault
      then \<lparr>api_Kind = Refused, api_Err = Some (as_error faults fault)\<rparr>
      else \<lparr>api_Kind = api_Unavailable, api_Err = Some (as_error faults fault)\<rparr>)"

definition asAPIEffect :: "'f sql_faults \<Rightarrow> ('w \<Rightarrow> 'w \<times> ('f, 'a) exit) \<Rightarrow> ('w, 'a) apiEffect" where
  "asAPIEffect faults reply w =
     (case reply w of
        (w', Done x) \<Rightarrow> (w', Done x)
      | (w', Failed fault) \<Rightarrow> (w', Failed (api_fault_of faults fault))
      | (w', Died err) \<Rightarrow> (w', Died err))"

section \<open>What is asked\<close>

record CatalogueQuery =
  asked_Page :: PageRequest
  asked_Words :: string
  asked_Title :: string

record BookPage =
  page_Books :: "Book list"
  page_Next :: string
  page_Previous :: string

record 'c PageQuery =
  Where :: 'c
  by_Sort :: string
  by_Size :: int
  by_Number :: int
  by_After :: string
  by_Before :: string

record ('w, 'f, 'c) repository =
  Catalogue_Page :: "'c PageQuery \<Rightarrow> 'w \<Rightarrow> 'w \<times> ('f, BookPage) exit"
  Catalogue_Match :: "string \<Rightarrow> string \<Rightarrow> 'c"
  sql_And :: "'c \<Rightarrow> 'c \<Rightarrow> 'c"
  Books_Save :: "Book \<Rightarrow> 'w \<Rightarrow> 'w \<times> ('f, unit) exit"
  Books_Find :: "ISBN \<Rightarrow> 'w \<Rightarrow> 'w \<times> ('f, Book) exit"
  Books_Delete :: "ISBN \<Rightarrow> 'w \<Rightarrow> 'w \<times> ('f, int) exit"

definition pageQuery :: "('w, 'f, 'c) repository \<Rightarrow> CatalogueQuery \<Rightarrow> 'c PageQuery" where
  "pageQuery repo query =
     \<lparr>Where = sql_And repo (Catalogue_Match repo ''words'' (asked_Words query))
                (Catalogue_Match repo ''title'' (asked_Title query)),
      by_Sort = Sort (asked_Page query), by_Size = Size (asked_Page query), by_Number = Number (asked_Page query),
      by_After = After (asked_Page query), by_Before = Before (asked_Page query)\<rparr>"

record shelf_schemas =
  ISBNSchema :: "ISBN Schema"
  BookShape :: "Book Schema"
  BookPageShape :: "BookPage Schema"
  TextSchema :: "string Schema"
  PositiveSchema :: "int Schema"
  shelf_library :: text_library

definition catalogueQuery :: "shelf_schemas \<Rightarrow> CatalogueQuery Codec" where
  "catalogueQuery sch =
     Convert
       (Zip (PageParams (shelf_library sch) (TextSchema sch) (PositiveSchema sch) [''title'', ''recent''])
          (Zip (WithDescription (OptionalQueryParam (shelf_library sch) ''q'' (TextSchema sch)) ''words the title or author holds'')
               (WithDescription (OptionalQueryParam (shelf_library sch) ''title'' (TextSchema sch)) ''what the title begins with'')))
       (\<lambda>(page, words, title).
          Inr \<lparr>asked_Page = page, asked_Words = (case words of None \<Rightarrow> [] | Some v \<Rightarrow> v),
               asked_Title = (case title of None \<Rightarrow> [] | Some v \<Rightarrow> v)\<rparr>)"

definition isbn_param :: "shelf_schemas \<Rightarrow> ISBN Codec" where
  "isbn_param sch =
     WithDescription (PathParam (shelf_library sch) ''isbn'' (ISBNSchema sch)) (''the book'' @ [CHR 0x27] @ ''s ISBN'')"

section \<open>Endpoints\<close>

definition ListBooks :: "shelf_schemas \<Rightarrow> (CatalogueQuery, BookPage) Endpoint" where
  "ListBooks sch =
     WithSummary (GET ''/books'' (catalogueQuery sch) (Returns 200 (BookPageShape sch))) ''Read the catalogue a page at a time''"

definition SaveBook :: "shelf_schemas \<Rightarrow> (ISBN \<times> Book, Book) Endpoint" where
  "SaveBook sch =
     WithFailure
       (WithSummary (PUT ''/books/{isbn}'' (Zip (isbn_param sch) (Entity (BookShape sch))) (Returns 200 (BookShape sch)))
          ''Keep a book, replacing one of the same ISBN'')
       400 (''the ISBN in the path is not the book'' @ [CHR 0x27] @ ''s'')"

definition FindBook :: "shelf_schemas \<Rightarrow> (ISBN, Book) Endpoint" where
  "FindBook sch =
     WithFailure
       (WithSummary (GET ''/books/{isbn}'' (isbn_param sch) (Returns 200 (BookShape sch))) ''Find a book by its ISBN'')
       404 ''no book of that ISBN is kept''"

definition RemoveBook :: "shelf_schemas \<Rightarrow> (ISBN, unit) Endpoint" where
  "RemoveBook sch =
     WithFailure
       (WithSummary (DELETE ''/books/{isbn}'' (isbn_param sch) (ReturnsNothing 204)) ''Remove a book'')
       404 ''no book of that ISBN is kept''"

section \<open>Handlers and the surface\<close>

definition list_books :: "'f sql_faults \<Rightarrow> ('w, 'f, 'c) repository \<Rightarrow> CatalogueQuery \<Rightarrow> ('w, BookPage) apiEffect" where
  "list_books faults repo query w =
     continue (asAPIEffect faults (Catalogue_Page repo (pageQuery repo query)) w)
       (\<lambda>page w1. (w1, Done \<lparr>page_Books = page_Books page, page_Next = page_Next page, page_Previous = page_Previous page\<rparr>))"

definition save_book :: "'f sql_faults \<Rightarrow> ('w, 'f, 'c) repository \<Rightarrow> ISBN \<times> Book \<Rightarrow> ('w, Book) apiEffect" where
  "save_book faults repo request w =
     (if fst request \<noteq> isbn_of (snd request)
      then (w, Failed \<lparr>api_Kind = Refused, api_Err = Some (Reason (''the ISBN in the path is not the book'' @ [CHR 0x27] @ ''s''))\<rparr>)
      else continue (asAPIEffect faults (Books_Save repo (snd request)) w) (\<lambda>_ w1. (w1, Done (snd request))))"

definition find_book :: "'f sql_faults \<Rightarrow> ('w, 'f, 'c) repository \<Rightarrow> ISBN \<Rightarrow> ('w, Book) apiEffect" where
  "find_book faults repo isbn = asAPIEffect faults (Books_Find repo isbn)"

definition remove_book :: "'f sql_faults \<Rightarrow> ('w, 'f, 'c) repository \<Rightarrow> ISBN \<Rightarrow> ('w, unit) apiEffect" where
  "remove_book faults repo isbn w =
     continue (asAPIEffect faults (Books_Delete repo isbn) w)
       (\<lambda>affected w1. if affected = 0 then (w1, Failed \<lparr>api_Kind = NotFound, api_Err = None\<rparr>) else (w1, Done ()))"

definition shelf_routes ::
  "'f sql_faults \<Rightarrow> ('w, 'f, 'c) repository \<Rightarrow> shelf_schemas \<Rightarrow> (('w, Response) apiEffect Handler, unit) Route list" where
  "shelf_routes faults repo sch =
     [Handle direct_ops (ListBooks sch) (Some (list_books faults repo)),
      Handle direct_ops (SaveBook sch) (Some (save_book faults repo)),
      Handle direct_ops (FindBook sch) (Some (find_book faults repo)),
      Handle direct_ops (RemoveBook sch) (Some (remove_book faults repo))]"

definition Surface ::
  "(Node \<Rightarrow> Strategy option \<Rightarrow> Node) \<Rightarrow> Strategy \<Rightarrow> 'f sql_faults \<Rightarrow> ('w, 'f, 'c) repository \<Rightarrow> shelf_schemas \<Rightarrow>
   (error, (('w, Response) apiEffect Handler, unit) Routes) result" where
  "Surface Spell CamelCase faults repo sch =
     bind_result (NewRoutes (shelf_routes faults repo sch)) (\<lambda>routes. Inr (WithNaming Spell routes (Some CamelCase)))"

section \<open>Endpoints are usable\<close>

definition describes :: "shelf_schemas \<Rightarrow> bool" where
  "describes sch \<longleftrightarrow>
     schema_Validate (ISBNSchema sch) = None \<and> schema_Validate (BookShape sch) = None \<and>
     schema_Validate (BookPageShape sch) = None \<and> schema_Validate (TextSchema sch) = None \<and>
     schema_Validate (PositiveSchema sch) = None"

lemma shelf_patterns:
  "wf_segments [literal ''books'']" "renderPattern [literal ''books''] = ''/books''"
  "wf_segments [literal ''books'', capturing ''isbn'']" "renderPattern [literal ''books'', capturing ''isbn''] = ''/books/{isbn}''"
  by code_simp+

lemmas shelf_declared = GET_def PUT_def DELETE_def ListBooks_def SaveBook_def FindBook_def RemoveBook_def

lemma shelf_parts [simp]:
  "segments (ListBooks sch) = [literal ''books'']" "end_method (ListBooks sch) = ''GET''"
  "segments (SaveBook sch) = [literal ''books'', capturing ''isbn'']" "end_method (SaveBook sch) = ''PUT''"
  "segments (FindBook sch) = [literal ''books'', capturing ''isbn'']" "end_method (FindBook sch) = ''GET''"
  "segments (RemoveBook sch) = [literal ''books'', capturing ''isbn'']" "end_method (RemoveBook sch) = ''DELETE''"
  "end_input (SaveBook sch) = Zip (isbn_param sch) (Entity (BookShape sch))"
  using Declare_of_pattern(1) [OF shelf_patterns(1,2)] Declare_of_pattern(1) [OF shelf_patterns(3,4)]
  by (simp_all add: shelf_declared)

lemma isbn_param_declares:
  assumes "describes sch"
  shows "ValidateCodec (isbn_param sch) = None" and "entity (isbn_param sch) = None"
    and "map parameter_key (parameters (isbn_param sch)) = [''path isbn'']"
    and "\<forall>p \<in> set (parameters (isbn_param sch)). param_Name p = ''isbn''"
proof -
  have "parameterFault ''isbn'' (ISBNSchema sch) = None"
    using assms by (simp add: parameterFault_def TrimSpace_visible describes_def)
  then show "ValidateCodec (isbn_param sch) = None" "entity (isbn_param sch) = None"
    "map parameter_key (parameters (isbn_param sch)) = [''path isbn'']"
    "\<forall>p \<in> set (parameters (isbn_param sch)). param_Name p = ''isbn''"
    by (simp_all add: isbn_param_def WithDescription_def PathParam_def requiredParameter_def Let_def ValidateCodec_def
        parameter_key_def InPath_def)
qed

lemma page_declares:
  "entity (PageParams lib txt positive sorts) = None"
  "map parameter_key (parameters (PageParams lib txt positive sorts)) =
     [''query sort'', ''query after'', ''query before'', ''query page'', ''query size'']"
  "\<forall>p \<in> set (parameters (PageParams lib txt positive sorts)). In p = InQuery"
  by (simp_all add: PageParams_def Struct_declares page_fields_def FieldOf_def
      WithDescription_declares(1) [OF OptionalQueryParam_declares(1)] WithDescription_declares(2) OptionalQueryParam_declares
      parameter_key_def InQuery_def)

lemma catalogueQuery_usable:
  assumes "describes sch"
  shows "ValidateCodec (catalogueQuery sch) = None" and "\<forall>p \<in> set (parameters (catalogueQuery sch)). In p = InQuery"
proof -
  have s: "schema_Validate (TextSchema sch) = None" "schema_Validate (PositiveSchema sch) = None"
    using assms by (simp_all add: describes_def)
  have f: "parameterFault ''q'' (TextSchema sch) = None" "parameterFault ''title'' (TextSchema sch) = None"
    using s by (simp_all add: parameterFault_def TrimSpace_visible)
  note described = WithDescription_valid [OF OptionalQueryParam_declares(1)]
    WithDescription_declares(1) [OF OptionalQueryParam_declares(1)] WithDescription_declares(2)
    OptionalQueryParam_declares optional_valid f
  show "ValidateCodec (catalogueQuery sch) = None"
    using page_valid [OF s] page_declares(2) [of "shelf_library sch" "TextSchema sch" "PositiveSchema sch" "[''title'', ''recent'']"]
    by (simp add: catalogueQuery_def Zip_valid page_declares(1) described) (simp add: parameter_key_def InQuery_def)
  show "\<forall>p \<in> set (parameters (catalogueQuery sch)). In p = InQuery"
    using page_declares(3) by (auto simp: catalogueQuery_def described)
qed

lemma save_codec_usable:
  assumes "describes sch"
  shows "ValidateCodec (Zip (isbn_param sch) (Entity (BookShape sch))) = None"
    and "parameters (Zip (isbn_param sch) (Entity (BookShape sch))) = parameters (isbn_param sch)"
proof -
  have "ValidateCodec (Entity (BookShape sch)) = None" "parameters (Entity (BookShape sch)) = []"
    using assms by (simp_all add: Entity_def ValidateCodec_def Let_def describes_def)
  then show "ValidateCodec (Zip (isbn_param sch) (Entity (BookShape sch))) = None"
    "parameters (Zip (isbn_param sch) (Entity (BookShape sch))) = parameters (isbn_param sch)"
    using isbn_param_declares [OF assms] by (simp_all add: Zip_valid)
qed

lemma shelf_valid:
  assumes "describes sch"
  shows "ValidateEndpoint (ListBooks sch) = None" "ValidateEndpoint (SaveBook sch) = None"
    "ValidateEndpoint (FindBook sch) = None" "ValidateEndpoint (RemoveBook sch) = None"
proof -
  have s: "schema_Validate (BookShape sch) = None" "schema_Validate (BookPageShape sch) = None"
    using assms by (simp_all add: describes_def)
  have q: "InQuery \<noteq> InPath" by (simp add: InQuery_def InPath_def)
  show "ValidateEndpoint (ListBooks sch) = None"
    unfolding shelf_declared described_endpoints
    by (rule Declare_of_pattern(2) [OF shelf_patterns(1,2)])
      (use catalogueQuery_usable [OF assms] q in \<open>simp_all add: Returns_usable s\<close>)
  show "ValidateEndpoint (SaveBook sch) = None"
    unfolding shelf_declared described_endpoints
    by (rule Declare_of_pattern(2) [OF shelf_patterns(3,4)])
      (use save_codec_usable [OF assms] isbn_param_declares [OF assms] in \<open>simp_all add: Returns_usable s capture_names_def del: Zip_declares\<close>)
  show "ValidateEndpoint (FindBook sch) = None"
    unfolding shelf_declared described_endpoints
    by (rule Declare_of_pattern(2) [OF shelf_patterns(3,4)])
      (use isbn_param_declares [OF assms] in \<open>simp_all add: Returns_usable s capture_names_def\<close>)
  show "ValidateEndpoint (RemoveBook sch) = None"
    unfolding shelf_declared described_endpoints
    by (rule Declare_of_pattern(2) [OF shelf_patterns(3,4)])
      (use isbn_param_declares [OF assms] in \<open>simp_all add: ReturnsNothing_def capture_names_def\<close>)
qed

lemma routes_assemble: "describes sch \<Longrightarrow> \<exists>surface. NewRoutes (shelf_routes faults repo sch) = Inr surface"
proof -
  assume d: "describes sch"
  have "no_clash (shelf_routes faults repo sch)"
    by (simp add: shelf_routes_def clashing_def Handle_def endpoint_Declaration_def)
  moreover have "\<forall>r \<in> set (shelf_routes faults repo sch). usable r"
    using shelf_valid [OF d] by (simp add: shelf_routes_def usable_def Handle_def firstRouteFault_def)
  ultimately show ?thesis
    using NewRoutesWithRejection_ok [of "Some rejectRequest" "shelf_routes faults repo sch"]
    by (auto simp: NewRoutes_def shelf_routes_def)
qed

section \<open>Every book kept is a book\<close>

text \<open>A book is decoded through its constructor, and the database holds nothing it was not given to save.\<close>

definition decodes_books :: "Book Schema \<Rightarrow> bool" where
  "decodes_books shape \<longleftrightarrow>
     (\<forall>naming document book. schema_DecodeJSONFrom shape naming document = Inr book \<longrightarrow>
        (\<exists>isbn title author pages year edition mark. NewBook isbn title author pages year edition mark = Inr book))"

text \<open>What the schema module's \<open>Object\<close> is given of a book: how to make one of its seven members' values.\<close>

record book_values =
  of_ISBN :: ISBN
  of_Title :: string
  of_Author :: string
  of_Pages :: int
  of_Year :: int
  of_Edition :: Edition
  of_ShelfMark :: string

definition construct_book :: "book_values \<Rightarrow> (error, Book) result" where
  "construct_book values =
     NewBook (of_ISBN values) (of_Title values) (of_Author values) (of_Pages values) (of_Year values) (of_Edition values) (of_ShelfMark values)"

definition BookSchema :: "((book_values \<Rightarrow> (error, Book) result) \<Rightarrow> Book Schema) \<Rightarrow> Book Schema" where
  "BookSchema Object = Object construct_book"

definition constructs :: "((book_values \<Rightarrow> (error, 'a) result) \<Rightarrow> 'a Schema) \<Rightarrow> bool" where
  "constructs Object \<longleftrightarrow>
     (\<forall>construct naming document a. schema_DecodeJSONFrom (Object construct) naming document = Inr a \<longrightarrow> (\<exists>values. construct values = Inr a))"

lemma BookSchema_decodes: "constructs Object \<Longrightarrow> decodes_books (BookSchema Object)"
  unfolding constructs_def decodes_books_def BookSchema_def construct_book_def by blast

definition holds_what_is_saved :: "('w, 'f, 'c) repository \<Rightarrow> ('w \<Rightarrow> Book set) \<Rightarrow> bool" where
  "holds_what_is_saved repo kept \<longleftrightarrow>
     (\<forall>query w. kept (fst (Catalogue_Page repo query w)) \<subseteq> kept w) \<and>
     (\<forall>book w. kept (fst (Books_Save repo book w)) \<subseteq> insert book (kept w)) \<and>
     (\<forall>isbn w. kept (fst (Books_Find repo isbn w)) \<subseteq> kept w) \<and>
     (\<forall>isbn w. kept (fst (Books_Delete repo isbn w)) \<subseteq> kept w)"

abbreviation respond :: "Response \<Rightarrow> ('w, Response) apiEffect" where
  "respond response w \<equiv> (w, Done response)"

lemma made_holds: "NewBook isbn title author pages year edition mark = Inr book \<Longrightarrow> checkDigitHolds (isbn_of book)"
  by (auto simp: NewBook_def split: if_splits)

lemma asAPIEffect_state: "fst (asAPIEffect faults reply w) = fst (reply w)"
  by (auto simp: asAPIEffect_def split: prod.split exit.split)

lemma handler_states:
  "fst (list_books faults repo query w) = fst (Catalogue_Page repo (pageQuery repo query) w)"
  "fst (save_book faults repo request w) = (if fst request = isbn_of (snd request) then fst (Books_Save repo (snd request) w) else w)"
  "fst (find_book faults repo isbn w) = fst (Books_Find repo isbn w)"
  "fst (remove_book faults repo isbn w) = fst (Books_Delete repo isbn w)"
proof -
  have kept: "fst (continue r k) = fst r" if "\<And>x w. fst (k x w) = w" for r :: "'x \<times> (api_fault, 'y) exit" and k :: "'y \<Rightarrow> 'x \<Rightarrow> 'x \<times> (api_fault, 'z) exit"
    using that by (cases r; cases "snd r") auto
  show "fst (list_books faults repo query w) = fst (Catalogue_Page repo (pageQuery repo query) w)"
    by (simp add: list_books_def kept asAPIEffect_state)
  show "fst (save_book faults repo request w) = (if fst request = isbn_of (snd request) then fst (Books_Save repo (snd request) w) else w)"
    by (simp add: save_book_def kept asAPIEffect_state)
  show "fst (find_book faults repo isbn w) = fst (Books_Find repo isbn w)" by (simp add: find_book_def asAPIEffect_state)
  show "fst (remove_book faults repo isbn w) = fst (Books_Delete repo isbn w)"
    by (simp add: remove_book_def kept asAPIEffect_state)
qed

lemma saved_is_decoded:
  assumes "describes sch" and "decodes_books (BookShape sch)"
    and "Decode (end_input (SaveBook sch)) request = Inr (isbn, book)"
  shows "checkDigitHolds (isbn_of book)"
proof -
  have "Decode (Entity (BookShape sch)) request = Inr book"
    using assms(3) Decode_Zip [OF save_codec_usable(1) [OF assms(1)], of request] by (auto simp: go_results)
  then obtain body naming where "schema_DecodeJSONFrom (BookShape sch) naming body = Inr book"
    using assms(1) by (auto simp: Entity_def Decode_def ValidateCodec_def describes_def Let_def split: option.splits sum.splits)
  with assms(2) show ?thesis using made_holds unfolding decodes_books_def by blast
qed

abbreviation shelf_ops ::
  "(('w, Response) apiEffect, ('w, 'o) apiEffect, ('w, 'i decodeResult) apiEffect, unit, 'i, 'o) effect_ops" where
  "shelf_ops \<equiv> direct_ops"

lemma surface_handles:
  assumes "Surface Spell camel faults repo sch = Inr surface"
  obtains (list) arrived where "Routes_Handler respond surface request =
      plainHandler shelf_ops (ListBooks sch) (list_books faults repo) rejectRequest (Some camel) arrived"
    | (save) arrived where "Routes_Handler respond surface request =
      plainHandler shelf_ops (SaveBook sch) (save_book faults repo) rejectRequest (Some camel) arrived"
    | (find) arrived where "Routes_Handler respond surface request =
      plainHandler shelf_ops (FindBook sch) (find_book faults repo) rejectRequest (Some camel) arrived"
    | (remove) arrived where "Routes_Handler respond surface request =
      plainHandler shelf_ops (RemoveBook sch) (remove_book faults repo) rejectRequest (Some camel) arrived"
    | (none) response where "Routes_Handler respond surface request = respond response"
proof -
  obtain plain where plain: "NewRoutesWithRejection (Some rejectRequest) (shelf_routes faults repo sch) = Inr plain"
    "surface = WithNaming Spell plain (Some camel)"
    using assms(1) by (auto simp: Surface_def NewRoutes_def go_results)
  have usable: "\<And>r. r \<in> set (shelf_routes faults repo sch) \<Longrightarrow> usable r"
    using plain(1) NewRoutesWithRejection_ok [of "Some rejectRequest" "shelf_routes faults repo sch"] by auto
  show thesis
  proof (rule spelled_dispatch_cases [OF plain(1), of respond Spell "Some camel" request])
    fix r arrived
    assume r: "r \<in> set (shelf_routes faults repo sch)"
      "Routes_Handler respond (WithNaming Spell plain (Some camel)) request = route_handler rejectRequest (withNaming Spell (Some camel) r) arrived"
    note dispatched = r(2) [folded plain(2)] and usable = usable [OF r(1)]
    from r(1) consider "r = Handle direct_ops (ListBooks sch) (Some (list_books faults repo))"
      | "r = Handle direct_ops (SaveBook sch) (Some (save_book faults repo))"
      | "r = Handle direct_ops (FindBook sch) (Some (find_book faults repo))"
      | "r = Handle direct_ops (RemoveBook sch) (Some (remove_book faults repo))" by (auto simp: shelf_routes_def)
    then show thesis
    proof cases
      case 1
      from list [OF dispatched [unfolded 1 spelled_route_handler(1) [OF usable [unfolded 1]]]] show ?thesis .
    next
      case 2
      from save [OF dispatched [unfolded 2 spelled_route_handler(1) [OF usable [unfolded 2]]]] show ?thesis .
    next
      case 3
      from find [OF dispatched [unfolded 3 spelled_route_handler(1) [OF usable [unfolded 3]]]] show ?thesis .
    next
      case 4
      from remove [OF dispatched [unfolded 4 spelled_route_handler(1) [OF usable [unfolded 4]]]] show ?thesis .
    qed
  qed (rule none, simp add: plain(2))
qed

lemma request_keeps_books:
  fixes kept :: "'w \<Rightarrow> Book set" and w :: 'w
  assumes "Surface Spell camel faults repo sch = Inr surface" and "describes sch" and "decodes_books (BookShape sch)"
    and "holds_what_is_saved repo kept" and "\<forall>book \<in> kept w. checkDigitHolds (isbn_of book)"
  shows "\<forall>book \<in> kept (fst (Routes_Handler respond surface request w)). checkDigitHolds (isbn_of book)"
proof -
  have held: "kept (fst (Catalogue_Page repo query w)) \<subseteq> kept w" "kept (fst (Books_Save repo book w)) \<subseteq> insert book (kept w)"
    "kept (fst (Books_Find repo isbn w)) \<subseteq> kept w" "kept (fst (Books_Delete repo isbn w)) \<subseteq> kept w" for query book isbn
    using assms(4) by (simp_all add: holds_what_is_saved_def)
  show ?thesis
  proof (rule surface_handles [OF assms(1), of request], goal_cases)
    case (1 arrived)
    with direct_handler_world [of shelf_ops, OF refl, of "ListBooks sch" "list_books faults repo" rejectRequest "Some camel" arrived w]
    show ?thesis using assms(5) held(1) [THEN subsetD] by (auto simp: handler_states)
  next
    case (2 arrived)
    have "\<forall>book \<in> kept (fst (save_book faults repo v w)). checkDigitHolds (isbn_of book)"
      if "Decode (end_input (SaveBook sch)) (request_withNaming arrived (Some camel)) = Inr v" for v
      using saved_is_decoded [OF assms(2,3), of _ "fst v" "snd v"] that assms(5) held(2) [of "snd v"]
      by (auto simp: handler_states)
    with 2 show ?thesis using assms(5)
      direct_handler_world [of shelf_ops, OF refl, of "SaveBook sch" "save_book faults repo" rejectRequest "Some camel" arrived w]
      by auto
  next
    case (3 arrived)
    with direct_handler_world [of shelf_ops, OF refl, of "FindBook sch" "find_book faults repo" rejectRequest "Some camel" arrived w]
    show ?thesis using assms(5) held(3) [THEN subsetD] by (auto simp: handler_states)
  next
    case (4 arrived)
    with direct_handler_world [of shelf_ops, OF refl, of "RemoveBook sch" "remove_book faults repo" rejectRequest "Some camel" arrived w]
    show ?thesis using assms(5) held(4) [THEN subsetD] by (auto simp: handler_states)
  next
    case (5 response)
    with assms(5) show ?thesis by simp
  qed
qed

text \<open>C16: Every book the catalogue keeps is a book. Whatever is asked of its surface, in whatever order, a
database that held only books whose check digit holds, and that holds nothing it was not given to save,
holds only such books after: a document is decoded through the constructor, and nothing else is saved.\<close>

theorem every_kept_book_is_a_book:
  assumes "Surface Spell camel faults repo sch = Inr surface" and "describes sch" and "decodes_books (BookShape sch)"
    and "holds_what_is_saved repo kept" and "\<forall>book \<in> kept w. checkDigitHolds (isbn_of book)"
  shows "\<forall>book \<in> kept (after_requests (Routes_Handler respond surface) requests w). checkDigitHolds (isbn_of book)"
  by (rule after_requests_keep) (fact request_keeps_books [OF assms(1-4)], fact assms(5))

section \<open>Every failure is answered\<close>

text \<open>What a failure answers with: nothing but a status, or why the request is refused.\<close>

definition says_no_more :: "'f sql_faults \<Rightarrow> Response \<Rightarrow> bool" where
  "says_no_more faults response \<longleftrightarrow>
     response = Empty 404 \<or> response = Empty 500 \<or>
     (\<exists>f. (is_ErrPageQuery faults f \<or> is_ErrPageCursor faults f) \<and> response = Text 400 (Error (as_error faults f)))"

lemma asAPIEffect_failed:
  assumes "asAPIEffect faults reply w = (w', Failed fault)"
  shows "\<exists>response. StatusFor fault = Inr response \<and> says_no_more faults response"
  using assms
  by (auto simp: asAPIEffect_def api_fault_of_def StatusFor_def says_no_more_def NotFound_def Refused_def api_Unavailable_def
      split: prod.splits exit.splits if_splits)

lemma continue_failed:
  "continue r k = (w', Failed fault) \<Longrightarrow> r = (w', Failed fault) \<or> (\<exists>w v. r = (w, Done v) \<and> k v w = (w', Failed fault))"
  by (cases r; cases "snd r") auto

text \<open>C38: Every failure of the catalogue is answered, and says no more than it may. When a request ends in a
fault, the mapping of faults has a response for it -- reading its text never panics -- and the response
is an empty 404 or 500, the reason a page or a cursor was refused, or the mismatch of a saved book's
number with its path, for which the database was not touched.\<close>

theorem failures_are_answered:
  assumes "Surface Spell camel faults repo sch = Inr surface"
    and "Routes_Handler respond surface request w = (w', Failed fault)"
  shows "\<exists>response. StatusFor fault = Inr response \<and>
    (says_no_more faults response \<or>
     response = Text 400 (''the ISBN in the path is not the book'' @ [CHR 0x27] @ ''s'') \<and> w' = w)"
proof (rule surface_handles [OF assms(1), of request], goal_cases)
  case (1 arrived)
  with assms(2) direct_handler_failure [of shelf_ops, OF refl, of "ListBooks sch" "list_books faults repo"]
  obtain v where "list_books faults repo v w = (w', Failed fault)" by metis
  then show ?thesis by (auto simp: list_books_def dest!: continue_failed asAPIEffect_failed)
next
  case (2 arrived)
  with assms(2) direct_handler_failure [of shelf_ops, OF refl, of "SaveBook sch" "save_book faults repo"]
  obtain v where "save_book faults repo v w = (w', Failed fault)" by metis
  then show ?thesis
    by (auto simp: save_book_def StatusFor_def NotFound_def Refused_def split: if_splits dest!: continue_failed asAPIEffect_failed)
next
  case (3 arrived)
  with assms(2) direct_handler_failure [of shelf_ops, OF refl, of "FindBook sch" "find_book faults repo"]
  obtain v where "find_book faults repo v w = (w', Failed fault)" by metis
  then show ?thesis by (auto simp: find_book_def dest: asAPIEffect_failed)
next
  case (4 arrived)
  with assms(2) direct_handler_failure [of shelf_ops, OF refl, of "RemoveBook sch" "remove_book faults repo"]
  obtain v where "remove_book faults repo v w = (w', Failed fault)" by metis
  then show ?thesis
    by (auto simp: remove_book_def says_no_more_def StatusFor_def NotFound_def split: if_splits dest!: continue_failed asAPIEffect_failed)
next
  case (5 response)
  with assms(2) show ?thesis by simp
qed

section \<open>A catalogue in memory\<close>

text \<open>Books in a list, decoded from their numbers: an instance of the parameters.\<close>

definition numbered_values :: "ISBN \<Rightarrow> book_values" where
  "numbered_values isbn =
     \<lparr>of_ISBN = isbn, of_Title = ''t'', of_Author = ''a'', of_Pages = 1, of_Year = 2000,
      of_Edition = \<lparr>Format = ''ebook'', Language = ''en''\<rparr>, of_ShelfMark = []\<rparr>"

definition numbered_book :: "ISBN \<Rightarrow> (error, Book) result" where
  "numbered_book isbn = construct_book (numbered_values isbn)"

definition numbered_object :: "(book_values \<Rightarrow> (error, Book) result) \<Rightarrow> Book Schema" where
  "numbered_object construct =
     \<lparr>Structure = None, schema_Validate = None, schema_Decode = (\<lambda>_. Inl (Reason [])),
      schema_DecodeJSONFrom = (\<lambda>_ document. construct (numbered_values document)), schema_DecodeJSON = (\<lambda>_ document. construct (numbered_values document)),
      schema_EncodeJSON = (\<lambda>_ book. Inr (isbn_of book))\<rparr>"

definition numbered_shape :: "Book Schema" where
  "numbered_shape = BookSchema numbered_object"

lemma numbered_shape_parts [simp]:
  "Structure numbered_shape = None" "schema_Validate numbered_shape = None"
  "schema_DecodeJSONFrom numbered_shape = (\<lambda>_ document. construct_book (numbered_values document))"
  "schema_DecodeJSON numbered_shape = (\<lambda>_ document. construct_book (numbered_values document))"
  "schema_EncodeJSON numbered_shape = (\<lambda>_ book. Inr (isbn_of book))"
  by (simp_all add: numbered_shape_def BookSchema_def numbered_object_def)

definition undecoded :: "('a \<Rightarrow> string) \<Rightarrow> 'a Schema" where
  "undecoded shown =
     \<lparr>Structure = None, schema_Validate = None, schema_Decode = (\<lambda>_. Inl (Reason [])),
      schema_DecodeJSONFrom = (\<lambda>_ _. Inl (Reason [])), schema_DecodeJSON = (\<lambda>_ _. Inl (Reason [])),
      schema_EncodeJSON = (\<lambda>_ v. Inr (shown v))\<rparr>"

definition memory_schemas :: shelf_schemas where
  "memory_schemas =
     \<lparr>ISBNSchema = verbatim, BookShape = numbered_shape,
      BookPageShape = undecoded (\<lambda>page. join '','' (map isbn_of (page_Books page))), TextSchema = verbatim,
      PositiveSchema = undecoded (\<lambda>_. ''1''), shelf_library = plain_library\<rparr>"

datatype memory_fault = no_rows | bad_sort

definition memory :: "(Book list, memory_fault, string) repository" where
  "memory =
     \<lparr>Catalogue_Page = (\<lambda>query w.
        (w, if by_Sort query = [] then Done \<lparr>page_Books = w, page_Next = [], page_Previous = []\<rparr>
            else Failed bad_sort)),
      Catalogue_Match = (\<lambda>_ wanted. wanted), sql_And = (@),
      Books_Save = (\<lambda>book w. (book # filter (\<lambda>b. isbn_of b \<noteq> isbn_of book) w, Done ())),
      Books_Find = (\<lambda>isbn w. (w, case find (\<lambda>b. isbn_of b = isbn) w of None \<Rightarrow> Failed no_rows | Some b \<Rightarrow> Done b)),
      Books_Delete = (\<lambda>isbn w.
        (filter (\<lambda>b. isbn_of b \<noteq> isbn) w, Done (int (length (filter (\<lambda>b. isbn_of b = isbn) w)))))\<rparr>"

definition memory_faults :: "memory_fault sql_faults" where
  "memory_faults =
     \<lparr>is_ErrNoRows = (\<lambda>f. f = no_rows), is_ErrPageQuery = (\<lambda>f. f = bad_sort), is_ErrPageCursor = (\<lambda>_. False),
      as_error = (\<lambda>f. Reason (if f = no_rows then ''no rows'' else ''no such sort''))\<rparr>"

lemma memory_described: "describes memory_schemas"
  by (simp add: describes_def memory_schemas_def undecoded_def verbatim_def)

lemma memory_decodes: "decodes_books (BookShape memory_schemas)"
proof -
  have "constructs numbered_object" unfolding constructs_def by (auto simp: numbered_object_def)
  then show ?thesis by (simp add: memory_schemas_def numbered_shape_def BookSchema_decodes)
qed

lemma memory_holds: "holds_what_is_saved memory set"
  by (auto simp: holds_what_is_saved_def memory_def)

lemma memory_surface:
  obtains surface where "Surface (\<lambda>node _. node) camel memory_faults memory memory_schemas = Inr surface"
  using routes_assemble [OF memory_described, of memory_faults memory] by (auto simp: Surface_def go_results)

theorem every_kept_book_is_a_book_witness:
  "\<forall>camel. \<exists>surface book. Surface (\<lambda>node _. node) camel memory_faults memory memory_schemas = Inr surface \<and>
     numbered_book ''9780306406157'' = Inr book \<and>
     (\<forall>kept \<in> set (after_requests (Routes_Handler respond surface) [RequestFrom \<lparr>req_Method = ''PUT'', URL_Path = ''/books/9780306406157'',
        URL_Query = Map.empty, req_Header = Map.empty, req_Body = Some ''9780306406157''\<rparr>] [book]).
        checkDigitHolds (isbn_of kept))"
proof
  fix camel
  obtain surface where surface: "Surface (\<lambda>node _. node) camel memory_faults memory memory_schemas = Inr surface"
    by (rule memory_surface)
  have "checkDigitHolds ''9780306406157''" by code_simp
  then obtain book where book: "numbered_book ''9780306406157'' = Inr book" by (auto simp: numbered_book_def construct_book_def numbered_values_def NewBook_def)
  have "\<forall>b \<in> set [book]. checkDigitHolds (isbn_of b)" using book made_holds unfolding numbered_book_def construct_book_def by auto
  from every_kept_book_is_a_book [OF surface memory_described memory_decodes memory_holds this] surface book
  show "\<exists>surface book. Surface (\<lambda>node _. node) camel memory_faults memory memory_schemas = Inr surface \<and>
     numbered_book ''9780306406157'' = Inr book \<and>
     (\<forall>kept \<in> set (after_requests (Routes_Handler respond surface) [RequestFrom \<lparr>req_Method = ''PUT'', URL_Path = ''/books/9780306406157'',
        URL_Query = Map.empty, req_Header = Map.empty, req_Body = Some ''9780306406157''\<rparr>] [book]).
        checkDigitHolds (isbn_of kept))" by blast
qed

text \<open>What a run fails with, when it fails.\<close>

definition failed_with :: "'w \<times> (api_fault, 'a) exit \<Rightarrow> api_fault option" where
  "failed_with r = (case snd r of Failed fault \<Rightarrow> Some fault | _ \<Rightarrow> None)"

definition asked_memory :: "Strategy \<Rightarrow> string \<Rightarrow> string option \<Rightarrow> Book list \<times> (api_fault, Response) exit" where
  "asked_memory camel verb body =
     (case Surface (\<lambda>node _. node) camel memory_faults memory memory_schemas of
        Inl err \<Rightarrow> ([], Died err)
      | Inr surface \<Rightarrow> Routes_Handler respond surface (RequestFrom \<lparr>req_Method = verb, URL_Path = ''/books/1'',
          URL_Query = Map.empty, req_Header = Map.empty, req_Body = body\<rparr>) [])"

lemma memory_refuses:
  "map_option api_Kind (failed_with (asked_memory camel ''GET'' None)) = Some NotFound"
  "map_option api_Kind (failed_with (asked_memory camel ''PUT'' (Some ''9780306406157''))) = Some Refused"
  by code_simp+

theorem failures_are_answered_witness:
  "\<forall>camel. (\<exists>w fault response. asked_memory camel ''GET'' None = (w, Failed fault) \<and> StatusFor fault = Inr response) \<and>
     (\<exists>w fault response. asked_memory camel ''PUT'' (Some ''9780306406157'') = (w, Failed fault) \<and> StatusFor fault = Inr response)"
proof (intro allI)
  fix camel
  obtain surface where surface: "Surface (\<lambda>node _. node) camel memory_faults memory memory_schemas = Inr surface"
    by (rule memory_surface)
  have failing: "\<exists>w fault. asked_memory camel verb body = (w, Failed fault)"
    if "map_option api_Kind (failed_with (asked_memory camel verb body)) = Some kind" for verb body kind
    using that by (cases "asked_memory camel verb body") (auto simp: failed_with_def split: exit.splits)
  have answered: "\<exists>response. StatusFor fault = Inr response" if "asked_memory camel verb body = (w, Failed fault)" for verb body w fault
    using failures_are_answered [OF surface that [unfolded asked_memory_def surface sum.case]] by blast
  show "(\<exists>w fault response. asked_memory camel ''GET'' None = (w, Failed fault) \<and> StatusFor fault = Inr response) \<and>
     (\<exists>w fault response. asked_memory camel ''PUT'' (Some ''9780306406157'') = (w, Failed fault) \<and> StatusFor fault = Inr response)"
    using failing [OF memory_refuses(1)] failing [OF memory_refuses(2)] answered by blast
qed

end
