(* ===== verification/Shelf_Serve.thy ===== *)
theory Shelf_Serve
  imports Shelf_Api Web_Serve Effects
begin

text \<open>
  The shelf example as a program (\<open>examples/shelf/store/store.go\<close>, \<open>examples/shelf/serve/serve.go\<close>,
  \<open>examples/shelf/cmd/shelf/main.go\<close>): the statements that make its tables, which database it is given,
  and serving it over one session.

  The schema and database modules are records of functions: what \<open>ddl\<close> makes of a structure, of the
  indexes and of the searches, and what connecting, executing and closing do to the world. A cause is a
  typed failure or has a text only, which is how an interruption or a defect ends the program. The
  accept loop runs in the argument \<open>serving\<close>; its steps are those of \<open>Web_Serve\<close>.
\<close>

section \<open>The statements\<close>

record ('d, 'n, 'i, 'q) ddl_lib =
  ddl_Create :: "'d \<Rightarrow> 'n \<Rightarrow> (error, string list) result"
  CreateIndexes :: "'d \<Rightarrow> string \<Rightarrow> 'i list \<Rightarrow> (error, string list) result"
  CreateSearches :: "'d \<Rightarrow> string \<Rightarrow> 'q list \<Rightarrow> (error, string list) result"

text \<open>What the repository \<open>Books\<close> and the listing \<open>Catalogue\<close> say of themselves.\<close>

record ('d, 'n, 'i, 'q) kept_books =
  TableName :: string
  books_Structure :: 'n
  Indexes :: "'i list"
  Searches :: "'q list"
  Check :: "'d \<Rightarrow> error option"

definition CreateStatements ::
  "('d, 'n, 'i, 'q) ddl_lib \<Rightarrow> ('d, 'n, 'i, 'q) kept_books \<Rightarrow> 'd \<Rightarrow> (error, string list) result" where
  "CreateStatements ddl books dialect =
     (let table = TableName books in
      bind_result (ddl_Create ddl dialect (books_Structure books)) (\<lambda>statements.
      bind_result (CreateIndexes ddl dialect table (Indexes books)) (\<lambda>indexes.
      bind_result (CreateSearches ddl dialect table (Searches books)) (\<lambda>searches.
        Inr ((statements @ indexes) @ searches)))))"

section \<open>Which database\<close>

record 'd Database =
  Dialect :: 'd
  Driver :: string
  database_Source :: string

text \<open>What the command reads from its environment: the address it listens at and the database.\<close>

definition shelf_address :: "(string \<Rightarrow> string) \<Rightarrow> string" where
  "shelf_address Getenv = (let address = Getenv ''SHELF_ADDRESS'' in if address = [] then '':8080'' else address)"

definition shelf_database :: "'d \<Rightarrow> 'd \<Rightarrow> (string \<Rightarrow> string) \<Rightarrow> 'd Database" where
  "shelf_database SQLite Postgres Getenv =
     (let database = \<lparr>Dialect = SQLite, Driver = ''sqlite'', database_Source = ''file:shelf.db?_pragma=foreign_keys(1)''\<rparr>;
          url = Getenv ''SHELF_POSTGRES_URL''
      in if url \<noteq> [] then \<lparr>Dialect = Postgres, Driver = ''pgx'', database_Source = url\<rparr> else database)"

section \<open>Serving\<close>

datatype 'f cause = Typed 'f | Untyped string

type_synonym ('w, 'f, 'a) run = "('w, 'f cause, 'a) fx"

definition map_error :: "('f \<Rightarrow> 'g) \<Rightarrow> ('w, 'f, 'a) run \<Rightarrow> ('w, 'g, 'a) run" where
  "map_error f m w = (case m w of (w', r) \<Rightarrow> (w', map_sum (map_cause f) (\<lambda>x. x) r))"

record ('w, 's, 'f, 'd) sql_lib =
  Connect :: "'d Database \<Rightarrow> ('w, 'f, 's) run"
  Execute :: "'s \<Rightarrow> string \<Rightarrow> ('w, 'f, unit) run"
  Disconnect :: "'s \<Rightarrow> 'w \<Rightarrow> 'w"

text \<open>A layer is connected when the program starts, and closed when it ends, however it ends.\<close>

definition with_session ::
  "('w, 's, 'f, 'd) sql_lib \<Rightarrow> ('f \<Rightarrow> error) \<Rightarrow> 'd Database \<Rightarrow> ('s \<Rightarrow> ('w, error, unit) run) \<Rightarrow> ('w, error, unit) run" where
  "with_session sql asError database program w =
     (case map_error asError (Connect sql database) w of
        (w1, Inl failed) \<Rightarrow> (w1, Inl failed)
      | (w1, Inr session) \<Rightarrow> (case program session w1 of (w2, r) \<Rightarrow> (Disconnect sql session w2, r)))"

definition creation ::
  "('w, 's, 'f, 'd) sql_lib \<Rightarrow> ('f \<Rightarrow> error) \<Rightarrow> 's \<Rightarrow> string list \<Rightarrow> ('w, error, unit list) run" where
  "creation sql asError session statements = map_error asError (for_each (Execute sql session) statements)"

text \<open>A handler's effect is given the session it runs against, which it does not change.\<close>

definition provided :: "'s \<Rightarrow> ('s \<times> 'w \<Rightarrow> ('s \<times> 'w) \<times> 'r) \<Rightarrow> 'w \<Rightarrow> 'w \<times> 'r" where
  "provided session fx w = (case fx (session, w) of (w', r) \<Rightarrow> (snd w', r))"

text \<open>The mapping of faults, and a response in place of its panic.\<close>

definition answers :: "Response \<Rightarrow> api_fault \<Rightarrow> Response" where
  "answers panicked fault = (case StatusFor fault of Inl err \<Rightarrow> panicked | Inr response \<Rightarrow> response)"

text \<open>What the loop is given and how it is awaited: the server, and the handler that answers a request.\<close>

type_synonym ('w, 'l, 'a) accepting = "('l, 'a) Server \<Rightarrow> (http_request \<Rightarrow> 'w \<Rightarrow> 'w \<times> writer) \<Rightarrow> ('w, Fault, unit) run"

definition serving_on ::
  "(string \<Rightarrow> (error, 'l) result) \<Rightarrow> ('l \<Rightarrow> 'a) \<Rightarrow> ('w, 'l, 'a) accepting \<Rightarrow> 'l \<Rightarrow>
   (http_request \<Rightarrow> 'w \<Rightarrow> 'w \<times> writer) \<Rightarrow> ('w, error, unit) run" where
  "serving_on net_Listen Addr loop listener handler =
     map_error FaultErr (serve_and_await net_Listen Addr Typed loop listener handler)"

text \<open>The module's own \<open>store.Catalogue\<close> and \<open>store.Books\<close>, the schemas and their naming.\<close>

record ('s, 'w, 'f, 'c) catalogue =
  cat_Spell :: "Node \<Rightarrow> Strategy option \<Rightarrow> Node"
  cat_CamelCase :: Strategy
  cat_faults :: "'f sql_faults"
  cat_repository :: "('s \<times> 'w, 'f, 'c) repository"
  cat_schemas :: shelf_schemas

definition cat_Surface :: "('s, 'w, 'f, 'c) catalogue \<Rightarrow> (error, (('s \<times> 'w, Response) apiEffect Handler, unit) Routes) result" where
  "cat_Surface cat = Surface (cat_Spell cat) (cat_CamelCase cat) (cat_faults cat) (cat_repository cat) (cat_schemas cat)"

definition serve_program ::
  "((api_fault, Response) exit, api_fault) cause_ops \<Rightarrow> Response \<Rightarrow> ('w, 's, 'f, 'd) sql_lib \<Rightarrow> ('f \<Rightarrow> error) \<Rightarrow> string list \<Rightarrow>
   ((http_request \<Rightarrow> 'w \<Rightarrow> 'w \<times> writer) \<Rightarrow> ('w, error, unit) run) \<Rightarrow>
   (('s \<times> 'w, Response) apiEffect Handler, unit) Routes \<Rightarrow> 's \<Rightarrow> ('w, error, unit) run" where
  "serve_program causes panicked sql asError statements serving_it surface session =
     (case NewAdapter causes True (Some (answers panicked)) of
        Inl err \<Rightarrow> (\<lambda>w. (w, Inl (Typed err)))
      | Inr boundary \<Rightarrow>
          flat_map (creation sql asError session statements) (\<lambda>_.
            serving_it (served_by causes (provided session) boundary (Routes_Handler respond surface))))"

definition shelf_Serve ::
  "(error, unit) result \<Rightarrow> ('d, 'n, 'i, 'q) ddl_lib \<Rightarrow> ('d, 'n, 'i, 'q) kept_books \<Rightarrow> ('s, 'w, 'f, 'c) catalogue \<Rightarrow>
   ((api_fault, Response) exit, api_fault) cause_ops \<Rightarrow> Response \<Rightarrow> ('w, 's, 'f, 'd) sql_lib \<Rightarrow>
   (string \<Rightarrow> (error, 'l) result) \<Rightarrow> ('l \<Rightarrow> 'a) \<Rightarrow> ('w, 'l, 'a) accepting \<Rightarrow>
   'l \<Rightarrow> 'd Database \<Rightarrow> 'w \<Rightarrow> 'w \<times> error option" where
  "shelf_Serve NewRuntime ddl books cat causes panicked sql net_Listen Addr loop listener database w =
     (case NewRuntime of
        Inl err \<Rightarrow> (w, Some err)
      | Inr _ \<Rightarrow>
     (case CreateStatements ddl books (Dialect database) of
        Inl err \<Rightarrow> (w, Some err)
      | Inr statements \<Rightarrow>
     (case Check books (Dialect database) of
        Some err \<Rightarrow> (w, Some err)
      | None \<Rightarrow>
     (case cat_Surface cat of
        Inl err \<Rightarrow> (w, Some err)
      | Inr surface \<Rightarrow>
          (let asError = as_error (cat_faults cat);
               program = serve_program causes panicked sql asError statements (serving_on net_Listen Addr loop listener) surface
           in case with_session sql asError database program w of
                (w', Inr _) \<Rightarrow> (w', None)
              | (w', Inl (Typed err)) \<Rightarrow> (w', Some err)
              | (w', Inl (Untyped shown)) \<Rightarrow> (w', Some (Reason shown)))))))"

section \<open>The tables come first\<close>

lemma for_each_stops:
  assumes "for_each f pre w = (w1, Inr outs)" and "f bad w1 = (w2, Inl fault)"
  shows "for_each f (pre @ bad # post) w = (w2, Inl fault)"
  using assms by (induction pre arbitrary: w outs) (auto split: prod.splits sum.splits)

lemma adapter_made: "\<exists>boundary. NewAdapter causes True (Some f) = Inr boundary"
  by (simp add: NewAdapter_def)

text \<open>What a program that may be started does: it is one run with the session, and its error.\<close>

definition error_of :: "(error cause, unit) result \<Rightarrow> error option" where
  "error_of r = (case r of Inr _ \<Rightarrow> None | Inl (Typed err) \<Rightarrow> Some err | Inl (Untyped shown) \<Rightarrow> Some (Reason shown))"

lemma shelf_Serve_started:
  assumes "CreateStatements ddl books (Dialect database) = Inr statements" and "Check books (Dialect database) = None"
    and "cat_Surface cat = Inr surface"
  shows "shelf_Serve (Inr ()) ddl books cat causes panicked sql net_Listen Addr loop listener database w =
    map_prod (\<lambda>w. w) error_of
      (with_session sql (as_error (cat_faults cat)) database
         (serve_program causes panicked sql (as_error (cat_faults cat)) statements (serving_on net_Listen Addr loop listener) surface) w)"
  using assms by (simp add: shelf_Serve_def error_of_def Let_def split: prod.split sum.split cause.split)

text \<open>C15: Nothing is served before its tables are there, and closing is never left out: once the program is
connected, the statements run in their order; the first that fails ends the program with its fault, those
behind it are not run and nothing is served, whatever serving would have done; when every one has run,
the program serves, ends with what serving ends with, and either way the session is closed last.\<close>

theorem tables_come_first:
  assumes "CreateStatements ddl books (Dialect database) = Inr statements" and "Check books (Dialect database) = None"
    and "cat_Surface cat = Inr surface" and "Connect sql database w = (w1, Inr session)"
  shows "(statements = pre @ bad # post \<longrightarrow> for_each (Execute sql session) pre w1 = (w2, Inr outs) \<longrightarrow>
       Execute sql session bad w2 = (w3, Inl (Typed fault)) \<longrightarrow>
       shelf_Serve (Inr ()) ddl books cat causes panicked sql net_Listen Addr loop listener database w =
         (Disconnect sql session w3, Some (as_error (cat_faults cat) fault))) \<and>
     (for_each (Execute sql session) statements w1 = (w2, Inr outs) \<longrightarrow>
       (\<exists>boundary server. NewAdapter causes True (Some (answers panicked)) = Inr boundary \<and> socket server = listener \<and>
          (case loop server (served_by causes (provided session) boundary (Routes_Handler respond surface)) w2 of (w3, result) \<Rightarrow>
             shelf_Serve (Inr ()) ddl books cat causes panicked sql net_Listen Addr loop listener database w =
               (Disconnect sql session w3, error_of (map_sum (map_cause FaultErr) (\<lambda>x. x) result)))))"
proof -
  obtain boundary where boundary: "NewAdapter causes True (Some (answers panicked)) = Inr boundary"
    using adapter_made by blast
  note started = shelf_Serve_started [OF assms(1-3)]
  have failing: "shelf_Serve (Inr ()) ddl books cat causes panicked sql net_Listen Addr loop listener database w =
      (Disconnect sql session w3, Some (as_error (cat_faults cat) fault))"
    if "statements = pre @ bad # post" "for_each (Execute sql session) pre w1 = (w2, Inr outs)"
      "Execute sql session bad w2 = (w3, Inl (Typed fault))"
    using for_each_stops [OF that(2,3)]
    by (simp add: started with_session_def map_error_def assms(4) serve_program_def boundary creation_def flat_map_def that(1) error_of_def)
  have serving: "\<exists>boundary server. NewAdapter causes True (Some (answers panicked)) = Inr boundary \<and> socket server = listener \<and>
      (case loop server (served_by causes (provided session) boundary (Routes_Handler respond surface)) w2 of (w3, result) \<Rightarrow>
         shelf_Serve (Inr ()) ddl books cat causes panicked sql net_Listen Addr loop listener database w =
           (Disconnect sql session w3, error_of (map_sum (map_cause FaultErr) (\<lambda>x. x) result)))"
    if "for_each (Execute sql session) statements w1 = (w2, Inr outs)"
  proof -
    let ?h = "served_by causes (provided session) boundary (Routes_Handler respond surface)"
    obtain server where "socket server = listener"
      "serve_and_await net_Listen Addr Typed loop listener ?h w2 = loop server ?h w2"
      using serve_and_await_given [of listener Addr net_Listen Typed loop ?h w2] by blast
    then show ?thesis using that boundary
      by (intro exI [of _ boundary] exI [of _ server])
        (simp add: started with_session_def map_error_def assms(4) serve_program_def creation_def flat_map_def serving_on_def
          split: prod.split)
  qed
  show ?thesis using failing serving by blast
qed

section \<open>What is served stays valid\<close>

text \<open>What is relied on: the statements that make the tables add no book, nor do opening and closing a session, and
the accept loop touches the database by answering requests only.\<close>

definition adds_no_book :: "('w, 's, 'f, 'd) sql_lib \<Rightarrow> ('w \<Rightarrow> Book set) \<Rightarrow> string list \<Rightarrow> bool" where
  "adds_no_book sql kept statements \<longleftrightarrow>
     (\<forall>database w. kept (fst (Connect sql database w)) \<subseteq> kept w) \<and>
     (\<forall>statement \<in> set statements. \<forall>session w. kept (fst (Execute sql session statement w)) \<subseteq> kept w) \<and>
     (\<forall>session w. kept (Disconnect sql session w) \<subseteq> kept w)"

definition only_answers :: "('w, 'l, 'a) accepting \<Rightarrow> bool" where
  "only_answers loop \<longleftrightarrow>
     (\<forall>server handler w. \<exists>requests. fst (loop server handler w) = foldl (\<lambda>w request. fst (handler request w)) w requests)"

lemma for_each_keeps:
  assumes "\<And>x w. x \<in> set xs \<Longrightarrow> kept (fst (f x w)) \<subseteq> kept w"
  shows "kept (fst (for_each f xs w)) \<subseteq> kept w"
  using assms
proof (induction xs arbitrary: w)
  case (Cons x xs)
  have "kept (fst (for_each f xs w')) \<subseteq> kept w'" for w' by (rule Cons.IH) (simp add: Cons.prems)
  with Cons.prems [of x w] show ?case by (fastforce split: prod.splits sum.splits)
qed simp

lemma map_error_state: "fst (map_error f m w) = fst (m w)"
  by (simp add: map_error_def split: prod.split)

definition all_books :: "('w \<Rightarrow> Book set) \<Rightarrow> 'w \<Rightarrow> bool" where
  "all_books kept w \<longleftrightarrow> (\<forall>book \<in> kept w. checkDigitHolds (isbn_of book))"

lemma fewer_books: "all_books kept w \<Longrightarrow> kept w' \<subseteq> kept w \<Longrightarrow> all_books kept w'"
  by (auto simp: all_books_def)

lemma with_session_keeps:
  assumes "\<And>session w. valid w \<Longrightarrow> valid (fst (program session w))" and "valid (fst (Connect sql database w))"
    and "\<And>session w. valid w \<Longrightarrow> valid (Disconnect sql session w)"
  shows "valid (fst (with_session sql asError database program w))"
proof (cases "Connect sql database w")
  case (Pair w1 r)
  with assms(2) have w1: "valid w1" by simp
  show ?thesis
  proof (cases r)
    case (Inr session)
    then show ?thesis using assms(1) [OF w1, of session] assms(3)
      by (cases "program session w1") (simp add: with_session_def map_error_def Pair)
  qed (use w1 in \<open>simp add: with_session_def map_error_def Pair\<close>)
qed

lemma flat_map_keeps:
  assumes "valid (fst (m w))" and "\<And>x w. valid w \<Longrightarrow> valid (fst (f x w))"
  shows "valid (fst (flat_map m f w))"
  using assms by (cases "m w"; cases "snd (m w)") (auto simp: flat_map_def)

lemma serving_keeps:
  assumes "only_answers loop" and "\<And>request w. valid w \<Longrightarrow> valid (fst (handler request w))" and "valid w"
  shows "valid (fst (serving_on net_Listen Addr loop listener handler w))"
proof -
  have "valid (fst (loop server handler w))" for server
  proof -
    obtain requests where "fst (loop server handler w) = foldl (\<lambda>w request. fst (handler request w)) w requests"
      using assms(1) unfolding only_answers_def by blast
    moreover have "valid (foldl (\<lambda>w request. fst (handler request w)) w requests)"
      using assms(3) by (induction requests arbitrary: w) (simp_all add: assms(2))
    ultimately show ?thesis by simp
  qed
  then show ?thesis
    using serve_and_await_given [of listener Addr net_Listen Typed loop handler w] by (auto simp: serving_on_def map_error_state)
qed

lemma served_request_keeps:
  assumes "cat_Surface cat = Inr surface" and "describes (cat_schemas cat)" and "decodes_books (BookShape (cat_schemas cat))"
    and "holds_what_is_saved (cat_repository cat) (\<lambda>w. kept (snd w))" and "all_books kept w"
  shows "all_books kept (fst (served_by causes (provided session) boundary (Routes_Handler respond surface) request w))"
proof -
  have "all_books kept (snd (fst (Routes_Handler respond surface (RequestFrom request) (session, w))))"
    using request_keeps_books [OF assms(1) [unfolded cat_Surface_def] assms(2-4), of "(session, w)"] assms(5)
    by (simp add: all_books_def)
  then show ?thesis
    by (cases "Routes_Handler respond surface (RequestFrom request) (session, w)") (simp add: served_by_def provided_def)
qed

lemma program_keeps:
  assumes "cat_Surface cat = Inr surface" and "describes (cat_schemas cat)" and "decodes_books (BookShape (cat_schemas cat))"
    and "holds_what_is_saved (cat_repository cat) (\<lambda>w. kept (snd w))"
    and "adds_no_book sql kept statements" and "only_answers loop" and "all_books kept w"
  shows "all_books kept (fst (serve_program causes panicked sql asError statements (serving_on net_Listen Addr loop listener) surface session w))"
proof (cases "NewAdapter causes True (Some (answers panicked))")
  case (Inr boundary)
  have "kept (fst (Execute sql session statement w)) \<subseteq> kept w" if "statement \<in> set statements" for statement w
    using assms(5) that by (simp add: adds_no_book_def)
  then have "all_books kept (fst (creation sql asError session statements w))"
    using fewer_books [OF assms(7) for_each_keeps [of statements kept "Execute sql session"]] by (simp add: creation_def map_error_state)
  moreover have "all_books kept (fst (serving_on net_Listen Addr loop listener
      (served_by causes (provided session) boundary (Routes_Handler respond surface)) w))" if "all_books kept w" for w
    by (rule serving_keeps [where valid = "all_books kept", OF assms(6) _ that]) (rule served_request_keeps [OF assms(1-4)])
  ultimately show ?thesis
    by (simp add: serve_program_def Inr flat_map_keeps [where valid = "all_books kept"])
qed (use assms(7) in \<open>simp add: serve_program_def\<close>)

text \<open>A catalogue that is served stays valid: whatever the program is asked while it serves, and whether or
not it gets as far as serving, a database that held only books whose check digit holds holds only such
books when it has ended.\<close>

theorem served_books_are_books:
  assumes "describes (cat_schemas cat)" and "decodes_books (BookShape (cat_schemas cat))"
    and "holds_what_is_saved (cat_repository cat) (\<lambda>w. kept (snd w))"
    and "\<And>statements. CreateStatements ddl books (Dialect database) = Inr statements \<Longrightarrow> adds_no_book sql kept statements"
    and "only_answers loop" and "\<forall>book \<in> kept w. checkDigitHolds (isbn_of book)"
  shows "\<forall>book \<in> kept (fst (shelf_Serve runtime ddl books cat causes panicked sql net_Listen Addr loop listener database w)).
     checkDigitHolds (isbn_of book)"
proof (cases "\<exists>statements surface. runtime = Inr () \<and> CreateStatements ddl books (Dialect database) = Inr statements \<and>
    Check books (Dialect database) = None \<and> cat_Surface cat = Inr surface")
  case False
  then have "fst (shelf_Serve runtime ddl books cat causes panicked sql net_Listen Addr loop listener database w) = w"
    by (auto simp: shelf_Serve_def split: sum.split option.split)
  then show ?thesis using assms(6) by simp
next
  case True
  then obtain statements surface where started: "runtime = Inr ()" "CreateStatements ddl books (Dialect database) = Inr statements"
    "Check books (Dialect database) = None" and surface: "cat_Surface cat = Inr surface" by blast
  have held: "all_books kept w" using assms(6) by (simp add: all_books_def)
  have sql: "kept (fst (Connect sql database w)) \<subseteq> kept w" "kept (Disconnect sql session w') \<subseteq> kept w'" for session w'
    using assms(4) [OF started(2)] by (simp_all add: adds_no_book_def)
  have "all_books kept (fst (with_session sql (as_error (cat_faults cat)) database (serve_program causes panicked sql
      (as_error (cat_faults cat)) statements (serving_on net_Listen Addr loop listener) surface) w))"
  proof (rule with_session_keeps [where valid = "all_books kept"])
    show "all_books kept (Disconnect sql session w)" if "all_books kept w" for session w using that sql(2) by (rule fewer_books)
  qed (rule program_keeps [OF surface assms(1-3) assms(4) [OF started(2)] assms(5)], assumption, rule fewer_books [OF held sql(1)])
  then show ?thesis by (simp add: started shelf_Serve_started [OF started(2,3) surface] all_books_def)
qed

section \<open>Instances\<close>

text \<open>A database that is the list of what was done to it, in which one statement fails, and a loop that serves once.\<close>

definition logged :: "'a \<Rightarrow> 'a list \<Rightarrow> 'a list \<times> ('e, unit) result" where
  "logged entry w = (w @ [entry], Inr ())"

definition log_sql :: "(string list, unit, memory_fault, unit) sql_lib" where
  "log_sql =
     \<lparr>Connect = (\<lambda>_ w. (w, Inr ())),
      Execute = (\<lambda>_ statement w. if statement = ''bad'' then (w, Inl (Typed bad_sort)) else logged statement w),
      Disconnect = (\<lambda>_ w. w @ [''closed''])\<rparr>"

definition log_loop :: "(string list, unit, unit) accepting" where
  "log_loop server handler = logged ''served''"

definition log_catalogue :: "Strategy \<Rightarrow> (unit, string list, memory_fault, string) catalogue" where
  "log_catalogue camel =
     \<lparr>cat_Spell = (\<lambda>node _. node), cat_CamelCase = camel, cat_faults = memory_faults,
      cat_repository =
        \<lparr>Catalogue_Page = (\<lambda>_ w. (w, Failed bad_sort)), Catalogue_Match = (\<lambda>_ wanted. wanted), sql_And = (@),
         Books_Save = (\<lambda>_ w. (w, Failed bad_sort)), Books_Find = (\<lambda>_ w. (w, Failed no_rows)),
         Books_Delete = (\<lambda>_ w. (w, Failed no_rows))\<rparr>,
      cat_schemas = memory_schemas\<rparr>"

definition list_ddl :: "(unit, string list, string, string) ddl_lib" where
  "list_ddl = \<lparr>ddl_Create = (\<lambda>_ statements. Inr statements), CreateIndexes = (\<lambda>_ _ indexes. Inr indexes),
     CreateSearches = (\<lambda>_ _ searches. Inr searches)\<rparr>"

definition kept_by :: "string list \<Rightarrow> (unit, string list, string, string) kept_books" where
  "kept_by indexes = \<lparr>TableName = ''book'', books_Structure = [''table''], Indexes = indexes, Searches = [''search''], Check = (\<lambda>_. None)\<rparr>"

definition shelf_causes :: "((api_fault, Response) exit, api_fault) cause_ops" where
  "shelf_causes = \<lparr>ContainsDefect = (\<lambda>_. False), cause_Failures = (\<lambda>_. []), HasInterruptsOnly = (\<lambda>_. False), cause_String = (\<lambda>_. [])\<rparr>"

definition a_database :: "unit Database" where
  "a_database = \<lparr>Dialect = (), Driver = [], database_Source = []\<rparr>"

lemma catalogue_assembles:
  assumes "describes (cat_schemas cat)"
  shows "\<exists>surface. cat_Surface cat = Inr surface"
  using routes_assemble [OF assms, of "cat_faults cat" "cat_repository cat"] by (auto simp: cat_Surface_def Surface_def)

theorem tables_come_first_witness:
  "\<forall>camel.
     shelf_Serve (Inr ()) list_ddl (kept_by [''bad'']) (log_catalogue camel) shelf_causes (Empty 500) log_sql (\<lambda>_. Inr ()) (\<lambda>l. l)
       log_loop () a_database [] = ([''table'', ''closed''], Some (Reason ''no such sort'')) \<and>
     shelf_Serve (Inr ()) list_ddl (kept_by [''index'']) (log_catalogue camel) shelf_causes (Empty 500) log_sql (\<lambda>_. Inr ()) (\<lambda>l. l)
       log_loop () a_database [] = ([''table'', ''index'', ''search'', ''served'', ''closed''], None)"
proof
  fix camel
  have "describes (cat_schemas (log_catalogue camel))" by (simp add: log_catalogue_def memory_described)
  then obtain surface where surface: "cat_Surface (log_catalogue camel) = Inr surface" using catalogue_assembles by blast
  have made: "CreateStatements list_ddl (kept_by indexes) (Dialect a_database) = Inr ([''table''] @ indexes @ [''search''])"
    "Check (kept_by indexes) (Dialect a_database) = None" for indexes
    by (simp_all add: CreateStatements_def list_ddl_def kept_by_def)
  have connected: "Connect log_sql a_database [] = ([], Inr ())" by (simp add: log_sql_def)
  have faults: "cat_faults (log_catalogue camel) = memory_faults" by (simp add: log_catalogue_def)
  note first = tables_come_first [OF made surface connected, where panicked = "Empty 500" and causes = shelf_causes
      and net_Listen = "\<lambda>_. Inr ()" and Addr = "\<lambda>l. l" and loop = log_loop and listener = "()"]
  have "shelf_Serve (Inr ()) list_ddl (kept_by [''bad'']) (log_catalogue camel) shelf_causes (Empty 500) log_sql (\<lambda>_. Inr ()) (\<lambda>l. l)
      log_loop () a_database [] = ([''table'', ''closed''], Some (Reason ''no such sort''))"
    using first [of "[''bad'']" "[''table'']" "''bad''" "[''search'']" "[''table'']" "[()]" "[''table'']" bad_sort]
    by (simp add: log_sql_def logged_def faults memory_faults_def)
  moreover have "shelf_Serve (Inr ()) list_ddl (kept_by [''index'']) (log_catalogue camel) shelf_causes (Empty 500) log_sql (\<lambda>_. Inr ()) (\<lambda>l. l)
      log_loop () a_database [] = ([''table'', ''index'', ''search'', ''served'', ''closed''], None)"
    using first [of "[''index'']" _ _ _ "[''table'', ''index'', ''search'']" "[(), (), ()]"]
    by (auto simp: log_sql_def logged_def log_loop_def error_of_def)
  ultimately show "shelf_Serve (Inr ()) list_ddl (kept_by [''bad'']) (log_catalogue camel) shelf_causes (Empty 500) log_sql (\<lambda>_. Inr ()) (\<lambda>l. l)
       log_loop () a_database [] = ([''table'', ''closed''], Some (Reason ''no such sort'')) \<and>
     shelf_Serve (Inr ()) list_ddl (kept_by [''index'']) (log_catalogue camel) shelf_causes (Empty 500) log_sql (\<lambda>_. Inr ()) (\<lambda>l. l)
       log_loop () a_database [] = ([''table'', ''index'', ''search'', ''served'', ''closed''], None)" by blast
qed

text \<open>The books in memory, beside a session that is nothing, asked one thing.\<close>

definition memory_catalogue :: "Strategy \<Rightarrow> (unit, Book list, memory_fault, string) catalogue" where
  "memory_catalogue camel =
     \<lparr>cat_Spell = (\<lambda>node _. node), cat_CamelCase = camel, cat_faults = memory_faults,
      cat_repository =
        \<lparr>Catalogue_Page = (\<lambda>query. on_second (Catalogue_Page memory query)), Catalogue_Match = Catalogue_Match memory, sql_And = sql_And memory,
         Books_Save = (\<lambda>book. on_second (Books_Save memory book)), Books_Find = (\<lambda>isbn. on_second (Books_Find memory isbn)),
         Books_Delete = (\<lambda>isbn. on_second (Books_Delete memory isbn))\<rparr>,
      cat_schemas = memory_schemas\<rparr>"

lemma memory_catalogue_holds: "holds_what_is_saved (cat_repository (memory_catalogue camel)) (\<lambda>w. set (snd w))"
proof -
  have state: "snd (fst (on_second act st)) = fst (act (snd st))" for act :: "'w \<Rightarrow> 'w \<times> 'r" and st :: "'s \<times> 'w"
    by (simp add: on_second_def split: prod.split)
  show ?thesis using memory_holds by (simp add: holds_what_is_saved_def memory_catalogue_def state)
qed

definition memory_sql :: "(Book list, unit, memory_fault, unit) sql_lib" where
  "memory_sql = \<lparr>Connect = (\<lambda>_ w. (w, Inr ())), Execute = (\<lambda>_ _ w. (w, Inr ())), Disconnect = (\<lambda>_ w. w)\<rparr>"

definition put_request :: http_request where
  "put_request = \<lparr>req_Method = ''PUT'', URL_Path = ''/books/9780306406157'', URL_Query = Map.empty, req_Header = Map.empty,
     req_Body = Some ''9780306406157''\<rparr>"

definition put_once :: "(Book list, unit, unit) accepting" where
  "put_once server handler w = (fst (handler put_request w), Inr ())"

definition put_and_served :: "Strategy \<Rightarrow> Book list" where
  "put_and_served camel =
     fst (shelf_Serve (Inr ()) list_ddl (kept_by [''index'']) (memory_catalogue camel) shelf_causes (Empty 500) memory_sql
       (\<lambda>_. Inr ()) (\<lambda>l. l) put_once () a_database [])"

theorem served_books_are_books_witness:
  "\<forall>camel. list_all (\<lambda>book. checkDigitHolds (isbn_of book)) (put_and_served camel)"
proof
  fix camel
  have shapes: "cat_schemas (memory_catalogue camel) = memory_schemas" by (simp add: memory_catalogue_def)
  have "only_answers put_once"
    unfolding only_answers_def put_once_def
    by (intro allI exI [of _ "[put_request]"]) simp
  moreover have "adds_no_book memory_sql set statements" for statements by (simp add: adds_no_book_def memory_sql_def)
  ultimately have "\<forall>book \<in> set (put_and_served camel). checkDigitHolds (isbn_of book)"
    using served_books_are_books [OF _ _ memory_catalogue_holds [of camel], where sql = memory_sql and loop = put_once and w = "[]"] memory_described memory_decodes
    by (simp add: shapes put_and_served_def)
  then show "list_all (\<lambda>book. checkDigitHolds (isbn_of book)) (put_and_served camel)" by (simp add: list_all_iff)
qed

end
