(* ===== verification/Example_Dispatch.thy ===== *)
theory Example_Dispatch
  imports Amqp091_Client "HOL-Library.Multiset"
begin

text \<open>
  A program that places orders on a queue and ships what arrives
  (\<open>examples/dispatch/dispatch.go\<close>), over the AMQP 0-9-1 port.

  The schema of an order is the schema module's and is an argument; the packing is the
  application's. Run on the in-process broker, whose state stands beside the packing's own, every
  order that was placed is shipped, once, as long as the packing is busy finitely often.
\<close>

section \<open>The program\<close>

record Order =
  Reference :: string
  Item :: string
  Quantity :: "32 word"

definition Orders :: string where "Orders = ''orders''"
definition Shipping :: string where "Shipping = ''shipping''"
definition Placed :: string where "Placed = ''placed''"

definition topology :: Topology where
  "topology =
     \<lparr>Exchanges = [\<lparr>ex_Name = Orders, Kind = Direct, ex_Durability = Durable\<rparr>],
      Queues = [\<lparr>q_Name = Shipping, q_Durability = Durable, q_Access = Shared, q_DeadLetter = \<lparr>dl_Exchange = [], dl_Key = []\<rparr>\<rparr>],
      Bindings = [\<lparr>bind_Exchange = Orders, bind_Queue = Shipping, bind_Key = Placed\<rparr>]\<rparr>"

definition Prepare :: "'w Declarer \<Rightarrow> ('w, Fault, unit) fx" where
  "Prepare channel = Declare channel topology"

definition Place :: "'w Publisher \<Rightarrow> Order Schema \<Rightarrow> Order \<Rightarrow> ('w, Fault, unit) fx" where
  "Place channel OrderSchema order w =
     (case Encode OrderSchema order of
        Inl err \<Rightarrow> (w, Inl \<lparr>fault_Op = ''place an order'', fault_Subject = [], fault_Err = Some err\<rparr>)
      | Inr message \<Rightarrow>
          publish channel \<lparr>to_Exchange = Orders, to_Key = Placed\<rparr> (message\<lparr>m_Durability := Durable\<rparr>) w)"

definition shipOrder ::
  "('w, Order) Envelope \<Rightarrow> (Order \<Rightarrow> ('w, Fault, unit) fx) \<Rightarrow> ('w, Fault, Order list) fx" where
  "shipOrder envelope pack =
     (case env_Read envelope of
        Inl err \<Rightarrow> as_value (discard envelope) []
      | Inr order \<Rightarrow>
          catch_all (flat_map (pack order) (\<lambda>_. as_value (ack envelope) [order]))
            (\<lambda>_. as_value (requeue envelope) []))"

definition Ship ::
  "('w, ('w, Order) Envelope) from_resource \<Rightarrow> 'w Consumer \<Rightarrow> Order Schema \<Rightarrow>
   (Order \<Rightarrow> ('w, Fault, unit) fx) \<Rightarrow> ('w, Fault, Order) stream" where
  "Ship from_resource channel OrderSchema pack =
     collect_stream_effect (Values from_resource channel Shipping OrderSchema)
       (\<lambda>envelope. shipOrder envelope pack)"

section \<open>What placing does\<close>

text \<open>A broker on which the program's topology has been declared, and nothing else binds its exchange.\<close>

definition prepared :: "Broker \<Rightarrow> queue \<Rightarrow> bool" where
  "prepared b q \<longleftrightarrow>
     exchanges b Orders = Some \<lparr>ex_Name = Orders, Kind = Direct, ex_Durability = Durable\<rparr> \<and>
     filter (\<lambda>x. bind_Exchange x = Orders) (bindings b) =
       [\<lparr>bind_Exchange = Orders, bind_Queue = Shipping, bind_Key = Placed\<rparr>] \<and>
     map_of (queues b) Shipping = Some q"

lemma Prepare_new:
  "\<exists>b. Prepare in_process_declarer NewBroker = (b, Inr ()) \<and> prepared b \<lparr>backlog = [], unsettled = []\<rparr> \<and>
     acks b = [] \<and> discards b = []"
  by (simp add: Prepare_def Declare_def topology_def flat_map_def declare_exchange_in_process
      declare_queue_in_process BindQueue_in_process bindable_def prepared_def NewBroker_def
      DeclareExchange_def DeclareQueue_def)

definition order_message :: "string \<Rightarrow> Message" where
  "order_message document =
     \<lparr>m_Body = document, m_ContentType = ''application/json'', m_Headers = [], m_Durability = Durable\<rparr>"

lemma Place_prepared:
  assumes "prepared b q" and "length (backlog q) < capacity" and "EncodeJSON shape order = Inr document"
  shows "\<exists>b' d. Place in_process shape order b = (b', Inr ()) \<and>
           prepared b' (q\<lparr>backlog := backlog q @ [d]\<rparr>) \<and> d_Body d = document \<and> acks b' = acks b \<and> discards b' = discards b"
proof -
  let ?target = "\<lparr>to_Exchange = Orders, to_Key = Placed\<rparr>"
  let ?m = "order_message document"
  let ?d = "copy_for ?target ?m (Suc (last_tag b))"
  let ?b = "change_queue Shipping (\<lambda>q. q\<lparr>backlog := backlog q @ [?d]\<rparr>) (b\<lparr>last_tag := Suc (last_tag b)\<rparr>)"
  from assms(1) have named: "exchanges b Orders = Some \<lparr>ex_Name = Orders, Kind = Direct, ex_Durability = Durable\<rparr>"
    "filter (\<lambda>x. bind_Exchange x = Orders) (bindings b) =
       [\<lparr>bind_Exchange = Orders, bind_Queue = Shipping, bind_Key = Placed\<rparr>]"
    "map_of (queues b) Shipping = Some q" by (simp_all add: prepared_def)
  have "filter (\<lambda>x. bind_Exchange x = Orders \<and> bind_Key x = Placed) (bindings b) =
      filter (\<lambda>x. bind_Key x = Placed) (filter (\<lambda>x. bind_Exchange x = Orders) (bindings b))"
    by (simp add: conj_commute)
  then have "routeTargets b ?target = Inr [Shipping]"
    by (simp add: routeTargets_def named) (simp add: Orders_def)
  then have "queuesFor ?target ?m b = (b\<lparr>last_tag := Suc (last_tag b)\<rparr>, Inr [(Shipping, ?d)])"
    by (simp add: queuesFor_def findQueue_def named Let_def)
  then have "Publish ?target ?m b = (?b, None)"
    using assms(2) by (simp add: Publish_def offer_def named)
  then have "Place in_process shape order b = (?b, Inr ())"
    by (simp add: Place_def Encode_def assms(3) publish_def in_process_def order_message_def)
  moreover have "prepared ?b (q\<lparr>backlog := backlog q @ [?d]\<rparr>)" using named by (simp add: prepared_def)
  moreover have "d_Body ?d = document" by (simp add: copy_for_def order_message_def)
  moreover have "acks ?b = acks b" "discards ?b = discards b" by simp_all
  ultimately show ?thesis by blast
qed

lemma Place_all:
  assumes "prepared b q" and "length (backlog q) + length orders \<le> capacity"
    and "map (EncodeJSON shape) orders = map Inr documents"
  shows "\<exists>b' q' us. for_each (Place in_process shape) orders b = (b', Inr us) \<and> prepared b' q' \<and>
           acks b' = acks b \<and> discards b' = discards b \<and> (\<exists>ds. backlog q' = backlog q @ ds \<and> map d_Body ds = documents)"
  using assms
proof (induction orders arbitrary: b q documents)
  case (Cons order orders)
  then obtain document rest where docs: "documents = document # rest" "EncodeJSON shape order = Inr document"
    "map (EncodeJSON shape) orders = map Inr rest" by (cases documents) auto
  have "length (backlog q) < capacity" using Cons.prems(2) by simp
  from Place_prepared [OF Cons.prems(1) this docs(2)] obtain b1 d where b1: "Place in_process shape order b = (b1, Inr ())"
    "prepared b1 (q\<lparr>backlog := backlog q @ [d]\<rparr>)" "d_Body d = document" "acks b1 = acks b" "discards b1 = discards b" by blast
  have "length (backlog (q\<lparr>backlog := backlog q @ [d]\<rparr>)) + length orders \<le> capacity" using Cons.prems(2) by simp
  from Cons.IH [OF b1(2) this docs(3)] obtain b' q' us ds where "for_each (Place in_process shape) orders b1 = (b', Inr us)"
    "prepared b' q'" "acks b' = acks b" "discards b' = discards b" "backlog q' = (backlog q @ [d]) @ ds" "map d_Body ds = rest"
    using b1(4,5) by auto
  with b1(1,3) docs(1) show ?case by (intro exI [of _ b'] exI [of _ q'] exI [of _ "() # us"]) simp
qed auto

section \<open>What shipping does\<close>

text \<open>The broker's port beside a packing with a state of its own.\<close>

definition beside_deliveries :: "Broker Deliveries \<Rightarrow> (Broker \<times> 'p) Deliveries" where
  "beside_deliveries deliveries =
     \<lparr>port_Next = on_first (port_Next deliveries), port_Ack = (\<lambda>tag. on_first (port_Ack deliveries tag)),
      port_Discard = (\<lambda>tag. on_first (port_Discard deliveries tag)),
      port_Requeue = (\<lambda>tag. on_first (port_Requeue deliveries tag)), port_Close = on_first (port_Close deliveries)\<rparr>"

definition beside_consumer :: "Broker Consumer \<Rightarrow> (Broker \<times> 'p) Consumer" where
  "beside_consumer channel =
     \<lparr>port_Consume = (\<lambda>name st. map_prod (\<lambda>st. st) (map_sum (\<lambda>err. err) beside_deliveries)
                                 (on_first (port_Consume channel name) st))\<rparr>"

text \<open>
  What is relied on of the resource library: once the subscription is made, the stream it owns
  steps as its use does.
\<close>

definition opens :: "('w, 'a) from_resource \<Rightarrow> bool" where
  "opens from_resource \<longleftrightarrow>
     (\<forall>acquire release use w s. acquire w = (w, Inr s) \<longrightarrow> from_resource acquire release use w = use s w)"

lemma subscribed:
  "map_of (queues b) name = Some q \<Longrightarrow>
   subscribe_to (beside_consumer in_process_consumer) name (b, p) = ((b, p), Inr (beside_deliveries (subscription name)))"
  by (simp add: subscribe_to_def try_fx_def beside_consumer_def in_process_consumer_def on_first_def Consume_def findQueue_def)

definition next_envelope :: "Order Schema \<Rightarrow> Delivery \<Rightarrow> (Broker \<times> 'p, Order) Envelope" where
  "next_envelope shape d = decodeDelivery (beside_deliveries (subscription Shipping)) d shape"

text \<open>The queue when its first delivery has been handed out.\<close>

definition taken :: "queue \<Rightarrow> Delivery \<Rightarrow> Delivery list \<Rightarrow> queue" where
  "taken q d ds = q\<lparr>backlog := ds, unsettled := AList.update (Tag d) d (unsettled q)\<rparr>"

lemma Ship_step:
  assumes "opens from_resource" and "map_of (queues b) Shipping = Some q" and "backlog q = d # ds"
  obtains b1 where
    "Ship from_resource (beside_consumer in_process_consumer) shape pack (b, p) =
       flat_map (shipOrder (next_envelope shape d) pack) (\<lambda>ys w. (w, Inr (Emit ys))) (b1, p)"
    and "map_of (queues b1) Shipping = Some (taken q d ds)"
    and "acks b1 = acks b" and "discards b1 = discards b"
proof -
  obtain b1 where b1: "Next Shipping b = Some (b1, d)" "map_of (queues b1) Shipping = Some (taken q d ds)"
    "acks b1 = acks b" "discards b1 = discards b"
    using assms(2,3) by (simp add: Next_def receive_from_def hand_out_def taken_def)
  have "streamDeliveries (beside_deliveries (subscription Shipping)) Shipping (b, p) = ((b1, p), Inr (Emit [d]))"
    using b1(1) by (simp add: streamDeliveries_def beside_deliveries_def subscription_def on_first_def)
  then have "Values from_resource (beside_consumer in_process_consumer) Shipping shape (b, p) =
      ((b1, p), Inr (Emit [next_envelope shape d]))"
    using assms(1) subscribed [OF assms(2), of p]
    by (simp add: Values_def opens_def map_stream_def flat_map_def next_envelope_def)
  then have "Ship from_resource (beside_consumer in_process_consumer) shape pack (b, p) =
      flat_map (shipOrder (next_envelope shape d) pack) (\<lambda>ys w. (w, Inr (Emit ys))) (b1, p)"
    unfolding Ship_def by (rule collect_stream_effect_one)
  with that b1 show ?thesis by blast
qed

lemma settled_in_process:
  assumes "map_of (queues b1) Shipping = Some (taken q d ds)"
  obtains b2 b3 b4 where
    "ack (next_envelope shape d) (b1, p) = ((b2, p), Inr ())" "acks b2 = acks b1 @ [Tag d]" "discards b2 = discards b1"
    "map_of (queues b2) Shipping = Some ((taken q d ds)\<lparr>unsettled := AList.delete (Tag d) (unsettled (taken q d ds))\<rparr>)"
    and "discard (next_envelope shape d) (b1, p) = ((b3, p), Inr ())" "acks b3 = acks b1" "discards b3 = discards b1 @ [Tag d]"
    "map_of (queues b3) Shipping = Some ((taken q d ds)\<lparr>unsettled := AList.delete (Tag d) (unsettled (taken q d ds))\<rparr>)"
    and "length ds < capacity \<Longrightarrow> requeue (next_envelope shape d) (b1, p) = ((b4, p), Inr ())"
    "length ds < capacity \<Longrightarrow> acks b4 = acks b1 \<and> discards b4 = discards b1 \<and>
       map_of (queues b4) Shipping =
         Some \<lparr>backlog = ds @ [d\<lparr>Redelivered := True\<rparr>], unsettled = AList.delete (Tag d) (unsettled (taken q d ds))\<rparr>"
proof -
  have owed: "owed Shipping b1 (Tag d) = Some d" using assms by (simp add: owed_def taken_def update_conv')
  note settles = settle_envelope_def next_envelope_def decodeDelivery_def beside_deliveries_def subscription_def try_fx_def on_first_def
  let ?gone = "change_queue Shipping (\<lambda>q. q\<lparr>unsettled := AList.delete (Tag d) (unsettled q)\<rparr>) b1"
  have "Ack Shipping (Tag d) b1 = (?gone\<lparr>acks := acks ?gone @ [Tag d]\<rparr>, None)"
    "Discard Shipping (Tag d) b1 = (?gone\<lparr>discards := discards ?gone @ [Tag d]\<rparr>, None)"
    using owed by (simp_all add: Ack_def Discard_def settle_def)
  then have "ack (next_envelope shape d) (b1, p) = ((?gone\<lparr>acks := acks ?gone @ [Tag d]\<rparr>, p), Inr ())"
    "discard (next_envelope shape d) (b1, p) = ((?gone\<lparr>discards := discards ?gone @ [Tag d]\<rparr>, p), Inr ())"
    by (simp_all add: ack_def discard_def settles)
  moreover obtain b4 where "length ds < capacity \<Longrightarrow> Requeue Shipping (Tag d) b1 = (b4, None)"
    "length ds < capacity \<Longrightarrow> acks b4 = acks b1 \<and> discards b4 = discards b1 \<and>
       map_of (queues b4) Shipping =
         Some \<lparr>backlog = ds @ [d\<lparr>Redelivered := True\<rparr>], unsettled = AList.delete (Tag d) (unsettled (taken q d ds))\<rparr>"
    using assms owed by (cases "length ds < capacity") (simp_all add: Requeue_def settle_def offer_def taken_def)
  moreover from this(1) have "length ds < capacity \<Longrightarrow> requeue (next_envelope shape d) (b1, p) = ((b4, p), Inr ())"
    by (simp add: requeue_def settles)
  ultimately show ?thesis
    by (intro that [of "?gone\<lparr>acks := acks ?gone @ [Tag d]\<rparr>" "?gone\<lparr>discards := discards ?gone @ [Tag d]\<rparr>" b4])
      (simp_all add: assms)
qed

section \<open>Every order is shipped\<close>

text \<open>A packing that is busy finitely often: what bounds its refusals falls with each.\<close>

definition patient :: "(Order \<Rightarrow> 'p \<Rightarrow> 'p \<times> (Fault, unit) result) \<Rightarrow> ('p \<Rightarrow> nat) \<Rightarrow> bool" where
  "patient packing patience \<longleftrightarrow>
     (\<forall>order p. case packing order p of
        (p', Inl _) \<Rightarrow> patience p' < patience p
      | (p', Inr _) \<Rightarrow> patience p' \<le> patience p)"

definition readable :: "Order Schema \<Rightarrow> Delivery list \<Rightarrow> Order list" where
  "readable shape ds = concat (map (\<lambda>d. case DecodeJSON shape (d_Body d) of Inl _ \<Rightarrow> [] | Inr order \<Rightarrow> [order]) ds)"

definition tags_of :: "Order Schema \<Rightarrow> bool \<Rightarrow> Delivery list \<Rightarrow> nat list" where
  "tags_of shape wanted ds = map Tag (filter (\<lambda>d. isl (DecodeJSON shape (d_Body d)) \<noteq> wanted) ds)"

lemma readable_simps [simp]:
  "readable shape [] = []" "readable shape (ds @ es) = readable shape ds @ readable shape es"
  "readable shape (d # ds) = (case DecodeJSON shape (d_Body d) of Inl _ \<Rightarrow> [] | Inr order \<Rightarrow> [order]) @ readable shape ds"
  by (simp_all add: readable_def)

lemma tags_of_simps [simp]:
  "tags_of shape wanted [] = []" "tags_of shape wanted (ds @ es) = tags_of shape wanted ds @ tags_of shape wanted es"
  "tags_of shape wanted (d # ds) =
     (if isl (DecodeJSON shape (d_Body d)) \<noteq> wanted then [Tag d] else []) @ tags_of shape wanted ds"
  by (simp_all add: tags_of_def)

text \<open>What is left to do of a backlog, from a state and by a stream: the pulls it takes and where they lead.\<close>

definition ships_all ::
  "(Broker \<times> 'p, Fault, Order) stream \<Rightarrow> Order Schema \<Rightarrow> Delivery list \<Rightarrow> nat \<Rightarrow> Broker \<Rightarrow> 'p \<Rightarrow> bool" where
  "ships_all stream shape ds pulls b p \<longleftrightarrow>
     (\<exists>b' p' shipped. collect pulls stream (b, p) = ((b', p'), shipped, None) \<and> Depth b' Shipping = 0 \<and>
        mset shipped = mset (readable shape ds) \<and>
        mset (acks b') = mset (acks b) + mset (tags_of shape True ds) \<and>
        mset (discards b') = mset (discards b) + mset (tags_of shape False ds))"

lemma ships_next:
  assumes "stream (b, p) = ((b1, p1), Inr (Emit now))" and "ships_all stream shape rest pulls b1 p1"
    and "mset (readable shape ds) = mset now + mset (readable shape rest)"
    and "mset (acks b1) + mset (tags_of shape True rest) = mset (acks b) + mset (tags_of shape True ds)"
    and "mset (discards b1) + mset (tags_of shape False rest) = mset (discards b) + mset (tags_of shape False ds)"
  shows "ships_all stream shape ds (Suc pulls) b p"
  using assms unfolding ships_all_def by fastforce

lemma shipping_runs:
  fixes packing :: "Order \<Rightarrow> 'p \<Rightarrow> 'p \<times> (Fault, unit) result"
  assumes "opens from_resource" and "patient packing patience"
    and "map_of (queues b) Shipping = Some q" and "backlog q = ds" and "length ds \<le> capacity"
  shows "\<exists>pulls \<le> length ds + patience p. ships_all
     (Ship from_resource (beside_consumer in_process_consumer) shape (\<lambda>order. on_second (packing order))) shape ds pulls b p"
    (is "\<exists>pulls \<le> _. ships_all ?ship shape ds pulls b p")
  using assms(3-5)
proof (induction "length ds + patience p" arbitrary: ds b q p rule: less_induct)
  case less
  show ?case
  proof (cases ds)
    case Nil
    then have "ships_all ?ship shape ds 0 b p" using less.prems by (simp add: ships_all_def Depth_def)
    then show ?thesis by blast
  next
    case (Cons d rest)
    let ?e = "next_envelope shape d :: (Broker \<times> 'p, Order) Envelope"
    let ?pack = "\<lambda>order. on_second (packing order)"
    obtain b1 where b1: "?ship (b, p) = flat_map (shipOrder ?e ?pack) (\<lambda>ys w. (w, Inr (Emit ys))) (b1, p)"
      "map_of (queues b1) Shipping = Some (taken q d rest)" "acks b1 = acks b" "discards b1 = discards b"
      using Ship_step [OF assms(1) less.prems(1)] less.prems(2) Cons by metis
    note settled = settled_in_process [OF b1(2), of shape]
    have again: "\<exists>pulls \<le> length ds + patience p. ships_all ?ship shape ds pulls b p"
      if step: "?ship (b, p) = ((b2, p2), Inr (Emit now))" "map_of (queues b2) Shipping = Some q2"
      and small: "length (backlog q2) + patience p2 < length ds + patience p" "length (backlog q2) \<le> capacity"
      and kept: "mset (readable shape ds) = mset now + mset (readable shape (backlog q2))"
        "mset (acks b2) + mset (tags_of shape True (backlog q2)) = mset (acks b) + mset (tags_of shape True ds)"
        "mset (discards b2) + mset (tags_of shape False (backlog q2)) = mset (discards b) + mset (tags_of shape False ds)"
      for b2 p2 q2 now
    proof -
      obtain pulls where "pulls \<le> length (backlog q2) + patience p2" "ships_all ?ship shape (backlog q2) pulls b2 p2"
        using less.hyps [OF small(1) step(2) refl small(2)] by blast
      with ships_next [OF step(1) this(2) kept] small(1) show ?thesis by (intro exI [of _ "Suc pulls"]) simp
    qed
    have read: "env_Read ?e = (case DecodeJSON shape (d_Body d) of
        Inl err \<Rightarrow> Inl (faultOf ''decode a delivery'' (d_Key d) err) | Inr order \<Rightarrow> Inr order)"
      by (simp add: next_envelope_def decodeDelivery_def)
    have room: "length rest < capacity" using less.prems(3) Cons by simp
    show ?thesis
    proof (cases "DecodeJSON shape (d_Body d)")
      case (Inl err)
      obtain b2 where b2: "discard ?e (b1, p) = ((b2, p), Inr ())" "acks b2 = acks b1" "discards b2 = discards b1 @ [Tag d]"
        "map_of (queues b2) Shipping = Some ((taken q d rest)\<lparr>unsettled := AList.delete (Tag d) (unsettled (taken q d rest))\<rparr>)"
        by (rule settled) (rule that)
      have "?ship (b, p) = ((b2, p), Inr (Emit []))" using Inl b1(1) b2(1) read by (simp add: shipOrder_def)
      from again [OF this b2(4)] show ?thesis using Inl Cons room b1 b2 by (simp add: taken_def)
    next
      case (Inr order)
      note decoded = this
      obtain p2 r where r: "packing order p = (p2, r)" by (cases "packing order p")
      have patience: "case r of Inl _ \<Rightarrow> patience p2 < patience p | Inr _ \<Rightarrow> patience p2 \<le> patience p"
        using assms(2) r unfolding patient_def by (metis (mono_tags, lifting) case_prod_conv)
      show ?thesis
      proof (cases r)
        case (Inl fault)
        obtain b2 where b2: "length rest < capacity \<Longrightarrow> requeue ?e (b1, p2) = ((b2, p2), Inr ())"
          "length rest < capacity \<Longrightarrow> acks b2 = acks b1 \<and> discards b2 = discards b1 \<and> map_of (queues b2) Shipping =
            Some \<lparr>backlog = rest @ [d\<lparr>Redelivered := True\<rparr>], unsettled = AList.delete (Tag d) (unsettled (taken q d rest))\<rparr>"
          by (rule settled) (rule that)
        then have queue: "map_of (queues b2) Shipping =
            Some \<lparr>backlog = rest @ [d\<lparr>Redelivered := True\<rparr>], unsettled = AList.delete (Tag d) (unsettled (taken q d rest))\<rparr>"
          using room by blast
        have "?ship (b, p) = ((b2, p2), Inr (Emit []))"
          using Inl Inr r b1(1) b2(1) [OF room] read by (simp add: shipOrder_def on_second_def)
        from again [OF this queue] show ?thesis
          using Inl Inr patience Cons room b1 b2(2) [OF room] by (simp add: taken_def)
      next
        case (Inr u)
        obtain b2 where b2: "ack ?e (b1, p2) = ((b2, p2), Inr ())" "acks b2 = acks b1 @ [Tag d]" "discards b2 = discards b1"
          "map_of (queues b2) Shipping = Some ((taken q d rest)\<lparr>unsettled := AList.delete (Tag d) (unsettled (taken q d rest))\<rparr>)"
          by (rule settled) (rule that)
        have "?ship (b, p) = ((b2, p2), Inr (Emit [order]))"
          using Inr decoded r b1(1) b2(1) read by (simp add: shipOrder_def on_second_def)
        from again [OF this b2(4)] show ?thesis
          using Inr decoded patience Cons room b1 b2 by (simp add: taken_def)
      qed
    qed
  qed
qed

lemma all_readable:
  "map d_Body ds = documents \<Longrightarrow> map (EncodeJSON shape) orders = map Inr documents \<Longrightarrow> schema_lawful shape \<Longrightarrow>
   readable shape ds = orders \<and> tags_of shape False ds = [] \<and> length (tags_of shape True ds) = length orders"
proof (induction ds arbitrary: documents orders)
  case (Cons d ds)
  then obtain order rest where orders: "orders = order # rest" "EncodeJSON shape order = Inr (d_Body d)"
    "map (EncodeJSON shape) rest = map Inr (map d_Body ds)" by (cases orders) auto
  from Cons.IH [OF refl orders(3) Cons.prems(3)] orders(1,2) Cons.prems(3) show ?case by (simp add: schema_lawful_def)
qed simp

text \<open>C10: Shipping empties the queue: on a broker that holds the program's topology, whatever waits on the queue
already, orders are placed behind it; when the schema reads back what it writes, all of it has room and
the packing is busy finitely often, then reading the queue -- within a pull per delivery and one per
refusal -- emits exactly the readable deliveries that waited and the orders placed, each once; accepts
as many deliveries, those that waited by their tags, discards exactly the unreadable ones, and leaves nothing on the queue.\<close>

theorem placed_orders_are_shipped:
  assumes "opens from_resource" and "patient packing patience" and "schema_lawful shape"
    and "prepared b q" and "map (EncodeJSON shape) orders = map Inr documents"
    and "length (backlog q) + length orders \<le> capacity"
  shows "\<exists>b1 us pulls b2 p' shipped placed.
     for_each (Place in_process shape) orders b = (b1, Inr us) \<and>
     collect pulls (Ship from_resource (beside_consumer in_process_consumer) shape (\<lambda>order. on_second (packing order))) (b1, p) =
       ((b2, p'), shipped, None) \<and> pulls \<le> length (backlog q) + length orders + patience p \<and>
     mset shipped = mset (readable shape (backlog q)) + mset orders \<and>
     mset (acks b2) = mset (acks b) + mset (tags_of shape True (backlog q)) + mset placed \<and> length placed = length orders \<and>
     mset (discards b2) = mset (discards b) + mset (tags_of shape False (backlog q)) \<and> Depth b2 Shipping = 0"
proof -
  obtain b1 q1 us ds where b1: "for_each (Place in_process shape) orders b = (b1, Inr us)" "prepared b1 q1"
    "acks b1 = acks b" "discards b1 = discards b" "backlog q1 = backlog q @ ds" "map d_Body ds = documents"
    using Place_all [OF assms(4,6,5)] by auto
  note read = all_readable [OF b1(6) assms(5,3)]
  have many: "length ds = length orders" using b1(6) map_eq_imp_length_eq [OF assms(5)] by (metis length_map)
  have "map_of (queues b1) Shipping = Some q1" using b1(2) by (simp add: prepared_def)
  then obtain pulls where pulls: "pulls \<le> length (backlog q1) + patience p"
    "ships_all (Ship from_resource (beside_consumer in_process_consumer) shape (\<lambda>order. on_second (packing order)))
       shape (backlog q1) pulls b1 p"
    using shipping_runs [OF assms(1,2) _ refl, of b1 q1 p shape] assms(6) b1(5) many by auto
  obtain b2 p' shipped where ends: "collect pulls (Ship from_resource (beside_consumer in_process_consumer) shape
      (\<lambda>order. on_second (packing order))) (b1, p) = ((b2, p'), shipped, None)" "Depth b2 Shipping = 0"
    "mset shipped = mset (readable shape (backlog q1))" "mset (acks b2) = mset (acks b1) + mset (tags_of shape True (backlog q1))"
    "mset (discards b2) = mset (discards b1) + mset (tags_of shape False (backlog q1))"
    using pulls(2) unfolding ships_all_def by blast
  show ?thesis
    by (intro exI [of _ b1] exI [of _ us] exI [of _ pulls] exI [of _ b2] exI [of _ p'] exI [of _ shipped]
        exI [of _ "tags_of shape True ds"] conjI)
      (use pulls(1) ends b1 read many in \<open>simp_all add: add.assoc\<close>)
qed

text \<open>A packing that is busy so many times, and a schema whose documents are the references.\<close>

definition busy_packing :: "Order \<Rightarrow> nat \<Rightarrow> nat \<times> (Fault, unit) result" where
  "busy_packing order n = (if n = 0 then (0, Inr ()) else (n - 1, Inl (faultOf ''pack'' (Reference order) ''busy'')))"

definition referenced :: "string \<Rightarrow> Order" where
  "referenced r = \<lparr>Reference = r, Item = ''item'', Quantity = 1\<rparr>"

definition by_reference :: "Order Schema" where
  "by_reference =
     \<lparr>EncodeJSON = (\<lambda>order. if order = referenced (Reference order) \<and> Reference order \<noteq> [] then Inr (Reference order) else Inl ''not so''),
      DecodeJSON = (\<lambda>r. if r = [] then Inl ''empty'' else Inr (referenced r))\<rparr>"

definition plain_resource :: "('w, 'a) from_resource" where
  "plain_resource acquire release use w = (case acquire w of (w', Inl fault) \<Rightarrow> (w', Inl fault) | (w', Inr s) \<Rightarrow> use s w')"

text \<open>A broker on which an empty message and an order wait already.\<close>

definition left_over :: "string \<Rightarrow> nat \<Rightarrow> Delivery" where
  "left_over document n = copy_for \<lparr>to_Exchange = Orders, to_Key = Placed\<rparr> (order_message document) n"

definition waiting_broker :: Broker where
  "waiting_broker = (fst (Prepare in_process_declarer NewBroker))
     \<lparr>queues := [(Shipping, \<lparr>backlog = [left_over [] 1, left_over ''c'' 2], unsettled = []\<rparr>)], last_tag := 2\<rparr>"

lemma waiting_prepared:
  "prepared waiting_broker \<lparr>backlog = [left_over [] 1, left_over ''c'' 2], unsettled = []\<rparr>"
  "acks waiting_broker = []" "discards waiting_broker = []"
proof -
  obtain b where "Prepare in_process_declarer NewBroker = (b, Inr ())" "prepared b \<lparr>backlog = [], unsettled = []\<rparr>"
    "acks b = []" "discards b = []" using Prepare_new by blast
  then show "prepared waiting_broker \<lparr>backlog = [left_over [] 1, left_over ''c'' 2], unsettled = []\<rparr>"
    "acks waiting_broker = []" "discards waiting_broker = []"
    by (simp_all add: waiting_broker_def prepared_def)
qed

theorem placed_orders_are_shipped_witness:
  "\<exists>b1 us pulls b2 p' shipped placed.
     for_each (Place in_process by_reference) [referenced ''a'', referenced ''b''] waiting_broker = (b1, Inr us) \<and>
     collect pulls (Ship plain_resource (beside_consumer in_process_consumer) by_reference (\<lambda>order. on_second (busy_packing order))) (b1, 3) =
       ((b2, p'), shipped, None) \<and> pulls \<le> 7 \<and>
     mset shipped = {#referenced ''a'', referenced ''b'', referenced ''c''#} \<and>
     mset (acks b2) = add_mset 2 (mset placed) \<and> length placed = 2 \<and> mset (discards b2) = {#1#} \<and> Depth b2 Shipping = 0"
proof -
  have opened: "opens (plain_resource :: (Broker \<times> nat, (Broker \<times> nat, Order) Envelope) from_resource)"
    by (simp add: opens_def plain_resource_def)
  have patient: "patient busy_packing (\<lambda>n. n)" by (simp add: patient_def busy_packing_def)
  have lawful: "schema_lawful by_reference" by (auto simp: schema_lawful_def by_reference_def split: if_splits)
  have encoded: "map (EncodeJSON by_reference) [referenced ''a'', referenced ''b''] = map Inr [''a'', ''b'']"
    by (simp add: by_reference_def referenced_def)
  let ?left = "[left_over [] 1, left_over ''c'' 2]"
  have few: "length (backlog \<lparr>backlog = ?left, unsettled = []\<rparr>) + length [referenced ''a'', referenced ''b''] \<le> capacity"
    by (simp add: capacity_def)
  have numbers: "length ?left + 2 + 3 = 7"
    "mset (readable by_reference ?left) + mset [referenced ''a'', referenced ''b''] = {#referenced ''a'', referenced ''b'', referenced ''c''#}"
    "mset (tags_of by_reference True ?left) = {#2#}" "mset (tags_of by_reference False ?left) = {#1#}"
    "length [referenced ''a'', referenced ''b''] = 2"
    by (simp_all add: left_over_def copy_for_def order_message_def by_reference_def)
  have sum: "mset [] + {#2#} + mset placed = add_mset 2 (mset placed)" "mset [] + {#1#} = {#1::nat#}" for placed :: "nat list"
    by simp_all
  show ?thesis
    using placed_orders_are_shipped [OF opened patient lawful waiting_prepared(1) encoded few, where p = 3]
    unfolding queue.select_convs waiting_prepared(2,3) numbers(2-5) sum unfolding numbers(1) by blast
qed

end
