(* ===== verification/Example_Consign.thy ===== *)
theory Example_Consign
  imports Amqp10_Client
begin

text \<open>
  A program that hands shipments to a carrier over AMQP 1.0 (\<open>examples/consign/consign.go\<close>).

  The schema of a shipment is the schema module's and is an argument, and what the carrier does is
  another. An \<open>Outcome\<close> in Go is an interface, so there is a nil one beside its two; a \<open>Finality\<close>
  is a byte, of which three are named. Run on the in-process broker, each answer of the carrier is
  one disposition and says what the answer said. Two things are not as the source and its documents say:
  a nil \<open>Outcome\<close> counts as a collection, and what is refused as undeliverable here is offered to the same receiver
  again (\<open>not_me_comes_back\<close>); the property is stated of the other answers.
\<close>

section \<open>The program\<close>

record Shipment =
  Reference :: string
  Carrier :: string
  Weight :: float64

type_synonym Finality = "8 word"

definition NotNow :: Finality where "NotNow = 0"
definition NotMe :: Finality where "NotMe = 1"
definition Never :: Finality where "Never = 2"

datatype Outcome = Collection | Refusal Finality string

definition Consignments :: string where "Consignments = ''consignments''"

definition Hand :: "'w SenderLink \<Rightarrow> Shipment Schema \<Rightarrow> Shipment \<Rightarrow> ('w, Fault, unit) fx" where
  "Hand link ShipmentSchema shipment w =
     (case Encode ShipmentSchema shipment of
        Inl err \<Rightarrow> (w, Inl \<lparr>fault_Op = ''hand over a shipment'', fault_Address = [], fault_Err = Some err\<rparr>)
      | Inr message \<Rightarrow> send link (message\<lparr>msg_Durability := Durable, msg_Subject := Reference shipment\<rparr>) w)"

fun annotations :: "string list \<Rightarrow> (string \<times> dynamic) list" where
  "annotations (name # value # pairs) = (name, Text value) # annotations pairs"
| "annotations _ = []"

definition settleConsignment ::
  "('w, Shipment) Envelope \<Rightarrow> Shipment \<Rightarrow> Outcome option \<Rightarrow> ('w, Fault, Shipment list) fx" where
  "settleConsignment envelope shipment outcome =
     (case outcome of
        Some (Refusal finality reason) \<Rightarrow>
          if finality = Never then as_value (reject envelope reason) []
          else as_value (modify envelope
                 \<lparr>DeliveryFailed = (finality = NotNow), UndeliverableHere = (finality = NotMe),
                  change_Annotations = annotations [''refusal-reason'', reason,
                    ''attempts'', digits (unat (Attempts (env_Delivery envelope) + 1))]\<rparr>) []
      | _ \<Rightarrow> as_value (accept envelope) [shipment])"

definition collectConsignment ::
  "('w, Shipment) Envelope \<Rightarrow> (Shipment \<Rightarrow> ('w, Fault, Outcome option) fx) \<Rightarrow> ('w, Fault, Shipment list) fx" where
  "collectConsignment envelope carrier =
     (case env_Read envelope of
        Inl err \<Rightarrow> as_value (reject envelope (''the shipment cannot be read: '' @ Error err)) []
      | Inr shipment \<Rightarrow>
          flat_map (carrier shipment) (\<lambda>outcome. settleConsignment envelope shipment outcome))"

definition Collect ::
  "'w ReceiverLink \<Rightarrow> Shipment Schema \<Rightarrow> (Shipment \<Rightarrow> ('w, Fault, Outcome option) fx) \<Rightarrow> ('w, Fault, Shipment) stream" where
  "Collect link ShipmentSchema carrier =
     collect_stream_effect (Values link ShipmentSchema) (\<lambda>envelope. collectConsignment envelope carrier)"

section \<open>A carrier that is asked again\<close>

text \<open>The in-process receiver beside a carrier whose answers are listed.\<close>

type_synonym answers = "(Fault, Outcome option) result list"

definition beside_receiver :: "string \<Rightarrow> ((Broker \<times> receiver) \<times> 'p) ReceiverLink" where
  "beside_receiver addr =
     (let link = in_process_receiver addr in
      \<lparr>link_Receive = on_first (link_Receive link), receiver_Address = addr,
       link_Accept = (\<lambda>tag. on_first (link_Accept link tag)),
       link_Reject = (\<lambda>tag why. on_first (link_Reject link tag why)),
       link_Release = (\<lambda>tag. on_first (link_Release link tag)),
       link_Modify = (\<lambda>tag change. on_first (link_Modify link tag change)),
       receiver_Detach = on_first (receiver_Detach link)\<rparr>)"

definition answering :: "answers \<Rightarrow> answers \<times> (Fault, Outcome option) result" where
  "answering answers = (case answers of [] \<Rightarrow> ([], Inr None) | a # rest \<Rightarrow> (rest, a))"

definition gives_back :: "(Fault, Outcome option) result \<Rightarrow> bool" where
  "gives_back a \<longleftrightarrow> (\<exists>finality reason. a = Inr (Some (Refusal finality reason)) \<and> finality \<noteq> Never)"

text \<open>What a refusal that gives a delivery back says of it, and what the broker then counts.\<close>

fun change_for :: "32 word \<Rightarrow> (Fault, Outcome option) result \<Rightarrow> Change" where
  "change_for n (Inr (Some (Refusal finality reason))) =
     \<lparr>DeliveryFailed = (finality = NotNow), UndeliverableHere = (finality = NotMe),
      change_Annotations = [(''refusal-reason'', Text reason), (''attempts'', Text (digits (unat (n + 1))))]\<rparr>"
| "change_for n _ = \<lparr>DeliveryFailed = False, UndeliverableHere = False, change_Annotations = []\<rparr>"

definition counted_after :: "32 word \<Rightarrow> (Fault, Outcome option) result \<Rightarrow> 32 word" where
  "counted_after n a = (if UndeliverableHere (change_for n a) then n else n + 1)"

fun changes :: "32 word \<Rightarrow> answers \<Rightarrow> Change list" where
  "changes n [] = []"
| "changes n (a # rest) = change_for n a # changes (counted_after n a) rest"

definition taken_to :: "Broker \<times> receiver \<Rightarrow> Delivery \<Rightarrow> Broker \<times> receiver" where
  "taken_to st d = ((fst st)\<lparr>nodes := (nodes (fst st))(r_address (snd st) \<mapsto> [])\<rparr>,
     (snd st)\<lparr>unsettled := (unsettled (snd st))(del_Tag d \<mapsto> d)\<rparr>)"

lemma Collect_step:
  assumes "nodes (fst st) addr = Some [d]" and "\<not> r_detached (snd st)" and "r_address (snd st) = addr"
  shows "Collect (beside_receiver addr) shape carrier (st, p) =
     flat_map (collectConsignment (decodeDelivery (beside_receiver addr) d shape) carrier) (\<lambda>ys w. (w, Inr (Emit ys)))
       (taken_to st d, p)"
  unfolding Collect_def
proof (rule collect_stream_effect_one)
  have "Receive False st = (taken_to st d, Inr (Some d))"
    using assms by (cases st) (simp add: Receive_def taken_to_def)
  then show "Values (beside_receiver addr) shape (st, p) =
      ((taken_to st d, p), Inr (Emit [decodeDelivery (beside_receiver addr) d shape]))"
    by (simp add: Values_def map_stream_def flat_map_def receive_def beside_receiver_def in_process_receiver_def
        Let_def on_first_def)
qed

lemma Collect_over:
  assumes "nodes (fst st) addr = Some []" and "\<not> r_detached (snd st)" and "r_address (snd st) = addr"
  shows "Collect (beside_receiver addr) shape carrier (st, p) = ((st, p), Inr EndOfStream)"
proof -
  have "Receive False st = (st, Inr None)" using assms by (cases st) (simp add: Receive_def)
  then show ?thesis
    by (simp add: Collect_def collect_stream_effect_def Values_def map_stream_def flat_map_def receive_def
        beside_receiver_def in_process_receiver_def Let_def on_first_def)
qed

lemma modified_in_process:
  assumes "nodes (fst st) addr = Some [d]" and "\<not> r_detached (snd st)" and "r_address (snd st) = addr"
  obtains st' where
    "modify (decodeDelivery (beside_receiver addr) d shape) change (taken_to st d, p) = ((st', p), Inr ())"
    and "nodes (fst st') addr = Some [d\<lparr>Attempts := Attempts d + (if UndeliverableHere change then 0 else 1)\<rparr>]"
    and "modified (fst st') = modified (fst st) @ [(del_Tag d, change)]" "accepted (fst st') = accepted (fst st)"
    "rejected (fst st') = rejected (fst st)" "\<not> r_detached (snd st')" "r_address (snd st') = addr"
proof -
  obtain b link where st: "st = (b, link)" by (cases st)
  obtain st' where "Modify change (del_Tag d) (taken_to st d) = (st', None)"
    "nodes (fst st') addr = Some [d\<lparr>Attempts := Attempts d + (if UndeliverableHere change then 0 else 1)\<rparr>]"
    "modified (fst st') = modified (fst st) @ [(del_Tag d, change)]" "accepted (fst st') = accepted (fst st)"
    "rejected (fst st') = rejected (fst st)" "\<not> r_detached (snd st')" "r_address (snd st') = addr"
    using assms by (simp add: Modify_def settle_def taken_to_def st redeliver_def Let_def)
  moreover from this(1) have
    "modify (decodeDelivery (beside_receiver addr) d shape) change (taken_to st d, p) = ((st', p), Inr ())"
    by (simp add: modify_def settleDelivery_def decodeDelivery_def beside_receiver_def in_process_receiver_def
        Let_def try_fx_def on_first_def)
  ultimately show ?thesis using that by blast
qed

lemma accepted_in_process:
  assumes "nodes (fst st) addr = Some [d]" and "\<not> r_detached (snd st)" and "r_address (snd st) = addr"
  obtains st1 st2 where
    "accept (decodeDelivery (beside_receiver addr) d shape) (taken_to st d, p) = ((st1, p), Inr ())"
    "nodes (fst st1) addr = Some []" "modified (fst st1) = modified (fst st)" "accepted (fst st1) = accepted (fst st) @ [del_Tag d]"
    "rejected (fst st1) = rejected (fst st)" "\<not> r_detached (snd st1)" "r_address (snd st1) = addr" "owed st1 (del_Tag d) = None"
    and "reject (decodeDelivery (beside_receiver addr) d shape) why (taken_to st d, p) = ((st2, p), Inr ())"
    "nodes (fst st2) addr = Some []" "modified (fst st2) = modified (fst st)" "accepted (fst st2) = accepted (fst st)"
    "rejected (fst st2) = rejected (fst st) @ [(del_Tag d, why)]" "\<not> r_detached (snd st2)" "r_address (snd st2) = addr"
    "owed st2 (del_Tag d) = None"
proof -
  obtain b link where st: "st = (b, link)" by (cases st)
  obtain st1 where st1: "Accept (del_Tag d) (taken_to st d) = (st1, None)" "nodes (fst st1) addr = Some []"
    "modified (fst st1) = modified (fst st)" "accepted (fst st1) = accepted (fst st) @ [del_Tag d]"
    "rejected (fst st1) = rejected (fst st)" "\<not> r_detached (snd st1)" "r_address (snd st1) = addr" "owed st1 (del_Tag d) = None"
    using assms by (simp add: Accept_def settle_def taken_to_def st owed_def)
  obtain st2 where st2: "Reject why (del_Tag d) (taken_to st d) = (st2, None)" "nodes (fst st2) addr = Some []"
    "modified (fst st2) = modified (fst st)" "accepted (fst st2) = accepted (fst st)"
    "rejected (fst st2) = rejected (fst st) @ [(del_Tag d, why)]" "\<not> r_detached (snd st2)" "r_address (snd st2) = addr"
    "owed st2 (del_Tag d) = None"
    using assms by (simp add: Reject_def settle_def taken_to_def st owed_def)
  show ?thesis
    by (rule that [OF _ st1(2-8) _ st2(2-8)])
      (simp_all add: accept_def reject_def settleDelivery_def decodeDelivery_def beside_receiver_def in_process_receiver_def
        Let_def try_fx_def on_first_def st1(1) st2(1))
qed

section \<open>Answers become dispositions\<close>

definition shipped_by :: "(Fault, Outcome option) result \<Rightarrow> 'a \<Rightarrow> 'a list" where
  "shipped_by a x = (if a \<in> {Inr None, Inr (Some Collection)} then [x] else [])"

fun refused_by :: "(Fault, Outcome option) result \<Rightarrow> 'a \<Rightarrow> ('a \<times> string) list" where
  "refused_by (Inr (Some (Refusal finality why))) x = [(x, why)]"
| "refused_by _ x = []"

definition end_by :: "(Fault, Outcome option) result \<Rightarrow> Fault ending" where
  "end_by a = (case a of Inl fault \<Rightarrow> FailedWith fault | Inr _ \<Rightarrow> Ended)"

definition delivery_after :: "Delivery \<Rightarrow> answers \<Rightarrow> Delivery" where
  "delivery_after d outs = d\<lparr>Attempts := foldl counted_after (Attempts d) outs\<rparr>"

definition attached_to :: "Broker \<times> receiver \<Rightarrow> string \<Rightarrow> Delivery list \<Rightarrow> bool" where
  "attached_to st addr ds \<longleftrightarrow> nodes (fst st) addr = Some ds \<and> \<not> r_detached (snd st) \<and> r_address (snd st) = addr"

lemma gives_back_cases:
  assumes "gives_back a"
  obtains finality reason where "a = Inr (Some (Refusal finality reason))" "finality \<noteq> Never"
  using assms by (auto simp: gives_back_def)

lemma given_back_step:
  assumes "attached_to st addr [d]" and "gives_back a" and "DecodeJSON shape (del_Body d) = Inr shipment"
  obtains st' where
    "Collect (beside_receiver addr) shape (\<lambda>_. on_second answering) (st, a # rest) = ((st', rest), Inr (Emit []))"
    and "attached_to st' addr [d\<lparr>Attempts := counted_after (Attempts d) a\<rparr>]"
    and "modified (fst st') = modified (fst st) @ [(del_Tag d, change_for (Attempts d) a)]"
    "accepted (fst st') = accepted (fst st)" "rejected (fst st') = rejected (fst st)"
proof -
  from assms(1) have at: "nodes (fst st) addr = Some [d]" "\<not> r_detached (snd st)" "r_address (snd st) = addr"
    by (simp_all add: attached_to_def)
  from assms(2) obtain finality reason where a: "a = Inr (Some (Refusal finality reason))" "finality \<noteq> Never"
    by (rule gives_back_cases)
  let ?e = "decodeDelivery (beside_receiver addr) d shape :: ((Broker \<times> receiver) \<times> answers, Shipment) Envelope"
  let ?change = "change_for (Attempts d) a"
  have read: "env_Read ?e = Inr shipment" "env_Delivery ?e = d" by (simp_all add: decodeDelivery_def assms(3))
  obtain st' where st': "modify ?e ?change (taken_to st d, rest) = ((st', rest), Inr ())"
    "nodes (fst st') addr = Some [d\<lparr>Attempts := Attempts d + (if UndeliverableHere ?change then 0 else 1)\<rparr>]"
    "modified (fst st') = modified (fst st) @ [(del_Tag d, ?change)]" "accepted (fst st') = accepted (fst st)"
    "rejected (fst st') = rejected (fst st)" "\<not> r_detached (snd st')" "r_address (snd st') = addr"
    by (rule modified_in_process [OF at])
  have "settleConsignment ?e shipment (Some (Refusal finality reason)) = as_value (modify ?e ?change) []"
    using a by (simp add: settleConsignment_def read)
  then have "collectConsignment ?e (\<lambda>_. on_second answering) (taken_to st d, a # rest) = ((st', rest), Inr [])"
    using st'(1) by (simp add: collectConsignment_def read on_second_def answering_def a flat_map_def as_value_def)
  then have "Collect (beside_receiver addr) shape (\<lambda>_. on_second answering) (st, a # rest) = ((st', rest), Inr (Emit []))"
    unfolding Collect_step [OF at] by simp
  moreover have "attached_to st' addr [d\<lparr>Attempts := counted_after (Attempts d) a\<rparr>]"
    using st'(2,6,7) by (simp add: attached_to_def counted_after_def split: if_splits)
  ultimately show ?thesis using that st'(3-5) by blast
qed

text \<open>Where an answer that does not give a delivery back leaves it.\<close>

definition settled_by :: "(Fault, Outcome option) result \<Rightarrow> Delivery \<Rightarrow> Broker \<times> receiver \<Rightarrow> Broker \<times> receiver \<Rightarrow> bool" where
  "settled_by final d st st' \<longleftrightarrow>
     accepted (fst st') = accepted (fst st) @ shipped_by final (del_Tag d) \<and>
     rejected (fst st') = rejected (fst st) @ refused_by final (del_Tag d) \<and>
     owed st' (del_Tag d) = (case final of Inl _ \<Rightarrow> Some d | Inr _ \<Rightarrow> None)"

lemma final_step:
  assumes "attached_to st addr [d]" and "\<not> gives_back final" and "DecodeJSON shape (del_Body d) = Inr shipment"
  obtains st' where
    "collect 2 (Collect (beside_receiver addr) shape (\<lambda>_. on_second answering)) (st, [final]) =
       ((st', []), shipped_by final shipment, Some (end_by final))"
    and "attached_to st' addr []" "modified (fst st') = modified (fst st)" "settled_by final d st st'"
proof -
  note found = that
  from assms(1) have at: "nodes (fst st) addr = Some [d]" "\<not> r_detached (snd st)" "r_address (snd st) = addr"
    by (simp_all add: attached_to_def)
  let ?e = "decodeDelivery (beside_receiver addr) d shape :: ((Broker \<times> receiver) \<times> answers, Shipment) Envelope"
  let ?collect = "Collect (beside_receiver addr) shape (\<lambda>_. on_second answering)"
  have read: "env_Read ?e = Inr shipment" by (simp add: decodeDelivery_def assms(3))
  have asked: "?collect (st, [final]) = flat_map (\<lambda>w. case final of Inl fault \<Rightarrow> (w, Inl fault)
        | Inr outcome \<Rightarrow> settleConsignment ?e shipment outcome w) (\<lambda>ys w. (w, Inr (Emit ys))) (taken_to st d, [])"
    unfolding Collect_step [OF at]
    by (simp add: collectConsignment_def read on_second_def answering_def flat_map_def split: sum.split)
  have over: "collect (Suc 0) ?collect (st', []) = ((st', []), [], Some Ended)" if "attached_to st' addr []" for st'
    using that by (simp add: attached_to_def Collect_over)
  show ?thesis
  proof (cases final)
    case (Inl fault)
    have "?collect (st, [final]) = ((taken_to st d, []), Inl fault)" unfolding asked by (simp add: Inl flat_map_def)
    then show ?thesis
      using at Inl by (intro found [of "taken_to st d"])
        (simp_all add: numeral_2_eq_2 shipped_by_def end_by_def attached_to_def taken_to_def settled_by_def owed_def)
  next
    case (Inr outcome)
    have answered: thesis if "settleConsignment ?e shipment outcome (taken_to st d, []) = ((st', []), Inr (shipped_by final shipment))"
      and "attached_to st' addr []" "modified (fst st') = modified (fst st)" "settled_by final d st st'" for st'
    proof -
      have "?collect (st, [final]) = ((st', []), Inr (Emit (shipped_by final shipment)))"
        unfolding asked using that(1) by (simp add: Inr flat_map_def)
      then have "collect 2 ?collect (st, [final]) = ((st', []), shipped_by final shipment, Some Ended)"
        using over [OF \<open>attached_to st' addr []\<close>] by (simp add: numeral_2_eq_2)
      then show thesis
        using that(2-4) Inr by (intro found [of st']) (simp_all add: end_by_def)
    qed
    show ?thesis
    proof (cases "\<exists>why. outcome = Some (Refusal Never why)")
      case True
      then obtain why where why: "outcome = Some (Refusal Never why)" by blast
      obtain st2 where st2: "reject ?e why (taken_to st d, []) = ((st2, []), Inr ())" "nodes (fst st2) addr = Some []"
        "modified (fst st2) = modified (fst st)" "accepted (fst st2) = accepted (fst st)"
        "rejected (fst st2) = rejected (fst st) @ [(del_Tag d, why)]" "\<not> r_detached (snd st2)" "r_address (snd st2) = addr"
        "owed st2 (del_Tag d) = None" by (rule accepted_in_process [OF at])
      show ?thesis
        by (rule answered [of st2])
          (simp_all add: settleConsignment_def why Inr st2 shipped_by_def attached_to_def settled_by_def)
    next
      case False
      then have taken: "final \<in> {Inr None, Inr (Some Collection)}"
        using assms(2) Inr by (cases outcome; cases "the outcome") (auto simp: gives_back_def)
      obtain st1 where st1: "accept ?e (taken_to st d, []) = ((st1, []), Inr ())" "nodes (fst st1) addr = Some []"
        "modified (fst st1) = modified (fst st)" "accepted (fst st1) = accepted (fst st) @ [del_Tag d]"
        "rejected (fst st1) = rejected (fst st)" "\<not> r_detached (snd st1)" "r_address (snd st1) = addr"
        "owed st1 (del_Tag d) = None" by (rule accepted_in_process [OF at])
      from taken show ?thesis
        by (intro answered [of st1])
          (auto simp: settleConsignment_def Inr st1 shipped_by_def attached_to_def settled_by_def)
    qed
  qed
qed

lemma offered_until_settled:
  assumes "attached_to st addr [d]" and "list_all gives_back outs" and "\<not> gives_back final"
    and "DecodeJSON shape (del_Body d) = Inr shipment"
  shows "\<exists>st'. collect (length outs + 2) (Collect (beside_receiver addr) shape (\<lambda>_. on_second answering)) (st, outs @ [final]) =
       ((st', []), shipped_by final shipment, Some (end_by final)) \<and>
     attached_to st' addr [] \<and> modified (fst st') = modified (fst st) @ map (Pair (del_Tag d)) (changes (Attempts d) outs) \<and>
     settled_by final (delivery_after d outs) st st'"
  using assms
proof (induction outs arbitrary: st d)
  case Nil
  obtain st' where "collect 2 (Collect (beside_receiver addr) shape (\<lambda>_. on_second answering)) (st, [final]) =
       ((st', []), shipped_by final shipment, Some (end_by final))"
    "attached_to st' addr []" "modified (fst st') = modified (fst st)" "settled_by final d st st'"
    using final_step [OF Nil.prems(1,3,4)] by blast
  then show ?case by (intro exI [of _ st']) (simp add: numeral_2_eq_2 delivery_after_def)
next
  case (Cons a outs)
  from Cons.prems(2) have "gives_back a" "list_all gives_back outs" by simp_all
  let ?d = "d\<lparr>Attempts := counted_after (Attempts d) a\<rparr>"
  obtain st1 where st1:
    "Collect (beside_receiver addr) shape (\<lambda>_. on_second answering) (st, a # outs @ [final]) = ((st1, outs @ [final]), Inr (Emit []))"
    "attached_to st1 addr [?d]"
    "modified (fst st1) = modified (fst st) @ [(del_Tag d, change_for (Attempts d) a)]"
    "accepted (fst st1) = accepted (fst st)" "rejected (fst st1) = rejected (fst st)"
    by (rule given_back_step [OF Cons.prems(1) \<open>gives_back a\<close> Cons.prems(4)])
  from Cons.IH [OF st1(2) \<open>list_all gives_back outs\<close> Cons.prems(3)] Cons.prems(4) obtain st' where st':
    "collect (length outs + 2) (Collect (beside_receiver addr) shape (\<lambda>_. on_second answering)) (st1, outs @ [final]) =
       ((st', []), shipped_by final shipment, Some (end_by final))" "attached_to st' addr []"
    "modified (fst st') = modified (fst st1) @ map (Pair (del_Tag ?d)) (changes (Attempts ?d) outs)"
    "settled_by final (delivery_after ?d outs) st1 st'" by auto
  have "settled_by final (delivery_after d (a # outs)) st st'"
    using st'(4) st1(4,5) by (simp add: settled_by_def delivery_after_def)
  with st1(1,3) st'(1-3) show ?case by (intro exI [of _ st']) simp
qed

lemma Hand_in_process:
  assumes "nodes b addr = Some []" and "\<not> s_detached out_link" and "s_address out_link = addr"
    and "EncodeJSON shape shipment = Inr document"
  obtains b1 d where "Hand (in_process_sender out_link) shape shipment (b, link) = ((b1, link), Inr ())"
    "nodes b1 addr = Some [d]" "del_Body d = document" "del_Subject d = Reference shipment" "Attempts d = 0"
    "modified b1 = modified b" "accepted b1 = accepted b" "rejected b1 = rejected b"
  using assms by (simp add: Hand_def Encode_def send_def in_process_sender_def try_fx_def Send_def Let_def)

text \<open>A shipment the carrier says is not for this receiver is offered to this receiver again, no attempt counted.\<close>

lemma not_me_comes_back:
  assumes "attached_to st addr [d]" and "DecodeJSON shape (del_Body d) = Inr shipment"
  shows "\<exists>st'. Collect (beside_receiver addr) shape (\<lambda>_. on_second answering) (st, Inr (Some (Refusal NotMe why)) # rest) =
      ((st', rest), Inr (Emit [])) \<and> attached_to st' addr [d]"
proof -
  have given: "gives_back (Inr (Some (Refusal NotMe why)))" by (simp add: gives_back_def NotMe_def Never_def)
  have "counted_after (Attempts d) (Inr (Some (Refusal NotMe why))) = Attempts d" by (simp add: counted_after_def)
  then have same: "d\<lparr>Attempts := counted_after (Attempts d) (Inr (Some (Refusal NotMe why)))\<rparr> = d" by simp
  show ?thesis
    by (rule given_back_step [OF assms(1) given assms(2), where rest = rest]) (unfold same, blast)
qed

text \<open>An answer that lets a shipment wait, and one that is the last on it.\<close>

definition tries_later :: "(Fault, Outcome option) result \<Rightarrow> bool" where
  "tries_later a \<longleftrightarrow> (case a of Inr (Some (Refusal finality _)) \<Rightarrow> finality = NotNow | _ \<Rightarrow> False)"

definition decides :: "(Fault, Outcome option) result \<Rightarrow> bool" where
  "decides a \<longleftrightarrow> (case a of Inl _ \<Rightarrow> True | Inr None \<Rightarrow> False | Inr (Some Collection) \<Rightarrow> True
     | Inr (Some (Refusal finality _)) \<Rightarrow> finality = Never)"

lemma tries_later_gives_back: "tries_later a \<Longrightarrow> gives_back a"
  by (auto simp: tries_later_def gives_back_def NotNow_def Never_def split: sum.splits option.splits Outcome.splits)

lemma decides_keeps: "decides a \<Longrightarrow> \<not> gives_back a"
  by (auto simp: decides_def gives_back_def)

text \<open>C18: A shipment handed to an empty node is settled as the carrier answers. For each refusal for now it is
given back as tried, with the reason and the number of the attempt, and offered again; then it is accepted and
emitted when the carrier collects it, rejected with the reason and not emitted when the carrier never will, and
still owed when asking the carrier fails, which ends the stream as that fault. The node is empty then, and
nothing else is accepted, rejected or modified.\<close>

theorem answers_become_dispositions:
  assumes "nodes b Consignments = Some []" and "\<not> s_detached out_link" and "s_address out_link = Consignments"
    and "\<not> r_detached link" and "r_address link = Consignments"
    and "schema_lawful shape" and "EncodeJSON shape shipment = Inr document"
    and "list_all tries_later outs" and "decides final"
  shows "\<exists>b1 st' tag.
     Hand (in_process_sender out_link) shape shipment (b, link) = ((b1, link), Inr ()) \<and>
     collect (length outs + 2) (Collect (beside_receiver Consignments) shape (\<lambda>_. on_second answering)) ((b1, link), outs @ [final]) =
       ((st', []), shipped_by final shipment, Some (end_by final)) \<and>
     modified (fst st') = modified b @ map (Pair tag) (changes 0 outs) \<and>
     accepted (fst st') = accepted b @ shipped_by final tag \<and>
     rejected (fst st') = rejected b @ refused_by final tag \<and>
     Depth (fst st') Consignments = 0 \<and> (owed st' tag \<noteq> None \<longleftrightarrow> isl final)"
proof -
  obtain b1 d where b1: "Hand (in_process_sender out_link) shape shipment (b, link) = ((b1, link), Inr ())"
    "nodes b1 Consignments = Some [d]" "del_Body d = document" "Attempts d = 0"
    "modified b1 = modified b" "accepted b1 = accepted b" "rejected b1 = rejected b"
    by (rule Hand_in_process [OF assms(1-3,7)])
  have "attached_to (b1, link) Consignments [d]" using b1(2) assms(4,5) by (simp add: attached_to_def)
  moreover have "DecodeJSON shape (del_Body d) = Inr shipment" using assms(6,7) b1(3) by (simp add: schema_lawful_def)
  moreover have "list_all gives_back outs" using assms(8) by (auto simp: list_all_iff tries_later_gives_back)
  ultimately obtain st' where
    "collect (length outs + 2) (Collect (beside_receiver Consignments) shape (\<lambda>_. on_second answering)) ((b1, link), outs @ [final]) =
       ((st', []), shipped_by final shipment, Some (end_by final))" "attached_to st' Consignments []"
    "modified (fst st') = modified b @ map (Pair (del_Tag d)) (changes 0 outs)"
    "settled_by final (delivery_after d outs) (b1, link) st'"
    using offered_until_settled [OF _ _ decides_keeps [OF assms(9)]] b1(4,5) by fastforce
  with b1(1,6,7) show ?thesis
    by (intro exI [of _ b1] exI [of _ st'] exI [of _ "del_Tag d"])
      (simp add: settled_by_def delivery_after_def attached_to_def Depth_def split: sum.splits)
qed

definition referenced :: "string \<Rightarrow> float64 \<Rightarrow> Shipment" where
  "referenced r w = \<lparr>Reference = r, Carrier = ''c'', Weight = w\<rparr>"

definition by_reference :: "float64 \<Rightarrow> Shipment Schema" where
  "by_reference weight =
     \<lparr>EncodeJSON = (\<lambda>shipment. if shipment = referenced (Reference shipment) weight then Inr (Reference shipment) else Inl ''not so''),
      DecodeJSON = (\<lambda>r. Inr (referenced r weight))\<rparr>"

definition fresh_link :: receiver where
  "fresh_link = \<lparr>r_address = Consignments, unsettled = Map.empty, r_detached = False\<rparr>"

definition hesitating :: answers where
  "hesitating = [Inr (Some (Refusal NotNow ''full'')), Inr (Some (Refusal NotNow ''still full''))]"

theorem answers_become_dispositions_witness:
  "\<forall>weight. \<exists>b1 st' tag.
     Hand (in_process_sender \<lparr>s_address = Consignments, s_detached = False\<rparr>) (by_reference weight) (referenced ''r'' weight)
       (Declare NewBroker Consignments, fresh_link) = ((b1, fresh_link), Inr ()) \<and>
     collect 4 (Collect (beside_receiver Consignments) (by_reference weight) (\<lambda>_. on_second answering))
       ((b1, fresh_link), hesitating @ [Inr (Some Collection)]) = ((st', []), [referenced ''r'' weight], Some Ended) \<and>
     map (\<lambda>(_, change). (DeliveryFailed change, UndeliverableHere change)) (modified (fst st')) = [(True, False), (True, False)] \<and>
     accepted (fst st') = [tag]"
proof
  fix weight
  have node: "nodes (Declare NewBroker Consignments) Consignments = Some []" "modified (Declare NewBroker Consignments) = []"
    "accepted (Declare NewBroker Consignments) = []" by (simp_all add: Declare_def NewBroker_def)
  have link: "\<not> s_detached \<lparr>s_address = Consignments, s_detached = False\<rparr>"
    "s_address \<lparr>s_address = Consignments, s_detached = False\<rparr> = Consignments"
    "\<not> r_detached fresh_link" "r_address fresh_link = Consignments" by (simp_all add: fresh_link_def)
  have lawful: "schema_lawful (by_reference weight)" "EncodeJSON (by_reference weight) (referenced ''r'' weight) = Inr ''r''"
    by (auto simp: schema_lawful_def by_reference_def referenced_def split: if_splits)
  have answers: "list_all tries_later hesitating" "decides (Inr (Some Collection))"
    by (simp_all add: hesitating_def tries_later_def decides_def)
  have trace: "map (\<lambda>(_, change). (DeliveryFailed change, UndeliverableHere change)) (map (Pair tag) (changes 0 hesitating)) =
       [(True, False), (True, False)]" for tag :: string
    by (simp add: hesitating_def NotNow_def NotMe_def)
  have four: "length hesitating + 2 = 4" by (simp add: hesitating_def)
  obtain b1 st' tag where
    "Hand (in_process_sender \<lparr>s_address = Consignments, s_detached = False\<rparr>) (by_reference weight) (referenced ''r'' weight)
       (Declare NewBroker Consignments, fresh_link) = ((b1, fresh_link), Inr ())"
    "collect 4 (Collect (beside_receiver Consignments) (by_reference weight) (\<lambda>_. on_second answering))
       ((b1, fresh_link), hesitating @ [Inr (Some Collection)]) = ((st', []), [referenced ''r'' weight], Some Ended)"
    "modified (fst st') = map (Pair tag) (changes 0 hesitating)" "accepted (fst st') = [tag]"
    using answers_become_dispositions [OF node(1) link lawful answers] unfolding four
    by (simp add: node(2,3) shipped_by_def end_by_def del: split_paired_Ex split_paired_All) blast
  with trace [of tag] show "\<exists>b1 st' tag.
     Hand (in_process_sender \<lparr>s_address = Consignments, s_detached = False\<rparr>) (by_reference weight) (referenced ''r'' weight)
       (Declare NewBroker Consignments, fresh_link) = ((b1, fresh_link), Inr ()) \<and>
     collect 4 (Collect (beside_receiver Consignments) (by_reference weight) (\<lambda>_. on_second answering))
       ((b1, fresh_link), hesitating @ [Inr (Some Collection)]) = ((st', []), [referenced ''r'' weight], Some Ended) \<and>
     map (\<lambda>(_, change). (DeliveryFailed change, UndeliverableHere change)) (modified (fst st')) = [(True, False), (True, False)] \<and>
     accepted (fst st') = [tag]"
    by (intro exI [of _ b1] exI [of _ st'] exI [of _ tag]) simp
qed

end
