(* ===== verification/Go_Float.thy ===== *)
theory Go_Float
  imports Complex_Main "HOL-Library.Word"
begin

text \<open>
  As much of Go's \<open>float64\<close> as the programs compute with: a finite value is a whole number times a
  power of two, an operation rounds to the nearest value of 53 bits and, between two, to the even one,
  and a conversion to \<open>int64\<close> drops the fraction. The sign of a zero is not kept: nothing here
  depends on it. Converting a value that no \<open>int64\<close> has is the implementation's choice, and an argument.

  What is proved is what a caller of the conversion needs: rounding a product crosses no whole number.
\<close>

section \<open>Values and operations\<close>

datatype float = NaN | Infinite bool | Finite int int

fun bits :: "nat \<Rightarrow> nat" where
  "bits m = (if m = 0 then 0 else Suc (bits (m div 2)))"

declare bits.simps [simp del]

definition finite_or_infinite :: "int \<Rightarrow> int \<Rightarrow> float" where
  "finite_or_infinite m e =
     (if m \<noteq> 0 \<and> 1024 < int (bits (nat \<bar>m\<bar>)) + e then Infinite (m < 0) else Finite m e)"

text \<open>The whole number nearest to \<open>m / 2 ^ k\<close>, the even one of two.\<close>

definition nearest :: "nat \<Rightarrow> nat \<Rightarrow> nat" where
  "nearest m k =
     (let q = m div 2 ^ k; r = m mod 2 ^ k
      in if 2 ^ k < 2 * r \<or> (2 * r = 2 ^ k \<and> odd q) then Suc q else q)"

definition rounded :: "int \<Rightarrow> int \<Rightarrow> float" where
  "rounded m e =
     (let shift = max (int (bits (nat \<bar>m\<bar>)) - 53) (- 1074 - e)
      in if shift \<le> 0 then finite_or_infinite m e
         else finite_or_infinite (sgn m * int (nearest (nat \<bar>m\<bar>) (nat shift))) (e + shift))"

fun float_times :: "float \<Rightarrow> float \<Rightarrow> float" where
  "float_times (Finite m e) (Finite n f) = rounded (m * n) (e + f)"
| "float_times (Infinite s) (Infinite t) = Infinite (s \<noteq> t)"
| "float_times (Infinite s) (Finite n f) = (if n = 0 then NaN else Infinite (s \<noteq> (n < 0)))"
| "float_times (Finite m e) (Infinite t) = (if m = 0 then NaN else Infinite (t \<noteq> (m < 0)))"
| "float_times _ _ = NaN"

fun float_above :: "float \<Rightarrow> float \<Rightarrow> bool" where
  "float_above (Finite m e) (Finite n f) \<longleftrightarrow> n * 2 ^ nat (f - min e f) < m * 2 ^ nat (e - min e f)"
| "float_above (Infinite s) (Infinite t) \<longleftrightarrow> \<not> s \<and> t"
| "float_above (Infinite s) (Finite n f) \<longleftrightarrow> \<not> s"
| "float_above (Finite m e) (Infinite t) \<longleftrightarrow> t"
| "float_above _ _ \<longleftrightarrow> False"

definition dropped_fraction :: "int \<Rightarrow> int \<Rightarrow> int" where
  "dropped_fraction m e = (if 0 \<le> e then m * 2 ^ nat e else sgn m * (\<bar>m\<bar> div 2 ^ nat (- e)))"

definition to_int64 :: "(float \<Rightarrow> 64 word) \<Rightarrow> float \<Rightarrow> 64 word" where
  "to_int64 other x =
     (case x of
        Finite m e \<Rightarrow>
          (let v = dropped_fraction m e in if - (2 ^ 63) \<le> v \<and> v < 2 ^ 63 then word_of_int v else other x)
      | _ \<Rightarrow> other x)"

section \<open>What a value is\<close>

definition val :: "int \<Rightarrow> int \<Rightarrow> real" where
  "val m e = of_int m * 2 powi e"

lemma val_scale: "0 \<le> k \<Longrightarrow> val (m * 2 ^ nat k) e = val m (e + k)"
proof -
  assume "0 \<le> k"
  then have "(2 :: real) ^ nat k = 2 powi k" by (simp add: power_int_def)
  then show ?thesis by (simp add: val_def power_int_add)
qed

lemma val_less: "val m e < val n e \<longleftrightarrow> m < n" and val_le: "val m e \<le> val n e \<longleftrightarrow> m \<le> n"
  by (simp_all add: val_def)

lemma float_above_val: "float_above (Finite m e) (Finite n f) \<longleftrightarrow> val n f < val m e"
  using val_scale [of "f - min e f" n "min e f"] val_scale [of "e - min e f" m "min e f"]
    val_less [of "n * 2 ^ nat (f - min e f)" "min e f" "m * 2 ^ nat (e - min e f)"] by simp

lemma bits_bounds: "m < 2 ^ bits m" "m \<noteq> 0 \<Longrightarrow> 2 ^ bits m \<le> 2 * m"
proof -
  show "m < 2 ^ bits m"
  proof (induction m rule: bits.induct)
    case (1 m)
    then show ?case by (cases "m = 0") (simp_all add: bits.simps [of m])
  qed
  show "m \<noteq> 0 \<Longrightarrow> 2 ^ bits m \<le> 2 * m"
  proof (induction m rule: bits.induct)
    case (1 m)
    then show ?case by (cases "m div 2 = 0") (auto simp: bits.simps [of m] bits.simps [of 0])
  qed
qed

lemma dropped_fraction_val:
  assumes "0 \<le> m"
  shows "dropped_fraction m e = \<lfloor>val m e\<rfloor>"
proof (cases "0 \<le> e")
  case True
  then have "val m e = of_int (m * 2 ^ nat e)" by (simp add: val_def power_int_def)
  then show ?thesis using True by (simp only: floor_of_int) (simp add: dropped_fraction_def)
next
  case False
  then have "(2 :: real) powi e = inverse (of_int (2 ^ nat (- e)))" by (simp add: power_int_def flip: power_inverse)
  then have "val m e = of_int m / of_int (2 ^ nat (- e))" by (simp only: val_def divide_inverse)
  then have "\<lfloor>val m e\<rfloor> = m div 2 ^ nat (- e)" by (simp only: floor_divide_of_int_eq)
  moreover have "sgn m * (\<bar>m\<bar> div d) = m div d" for d using assms by (cases "m = 0") simp_all
  ultimately show ?thesis using False by (simp add: dropped_fraction_def)
qed

section \<open>Rounding crosses no whole number\<close>

lemma nearest_bounds: "m \<le> n * 2 ^ k \<Longrightarrow> nearest m k \<le> n" "n * 2 ^ k \<le> m \<Longrightarrow> n \<le> nearest m k"
proof -
  assume "m \<le> n * 2 ^ k"
  moreover have "m = m div 2 ^ k * 2 ^ k + m mod 2 ^ k" by (simp only: div_mult_mod_eq)
  ultimately have "m div 2 ^ k \<le> n \<and> (m div 2 ^ k = n \<longrightarrow> m mod 2 ^ k = 0)"
    by (metis add_le_same_cancel1 div_le_mono div_mult_self_is_m le_zero_eq zero_less_numeral zero_less_power)
  then show "nearest m k \<le> n" by (auto simp: nearest_def Let_def)
next
  assume "n * 2 ^ k \<le> m"
  then have "n \<le> m div 2 ^ k" by (simp add: less_eq_div_iff_mult_less_eq)
  then show "n \<le> nearest m k" by (auto simp: nearest_def Let_def)
qed

lemma bits_val:
  assumes "0 < m"
  shows "2 powi (int (bits (nat m)) + e) \<le> 2 * val m e"
proof -
  have "2 ^ bits (nat m) \<le> 2 * nat m" using bits_bounds(2) [of "nat m"] assms by simp
  then have "real (2 ^ bits (nat m)) \<le> real (2 * nat m)" by (simp only: of_nat_le_iff)
  then have "2 powi int (bits (nat m)) \<le> (2 * of_int m :: real)" using assms by simp
  then have "2 powi int (bits (nat m)) * 2 powi e \<le> (2 * of_int m) * (2 powi e :: real)"
    by (rule mult_right_mono) simp
  then show ?thesis by (simp add: power_int_add val_def mult.assoc)
qed

lemma bits_small:
  assumes "0 < m" and "val m e < 2 ^ 53"
  shows "int (bits (nat m)) + e < 54"
proof -
  have "2 powi (int (bits (nat m)) + e) < (2 powi 54 :: real)"
    using bits_val [OF assms(1), of e] assms(2) by simp
  then show ?thesis by (metis power_int_increasing linorder_not_le one_le_numeral)
qed

lemma finite_kept: "0 \<le> m \<Longrightarrow> val m e \<le> 2 ^ 53 \<Longrightarrow> finite_or_infinite m e = Finite m e"
proof -
  assume "0 \<le> m" "val m e \<le> 2 ^ 53"
  moreover have "int (bits (nat m)) + e \<le> 1024" if "0 < m"
  proof -
    have "2 powi (int (bits (nat m)) + e) \<le> (2 powi 54 :: real)"
      using bits_val [OF that, of e] \<open>val m e \<le> 2 ^ 53\<close> by simp
    from power_int_le_imp_le_exp [OF _ this] show ?thesis by simp
  qed
  ultimately show ?thesis by (cases "m = 0") (auto simp: finite_or_infinite_def)
qed

lemma val_whole: "s \<le> 0 \<Longrightarrow> val (int n * 2 ^ nat (- s)) s = real n"
  using val_scale [of "- s" "int n" s] by (simp add: val_def)

lemma rounded_val:
  assumes "0 \<le> m" and "val m e < 2 ^ 53"
  obtains m' e' where "rounded m e = Finite m' e'" and "0 \<le> m'"
    and "\<And>n. val m e \<le> real n \<Longrightarrow> val m' e' \<le> real n" and "\<And>n. real n \<le> val m e \<Longrightarrow> real n \<le> val m' e'"
proof -
  let ?shift = "max (int (bits (nat m)) - 53) (- 1074 - e)"
  show ?thesis
  proof (cases "?shift \<le> 0")
    case True
    then have "rounded m e = Finite m e" using assms finite_kept [of m e] by (simp add: rounded_def Let_def)
    with that assms(1) show ?thesis by blast
  next
    case False
    let ?s = "e + ?shift" and ?q = "nearest (nat m) (nat ?shift)"
    have s: "?s \<le> 0" using bits_small [OF _ assms(2)] assms(1) False by (cases "m = 0") (auto simp: bits.simps [of 0])
    have scaled: "val (int (n * 2 ^ nat (- ?s)) * 2 ^ nat ?shift) e = real n" for n
      using val_scale [of ?shift "int (n * 2 ^ nat (- ?s))" e] val_whole [OF s, of n] False by simp
    have upper: "val (int ?q) ?s \<le> real n" if "val m e \<le> real n" for n
    proof -
      have "m \<le> int (n * 2 ^ nat (- ?s)) * 2 ^ nat ?shift" using that scaled [of n] by (metis val_le)
      then have "nat m \<le> n * 2 ^ nat (- ?s) * 2 ^ nat ?shift" by (simp add: nat_le_iff)
      from nearest_bounds(1) [OF this] show ?thesis
        using val_whole [OF s, of n] val_le [of "int ?q" ?s "int n * 2 ^ nat (- ?s)"]
        by (metis of_nat_le_iff of_nat_mult of_nat_numeral of_nat_power)
    qed
    have lower: "real n \<le> val (int ?q) ?s" if "real n \<le> val m e" for n
    proof -
      have "int (n * 2 ^ nat (- ?s)) * 2 ^ nat ?shift \<le> m" using that scaled [of n] by (metis val_le)
      then have "n * 2 ^ nat (- ?s) * 2 ^ nat ?shift \<le> nat m" using assms(1) by (simp add: le_nat_iff)
      from nearest_bounds(2) [OF this] show ?thesis
        using val_whole [OF s, of n] val_le [of "int n * 2 ^ nat (- ?s)" ?s "int ?q"]
        by (metis of_nat_le_iff of_nat_mult of_nat_numeral of_nat_power)
    qed
    have same: "sgn m * int ?q = int ?q"
      using assms(1) nearest_bounds(1) [of 0 0 "nat ?shift"] by (cases "m = 0") simp_all
    have "val (int ?q) ?s \<le> 2 ^ 53" using upper [of "2 ^ 53"] assms(2) by simp
    then have kept: "finite_or_infinite (sgn m * int ?q) ?s = Finite (int ?q) ?s"
      unfolding same by (intro finite_kept) simp_all
    have "\<bar>m\<bar> = m" using assms(1) by simp
    with False have "rounded m e = Finite (int ?q) ?s" by (simp only: rounded_def Let_def kept if_False)
    with that upper lower show ?thesis by (metis of_nat_0_le_iff)
  qed
qed

text \<open>So a positive product, converted, is the product's whole part or the next whole number up.\<close>

lemma product_to_int64:
  assumes "0 \<le> m" and "0 \<le> n" and "val (m * n) (e + f) < 2 ^ 53"
  shows "\<exists>v. to_int64 other (float_times (Finite m e) (Finite n f)) = word_of_int v \<and>
           \<lfloor>val (m * n) (e + f)\<rfloor> \<le> v \<and> v \<le> \<lceil>val (m * n) (e + f)\<rceil>"
proof -
  let ?x = "val (m * n) (e + f)"
  have nonneg: "0 \<le> m * n" "0 \<le> ?x" using assms(1,2) by (simp_all add: val_def)
  obtain m' e' where r: "rounded (m * n) (e + f) = Finite m' e'" "0 \<le> m'"
    "\<And>k. ?x \<le> real k \<Longrightarrow> val m' e' \<le> real k" "\<And>k. real k \<le> ?x \<Longrightarrow> real k \<le> val m' e'"
    using rounded_val [OF nonneg(1) assms(3)] by metis
  have "val m' e' \<le> real (nat \<lceil>?x\<rceil>)" "real (nat \<lfloor>?x\<rfloor>) \<le> val m' e'"
    using r(3) [of "nat \<lceil>?x\<rceil>"] r(4) [of "nat \<lfloor>?x\<rfloor>"] nonneg(2) by simp_all
  then have "\<lfloor>?x\<rfloor> \<le> \<lfloor>val m' e'\<rfloor>" "\<lfloor>val m' e'\<rfloor> \<le> \<lceil>?x\<rceil>" using nonneg(2) by linarith+
  moreover have "\<lceil>?x\<rceil> \<le> 2 ^ 53" using assms(3) by (simp add: ceiling_le_iff)
  moreover have "0 \<le> \<lfloor>?x\<rfloor>" using nonneg(2) by simp
  moreover have "(2 :: int) ^ 53 < 2 ^ 63" "- (2 ^ 63) \<le> (0 :: int)" by simp_all
  ultimately have within: "\<lfloor>?x\<rfloor> \<le> \<lfloor>val m' e'\<rfloor>" "\<lfloor>val m' e'\<rfloor> \<le> \<lceil>?x\<rceil>"
    "- (2 ^ 63) \<le> \<lfloor>val m' e'\<rfloor> \<and> \<lfloor>val m' e'\<rfloor> < 2 ^ 63" by (blast intro: order_trans le_less_trans)+
  then have "to_int64 other (float_times (Finite m e) (Finite n f)) = word_of_int \<lfloor>val m' e'\<rfloor>"
    by (simp only: to_int64_def float_times.simps r(1) float.case dropped_fraction_val [OF r(2)] Let_def simp_thms if_True)
  with within(1,2) show ?thesis by blast
qed

end
