(* ===== verification/Example_Quote.thy ===== *)
theory Example_Quote
  imports Grpc_Calls Go_Float
begin

text \<open>
  A program that prices shipments over gRPC (\<open>examples/quote/quote.go\<close>): its refusals and what they
  answer with, the price of an enquiry, and the procedure answered at a boundary and asked from
  outside.

  The schemas are the schema module's and are arguments. An effect of the service is its exit: it
  refuses or succeeds and touches nothing. A weight is a \<open>float64\<close>; what the language leaves to the
  implementation of a conversion is the argument \<open>other\<close>.
\<close>

section \<open>The program\<close>

record Enquiry =
  Origin :: string
  Destination :: string
  Kilos :: float

record Rate =
  Carrier :: string
  Currency :: string
  Cents :: "64 word"

type_synonym Reason = "8 word"

definition NoRoute :: Reason where "NoRoute = 0"
definition TooHeavy :: Reason where "TooHeavy = 1"
definition NoCapacity :: Reason where "NoCapacity = 2"

record Refusal =
  refusal_Reason :: Reason
  Details :: string

definition refusal_Error :: "Refusal \<Rightarrow> string" where
  "refusal_Error refused = ''quote: '' @ Details refused"

definition FailureFor :: "Refusal \<Rightarrow> Failure" where
  "FailureFor refused =
     (if refusal_Reason refused = TooHeavy
      then \<lparr>failure_Code = FailedPrecondition, failure_Message = Details refused\<rparr>
      else if refusal_Reason refused = NoCapacity
      then \<lparr>failure_Code = Unavailable, failure_Message = Details refused\<rparr>
      else \<lparr>failure_Code = NotFound, failure_Message = Details refused\<rparr>)"

definition maxKilos :: float where "maxKilos = Finite 24000 0"

definition quoteRefusal :: "Reason \<Rightarrow> string \<Rightarrow> (Refusal, Rate) result" where
  "quoteRefusal reason details = Inl \<lparr>refusal_Reason = reason, Details = details\<rparr>"

definition Price :: "(float \<Rightarrow> 64 word) \<Rightarrow> (string \<rightharpoonup> Rate) \<Rightarrow> Enquiry \<Rightarrow> (Refusal, Rate) result" where
  "Price other rates enquiry =
     (if float_above (Kilos enquiry) maxKilos
      then quoteRefusal TooHeavy ''no carrier takes more than 24 tonnes''
      else (case rates (Origin enquiry @ ''-'' @ Destination enquiry) of
              None \<Rightarrow> quoteRefusal NoRoute (''nobody carries '' @ Origin enquiry @ '' to '' @ Destination enquiry)
            | Some rate \<Rightarrow>
                Inr (rate\<lparr>Cents := Cents rate + to_int64 other (float_times (Kilos enquiry) (Finite 10 0))\<rparr>)))"

definition Service :: string where "Service = ''logistics.v1.Rates''"

definition Quote :: "(Enquiry, 'n) proto_schema \<Rightarrow> (Rate, 'n) proto_schema \<Rightarrow> (Enquiry, Rate, 'n) Procedure" where
  "Quote EnquirySchema RateSchema =
     procedure_WithDescription (Unary Service ''Quote'' EnquirySchema RateSchema)
       ''Quote prices one shipment, or says why it cannot be priced.''"

definition quote_Answer ::
  "('c, Refusal) cause_ops \<Rightarrow> ('x, 'r, (Refusal, Rate) result, 'w, 'c, Rate) Run \<Rightarrow>
   (Enquiry, 'n) proto_schema \<Rightarrow> (Rate, 'n) proto_schema \<Rightarrow> (float \<Rightarrow> 64 word) \<Rightarrow> ('x, 'w, 'r, 'c, Refusal) Boundary option \<Rightarrow> (string \<rightharpoonup> Rate) \<Rightarrow>
   (rpc_fault, ('x, 'w, 'r, 'c, Refusal) Boundary) result option" where
  "quote_Answer ops run EnquirySchema RateSchema other boundary rates =
     (case boundary of
        None \<Rightarrow> Some (Inl (Reason ''quote: a service needs a boundary''))
      | Some b \<Rightarrow> Answer ops run b (Quote EnquirySchema RateSchema) (Some (Price other rates)))"

section \<open>The price\<close>

definition kilos :: "int \<Rightarrow> int \<Rightarrow> real" where
  "kilos m e = val m e"

lemma tenfold: "val (m * 10) (e + 0) = 10 * kilos m e"
  by (simp add: val_def kilos_def)

lemma light_enough: "\<not> float_above (Finite m e) maxKilos \<longleftrightarrow> kilos m e \<le> 24000"
  by (simp add: maxKilos_def float_above_val kilos_def del: float_above.simps) (simp add: val_def not_less)

text \<open>What is added for a positive weight that a carrier takes: the tenfold weight's whole part or the next cent up,
at most 240000, and a rate that leaves that much room does not wrap.\<close>

lemma price_is_bounded:
  assumes "Kilos enquiry = Finite m e" and "0 < m" and "\<not> float_above (Kilos enquiry) maxKilos"
    and "rates (Origin enquiry @ ''-'' @ Destination enquiry) = Some rate"
  shows "\<exists>t. Price other rates enquiry = Inr (rate\<lparr>Cents := Cents rate + word_of_int t\<rparr>) \<and>
     \<lfloor>10 * kilos m e\<rfloor> \<le> t \<and> t \<le> \<lceil>10 * kilos m e\<rceil> \<and> t \<le> 240000 \<and>
     (sint (Cents rate) + 240000 < 2 ^ 63 \<longrightarrow> sint (Cents rate + word_of_int t) = sint (Cents rate) + t)"
proof -
  have small: "kilos m e \<le> 24000" using assms(1,3) light_enough by simp
  have "val (m * 10) (e + 0) < 2 ^ 53" unfolding tenfold using small by simp
  then obtain t where t: "to_int64 other (float_times (Finite m e) (Finite 10 0)) = word_of_int t"
    "\<lfloor>10 * kilos m e\<rfloor> \<le> t" "t \<le> \<lceil>10 * kilos m e\<rceil>"
    using product_to_int64 [of m 10 e 0 other] assms(2) unfolding tenfold by auto
  have "0 \<le> kilos m e" using assms(2) by (simp add: kilos_def val_def)
  with small t(2,3) have range: "0 \<le> t" "t \<le> 240000" by linarith+
  have "sint (Cents rate + word_of_int t) = sint (Cents rate) + t" if "sint (Cents rate) + 240000 < 2 ^ 63"
  proof -
    have "- (2 ^ 63) \<le> sint (Cents rate)" using sint_ge [of "Cents rate"] by simp
    with that range have "- (2 ^ 63) \<le> sint (Cents rate) + t" "sint (Cents rate) + t < 2 ^ 63" by linarith+
    moreover have "Cents rate + word_of_int t = word_of_int (sint (Cents rate) + t)" by simp
    ultimately show ?thesis by (simp only: sint_sbintrunc') (simp add: signed_take_bit_int_eq_self)
  qed
  moreover have "Price other rates enquiry = Inr (rate\<lparr>Cents := Cents rate + word_of_int t\<rparr>)"
    using assms(1,3,4) by (simp only: Price_def t(1)) simp
  ultimately show ?thesis using t(2,3) range(2) by blast
qed

text \<open>A quarter of a kilo adds two cents and not three.\<close>

lemma quarter_kilo: "to_int64 other (float_times (Finite 1 (- 2)) (Finite 10 0)) = 2"
proof -
  have "float_times (Finite 1 (- 2)) (Finite 10 0) = Finite 10 (- 2)" by code_simp
  moreover have "dropped_fraction 10 (- 2) = 2" by code_simp
  ultimately show ?thesis by (simp only: to_int64_def float.case Let_def) simp
qed

definition quarter :: Enquiry where
  "quarter = \<lparr>Origin = ''a'', Destination = ''b'', Kilos = Finite 1 (- 2)\<rparr>"

definition plain_rate :: Rate where
  "plain_rate = \<lparr>Carrier = ''c'', Currency = ''EUR'', Cents = 100\<rparr>"

lemma quarter_carried: "\<not> float_above (Kilos quarter) maxKilos"
  by (simp add: quarter_def maxKilos_def)

lemma quarter_route: "[''a-b'' \<mapsto> plain_rate] (Origin quarter @ ''-'' @ Destination quarter) = Some plain_rate"
  by (simp add: quarter_def)

text \<open>C39: A shipment whose price is a whole number of cents is priced exactly, or refused for what is wrong with
it: when ten times the weight is a whole number, a weight of more than 24 tonnes is too heavy, a route the
table does not have is refused as that, and any other costs the rate of the table and that many cents, the
rest of the rate unchanged and nothing wrapping while there is room in an int64. Neither the
rounding of the product nor the conversion to an integer loses a cent there.\<close>

theorem price_of_whole_cents:
  assumes "Kilos enquiry = Finite m e" and "0 < m" and "10 * kilos m e = real_of_int t"
    and "\<And>rate. rates (Origin enquiry @ ''-'' @ Destination enquiry) = Some rate \<Longrightarrow> sint (Cents rate) + 240000 < 2 ^ 63"
  shows "if 240000 < t
     then Price other rates enquiry = Inl \<lparr>refusal_Reason = TooHeavy, Details = ''no carrier takes more than 24 tonnes''\<rparr>
     else (case rates (Origin enquiry @ ''-'' @ Destination enquiry) of
             None \<Rightarrow> Price other rates enquiry = Inl \<lparr>refusal_Reason = NoRoute,
               Details = ''nobody carries '' @ Origin enquiry @ '' to '' @ Destination enquiry\<rparr>
           | Some rate \<Rightarrow> \<exists>price. Price other rates enquiry = Inr price \<and> sint (Cents price) = sint (Cents rate) + t \<and>
               Carrier price = Carrier rate \<and> Currency price = Currency rate)"
proof -
  have heavy: "float_above (Kilos enquiry) maxKilos \<longleftrightarrow> 240000 < t"
    using light_enough [of m e] assms(1,3) by (simp add: not_less [symmetric] del: not_less) linarith
  show ?thesis
  proof (cases "240000 < t")
    case True
    with heavy show ?thesis by (simp add: Price_def quoteRefusal_def)
  next
    case False
    with heavy have light: "\<not> float_above (Kilos enquiry) maxKilos" by simp
    show ?thesis
    proof (cases "rates (Origin enquiry @ ''-'' @ Destination enquiry)")
      case None
      with False light show ?thesis by (simp add: Price_def quoteRefusal_def)
    next
      case (Some rate)
      obtain s where s: "Price other rates enquiry = Inr (rate\<lparr>Cents := Cents rate + word_of_int s\<rparr>)"
        "\<lfloor>10 * kilos m e\<rfloor> \<le> s" "s \<le> \<lceil>10 * kilos m e\<rceil>"
        "sint (Cents rate + word_of_int s) = sint (Cents rate) + s"
        using price_is_bounded [where enquiry = enquiry and m = m and e = e and rates = rates and rate = rate and other = other]
          assms(1,2) light Some assms(4) [OF Some] by auto
      moreover have "s = t" using s(2,3) by (simp add: assms(3))
      ultimately show ?thesis using False Some by simp
    qed
  qed
qed

definition half_kilo :: Enquiry where
  "half_kilo = \<lparr>Origin = ''a'', Destination = ''b'', Kilos = Finite 1 (- 1)\<rparr>"

theorem price_of_whole_cents_witness:
  "\<exists>price. Price (\<lambda>_. 0) [''a-b'' \<mapsto> plain_rate] half_kilo = Inr price \<and> sint (Cents price) = 105"
proof -
  have cents: "sint (Cents plain_rate) = 100" by (simp add: plain_rate_def)
  have "Kilos half_kilo = Finite 1 (- 1)" "10 * kilos 1 (- 1) = real_of_int 5"
    by (simp_all add: half_kilo_def kilos_def val_def power_int_def)
  moreover have route: "[''a-b'' \<mapsto> plain_rate] (Origin half_kilo @ ''-'' @ Destination half_kilo) = Some plain_rate"
    by (simp add: half_kilo_def)
  ultimately show ?thesis
    using price_of_whole_cents [where enquiry = half_kilo and rates = "[''a-b'' \<mapsto> plain_rate]" and m = 1 and e = "- 1"
        and t = 5 and other = "\<lambda>_. 0"] cents by auto
qed

section \<open>The procedure is answered and asked\<close>

text \<open>What a runtime makes of an effect that only refuses or succeeds.\<close>

definition runs_exits ::
  "('c, Refusal) cause_ops \<Rightarrow> ('x, 'r, (Refusal, Rate) result, 'w, 'c, Rate) Run \<Rightarrow> (Refusal \<Rightarrow> 'c) \<Rightarrow> bool" where
  "runs_exits ops run failing \<longleftrightarrow>
     (\<forall>ctx env exit w. run ctx env exit w = (w, map_sum failing (\<lambda>rate. rate) exit)) \<and>
     (\<forall>refused. \<not> ContainsDefect ops (failing refused) \<and> cause_Failure ops (failing refused) = Some refused)"

lemma FailureFor_canonical: "failure_Code (FailureFor refused) \<in> set everyCode"
  by (simp add: FailureFor_def everyCode_def)

lemma Quote_parts [simp]:
  "proc_request (Quote es rs) = es" "proc_response (Quote es rs) = rs"
  by (simp_all add: Quote_def procedure_WithDescription_def Unary_def Let_def)

lemma Quote_path: "Path (Quote es rs) = ''/logistics.v1.Rates/Quote''"
  by (simp add: Quote_def procedure_WithDescription_def Unary_def Service_def Path_def Let_def)

text \<open>Schemas that can be used mount the procedure at a boundary that has none yet.\<close>

lemma quote_mounts:
  assumes "transport boundary = NewConnectServer" and "proto_Validate es = None" and "proto_Validate rs = None"
  obtains mux where
    "quote_Answer ops run es rs other (Some boundary) rates = Some (Inr (boundary\<lparr>transport := mux\<rparr>))"
    and "server_Handler mux = Inr (srv_mux mux)"
proof -
  have "TrimSpace ''logistics.v1.Rates'' \<noteq> []" "TrimSpace ''Quote'' \<noteq> []" by code_simp+
  then have "proc_fault (Quote es rs) = None"
    using assms(2,3) by (simp add: Quote_def procedure_WithDescription_def Unary_def Service_def Path_def firstSchemaFault_def Let_def)
  moreover have "plain_path ''/logistics.v1.Rates/Quote''" by code_simp
  ultimately show ?thesis
    using that by (simp add: quote_Answer_def Answer_def assms(1) server_Answer_ok [OF server_ok_new] Quote_path)
      (simp add: server_Handler_def server_Paths_def NewConnectServer_def)
qed

text \<open>An enquiry gets its price, or what the refusal answers with.\<close>

lemma quote_priced:
  assumes "server_ok (transport boundary)" and "onFailure (settings_of boundary) = FailureFor"
    and "quote_Answer ops run es rs other (Some boundary) rates = Some (Inr boundary')"
    and "runs_exits ops run failing"
    and "delivers connect arriving (client_address client) (srv_mux (transport boundary'))"
    and "arriving ctx = (settings_of boundary', ctx')"
    and "proto_lawful es" and "proto_lawful rs" and "proto_Encode es enquiry = Inr message"
    and "\<And>rate. Price other rates enquiry = Inr rate \<Longrightarrow> \<exists>m. proto_Encode rs rate = Inr m"
  shows "Ask (Call connect client) (Quote es rs) enquiry ctx w =
     (w, map_sum FailureFor (\<lambda>rate. rate) (Price other rates enquiry))"
proof -
  have answered: "Answer ops run boundary (Quote es rs) (Some (Price other rates)) = Some (Inr boundary')"
    using assms(3) by (simp add: quote_Answer_def)
  have run: "run ctx' env exit w = (w, map_sum failing (\<lambda>rate. rate) exit)" for env exit
    using assms(4) by (simp add: runs_exits_def)
  have failed: "failureForCause ops (settings_of boundary) ctx' (failing refused) w = (w, FailureFor refused)" for refused
    using assms(2,4) by (simp add: failureForCause_def runs_exits_def)
  show ?thesis
    using ask_answered [OF assms(1) answered assms(5,6), of enquiry message w] assms(7-9) assms(10)
    by (cases "Price other rates enquiry") (auto simp: run failed FailureFor_canonical)
qed

text \<open>An enquiry is answered with its price, or with the code that says why there is none: asked over a
connection that gets through to a boundary that answers the procedure, a shipment too heavy is a
failed precondition, a route nobody carries is not found, and any other comes back as the table's
rate with the weight's cents added, when the schemas read back what they write and can write it.\<close>

theorem quote_is_answered:
  assumes "server_ok (transport boundary)" and "onFailure (settings_of boundary) = FailureFor"
    and "quote_Answer ops run es rs other (Some boundary) rates = Some (Inr boundary')"
    and "runs_exits ops run failing"
    and "delivers connect arriving (client_address client) (srv_mux (transport boundary'))"
    and "arriving ctx = (settings_of boundary', ctx')"
    and "proto_lawful es" and "proto_lawful rs" and "proto_Encode es enquiry = Inr message"
    and "\<And>rate. Price other rates enquiry = Inr rate \<Longrightarrow> \<exists>m. proto_Encode rs rate = Inr m"
  shows "Ask (Call connect client) (Quote es rs) enquiry ctx w =
     (w, if float_above (Kilos enquiry) maxKilos
         then Inl \<lparr>failure_Code = FailedPrecondition, failure_Message = ''no carrier takes more than 24 tonnes''\<rparr>
         else (case rates (Origin enquiry @ ''-'' @ Destination enquiry) of
                 None \<Rightarrow> Inl \<lparr>failure_Code = NotFound,
                              failure_Message = ''nobody carries '' @ Origin enquiry @ '' to '' @ Destination enquiry\<rparr>
               | Some rate \<Rightarrow>
                   Inr (rate\<lparr>Cents := Cents rate + to_int64 other (float_times (Kilos enquiry) (Finite 10 0))\<rparr>)))"
proof -
  have "Ask (Call connect client) (Quote es rs) enquiry ctx w = (w, map_sum FailureFor (\<lambda>rate. rate) (Price other rates enquiry))"
    using assms by (rule quote_priced)
  then show ?thesis
    by (simp add: Price_def quoteRefusal_def FailureFor_def TooHeavy_def NoRoute_def NoCapacity_def split: option.split)
qed

text \<open>A runtime that answers an exit, and schemas for one enquiry and its price.\<close>

definition exit_causes :: "(Refusal, Refusal) cause_ops" where
  "exit_causes = \<lparr>ContainsDefect = (\<lambda>_. False), cause_Failure = Some, HasInterruptsOnly = (\<lambda>_. False),
     cause_String = refusal_Error\<rparr>"

definition exit_run :: "(unit, unit, (Refusal, Rate) result, nat, Refusal, Rate) Run" where
  "exit_run ctx env exit w = (w, exit)"

definition only_one :: "'a \<Rightarrow> ('a, unit) proto_schema" where
  "only_one x = \<lparr>proto_Structure = (), proto_Validate = None,
     proto_Encode = (\<lambda>v. if v = x then Inr ''it'' else Inl (Reason ''not it'')), proto_Decode = (\<lambda>_. Inr x)\<rparr>"

definition exit_boundary :: "(unit, nat, unit, Refusal, Refusal) Boundary" where
  "exit_boundary =
     \<lparr>settings_of = \<lparr>environment = (), onFailure = FailureFor, onDefect = defectFailure exit_causes, report = (\<lambda>_ _ w. w)\<rparr>,
      transport = NewConnectServer\<rparr>"

definition dear :: Rate where "dear = plain_rate\<lparr>Cents := 102\<rparr>"

lemma quote_mounted:
  "\<exists>boundary'. quote_Answer exit_causes exit_run (only_one quarter) (only_one dear) (\<lambda>_. 0) (Some exit_boundary)
     [''a-b'' \<mapsto> plain_rate] = Some (Inr boundary')"
  by (rule quote_mounts [of exit_boundary "only_one quarter" "only_one dear" exit_causes exit_run "\<lambda>_. 0" "[''a-b'' \<mapsto> plain_rate]"])
    (auto simp: exit_boundary_def only_one_def)

theorem quote_is_answered_witness:
  "\<exists>boundary'. quote_Answer exit_causes exit_run (only_one quarter) (only_one dear) (\<lambda>_. 0) (Some exit_boundary)
       [''a-b'' \<mapsto> plain_rate] = Some (Inr boundary') \<and>
     Ask (Call (local_connection (Pair (settings_of boundary')) (srv_mux (transport boundary'))) (Dial []))
       (Quote (only_one quarter) (only_one dear)) quarter () 7 = (7, Inr dear)"
proof -
  obtain boundary' where mounted: "quote_Answer exit_causes exit_run (only_one quarter) (only_one dear) (\<lambda>_. 0)
      (Some exit_boundary) [''a-b'' \<mapsto> plain_rate] = Some (Inr boundary')" using quote_mounted by blast
  have ok: "server_ok (transport exit_boundary)" "onFailure (settings_of exit_boundary) = FailureFor"
    by (simp_all add: exit_boundary_def server_ok_new)
  have runs: "runs_exits exit_causes exit_run (\<lambda>r. r)"
    by (auto simp: runs_exits_def exit_causes_def exit_run_def map_sum.identity [unfolded id_def] split: sum.splits)
  have d: "delivers (local_connection (Pair (settings_of boundary')) (srv_mux (transport boundary')))
      (Pair (settings_of boundary')) (client_address (Dial [])) (srv_mux (transport boundary'))"
    by (simp add: Dial_def local_delivers)
  have lawful: "proto_lawful (only_one x)" for x :: 'x
    by (simp add: proto_lawful_def only_one_def)
  have encoded: "proto_Encode (only_one quarter) quarter = Inr ''it''" by (simp add: only_one_def)
  have price: "Price (\<lambda>_. 0) [''a-b'' \<mapsto> plain_rate] quarter = Inr dear"
    using quarter_carried quarter_route
    by (simp add: Price_def dear_def) (simp add: quarter_def quarter_kilo plain_rate_def del: float_times.simps)
  have priced: "\<exists>m. proto_Encode (only_one dear) rate = Inr m"
    if "Price (\<lambda>_. 0) [''a-b'' \<mapsto> plain_rate] quarter = Inr rate" for rate
    using that price by (simp add: only_one_def)
  have rate: "plain_rate\<lparr>Cents := Cents plain_rate + to_int64 (\<lambda>_. 0) (float_times (Kilos quarter) (Finite 10 0))\<rparr> = dear"
    by (simp add: quarter_def quarter_kilo dear_def plain_rate_def del: float_times.simps)
  show ?thesis
    using mounted quote_is_answered [OF ok mounted runs d refl lawful lawful encoded priced, where w = 7]
    by (intro exI [of _ boundary']) (simp only: quarter_carried quarter_route rate if_False option.case)
qed

end
