(* ===== verification/Example_Tally.thy ===== *)
theory Example_Tally
  imports Websocket
begin

text \<open>
  A conversation that keeps a running tally (\<open>examples/tally/tally.go\<close>): a client sends changes, the
  server adds each to a cell and answers with what the cell then holds.

  The state of a conversation is the connection's beside the cell, which every conversation of a
  server shares. The two schemas are the schema module's. The stream of changes ends when the peer
  closes, so the conversation is run with a bound on the pulls; run again from where it stopped, it goes
  on as if the bound had been the sum (\<open>run_for_each_add\<close>), so one pull at a time is the conversation in turns.
\<close>

section \<open>The program\<close>

record Change =
  Addend :: "32 word"

record Total =
  Tally :: "64 word"

definition applyTally :: "Change \<Rightarrow> ('w \<times> 64 word, 'f, 64 word) fx" where
  "applyTally change = on_second (\<lambda>current. let now = current + scast (Addend change) in (now, Inr now))"

definition runConversation_tally ::
  "'e error_ops \<Rightarrow> (Change, 's, 'e) Schema \<Rightarrow> (Total, 's, 'e) Schema \<Rightarrow> nat \<Rightarrow>
   ('w \<times> 64 word, 'e, 's) Socket \<Rightarrow> 'w \<times> 64 word \<Rightarrow> ('w \<times> 64 word) \<times> ('e Fault, unit) result option" where
  "runConversation_tally ops ChangeSchema TotalSchema pulls socket =
     run_for_each pulls (Values ops socket ChangeSchema)
       (\<lambda>change. flat_map (applyTally change) (\<lambda>now. SendValue socket TotalSchema \<lparr>Tally = now\<rparr>))"

definition Ask ::
  "(Change, 's, 'e) Schema \<Rightarrow> (Total, 's, 'e) Schema \<Rightarrow> ('w, 'e, 's) Socket \<Rightarrow> 32 word \<Rightarrow> ('w, 'e Fault, Total) fx" where
  "Ask ChangeSchema TotalSchema socket add =
     flat_map (SendValue socket ChangeSchema \<lparr>Addend = add\<rparr>) (\<lambda>_. ReceiveValue socket TotalSchema)"

section \<open>Every change is answered\<close>

text \<open>The totals after each of some changes; a total is an \<open>int64\<close> and wraps.\<close>

fun totals :: "64 word \<Rightarrow> 32 word list \<Rightarrow> 64 word list" where
  "totals now [] = []"
| "totals now (a # rest) = (now + scast a) # totals (now + scast a) rest"

definition total_after :: "64 word \<Rightarrow> 32 word list \<Rightarrow> 64 word" where
  "total_after now adds = now + sum_list (map scast adds)"

text \<open>The server's end of a connection, beside the cell.\<close>

definition beside :: "('w, 'e) connection \<Rightarrow> ('w \<times> 64 word, 'e) connection" where
  "beside conn =
     \<lparr>conn_Write = (\<lambda>t s. on_first (conn_Write conn t s)), conn_Read = on_first (conn_Read conn),
      conn_Close = (\<lambda>code reason. on_first (conn_Close conn code reason)), conn_CloseNow = on_first (conn_CloseNow conn)\<rparr>"

text \<open>
  Two ends of one connection while it stands: a message of up to \<open>limit\<close> bytes that one end writes is
  what the other reads next, after what was written before it, and neither end touches what is on its way
  to the other. The library reads no longer messages than 32768 bytes unless told to, which the source
  does not do. Nothing is said of a read when nothing is on its way: it waits.
\<close>

definition limit :: nat where "limit = 32768"

definition sends ::
  "('w \<Rightarrow> bool) \<Rightarrow> ('w, 'e) connection \<Rightarrow> ('w, 'e) connection \<Rightarrow> ('w \<Rightarrow> (MessageType \<times> string) list) \<Rightarrow>
   ('w \<Rightarrow> (MessageType \<times> string) list) \<Rightarrow> bool" where
  "sends standing here there unread other \<longleftrightarrow>
     (\<forall>t s w. standing w \<and> length s \<le> limit \<longrightarrow>
        (\<exists>w'. conn_Write here t s w = (w', None) \<and> standing w' \<and> unread w' = unread w @ [(t, s)] \<and> other w' = other w)) \<and>
     (\<forall>t s ms w. standing w \<and> unread w = (t, s) # ms \<and> length s \<le> limit \<longrightarrow>
        (\<exists>w'. conn_Read there w = (w', Inr (t, s)) \<and> standing w' \<and> unread w' = ms \<and> other w' = other w))"

definition duplex ::
  "('w \<Rightarrow> bool) \<Rightarrow> ('w, 'e) connection \<Rightarrow> ('w, 'e) connection \<Rightarrow> ('w \<Rightarrow> (MessageType \<times> string) list) \<Rightarrow>
   ('w \<Rightarrow> (MessageType \<times> string) list) \<Rightarrow> bool" where
  "duplex standing client server asked answered \<longleftrightarrow>
     sends standing client server asked answered \<and> sends standing server client answered asked"

text \<open>A reader waits, and the other side goes on meanwhile: its turn comes before the read returns.\<close>

definition while_reading :: "('w \<Rightarrow> 'w) \<Rightarrow> ('w, 'e) connection \<Rightarrow> ('w, 'e) connection" where
  "while_reading turn conn = conn\<lparr>conn_Read := (\<lambda>w. conn_Read conn (turn w))\<rparr>"

definition server_turn ::
  "'e error_ops \<Rightarrow> (Change, 's, 'e) Schema \<Rightarrow> (Total, 's, 'e) Schema \<Rightarrow> ('w, 'e) connection \<Rightarrow> 's \<Rightarrow> 'w \<times> 64 word \<Rightarrow> 'w \<times> 64 word" where
  "server_turn ops cs ts server naming v =
     fst (runConversation_tally ops cs ts 1 \<lparr>sock_connection = beside server, strategy = naming\<rparr> v)"

lemma sent_on:
  assumes "sends standing here there unread other" and "standing w" and "length s \<le> limit"
  obtains w' where "conn_Write here t s w = (w', None)" "standing w'" "unread w' = unread w @ [(t, s)]" "other w' = other w"
  using assms unfolding sends_def by blast

lemma read_off:
  assumes "sends standing here there unread other" and "standing w" and "unread w = (t, s) # ms" and "length s \<le> limit"
  obtains w' where "conn_Read there w = (w', Inr (t, s))" "standing w'" "unread w' = ms" "other w' = other w"
  using assms unfolding sends_def by blast

text \<open>The server's turn: a change is read, added to the cell and answered with what the cell then holds.\<close>

lemma turn_answers:
  assumes "duplex standing client server asked answered" and "standing w" and "asked w = [(MessageText, d)]"
    and "length d \<le> limit" and "DecodeJSON cs naming d = Inr \<lparr>Addend = a\<rparr>"
    and "EncodeJSON ts naming \<lparr>Tally = now + scast a\<rparr> = Inr e" and "length e \<le> limit"
  obtains w' where "server_turn ops cs ts server naming (w, now) = (w', now + scast a)" "standing w'" "asked w' = []"
    "answered w' = answered w @ [(MessageText, e)]"
proof -
  have ends: "sends standing client server asked answered" "sends standing server client answered asked"
    using assms(1) by (simp_all add: duplex_def)
  obtain w1 where w1: "conn_Read server w = (w1, Inr (MessageText, d))" "standing w1" "asked w1 = []" "answered w1 = answered w"
    by (rule read_off [OF ends(1) assms(2,3,4)])
  obtain w2 where w2: "conn_Write server MessageText e w1 = (w2, None)" "standing w2"
    "answered w2 = answered w1 @ [(MessageText, e)]" "asked w2 = asked w1"
    by (rule sent_on [OF ends(2) w1(2) assms(7)])
  have pulled: "Values ops \<lparr>sock_connection = beside server, strategy = naming\<rparr> cs (w, now) = ((w1, now), Inr (Emit [\<lparr>Addend = a\<rparr>]))"
    using w1(1) assms(5)
    by (simp add: Values_def map_stream_effect_def Inbound_def beside_def on_first_def flat_map_def decodeMessage_def try_fx_def)
  have replied: "flat_map (applyTally \<lparr>Addend = a\<rparr>)
      (\<lambda>now. SendValue \<lparr>sock_connection = beside server, strategy = naming\<rparr> ts \<lparr>Tally = now\<rparr>) (w1, now) = ((w2, now + scast a), Inr ())"
    using w2(1) assms(6)
    by (simp add: applyTally_def on_second_def Let_def flat_map_def SendValue_def Send_def messageType_def Text_def Binary_def
        beside_def on_first_def)
  show thesis
    by (rule that [of w2]) (simp_all add: server_turn_def runConversation_tally_def One_nat_def pulled replied w2 w1(3,4))
qed

lemma tally_asked:
  assumes "duplex standing client server asked answered" and "schema_lawful cs" and "schema_lawful ts"
    and "standing w" and "asked w = []" and "answered w = []"
    and "EncodeJSON cs naming \<lparr>Addend = a\<rparr> = Inr d" and "length d \<le> limit"
    and "EncodeJSON ts naming \<lparr>Tally = now + scast a\<rparr> = Inr e" and "length e \<le> limit"
  obtains w' where "Ask cs ts \<lparr>sock_connection = while_reading (server_turn ops cs ts server naming) (beside client), strategy = naming\<rparr> a
      (w, now) = ((w', now + scast a), Inr \<lparr>Tally = now + scast a\<rparr>)" "standing w'" "asked w' = []" "answered w' = []"
proof -
  have ends: "sends standing client server asked answered" "sends standing server client answered asked"
    using assms(1) by (simp_all add: duplex_def)
  have read: "DecodeJSON cs naming d = Inr \<lparr>Addend = a\<rparr>" "DecodeJSON ts naming e = Inr \<lparr>Tally = now + scast a\<rparr>"
    using assms(2,3,7,9) unfolding schema_lawful_def by blast+
  obtain w1 where w1: "conn_Write client MessageText d w = (w1, None)" "standing w1"
    "asked w1 = asked w @ [(MessageText, d)]" "answered w1 = answered w"
    by (rule sent_on [OF ends(1) assms(4,8)])
  have "asked w1 = [(MessageText, d)]" using w1(3) assms(5) by simp
  then obtain w2 where w2: "server_turn ops cs ts server naming (w1, now) = (w2, now + scast a)" "standing w2"
    "asked w2 = []" "answered w2 = answered w1 @ [(MessageText, e)]"
    by (rule turn_answers [OF assms(1) w1(2) _ assms(8) read(1) assms(9,10)])
  have "answered w2 = (MessageText, e) # []" using w2(4) w1(4) assms(6) by simp
  then obtain w3 where w3: "conn_Read client w2 = (w3, Inr (MessageText, e))" "standing w3" "answered w3 = []" "asked w3 = asked w2"
    by (rule read_off [OF ends(2) w2(2) _ assms(10)])
  show thesis
  proof (rule that [of w3])
    show "Ask cs ts \<lparr>sock_connection = while_reading (server_turn ops cs ts server naming) (beside client), strategy = naming\<rparr> a
        (w, now) = ((w3, now + scast a), Inr \<lparr>Tally = now + scast a\<rparr>)"
      using w1(1) w2(1) w3(1) assms(7) read(2)
      by (simp add: Ask_def flat_map_def SendValue_def Send_def messageType_def Text_def Binary_def beside_def on_first_def
          while_reading_def ReceiveValue_def Receive_def read_next_def decodeMessage_def try_fx_def)
  qed (use w3 w2(3) in simp_all)
qed

text \<open>C17: Every change a client asks for is answered with the running tally before the next is asked: over a
connection that stands, with both ends spelling members alike, schemas that read back what they write and
documents no longer than the library reads, the server's turns of the conversation make each Ask
return the total so far -- each addend a signed 32 bits, the sum wrapping at 64 -- and leave in the cell what
was there and all that was added, with nothing left unread at either end.\<close>

theorem changes_are_answered:
  assumes "duplex standing client server asked answered" and "schema_lawful cs" and "schema_lawful ts"
    and "standing w" and "asked w = []" and "answered w = []"
    and "\<And>a. a \<in> set adds \<Longrightarrow> \<exists>d. EncodeJSON cs naming \<lparr>Addend = a\<rparr> = Inr d \<and> length d \<le> limit"
    and "\<And>n. n \<in> set (totals now adds) \<Longrightarrow> \<exists>d. EncodeJSON ts naming \<lparr>Tally = n\<rparr> = Inr d \<and> length d \<le> limit"
  shows "\<exists>w'. for_each (Ask cs ts
        \<lparr>sock_connection = while_reading (server_turn ops cs ts server naming) (beside client), strategy = naming\<rparr>) adds (w, now) =
      ((w', total_after now adds), Inr (map (\<lambda>n. \<lparr>Tally = n\<rparr>) (totals now adds))) \<and>
    standing w' \<and> asked w' = [] \<and> answered w' = []"
  using assms(4-8)
proof (induction adds arbitrary: w now)
  case (Cons a rest)
  let ?now = "now + scast a"
  obtain d where d: "EncodeJSON cs naming \<lparr>Addend = a\<rparr> = Inr d" "length d \<le> limit" using Cons.prems(4) by auto
  obtain e where e: "EncodeJSON ts naming \<lparr>Tally = ?now\<rparr> = Inr e" "length e \<le> limit" using Cons.prems(5) by auto
  obtain w1 where w1: "Ask cs ts \<lparr>sock_connection = while_reading (server_turn ops cs ts server naming) (beside client), strategy = naming\<rparr> a
      (w, now) = ((w1, ?now), Inr \<lparr>Tally = ?now\<rparr>)" "standing w1" "asked w1 = []" "answered w1 = []"
    by (rule tally_asked [OF assms(1-3) Cons.prems(1-3) d e])
  have "\<exists>w'. for_each (Ask cs ts
        \<lparr>sock_connection = while_reading (server_turn ops cs ts server naming) (beside client), strategy = naming\<rparr>) rest (w1, ?now) =
      ((w', total_after ?now rest), Inr (map (\<lambda>n. \<lparr>Tally = n\<rparr>) (totals ?now rest))) \<and>
    standing w' \<and> asked w' = [] \<and> answered w' = []"
    by (rule Cons.IH [OF w1(2-4)]) (use Cons.prems(4,5) in auto)
  with w1(1) show ?case by (auto simp: total_after_def add.assoc)
qed (simp add: total_after_def)

text \<open>Two ends of a pair of pipes that read no message over the limit, and schemas whose documents are numbers.\<close>

type_synonym pipes = "(MessageType \<times> string) list \<times> (MessageType \<times> string) list"

definition client_end :: "(pipes, int) connection" where
  "client_end =
     \<lparr>conn_Write = (\<lambda>t s w. ((fst w @ [(t, s)], snd w), None)),
      conn_Read = (\<lambda>w. case snd w of [] \<Rightarrow> (w, Inl 1006) | m # ms \<Rightarrow> if limit < length (snd m) then (w, Inl 1009) else ((fst w, ms), Inr m)),
      conn_Close = (\<lambda>_ _ w. (w, None)), conn_CloseNow = (\<lambda>w. (w, None))\<rparr>"

definition server_end :: "(pipes, int) connection" where
  "server_end =
     \<lparr>conn_Write = (\<lambda>t s w. ((fst w, snd w @ [(t, s)]), None)),
      conn_Read = (\<lambda>w. case fst w of [] \<Rightarrow> (w, Inl 1006) | m # ms \<Rightarrow> if limit < length (snd m) then (w, Inl 1009) else ((ms, snd w), Inr m)),
      conn_Close = (\<lambda>_ _ w. (w, None)), conn_CloseNow = (\<lambda>w. (w, None))\<rparr>"

lemma pipes_duplex: "duplex (\<lambda>_. True) client_end server_end fst snd"
  by (auto simp: duplex_def sends_def client_end_def server_end_def)

definition numbered :: "('a \<Rightarrow> int) \<Rightarrow> (int \<Rightarrow> 'a) \<Rightarrow> ('a, unit, int) Schema" where
  "numbered number of_number =
     \<lparr>EncodeJSON = (\<lambda>_ v. if of_number (number v) = v \<and> 0 \<le> number v then Inr (replicate (nat (number v)) (CHR ''x'')) else Inl 7),
      DecodeJSON = (\<lambda>_ d. Inr (of_number (int (length d))))\<rparr>"

lemma numbered_lawful: "schema_lawful (numbered number of_number)"
  by (simp add: schema_lawful_def numbered_def)

abbreviation change_schema :: "(Change, unit, int) Schema" where
  "change_schema \<equiv> numbered (\<lambda>change. uint (Addend change)) (\<lambda>n. \<lparr>Addend = word_of_int n\<rparr>)"

abbreviation total_schema :: "(Total, unit, int) Schema" where
  "total_schema \<equiv> numbered (\<lambda>total. uint (Tally total)) (\<lambda>n. \<lparr>Tally = word_of_int n\<rparr>)"

theorem changes_are_answered_witness:
  "\<exists>w'. for_each (Ask change_schema total_schema
       \<lparr>sock_connection = while_reading (server_turn status_errors change_schema total_schema server_end ()) (beside client_end),
        strategy = ()\<rparr>) [2, 3] (([], []), 4) = ((w', 9), Inr [\<lparr>Tally = 6\<rparr>, \<lparr>Tally = 9\<rparr>])"
proof -
  have sums: "totals 4 [2, 3] = [6, 9]" "total_after 4 [2, 3] = 9" by (simp_all add: total_after_def)
  have "\<exists>w'. for_each (Ask change_schema total_schema
       \<lparr>sock_connection = while_reading (server_turn status_errors change_schema total_schema server_end ()) (beside client_end),
        strategy = ()\<rparr>) [2, 3] (([], []), 4) = ((w', total_after 4 [2, 3]), Inr (map (\<lambda>n. \<lparr>Tally = n\<rparr>) (totals 4 [2, 3]))) \<and>
     True \<and> fst w' = [] \<and> snd w' = []"
    by (rule changes_are_answered [OF pipes_duplex numbered_lawful numbered_lawful])
      (auto simp: sums numbered_def limit_def)
  then show ?thesis unfolding sums by auto
qed

end
