(* ===== verification/Tally_Route.thy ===== *)
theory Tally_Route
  imports Example_Tally Web_Remote
begin

text \<open>
  The tally's conversation as a route (\<open>Route\<close> of \<open>examples/tally/tally.go\<close>): an upgrade of \<open>/tally\<close>.

  Accepting a conversation as a handler, \<open>websocket.Accept\<close> at a boundary, is an argument: a response of
  \<open>web\<close> writes to a writer and has no connection for \<open>Websocket.Accept\<close> to take over. What is shown is
  that the route is dispatched to like any other, with the surface's naming.
\<close>

definition tally_Route ::
  "('conversation \<Rightarrow> Websocket.Settings \<Rightarrow> 'fr Handler) \<Rightarrow> 'conversation \<Rightarrow> ('fr Handler, 'fin) Route" where
  "tally_Route accepting conversation =
     Upgrade ''/tally'' ''Keep a running tally'' (Some (accepting conversation \<lparr>Origins = [], Subprotocols = []\<rparr>))"

lemma tally_pattern: "parsePattern ''/tally'' = Inr [literal ''tally'']"
proof -
  have "wf_segments [literal ''tally'']" "renderPattern [literal ''tally''] = ''/tally''" by code_simp+
  then show ?thesis by (simp add: parsePattern_iff)
qed

lemma tally_route_parts:
  "usable (tally_Route accepting conversation)"
  "route_segments (tally_Route accepting conversation) = [literal ''tally'']"
  "route_method (tally_Route accepting conversation) = ''GET''"
  "decl_Path (route_declaration (tally_Route accepting conversation)) = ''/tally''"
  "decl_Status (route_declaration (tally_Route accepting conversation)) = 101"
  "route_handler rejects (tally_Route accepting conversation) request =
     accepting conversation \<lparr>Origins = [], Subprotocols = []\<rparr> (request_withNaming request None)"
proof -
  have "renderPattern [literal ''tally''] = ''/tally''" by code_simp
  then show "usable (tally_Route accepting conversation)"
    "route_segments (tally_Route accepting conversation) = [literal ''tally'']"
    "route_method (tally_Route accepting conversation) = ''GET''"
    "decl_Path (route_declaration (tally_Route accepting conversation)) = ''/tally''"
    "decl_Status (route_declaration (tally_Route accepting conversation)) = 101"
    "route_handler rejects (tally_Route accepting conversation) request =
       accepting conversation \<lparr>Origins = [], Subprotocols = []\<rparr> (request_withNaming request None)"
    by (simp_all add: tally_Route_def Upgrade_def tally_pattern usable_def route_handler_def)
qed

text \<open>A request for the conversation reaches it, whatever else the surface serves at other places.\<close>

theorem tally_is_dispatched:
  assumes "NewRoutesWithRejection (Some rejects) rs = Inr surface" and "tally_Route accepting conversation \<in> set rs"
    and "\<And>s. s \<in> set rs \<Longrightarrow> serves ''GET'' [''tally''] s \<Longrightarrow> s = tally_Route accepting conversation"
    and "Method request = ''GET''" and "Path request = ''/tally''"
  shows "\<exists>caps. Routes_Handler succeed surface request =
     accepting conversation \<lparr>Origins = [], Subprotocols = []\<rparr> (request_withNaming (WithCaptures request caps) None)"
proof -
  have "wf_segments [literal ''tally'']" by code_simp
  then show ?thesis
    using route_reached [OF assms(1,2), of Map.empty request succeed] assms(3)
    by (auto simp: tally_route_parts assms(4,5) fits_def fillPattern_def go_results pathSegments_def)
qed

text \<open>A surface of that route alone, whose conversations are asked for by name.\<close>

theorem tally_is_dispatched_witness:
  "\<exists>surface. NewRoutesWithRejection (Some rejectRequest)
       [tally_Route (\<lambda>name settings request. (name, Origins settings, Path request)) ''tally'' :: (_, unit) Route] = Inr surface \<and>
     Routes_Handler (\<lambda>response. ([], [], [])) surface
       (RequestFrom \<lparr>req_Method = ''GET'', URL_Path = ''/tally'', URL_Query = Map.empty, req_Header = Map.empty, req_Body = None\<rparr>) =
     (''tally'', [], ''/tally'')"
proof -
  let ?route = "tally_Route (\<lambda>name settings request. (name, Origins settings, Path request)) ''tally'' :: (_, unit) Route"
  obtain surface where surface: "NewRoutesWithRejection (Some rejectRequest) [?route] = Inr surface"
    using NewRoutesWithRejection_ok [of "Some rejectRequest" "[?route]"] by (auto simp: tally_route_parts(1))
  from tally_is_dispatched [OF surface, where accepting = "\<lambda>name settings request. (name, Origins settings, Path request)"
      and conversation = "''tally''" and succeed = "\<lambda>response. ([], [], [])"
      and request = "RequestFrom \<lparr>req_Method = ''GET'', URL_Path = ''/tally'', URL_Query = Map.empty, req_Header = Map.empty, req_Body = None\<rparr>"]
    surface
  show ?thesis
    by (intro exI [of _ surface]) (auto simp: Method_def Path_def RequestFrom_def request_withNaming_def WithCaptures_def)
qed

end
