(* ===== verification/Webdemo_Client.thy ===== *)
theory Webdemo_Client
  imports Bookstore_Contract
begin

text \<open>
  The demonstration's client of the bookstore (\<open>examples/cmd/webdemo/client.go\<close>): a book is added and
  read back through the endpoints that the server serves, and then one is asked for that is not there.

  The network is the argument that every call has; the verb \<open>%q\<close> of a text is another.
\<close>

section \<open>The scenario\<close>

definition sample :: Book where
  "sample = \<lparr>Title = ''Called'', Authors = [''A Client''], Pages = 12\<rparr>"

definition round_trip :: "schemas \<Rightarrow> (Book list, 'b) http_lib \<Rightarrow> Client \<Rightarrow> (Book list, Fault, Book) fx" where
  "round_trip sch lib client =
     (case WithEntity bare_request (BookSchema sch) sample None of
        Inl err \<Rightarrow> (\<lambda>w. (w, Inl (Fault ''encode the book'' (Some err))))
      | Inr request \<Rightarrow>
          flat_map (Call lib client (AddBook sch) request) (\<lambda>_.
            Call lib client (FindBook sch) (bare_request\<lparr>cr_Path := [''title'' \<mapsto> Title sample]\<rparr>)))"

text \<open>The verb \<open>%v\<close> of an error and of a list of texts.\<close>

definition shown_error :: "error option \<Rightarrow> string" where
  "shown_error err = (case err of None \<Rightarrow> ''<nil>'' | Some e \<Rightarrow> Error e)"

definition shown_texts :: "string list \<Rightarrow> string" where
  "shown_texts ts = ''['' @ join '' '' ts @ '']''"

definition runClient ::
  "schemas \<Rightarrow> (Book list, 'b) http_lib \<Rightarrow> (string \<Rightarrow> string) \<Rightarrow> string \<Rightarrow> Book list \<Rightarrow>
   Book list \<times> (string, string list) result" where
  "runClient sch lib quoted base w =
     (let client = Dial True base in
      case round_trip sch lib client w of
        (w, Inl _) \<Rightarrow> (w, Inl ''client: the round trip failed'')
      | (w, Inr book) \<Rightarrow>
          (let added = ''client: added and read back '' @ quoted (Title book) @ '' by '' @ shown_texts (Authors book) @ '', '' @
                         itoa (Pages book) @ '' pages''
           in case Call lib client (FindBook sch) (bare_request\<lparr>cr_Path := [''title'' \<mapsto> ''Missing'']\<rparr>) w of
                (w, Inr _) \<Rightarrow> (w, Inr [added])
              | (w, Inl failure) \<Rightarrow>
                  (w, Inr [added, ''calling: asking for one that is not there -- '' @ shown_error (Err failure)])))"

section \<open>What it prints\<close>

lemma sample_lines:
  "''client: added and read back '' @ quoted (Title sample) @ '' by '' @ shown_texts (Authors sample) @ '', '' @ itoa (Pages sample) @ '' pages'' =
   ''client: added and read back '' @ quoted ''Called'' @ '' by [A Client], 12 pages''"
  "''calling: asking for one that is not there -- '' @
     shown_error (Some (RefusalErr \<lparr>Refusal_Status = 404, Refusal_Entity = [], Refusal_header = Map.empty\<rparr>)) =
   ''calling: asking for one that is not there -- the server answered 404''"
proof -
  have "itoa 12 = ''12''" "itoa 404 = ''404''" by code_simp+
  then show "''client: added and read back '' @ quoted (Title sample) @ '' by '' @ shown_texts (Authors sample) @ '', '' @
      itoa (Pages sample) @ '' pages'' = ''client: added and read back '' @ quoted ''Called'' @ '' by [A Client], 12 pages''"
    "''calling: asking for one that is not there -- '' @
       shown_error (Some (RefusalErr \<lparr>Refusal_Status = 404, Refusal_Entity = [], Refusal_header = Map.empty\<rparr>)) =
     ''calling: asking for one that is not there -- the server answered 404''"
    by (simp_all add: sample_def shown_texts_def shown_error_def)
qed

lemma client_demonstrated:
  assumes "reads_back sch" and "SurfaceWithContract contract_of sch = Inr surface" and "Boundary causes True = Inr adapter"
    and "hosts lib (served_by causes (\<lambda>fx. fx) adapter (Routes_Handler respond surface))"
    and "reaches lib (Dial True base)"
    and "schema_EncodeJSON (BookSchema sch) None sample = Inr document"
    and "''Called'' \<notin> Title ` set books" and "''Missing'' \<notin> Title ` set books"
    and "\<And>fault. \<not> ContainsDefect causes (Failed fault) \<and> cause_Failures causes (Failed fault) = [fault]"
  shows "runClient sch lib quoted base books =
    (books @ [sample],
     Inr [''client: added and read back '' @ quoted ''Called'' @ '' by [A Client], 12 pages'',
          ''calling: asking for one that is not there -- the server answered 404''])"
proof -
  let ?client = "Dial True base"
  obtain contract where new: "NewRoutesWithRejection (Some rejectRequest) (store_routes sch @ [serveContract contract]) = Inr surface"
    using assms(2) by (auto simp: SurfaceWithContract_def NewRoutes_def go_results)
  have apart: "elsewhere [serveContract contract]" by (simp add: elsewhere_def serves_def matches_def)
  obtain adding where adding: "WithEntity bare_request (BookSchema sch) sample None = Inr adding"
    using assms(6) by (simp add: WithEntity_def)
  have bare: "cr_Path bare_request = Map.empty" by (simp add: bare_request_def)
  have direct: "client_strategy ?client = None" by (simp add: Dial_def)
  have found: "find (sameTitle ''Called'') (books @ [sample]) = Some sample"
    using assms(7) by (induction books) (auto simp: sameTitle_def sample_def)
  have missing: "find (sameTitle ''Missing'') (books @ [sample]) = None"
    using assms(8) by (force simp: find_None_iff sameTitle_def sample_def)
  have plain: "plain_path ''Called''" "plain_path ''Missing''" by (simp_all add: plain_path_def is_control_def)
  have titled: "Title sample = ''Called''" by (simp add: sample_def)
  have "round_trip sch lib ?client books = (books @ [sample], Inr sample)"
    using book_added [OF assms(1) new apart assms(3,4,5) direct adding bare, of books] assms(7)
      book_found [OF assms(1) new apart assms(3,4,5) direct _ plain(1) _ found assms(6), of "bare_request\<lparr>cr_Path := [''title'' \<mapsto> ''Called'']\<rparr>"]
    by (simp add: round_trip_def adding flat_map_def titled)
  moreover have "Call lib ?client (FindBook sch) (bare_request\<lparr>cr_Path := [''title'' \<mapsto> ''Missing'']\<rparr>) (books @ [sample]) =
      (books @ [sample], Inl (Fault (''call GET /books/'' @ ''Missing'')
         (Some (RefusalErr \<lparr>Refusal_Status = 404, Refusal_Entity = [], Refusal_header = Map.empty\<rparr>))))"
    by (rule book_missing [OF assms(1) new apart assms(3,4,5) _ plain(2) _ missing assms(9)]) simp_all
  ultimately show ?thesis
    unfolding runClient_def Let_def by (simp only: prod.case sum.case Fault.sel sample_lines)
qed

text \<open>The client shows what it says it shows: over a network that reaches the bookstore, which holds
neither title and serves its contract beside its routes, it reads back the book that it adds, the
store holds it behind what it held, and asking for a book that is not there is refused with what
the server answered.\<close>

theorem client_is_demonstrated:
  assumes "reads_back sch" and "SurfaceWithContract contract_of sch = Inr surface" and "Boundary causes True = Inr adapter"
    and "hosts lib (served_by causes (\<lambda>fx. fx) adapter (Routes_Handler respond surface))"
    and "reaches lib (Dial True base)"
    and "schema_EncodeJSON (BookSchema sch) None sample = Inr document"
    and "''Called'' \<notin> Title ` set books" and "''Missing'' \<notin> Title ` set books"
    and "\<And>fault. \<not> ContainsDefect causes (Failed fault) \<and> cause_Failures causes (Failed fault) = [fault]"
  shows "runClient sch lib quoted base books =
    (books @ [sample],
     Inr [''client: added and read back '' @ quoted ''Called'' @ '' by [A Client], 12 pages'',
          ''calling: asking for one that is not there -- the server answered 404''])"
  using assms by (rule client_demonstrated)

text \<open>Schemas for a store that is told of one book, and an instance of the network.\<close>

definition sample_schema :: "Book Schema" where
  "sample_schema =
     \<lparr>Structure = None, schema_Validate = None, schema_Decode = (\<lambda>_. Inr sample),
      schema_DecodeJSONFrom = (\<lambda>_ _. Inr sample), schema_DecodeJSON = (\<lambda>_ _. Inr sample),
      schema_EncodeJSON = (\<lambda>_ book. if book = sample then Inr ''it'' else Inl (Reason []))\<rparr>"

definition sample_schemas :: schemas where
  "sample_schemas = title_schemas\<lparr>BookSchema := sample_schema\<rparr>"

lemma sample_schemas_read_back: "reads_back sample_schemas"
  using title_schemas_read_back
  by (auto simp: reads_back_def describes_def sample_schemas_def sample_schema_def split: if_splits)

theorem client_is_demonstrated_witness:
  "\<exists>surface adapter. SurfaceWithContract (\<lambda>_. Inr ''contract'') sample_schemas = Inr surface \<and> Boundary store_causes True = Inr adapter \<and>
     runClient sample_schemas (direct_http (served_by store_causes (\<lambda>fx. fx) adapter (Routes_Handler respond surface)))
       (\<lambda>s. s) ''http://host'' [title_book ''Zionomicon''] =
     ([title_book ''Zionomicon'', sample],
      Inr [''client: added and read back Called by [A Client], 12 pages'',
           ''calling: asking for one that is not there -- the server answered 404''])"
proof -
  have d: "describes sample_schemas" using sample_schemas_read_back unfolding reads_back_def by blast
  obtain surface where surface: "SurfaceWithContract (\<lambda>_. Inr ''contract'') sample_schemas = Inr surface"
    using Surface_assembles [OF d] contract_assembles [OF d, of "''contract''"]
    by (auto simp: SurfaceWithContract_def NewRoutes_def)
  obtain adapter where adapter: "Boundary store_causes True = Inr adapter"
    by (simp add: Boundary_def NewAdapter_def)
  let ?lib = "direct_http (served_by store_causes (\<lambda>fx. fx) adapter (Routes_Handler respond surface))"
  have client: "reaches ?lib (Dial True ''http://host'')"
    using dialled_reaches [of "''host''" ?lib] by (simp add: plain_host_def is_control_def) (simp add: direct_http_def)
  have written: "schema_EncodeJSON (BookSchema sample_schemas) None sample = Inr ''it''"
    by (simp add: sample_schemas_def sample_schema_def)
  show ?thesis
    using client_is_demonstrated [OF sample_schemas_read_back surface adapter direct_hosts client written,
        of "[title_book ''Zionomicon'']" "\<lambda>s. s"] surface adapter
    by (auto simp: bare_request_def title_book_def store_causes_def)
qed

end
