(* ===== verification/Webdemo_Bookstore.thy ===== *)
theory Webdemo_Bookstore
  imports Webdemo_Client
begin

text \<open>
  The demonstration of the bookstore (\<open>runBookstore\<close> of \<open>examples/cmd/webdemo/main.go\<close>): a store of one book
  is served with its contract, asked seven things with \<open>net/http\<close> alone, then called through its
  endpoints, and counted when the server has stopped.

  What is printed is the list of its lines, with the text that \<open>fail\<close> is given when it ends early. The
  listener and the network that reaches a handler behind it are arguments; how the server stops is
  \<open>Web_Serve\<close>'s and changes nothing of the store.
\<close>

section \<open>Asking with net/http\<close>

definition http_get :: "('w, 'b) http_lib \<Rightarrow> string \<Rightarrow> 'w \<Rightarrow> 'w \<times> (error, 'b incoming) result" where
  "http_get lib url w =
     (case NewRequest lib ''GET'' url None of Inl err \<Rightarrow> (w, Inl err) | Inr made \<Rightarrow> Do lib made w)"

definition http_post :: "('w, 'b) http_lib \<Rightarrow> string \<Rightarrow> string \<Rightarrow> 'w \<Rightarrow> 'w \<times> (error, 'b incoming) result" where
  "http_post lib url document w =
     (case NewRequest lib ''POST'' url (Some document) of
        Inl err \<Rightarrow> (w, Inl err)
      | Inr made \<Rightarrow> Do lib (made\<lparr>out_Header := header_Set (out_Header made) ''Content-Type'' ''application/json''\<rparr>) w)"

definition report_line :: "string \<Rightarrow> int \<Rightarrow> string \<Rightarrow> string" where
  "report_line what code body = ''  '' @ padded 24 what @ '' '' @ itoa code @ '' '' @ TrimSpace body"

text \<open>A program that fails exits, and what was deferred is not run.\<close>

definition reported ::
  "('w, 'b) http_lib \<Rightarrow> string \<Rightarrow> ('w \<Rightarrow> 'w \<times> (error, 'b incoming) result) \<Rightarrow> 'w \<Rightarrow> 'w \<times> (string, string list) result" where
  "reported lib what send w =
     (case send w of
        (w1, Inl err) \<Rightarrow> (w1, Inl (Error err))
      | (w1, Inr response) \<Rightarrow>
          (case ReadAll lib (in_Body response) w1 of
             (w2, Inl err) \<Rightarrow> (w2, Inl (Error err))
           | (w2, Inr body) \<Rightarrow>
               (CloseBody lib (in_Body response) w2, Inr [report_line what (in_Status response) body])))"

section \<open>The scenario\<close>

definition zionomicon :: Book where
  "zionomicon = \<lparr>Title = ''Zionomicon'', Authors = [''John A. De Goes''], Pages = 632\<rparr>"

definition new_document :: string where "new_document = ''{\"title\":\"New\",\"authors\":[\"A\"],\"pages\":10}''"

definition bad_document :: string where "bad_document = ''{\"title\":\"New\",\"authors\":[\"A\"],\"pages\":0}''"

text \<open>Steps in their order, each with the lines it prints, up to the first that fails.\<close>

fun in_turn :: "('w \<Rightarrow> 'w \<times> (string, string list) result) list \<Rightarrow> 'w \<Rightarrow> 'w \<times> string list \<times> string option" where
  "in_turn [] w = (w, [], None)"
| "in_turn (act # acts) w =
     (case act w of
        (w1, Inl err) \<Rightarrow> (w1, [], Some err)
      | (w1, Inr lines) \<Rightarrow> (case in_turn acts w1 of (w2, rest, failed) \<Rightarrow> (w2, lines @ rest, failed)))"

definition bookstore_steps ::
  "schemas \<Rightarrow> (Book list, 'b) http_lib \<Rightarrow> (string \<Rightarrow> string) \<Rightarrow> string \<Rightarrow>
   (Book list \<Rightarrow> Book list \<times> (string, string list) result) list" where
  "bookstore_steps sch lib quoted base =
     [\<lambda>w. (w, Inr [''bookstore: listening on '' @ base]),
      reported lib (base @ ''/books'') (http_get lib (base @ ''/books'')),
      reported lib (base @ ''/books (post)'') (http_post lib (base @ ''/books'') new_document),
      reported lib (base @ ''/books (bad)'') (http_post lib (base @ ''/books'') bad_document),
      reported lib (base @ ''/books (again)'') (http_post lib (base @ ''/books'') new_document),
      reported lib (base @ ''/books/Zionomicon'') (http_get lib (base @ ''/books/Zionomicon'')),
      reported lib (base @ ''/books/Missing'') (http_get lib (base @ ''/books/Missing'')),
      reported lib (base @ ''/openapi.json'') (http_get lib (base @ ''/openapi.json'')),
      runClient sch lib quoted base,
      \<lambda>w. (w, Inr [''bookstore: stopped with '' @
                     digits (case snd (All w) of Done books \<Rightarrow> length books | _ \<Rightarrow> 0) @ '' books''])]"

definition runBookstore ::
  "schemas \<Rightarrow> ((Response storeEffect Handler, unit) Routes \<Rightarrow> (error, string) result) \<Rightarrow>
   ((store_fault, Response) exit, store_fault) cause_ops \<Rightarrow> (error, string) result \<Rightarrow>
   (string \<Rightarrow> (http_request \<Rightarrow> Book list \<Rightarrow> Book list \<times> writer) \<Rightarrow> (Book list, 'b) http_lib) \<Rightarrow>
   (string \<Rightarrow> string) \<Rightarrow> Book list \<times> string list \<times> string option" where
  "runBookstore sch contract_of causes listener network quoted =
     (case listener of
        Inl err \<Rightarrow> ([], [], Some (Error err))
      | Inr listening \<Rightarrow>
     (case Boundary causes True of
        Inl err \<Rightarrow> ([], [], Some (Error err))
      | Inr boundary \<Rightarrow>
          (let held = NewStore [zionomicon] in
           case SurfaceWithContract contract_of sch of
             Inl err \<Rightarrow> (held, [], Some (Error err))
           | Inr surface \<Rightarrow>
               (let lib = network listening (served_by causes (\<lambda>fx. fx) boundary (Routes_Handler respond surface))
                in in_turn (bookstore_steps sch lib quoted (''http://'' @ listening)) held))))"

section \<open>What the routes answer\<close>

abbreviation store_ops ::
  "(Response storeEffect, 'out storeEffect, 'i decodeResult storeEffect, unit, 'i, 'out) effect_ops" where
  "store_ops \<equiv> direct_ops"

lemma store_route_handlers:
  assumes "describes sch"
  shows "route_handler rejects (listBooks sch) = plainHandler store_ops (ListBooks sch) (\<lambda>_. All) rejects None"
    and "route_handler rejects (addBook sch) =
      plainHandler store_ops (AddBook sch) (\<lambda>book w. continue (Add book w) (\<lambda>_ w1. (w1, Done book))) rejects None"
    and "route_handler rejects (findBook sch) = plainHandler store_ops (FindBook sch) Find rejects None"
  using store_usable [OF assms] unfolding listBooks_def addBook_def findBook_def
  by (simp_all add: spelled_route_handler(2) store_routes_def listBooks_def addBook_def findBook_def)

lemma answered_JSON:
  assumes "schema_Validate shape = None" and "schema_EncodeJSON shape None v = Inr document" and "code \<noteq> 0"
  shows "encodeOutput store_ops (Returns code shape) None v w = (w, Done (Bytes code ''application/json'' document))"
  using assms by (simp add: encodeOutput_def Returns_def JSON_def direct_ops_def)

text \<open>A route without naming decodes, refuses or runs its handler, and encodes what that gives.\<close>

lemma store_handler:
  fixes endpoint :: "('i, 'out) Endpoint"
  shows "plainHandler store_ops endpoint handle rejects None request w =
     (case Decode (end_input endpoint) (request_withNaming request None) of
        Inl err \<Rightarrow> (w, Done (rejects err))
      | Inr v \<Rightarrow> continue (handle v w)
          (encodeOutput (store_ops :: (Response storeEffect, 'out storeEffect, 'i decodeResult storeEffect, unit, 'i, 'out) effect_ops)
             (end_output endpoint) None))"
  by (simp add: plainHandler_def direct_ops_def direct_phase_def logRefusal_def split: sum.split)

lemma listBooks_answers:
  assumes "describes sch" and "schema_EncodeJSON (CatalogueSchema sch) None books = Inr document"
  shows "route_handler rejects (listBooks sch) request books = (books, Done (Bytes 200 ''application/json'' document))"
proof -
  have "end_output (ListBooks sch) = Returns 200 (CatalogueSchema sch)" "end_input (ListBooks sch) = Nothing"
    by (simp_all add: declared)
  moreover have "schema_Validate (CatalogueSchema sch) = None" using assms(1) by (simp add: describes_def)
  ultimately show ?thesis
    using assms(2)
    by (simp add: store_route_handlers(1) [OF assms(1)] store_handler Decode_def ValidateCodec_def Nothing_def Let_def All_def Get_def
        answered_JSON)
qed

lemma addBook_answers:
  assumes "describes sch" and "req_Body (Source request) = Some document"
  shows "schema_DecodeJSONFrom (BookSchema sch) None document = Inl err \<Longrightarrow>
      route_handler rejects (addBook sch) request books = (books, Done (rejects (fault_at ''read the request body'' err)))"
    and "schema_DecodeJSONFrom (BookSchema sch) None document = Inr book \<Longrightarrow>
      Title book \<in> Title ` set books \<Longrightarrow>
      route_handler rejects (addBook sch) request books =
        (books, Failed \<lparr>fault_Kind = AlreadyExists, fault_Err = Some (Reason (Title book @ '' is already held''))\<rparr>)"
    and "schema_DecodeJSONFrom (BookSchema sch) None document = Inr book \<Longrightarrow>
      Title book \<notin> Title ` set books \<Longrightarrow> schema_EncodeJSON (BookSchema sch) None book = Inr json \<Longrightarrow>
      route_handler rejects (addBook sch) request books = (books @ [book], Done (Bytes 201 ''application/json'' json))"
proof -
  have valid: "schema_Validate (BookSchema sch) = None" using assms(1) by (simp add: describes_def)
  have "Decode (end_input (AddBook sch)) (request_withNaming request None) =
      (case schema_DecodeJSONFrom (BookSchema sch) None document of
         Inl err \<Rightarrow> Inl (fault_at ''read the request body'' err) | Inr book \<Rightarrow> Inr book)"
    using assms(2) valid
    by (simp add: Entity_def Decode_def ValidateCodec_def Source_def request_withNaming_def NamingStrategy_def Let_def split: sum.split)
  then show "schema_DecodeJSONFrom (BookSchema sch) None document = Inl err \<Longrightarrow>
      route_handler rejects (addBook sch) request books = (books, Done (rejects (fault_at ''read the request body'' err)))"
    "schema_DecodeJSONFrom (BookSchema sch) None document = Inr book \<Longrightarrow>
      Title book \<in> Title ` set books \<Longrightarrow>
      route_handler rejects (addBook sch) request books =
        (books, Failed \<lparr>fault_Kind = AlreadyExists, fault_Err = Some (Reason (Title book @ '' is already held''))\<rparr>)"
    "schema_DecodeJSONFrom (BookSchema sch) None document = Inr book \<Longrightarrow>
      Title book \<notin> Title ` set books \<Longrightarrow> schema_EncodeJSON (BookSchema sch) None book = Inr json \<Longrightarrow>
      route_handler rejects (addBook sch) request books = (books @ [book], Done (Bytes 201 ''application/json'' json))"
    by (simp_all add: store_route_handlers(2) [OF assms(1)] store_handler Add_cases answered_JSON valid)
qed

lemma findBook_answers:
  assumes "reads_back sch" and "captures request ''title'' = Some wanted"
  shows "find (sameTitle wanted) books = None \<Longrightarrow>
      route_handler rejects (findBook sch) request books = (books, Failed \<lparr>fault_Kind = NotFound, fault_Err = None\<rparr>)"
    and "find (sameTitle wanted) books = Some book \<Longrightarrow> schema_EncodeJSON (BookSchema sch) None book = Inr json \<Longrightarrow>
      route_handler rejects (findBook sch) request books = (books, Done (Bytes 200 ''application/json'' json))"
proof -
  have d: "describes sch" using assms(1) by (simp add: reads_back_def)
  then have valid: "schema_Validate (BookSchema sch) = None" by (simp add: describes_def)
  have "parameterFault ''title'' (TextSchema sch) = None"
    using d by (simp add: parameterFault_def TrimSpace_visible describes_def)
  then have "Decode (end_input (FindBook sch)) (request_withNaming request None) = Inr wanted"
    using assms by (simp add: title_param(3) [OF d])
      (simp add: PathParam_def requiredParameter_def Decode_def ValidateCodec_def Let_def Capture_def reads_back_def request_withNaming_def)
  then show "find (sameTitle wanted) books = None \<Longrightarrow>
      route_handler rejects (findBook sch) request books = (books, Failed \<lparr>fault_Kind = NotFound, fault_Err = None\<rparr>)"
    "find (sameTitle wanted) books = Some book \<Longrightarrow> schema_EncodeJSON (BookSchema sch) None book = Inr json \<Longrightarrow>
      route_handler rejects (findBook sch) request books = (books, Done (Bytes 200 ''application/json'' json))"
    by (simp_all add: store_route_handlers(3) [OF d] store_handler Find_cases answered_JSON valid)
qed

section \<open>Which route answers\<close>

lemma store_reached:
  assumes "NewRoutesWithRejection (Some rejectRequest) (store_routes sch @ [serveContract contract]) = Inr surface"
  shows "Method request = ''GET'' \<Longrightarrow> Path request = ''/books'' \<Longrightarrow>
      \<exists>caps. Routes_Handler respond surface request = route_handler rejectRequest (listBooks sch) (WithCaptures request caps)"
    and "Method request = ''POST'' \<Longrightarrow> Path request = ''/books'' \<Longrightarrow>
      \<exists>caps. Routes_Handler respond surface request = route_handler rejectRequest (addBook sch) (WithCaptures request caps)"
    and "Method request = ''GET'' \<Longrightarrow> Path request = ''/books/'' @ wanted \<Longrightarrow> CHR ''/'' \<notin> set wanted \<Longrightarrow>
      \<exists>caps. caps ''title'' = Some wanted \<and>
        Routes_Handler respond surface request = route_handler rejectRequest (findBook sch) (WithCaptures request caps)"
    and "Method request = ''GET'' \<Longrightarrow> Path request = ''/openapi.json'' \<Longrightarrow>
      \<exists>caps. Routes_Handler respond surface request = route_handler rejectRequest (serveContract contract) (WithCaptures request caps)"
proof -
  let ?rs = "store_routes sch @ [serveContract contract]"
  have parts: "route_segments (listBooks sch) = [literal ''books'']" "route_method (listBooks sch) = ''GET''"
    "route_segments (addBook sch) = [literal ''books'']" "route_method (addBook sch) = ''POST''"
    "route_segments (findBook sch) = [literal ''books'', capturing ''title'']" "route_method (findBook sch) = ''GET''"
    by (simp_all add: listBooks_def addBook_def findBook_def Handle_def endpoint_Declaration_def)
  have member: "listBooks sch \<in> set ?rs" "addBook sch \<in> set ?rs" "findBook sch \<in> set ?rs" "serveContract contract \<in> set ?rs"
    by (simp_all add: store_routes_def)
  have split: "split_on (CHR ''/'') (''books/'' @ wanted) = [''books'', wanted]" if "CHR ''/'' \<notin> set wanted"
    using split_on_append [of "CHR ''/''" "''books''" wanted] by (simp add: split_on_no_sep [OF that])
  have only: "s \<in> set ?rs \<Longrightarrow> serves ''GET'' [''books''] s \<Longrightarrow> s = listBooks sch"
    "s \<in> set ?rs \<Longrightarrow> serves ''POST'' [''books''] s \<Longrightarrow> s = addBook sch"
    "s \<in> set ?rs \<Longrightarrow> serves ''GET'' [''books'', t] s \<Longrightarrow> s = findBook sch"
    "s \<in> set ?rs \<Longrightarrow> serves ''GET'' [''openapi.json''] s \<Longrightarrow> s = serveContract contract" for s t
    by (auto simp: store_routes_def serves_def matches_def parts)
  note reached = route_reached [OF assms, where succeed = respond and request = request]
  note asking = parts store_patterns fits_def fillPattern_def go_results pathSegments_def capture_names_def
  show "\<exists>caps. Routes_Handler respond surface request = route_handler rejectRequest (listBooks sch) (WithCaptures request caps)"
    if "Method request = ''GET''" "Path request = ''/books''"
    using reached [OF member(1), of Map.empty] only(1) that by (auto simp: asking)
  show "\<exists>caps. Routes_Handler respond surface request = route_handler rejectRequest (addBook sch) (WithCaptures request caps)"
    if "Method request = ''POST''" "Path request = ''/books''"
    using reached [OF member(2), of Map.empty] only(2) that by (auto simp: asking)
  show "\<exists>caps. Routes_Handler respond surface request = route_handler rejectRequest (serveContract contract) (WithCaptures request caps)"
    if "Method request = ''GET''" "Path request = ''/openapi.json''"
    using reached [OF member(4), of Map.empty] only(4) that by (auto simp: asking)
  assume at: "Method request = ''GET''" "Path request = ''/books/'' @ wanted" "CHR ''/'' \<notin> set wanted"
  have asked: "pathSegments (Path request) = [''books'', wanted]" using split [OF at(3)] by (simp add: pathSegments_def at(2))
  have filled: "fillPattern (route_segments (findBook sch)) [''title'' \<mapsto> wanted] = Inr (Path request)"
    by (simp add: parts fillPattern_def go_results at(2))
  obtain caps where caps: "restrict_map caps (set (capture_names (route_segments (findBook sch)))) =
      restrict_map [''title'' \<mapsto> wanted] (set (capture_names (route_segments (findBook sch))))"
    "Routes_Handler respond surface request = route_handler rejectRequest (findBook sch) (WithCaptures request caps)"
    using reached [OF member(3) _ _ filled] only(3) [of _ wanted] asked at(1,3)
    by (auto simp: parts(5,6) store_patterns(3) fits_def)
  have "caps ''title'' = Some wanted" using fun_cong [OF caps(1), of "''title''"] by (simp add: parts(5) capture_names_def)
  with caps(2) show "\<exists>caps. caps ''title'' = Some wanted \<and>
      Routes_Handler respond surface request = route_handler rejectRequest (findBook sch) (WithCaptures request caps)" by blast
qed

section \<open>Over the network\<close>

lemma reported_exchange:
  assumes "has_http_client client" and "exchange lib (Some client) ''GET'' path bare_request w = (w', Inr response)"
  shows "reported lib what (http_get lib (address client @ path)) w =
    (w', Inr [report_line what (resp_Status response) (resp_Entity response)])"
  using assms
  by (auto simp: exchange_def reported_def http_get_def bare_request_def copied_header_def Let_def split: sum.splits prod.splits)

lemma reported_post:
  assumes "has_http_client client" and "document \<noteq> []"
    and "exchange lib (Some client) ''POST'' path (bare_request\<lparr>cr_Entity := document, cr_MediaType := ''application/json''\<rparr>) w =
      (w', Inr response)"
  shows "reported lib what (http_post lib (address client @ path) document) w =
    (w', Inr [report_line what (resp_Status response) (resp_Entity response)])"
  using assms
  by (auto simp: exchange_def reported_def http_post_def bare_request_def copied_header_def Let_def split: sum.splits prod.splits)

lemma bytes_received: "code \<noteq> 0 \<Longrightarrow> bodyAllowedForStatus code \<Longrightarrow> is_received (Bytes code ct body) code body"
  by (simp add: is_received_def written_Bytes)

lemma text_received: "code \<noteq> 0 \<Longrightarrow> bodyAllowedForStatus code \<Longrightarrow> is_received (Text code body) code body"
  by (simp add: Text_def bytes_received)

lemma asked_over:
  assumes "hosts lib (served_by causes (\<lambda>fx. fx) adapter (Routes_Handler respond surface))" and "reaches lib client"
    and "Boundary causes True = Inr adapter"
    and "\<And>fault. \<not> ContainsDefect causes (Failed fault) \<and> cause_Failures causes (Failed fault) = [fault]"
    and "plain_path path" and "HasPrefix path ''/''" and "token verb" and "verb \<noteq> ''HEAD''"
    and "\<And>arrived. Method arrived = verb \<Longrightarrow> Path arrived = path \<Longrightarrow>
      req_Body (Source arrived) = Some (cr_Entity request) \<Longrightarrow> Routes_Handler respond surface arrived w = (w', out)"
    and "out = Done r \<or> (\<exists>fault. out = Failed fault \<and> r = StatusFor fault)" and "is_received r code body"
  shows "\<exists>header. exchange lib (Some client) verb path request w =
    (w', Inr \<lparr>resp_Status = code, resp_Header = header, resp_Entity = body\<rparr>)"
proof -
  have "CHR ''%'' \<notin> set path" and query: "CHR ''?'' \<notin> set path"
    using assms(5) by (auto simp: plain_path_def list_all_iff)
  then have decoded: "unescape False (fst (cut_at (CHR ''?'') path)) = Some path"
    by (simp add: cut_at_absent unescape_plain)
  have "sendable path" using assms(5,6) by (auto simp: sendable_def plain_path_def list_all_iff)
  then obtain arrived header where arrived: "req_Method arrived = verb" "URL_Path arrived = path"
    "req_Body arrived = Some (cr_Entity request)"
    "exchange lib (Some client) verb path request w =
       (case served_by causes (\<lambda>fx. fx) adapter (Routes_Handler respond surface) arrived w of (w1, sent) \<Rightarrow>
          (w1, Inr \<lparr>resp_Status = sent_status sent, resp_Header = header, resp_Entity = received_entity verb sent\<rparr>))"
    using exchange_hosted [OF assms(1,2,7) _ decoded, of request w] by (auto simp: asked_def)
  have handled: "Routes_Handler respond surface (RequestFrom arrived) w = (w', out)"
    using assms(9) arrived(1-3) by (simp add: Method_def Path_def Source_def RequestFrom_def)
  note unstated = boundary_unstated [OF assms(3)]
  from assms(10) have "served_by causes (\<lambda>fx. fx) adapter (Routes_Handler respond surface) arrived w = (w', fst (WriteTo r newWriter arrived))"
  proof (elim disjE exE conjE)
    assume "out = Done r"
    with handled show ?thesis by (intro served_by_done [OF unstated]) simp
  next
    fix fault
    assume "out = Failed fault" "r = StatusFor fault"
    then show ?thesis
      using served_by_failed [OF unstated, of "\<lambda>fx. fx" "Routes_Handler respond surface" arrived w w' fault causes "[]"] handled assms(4)
      by (simp add: boundary_status [OF assms(3)])
  qed
  then show ?thesis
    using arrived(4) assms(8,11) by (intro exI [of _ header]) (simp add: is_received_def received_entity_def)
qed

lemma get_over:
  assumes "hosts lib (served_by causes (\<lambda>fx. fx) adapter (Routes_Handler respond surface))" and "reaches lib client"
    and "Boundary causes True = Inr adapter"
    and "\<And>fault. \<not> ContainsDefect causes (Failed fault) \<and> cause_Failures causes (Failed fault) = [fault]"
    and "plain_path path" and "HasPrefix path ''/''"
    and "\<And>arrived. Method arrived = ''GET'' \<Longrightarrow> Path arrived = path \<Longrightarrow> Routes_Handler respond surface arrived w = (w', out)"
    and "out = Done r \<or> (\<exists>fault. out = Failed fault \<and> r = StatusFor fault)" and "is_received r code body"
  shows "reported lib what (http_get lib (address client @ path)) w = (w', Inr [report_line what code body])"
proof -
  obtain header where "exchange lib (Some client) ''GET'' path bare_request w =
      (w', Inr \<lparr>resp_Status = code, resp_Header = header, resp_Entity = body\<rparr>)"
    using asked_over [OF assms(1-6) store_verbs(2) _ _ assms(8,9), of bare_request w w'] assms(7) by auto
  moreover have "has_http_client client" using assms(2) by (simp add: reaches_def)
  ultimately show ?thesis by (simp add: reported_exchange)
qed

lemma post_over:
  assumes "hosts lib (served_by causes (\<lambda>fx. fx) adapter (Routes_Handler respond surface))" and "reaches lib client"
    and "Boundary causes True = Inr adapter"
    and "\<And>fault. \<not> ContainsDefect causes (Failed fault) \<and> cause_Failures causes (Failed fault) = [fault]"
    and "plain_path path" and "HasPrefix path ''/''" and "document \<noteq> []"
    and "\<And>arrived. Method arrived = ''POST'' \<Longrightarrow> Path arrived = path \<Longrightarrow>
      req_Body (Source arrived) = Some document \<Longrightarrow> Routes_Handler respond surface arrived w = (w', out)"
    and "out = Done r \<or> (\<exists>fault. out = Failed fault \<and> r = StatusFor fault)" and "is_received r code body"
  shows "reported lib what (http_post lib (address client @ path) document) w = (w', Inr [report_line what code body])"
proof -
  let ?request = "bare_request\<lparr>cr_Entity := document, cr_MediaType := ''application/json''\<rparr>"
  obtain header where "exchange lib (Some client) ''POST'' path ?request w =
      (w', Inr \<lparr>resp_Status = code, resp_Header = header, resp_Entity = body\<rparr>)"
    using asked_over [OF assms(1-6) store_verbs(1) _ _ assms(9,10), of ?request w w'] assms(8) by auto
  moreover have "has_http_client client" using assms(2) by (simp add: reaches_def)
  ultimately show ?thesis using assms(7) by (simp add: reported_post)
qed

text \<open>The bookstore behind a boundary on a network: what the reports below have in common.\<close>

definition on_network ::
  "schemas \<Rightarrow> string \<Rightarrow> (Response storeEffect Handler, unit) Routes \<Rightarrow> ((store_fault, Response) exit, store_fault) cause_ops \<Rightarrow>
   ((store_fault, Response) exit, store_fault) Adapter \<Rightarrow> (Book list, 'b) http_lib \<Rightarrow> string \<Rightarrow> bool" where
  "on_network sch contract surface causes adapter lib base \<longleftrightarrow>
     reads_back sch \<and>
     NewRoutesWithRejection (Some rejectRequest) (store_routes sch @ [serveContract contract]) = Inr surface \<and>
     Boundary causes True = Inr adapter \<and>
     hosts lib (served_by causes (\<lambda>fx. fx) adapter (Routes_Handler respond surface)) \<and>
     reaches lib (Dial True base) \<and> address (Dial True base) = base \<and>
     (\<forall>fault. \<not> ContainsDefect causes (Failed fault) \<and> cause_Failures causes (Failed fault) = [fault])"

lemma on_network_reports:
  assumes "on_network sch contract surface causes adapter lib base" and "plain_path path" and "HasPrefix path ''/''"
    and "out = Done r \<or> (\<exists>fault. out = Failed fault \<and> r = StatusFor fault)" and "is_received r code body"
  shows "(\<And>arrived. Method arrived = ''GET'' \<Longrightarrow> Path arrived = path \<Longrightarrow> Routes_Handler respond surface arrived w = (w', out)) \<Longrightarrow>
      reported lib what (http_get lib (base @ path)) w = (w', Inr [report_line what code body])"
    and "document \<noteq> [] \<Longrightarrow> (\<And>arrived. Method arrived = ''POST'' \<Longrightarrow> Path arrived = path \<Longrightarrow>
        req_Body (Source arrived) = Some document \<Longrightarrow> Routes_Handler respond surface arrived w = (w', out)) \<Longrightarrow>
      reported lib what (http_post lib (base @ path) document) w = (w', Inr [report_line what code body])"
proof -
  have net: "hosts lib (served_by causes (\<lambda>fx. fx) adapter (Routes_Handler respond surface))" "reaches lib (Dial True base)"
    "Boundary causes True = Inr adapter" "address (Dial True base) = base"
    "\<And>fault. \<not> ContainsDefect causes (Failed fault) \<and> cause_Failures causes (Failed fault) = [fault]"
    using assms(1) by (simp_all add: on_network_def)
  show "reported lib what (http_get lib (base @ path)) w = (w', Inr [report_line what code body])"
    if "\<And>arrived. Method arrived = ''GET'' \<Longrightarrow> Path arrived = path \<Longrightarrow> Routes_Handler respond surface arrived w = (w', out)"
    using get_over [OF net(1-3,5) assms(2,3) that assms(4,5)] unfolding net(4) .
  show "reported lib what (http_post lib (base @ path) document) w = (w', Inr [report_line what code body])"
    if "document \<noteq> []" "\<And>arrived. Method arrived = ''POST'' \<Longrightarrow> Path arrived = path \<Longrightarrow>
        req_Body (Source arrived) = Some document \<Longrightarrow> Routes_Handler respond surface arrived w = (w', out)"
    using post_over [OF net(1-3,5) assms(2,3) that assms(4,5)] unfolding net(4) .
qed

lemma on_network_parts:
  assumes "on_network sch contract surface causes adapter lib base"
  shows "reads_back sch" and "describes sch"
    and "NewRoutesWithRejection (Some rejectRequest) (store_routes sch @ [serveContract contract]) = Inr surface"
  using assms by (simp_all add: on_network_def reads_back_def)

lemmas received = bytes_received text_received bodyAllowedForStatus_def

lemma plain_asked: "plain_path ''/books''" "plain_path ''/openapi.json''" "plain_path wanted \<Longrightarrow> plain_path (''/books/'' @ wanted)"
  by (simp_all add: plain_path_def is_control_def)

lemma list_reported:
  assumes "on_network sch contract surface causes adapter lib base"
    and "schema_EncodeJSON (CatalogueSchema sch) None books = Inr catalogue"
  shows "reported lib what (http_get lib (base @ ''/books'')) books = (books, Inr [report_line what 200 catalogue])"
proof (rule on_network_reports(1) [OF assms(1) plain_asked(1)])
  show "Routes_Handler respond surface arrived books = (books, Done (Bytes 200 ''application/json'' catalogue))"
    if "Method arrived = ''GET''" "Path arrived = ''/books''" for arrived
    using store_reached(1) [OF on_network_parts(3) [OF assms(1)] that]
    by (auto simp: listBooks_answers [OF on_network_parts(2) [OF assms(1)] assms(2)])
qed (auto simp: received)

lemma contract_reported:
  assumes "on_network sch contract surface causes adapter lib base"
  shows "reported lib what (http_get lib (base @ ''/openapi.json'')) books = (books, Inr [report_line what 200 contract])"
proof (rule on_network_reports(1) [OF assms plain_asked(2)])
  show "Routes_Handler respond surface arrived books = (books, Done (Bytes 200 ''application/json'' contract))"
    if "Method arrived = ''GET''" "Path arrived = ''/openapi.json''" for arrived
    using store_reached(4) [OF on_network_parts(3) [OF assms] that] by (auto simp: serveContract_answers)
qed (auto simp: received)

lemma find_reported:
  assumes "on_network sch contract surface causes adapter lib base" and "plain_path wanted" and "CHR ''/'' \<notin> set wanted"
  shows "find (sameTitle wanted) books = Some book \<Longrightarrow> schema_EncodeJSON (BookSchema sch) None book = Inr json \<Longrightarrow>
      reported lib what (http_get lib (base @ ''/books/'' @ wanted)) books = (books, Inr [report_line what 200 json])"
    and "find (sameTitle wanted) books = None \<Longrightarrow>
      reported lib what (http_get lib (base @ ''/books/'' @ wanted)) books = (books, Inr [report_line what 404 []])"
proof -
  note reports = on_network_reports(1) [OF assms(1) plain_asked(3) [OF assms(2)]]
  note answers = findBook_answers [OF on_network_parts(1) [OF assms(1)], of _ wanted books]
  have reached: "\<exists>caps. caps ''title'' = Some wanted \<and>
      Routes_Handler respond surface arrived = route_handler rejectRequest (findBook sch) (WithCaptures arrived caps)"
    if "Method arrived = ''GET''" "Path arrived = ''/books/'' @ wanted" for arrived
    using store_reached(3) [OF on_network_parts(3) [OF assms(1)]] that assms(3) by blast
  show "reported lib what (http_get lib (base @ ''/books/'' @ wanted)) books = (books, Inr [report_line what 200 json])"
    if "find (sameTitle wanted) books = Some book" "schema_EncodeJSON (BookSchema sch) None book = Inr json"
  proof (rule reports [of "Done (Bytes 200 ''application/json'' json)"])
    show "Routes_Handler respond surface arrived books = (books, Done (Bytes 200 ''application/json'' json))"
      if "Method arrived = ''GET''" "Path arrived = ''/books/'' @ wanted" for arrived
      using reached [OF that] answers(2) \<open>find (sameTitle wanted) books = Some book\<close> \<open>schema_EncodeJSON (BookSchema sch) None book = Inr json\<close>
      by (auto simp: WithCaptures_def)
  qed (auto simp: received)
  show "reported lib what (http_get lib (base @ ''/books/'' @ wanted)) books = (books, Inr [report_line what 404 []])"
    if "find (sameTitle wanted) books = None"
  proof (rule reports [of "Failed \<lparr>fault_Kind = NotFound, fault_Err = None\<rparr>"])
    show "Routes_Handler respond surface arrived books = (books, Failed \<lparr>fault_Kind = NotFound, fault_Err = None\<rparr>)"
      if "Method arrived = ''GET''" "Path arrived = ''/books/'' @ wanted" for arrived
      using reached [OF that] answers(1) \<open>find (sameTitle wanted) books = None\<close> by (auto simp: WithCaptures_def)
    show "is_received (Empty 404) 404 []" by (rule written_Empty) (simp_all add: informational_def)
  qed (auto simp: StatusFor_def)
qed

lemma add_reported:
  assumes "on_network sch contract surface causes adapter lib base" and "document \<noteq> []"
  shows "schema_DecodeJSONFrom (BookSchema sch) None document = Inl err \<Longrightarrow>
      reported lib what (http_post lib (base @ ''/books'') document) books =
        (books, Inr [report_line what 400 (Error (fault_at ''read the request body'' err))])"
    and "schema_DecodeJSONFrom (BookSchema sch) None document = Inr book \<Longrightarrow> Title book \<in> Title ` set books \<Longrightarrow>
      reported lib what (http_post lib (base @ ''/books'') document) books =
        (books, Inr [report_line what 409 (''already-held: '' @ Title book @ '' is already held'')])"
    and "schema_DecodeJSONFrom (BookSchema sch) None document = Inr book \<Longrightarrow> Title book \<notin> Title ` set books \<Longrightarrow>
      schema_EncodeJSON (BookSchema sch) None book = Inr json \<Longrightarrow>
      reported lib what (http_post lib (base @ ''/books'') document) books = (books @ [book], Inr [report_line what 201 json])"
proof -
  note reports = on_network_reports(2) [OF assms(1) plain_asked(1) _ _ _ assms(2)]
  have answers: "Routes_Handler respond surface arrived books = (books', out)"
    if "Method arrived = ''POST''" "Path arrived = ''/books''" "req_Body (Source arrived) = Some document"
      "\<And>request. req_Body (Source request) = Some document \<Longrightarrow> route_handler rejectRequest (addBook sch) request books = (books', out)"
    for arrived books' and out :: "(store_fault, Response) exit"
    using store_reached(2) [OF on_network_parts(3) [OF assms(1)] that(1,2)] that(3,4) by (auto simp: WithCaptures_def Source_def)
  note handled = addBook_answers [OF on_network_parts(2) [OF assms(1)]]
  show "schema_DecodeJSONFrom (BookSchema sch) None document = Inl err \<Longrightarrow>
      reported lib what (http_post lib (base @ ''/books'') document) books =
        (books, Inr [report_line what 400 (Error (fault_at ''read the request body'' err))])"
    by (rule reports [OF _ _ _ answers], simp_all add: handled) (simp_all add: received rejectRequest_def)
  show "schema_DecodeJSONFrom (BookSchema sch) None document = Inr book \<Longrightarrow> Title book \<in> Title ` set books \<Longrightarrow>
      reported lib what (http_post lib (base @ ''/books'') document) books =
        (books, Inr [report_line what 409 (''already-held: '' @ Title book @ '' is already held'')])"
    by (rule reports [OF _ _ _ answers], simp_all add: handled)
      (simp_all add: received StatusFor_def AlreadyExists_def NotFound_def store_Error_def)
  show "schema_DecodeJSONFrom (BookSchema sch) None document = Inr book \<Longrightarrow> Title book \<notin> Title ` set books \<Longrightarrow>
      schema_EncodeJSON (BookSchema sch) None book = Inr json \<Longrightarrow>
      reported lib what (http_post lib (base @ ''/books'') document) books = (books @ [book], Inr [report_line what 201 json])"
    by (rule reports [OF _ _ _ answers], simp_all add: handled) (simp_all add: received)
qed

section \<open>What is printed\<close>

definition new_book :: Book where
  "new_book = \<lparr>Title = ''New'', Authors = [''A''], Pages = 10\<rparr>"

text \<open>C14: The demonstration shows what it says it shows, from the first request to the count of its books: over
a network that reaches what listens, with schemas that read back what they write, that read the one
document as a book and refuse the other, it prints the store's only book, the book that was added, why
the bad one was refused, that the same one is already held, the book found, that another is missing and
the contract; then the client's lines; and that three books are held at the end.\<close>

theorem bookstore_is_demonstrated:
  fixes sch contract_of causes network listening
  defines "base \<equiv> ''http://'' @ listening"
  assumes "reads_back sch" and "Surface sch = Inr plain" and "contract_of plain = Inr contract"
    and "SurfaceWithContract contract_of sch = Inr surface" and "Boundary causes True = Inr adapter"
    and "hosts (network listening (served_by causes (\<lambda>fx. fx) adapter (Routes_Handler respond surface)))
           (served_by causes (\<lambda>fx. fx) adapter (Routes_Handler respond surface))"
    and "reaches (network listening (served_by causes (\<lambda>fx. fx) adapter (Routes_Handler respond surface))) (Dial True base)"
    and "address (Dial True base) = base"
    and "\<And>fault. \<not> ContainsDefect causes (Failed fault) \<and> cause_Failures causes (Failed fault) = [fault]"
    and "schema_EncodeJSON (CatalogueSchema sch) None [zionomicon] = Inr catalogue"
    and "schema_EncodeJSON (BookSchema sch) None zionomicon = Inr first_book"
    and "schema_EncodeJSON (BookSchema sch) None new_book = Inr second_book"
    and "schema_EncodeJSON (BookSchema sch) None sample = Inr third_book"
    and "schema_DecodeJSONFrom (BookSchema sch) None new_document = Inr new_book"
    and "schema_DecodeJSONFrom (BookSchema sch) None bad_document = Inl err"
  shows "runBookstore sch contract_of causes (Inr listening) network quoted =
    ([zionomicon, new_book, sample],
     [''bookstore: listening on '' @ base,
      report_line (base @ ''/books'') 200 catalogue,
      report_line (base @ ''/books (post)'') 201 second_book,
      report_line (base @ ''/books (bad)'') 400 (Error (fault_at ''read the request body'' err)),
      report_line (base @ ''/books (again)'') 409 ''already-held: New is already held'',
      report_line (base @ ''/books/Zionomicon'') 200 first_book,
      report_line (base @ ''/books/Missing'') 404 [],
      report_line (base @ ''/openapi.json'') 200 contract,
      ''client: added and read back '' @ quoted ''Called'' @ '' by [A Client], 12 pages'',
      ''calling: asking for one that is not there -- the server answered 404'',
      ''bookstore: stopped with 3 books''],
     None)"
proof -
  let ?lib = "network listening (served_by causes (\<lambda>fx. fx) adapter (Routes_Handler respond surface))"
  have "NewRoutesWithRejection (Some rejectRequest) (store_routes sch @ [serveContract contract]) = Inr surface"
    using assms(3-5) by (simp add: SurfaceWithContract_def NewRoutes_def)
  then have net: "on_network sch contract surface causes adapter ?lib base"
    using assms(2,6-10) by (simp add: on_network_def)
  have titles: "Title zionomicon = ''Zionomicon''" "Title new_book = ''New''" by (simp_all add: zionomicon_def new_book_def)
  have documents: "new_document \<noteq> []" "bad_document \<noteq> []" by (simp_all add: new_document_def bad_document_def)
  have names: "plain_path ''Zionomicon''" "plain_path ''Missing''" by (simp_all add: plain_path_def is_control_def)
  let ?two = "[zionomicon, new_book]"
  have found: "find (sameTitle ''Zionomicon'') ?two = Some zionomicon" "find (sameTitle ''Missing'') ?two = None"
    by (simp_all add: sameTitle_def titles)
  have client: "runClient sch ?lib quoted base ?two = (?two @ [sample],
     Inr [''client: added and read back '' @ quoted ''Called'' @ '' by [A Client], 12 pages'',
          ''calling: asking for one that is not there -- the server answered 404''])"
    by (rule client_demonstrated [OF assms(2,5,6,7,8,14)]) (simp_all add: titles assms(10))
  have "digits (Suc (Suc (Suc 0))) = ''3''" by code_simp
  then show ?thesis
    using add_reported(3) [OF net documents(1) assms(15) _ assms(13), of "[zionomicon]"]
      find_reported(1) [OF net names(1) _ found(1) assms(12)] find_reported(2) [OF net names(2) _ found(2)]
    unfolding runBookstore_def sum.case assms(5,6) Let_def NewStore_def bookstore_steps_def base_def [symmetric]
    by (simp add: list_reported [OF net assms(11)] contract_reported [OF net] add_reported(1) [OF net documents(2) assms(16)]
        add_reported(2) [OF net documents(1) assms(15)] titles client All_def Get_def)
qed

text \<open>Schemas for the three books of the demonstration, on a network of one server.\<close>

definition demo_schema :: "Book Schema" where
  "demo_schema =
     (let reading = (\<lambda>document. if document = ''z'' then Inr zionomicon
                                else if document = ''n'' \<or> document = new_document then Inr new_book
                                else if document = ''s'' then Inr sample else Inl (Reason ''pages is too small''))
      in \<lparr>Structure = None, schema_Validate = None, schema_Decode = (\<lambda>_. Inr sample),
          schema_DecodeJSONFrom = (\<lambda>_. reading), schema_DecodeJSON = (\<lambda>_. reading),
          schema_EncodeJSON = (\<lambda>_ book. if book = zionomicon then Inr ''z'' else if book = new_book then Inr ''n''
                                        else if book = sample then Inr ''s'' else Inl (Reason []))\<rparr>)"

definition demo_schemas :: schemas where
  "demo_schemas = title_schemas\<lparr>BookSchema := demo_schema\<rparr>"

lemma demo_books_differ: "zionomicon \<noteq> new_book" "zionomicon \<noteq> sample" "new_book \<noteq> sample"
  by (simp_all add: zionomicon_def new_book_def sample_def)

lemma demo_schemas_read_back: "reads_back demo_schemas"
  using title_schemas_read_back
  by (auto simp: reads_back_def describes_def demo_schemas_def demo_schema_def new_document_def Let_def split: if_splits)

theorem bookstore_is_demonstrated_witness:
  "runBookstore demo_schemas (\<lambda>_. Inr ''contract'') store_causes (Inr ''localhost:1'') (\<lambda>_. direct_http) (\<lambda>s. s) =
    ([zionomicon, new_book, sample],
     [''bookstore: listening on http://localhost:1'',
      report_line ''http://localhost:1/books'' 200 ''Zionomicon'',
      report_line ''http://localhost:1/books (post)'' 201 ''n'',
      report_line ''http://localhost:1/books (bad)'' 400 (Error (fault_at ''read the request body'' (Reason ''pages is too small''))),
      report_line ''http://localhost:1/books (again)'' 409 ''already-held: New is already held'',
      report_line ''http://localhost:1/books/Zionomicon'' 200 ''z'',
      report_line ''http://localhost:1/books/Missing'' 404 [],
      report_line ''http://localhost:1/openapi.json'' 200 ''contract'',
      ''client: added and read back Called by [A Client], 12 pages'',
      ''calling: asking for one that is not there -- the server answered 404'',
      ''bookstore: stopped with 3 books''],
     None)"
proof -
  have d: "describes demo_schemas" using demo_schemas_read_back unfolding reads_back_def by blast
  obtain plain where plain: "Surface demo_schemas = Inr plain" using Surface_assembles [OF d] by blast
  obtain surface where surface: "SurfaceWithContract (\<lambda>_. Inr ''contract'') demo_schemas = Inr surface"
    using plain contract_assembles [OF d, of "''contract''"] by (auto simp: SurfaceWithContract_def NewRoutes_def)
  obtain adapter where adapter: "Boundary store_causes True = Inr adapter"
    by (simp add: Boundary_def NewAdapter_def)
  let ?lib = "direct_http (served_by store_causes (\<lambda>fx. fx) adapter (Routes_Handler respond surface))"
  have client: "reaches ?lib (Dial True (''http://'' @ ''localhost:1''))"
    by (rule dialled_reaches) (simp_all add: plain_host_def is_control_def direct_http_def)
  have base: "address (Dial True (''http://'' @ ''localhost:1'')) = ''http://'' @ ''localhost:1''" by code_simp
  have written: "schema_EncodeJSON (CatalogueSchema demo_schemas) None [zionomicon] = Inr ''Zionomicon''"
    "schema_EncodeJSON (BookSchema demo_schemas) None zionomicon = Inr ''z''"
    "schema_EncodeJSON (BookSchema demo_schemas) None new_book = Inr ''n''"
    "schema_EncodeJSON (BookSchema demo_schemas) None sample = Inr ''s''"
    using demo_books_differ
    by (auto simp: demo_schemas_def demo_schema_def title_schemas_def titles_schema_def zionomicon_def Let_def)
  have read: "schema_DecodeJSONFrom (BookSchema demo_schemas) None new_document = Inr new_book"
    "schema_DecodeJSONFrom (BookSchema demo_schemas) None bad_document = Inl (Reason ''pages is too small'')"
    by (simp_all add: demo_schemas_def demo_schema_def new_document_def bad_document_def Let_def)
  have typed: "\<not> ContainsDefect store_causes (Failed fault) \<and> cause_Failures store_causes (Failed fault) = [fault]" for fault
    by (simp add: store_causes_def)
  from bookstore_is_demonstrated [where network = "\<lambda>_. direct_http" and quoted = "\<lambda>s. s" and listening = "''localhost:1''"
      and contract = "''contract''", OF demo_schemas_read_back plain _ surface adapter direct_hosts client base typed written read]
  show ?thesis by simp
qed

end
