(* ===== verification/Webdemo_Dispatch.thy ===== *)
theory Webdemo_Dispatch
  imports Example_Dispatch
begin

text \<open>
  The demonstration of the dispatch program (\<open>examples/cmd/webdemo/dispatch.go\<close>): a message nobody can
  read and an order are published to the broker in this process, and one order is shipped by a packing
  that is busy the first time it is asked.

  What is printed is the list of its lines. A failure is the text that \<open>fail\<close> is given, in which the
  printing of the runtime's exit is an argument. Shipping is pulled with a bound; nothing is printed
  when it does not suffice.
\<close>

section \<open>The scenario\<close>

definition errWarehouseBusy :: string where "errWarehouseBusy = ''the warehouse is busy''"

text \<open>The packing counts its attempts in a variable of the scenario.\<close>

definition demo_pack :: "Order \<Rightarrow> nat \<Rightarrow> nat \<times> (Fault, unit) result" where
  "demo_pack order attempts =
     (let attempts = attempts + 1 in
      if attempts = 1
      then (attempts, Inl \<lparr>fault_Op = ''pack'', fault_Subject = [], fault_Err = Some errWarehouseBusy\<rparr>)
      else (attempts, Inr ()))"

definition demo_order :: Order where
  "demo_order = \<lparr>Reference = ''8f14e45f-ceea-467a-a4fb-1a9c73d0f2b1'', Item = ''lamp'', Quantity = 2\<rparr>"

definition unreadable :: string where
  "unreadable = ''{\"reference\":\"not a uuid\"}''"

definition dispatch_sends :: "Order Schema \<Rightarrow> (Broker, Fault, unit) fx" where
  "dispatch_sends OrderSchema =
     flat_map (Prepare in_process_declarer) (\<lambda>_.
       flat_map (publish in_process \<lparr>to_Exchange = Orders, to_Key = Placed\<rparr>
                   \<lparr>m_Body = unreadable, m_ContentType = [], m_Headers = [], m_Durability = Transient\<rparr>) (\<lambda>_.
         Place in_process OrderSchema demo_order))"

definition dispatch_lines :: "Broker \<Rightarrow> Order list \<Rightarrow> string list" where
  "dispatch_lines broker orders =
     (''dispatch: shipped '' @ digits (length orders) @ '', accepted '' @ digits (length (acks broker)) @
      '', discarded '' @ digits (length (discards broker)) @ '', sent back '' @ digits (length (requeues broker))) #
     map (\<lambda>order. ''  '' @ Item order @ '' x'' @ itoa (sint (Quantity order)) @ '' ('' @ Reference order @ '')'') orders"

definition runDispatch ::
  "(Broker \<times> nat, (Broker \<times> nat, Order) Envelope) from_resource \<Rightarrow> Order Schema \<Rightarrow> (Fault \<Rightarrow> string) \<Rightarrow> nat \<Rightarrow>
   (string, string list) result option" where
  "runDispatch from_resource OrderSchema printed pulls =
     (case on_first (dispatch_sends OrderSchema) (NewBroker, 0) of
        (w, Inl fault) \<Rightarrow> Some (Inl (''dispatch: '' @ printed fault))
      | (w, Inr _) \<Rightarrow>
          (case run_take pulls 1
                  (Ship from_resource (beside_consumer in_process_consumer) OrderSchema (\<lambda>order. on_second (demo_pack order))) w of
             (w', None) \<Rightarrow> None
           | (w', Some (Inl fault)) \<Rightarrow> Some (Inl (''dispatch: '' @ printed fault))
           | (w', Some (Inr orders)) \<Rightarrow> Some (Inr (dispatch_lines (fst w') orders))))"

section \<open>What it prints\<close>

definition demo_queue :: "Delivery list \<Rightarrow> (nat \<times> Delivery) list \<Rightarrow> queue" where
  "demo_queue ds taken_out = \<lparr>backlog = ds, unsettled = taken_out\<rparr>"

definition sent_to_it :: "string \<Rightarrow> string \<Rightarrow> nat \<Rightarrow> bool \<Rightarrow> Delivery" where
  "sent_to_it body type tag again =
     \<lparr>d_Body = body, d_ContentType = type, d_Headers = [], d_Exchange = Orders, d_Key = Placed, Tag = tag, Redelivered = again\<rparr>"

definition demo_broker :: "queue \<Rightarrow> nat list \<Rightarrow> nat list \<Rightarrow> nat list \<Rightarrow> Broker" where
  "demo_broker q acked discarded returned =
     \<lparr>exchanges = [Orders \<mapsto> \<lparr>ex_Name = Orders, Kind = Direct, ex_Durability = Durable\<rparr>], queues = [(Shipping, q)],
      bindings = [\<lparr>bind_Exchange = Orders, bind_Queue = Shipping, bind_Key = Placed\<rparr>], last_tag = 2,
      acks = acked, discards = discarded, requeues = returned\<rparr>"

lemma dispatch_sends_both:
  assumes "EncodeJSON shape demo_order = Inr document"
  shows "dispatch_sends shape NewBroker =
     (demo_broker (demo_queue [sent_to_it unreadable [] 1 False, sent_to_it document ''application/json'' 2 False] []) [] [] [], Inr ())"
  using assms
  by (simp add: dispatch_sends_def Prepare_def Declare_def topology_def flat_map_def declare_exchange_in_process
      declare_queue_in_process BindQueue_in_process bindable_def NewBroker_def DeclareExchange_def DeclareQueue_def
      publish_def in_process_def Place_def Encode_def Publish_def queuesFor_def routeTargets_def findQueue_def offer_def
      change_queue_def capacity_def copy_for_def demo_broker_def demo_queue_def sent_to_it_def Orders_def)

lemma demo_step:
  assumes "opens from_resource"
  shows "Ship from_resource (beside_consumer in_process_consumer) shape pack
           (demo_broker (demo_queue (sent_to_it body type tag again # ds) []) acked discarded returned, p) =
     flat_map (shipOrder (next_envelope shape (sent_to_it body type tag again)) pack) (\<lambda>ys w. (w, Inr (Emit ys)))
       (demo_broker (demo_queue ds [(tag, sent_to_it body type tag again)]) acked discarded returned, p)"
proof -
  let ?b = "demo_broker (demo_queue (sent_to_it body type tag again # ds) []) acked discarded returned"
  have at: "map_of (queues ?b) Shipping = Some (demo_queue (sent_to_it body type tag again # ds) [])" by (simp add: demo_broker_def)
  have "Next Shipping ?b =
      Some (demo_broker (demo_queue ds [(tag, sent_to_it body type tag again)]) acked discarded returned, sent_to_it body type tag again)"
    by (simp add: Next_def receive_from_def hand_out_def change_queue_def demo_broker_def demo_queue_def sent_to_it_def)
  then show ?thesis
    using assms subscribed [OF at, of p]
    by (simp add: Ship_def collect_stream_effect_one Values_def opens_def map_stream_def flat_map_def next_envelope_def
        streamDeliveries_def beside_deliveries_def subscription_def on_first_def)
qed

lemma shipping_settles:
  "ack (next_envelope shape (sent_to_it body type tag again))
     (demo_broker (demo_queue ds [(tag, sent_to_it body type tag again)]) acked discarded returned, p) =
   ((demo_broker (demo_queue ds []) (acked @ [tag]) discarded returned, p), Inr ())"
  "discard (next_envelope shape (sent_to_it body type tag again))
     (demo_broker (demo_queue ds [(tag, sent_to_it body type tag again)]) acked discarded returned, p) =
   ((demo_broker (demo_queue ds []) acked (discarded @ [tag]) returned, p), Inr ())"
  "length ds < capacity \<Longrightarrow> requeue (next_envelope shape (sent_to_it body type tag again))
     (demo_broker (demo_queue ds [(tag, sent_to_it body type tag again)]) acked discarded returned, p) =
   ((demo_broker (demo_queue (ds @ [sent_to_it body type tag True]) []) acked discarded (returned @ [tag]), p), Inr ())"
  by (simp_all add: ack_def discard_def requeue_def settle_envelope_def next_envelope_def decodeDelivery_def beside_deliveries_def
      subscription_def on_first_def try_fx_def Ack_def Discard_def Requeue_def settle_def owed_def offer_def
      change_queue_def demo_broker_def demo_queue_def sent_to_it_def)

lemma shipping_pulls:
  assumes "opens from_resource" and "DecodeJSON shape unreadable = Inl err" and "DecodeJSON shape document = Inr demo_order"
  shows "run_take (Suc (Suc (Suc extra))) (Suc 0)
      (Ship from_resource (beside_consumer in_process_consumer) shape (\<lambda>order. on_second (demo_pack order)))
      (demo_broker (demo_queue [sent_to_it unreadable [] 1 False, sent_to_it document ''application/json'' 2 False] []) [] [] [], 0) =
    ((demo_broker (demo_queue [] []) [2] [1] [2], 2), Some (Inr [demo_order]))"
proof -
  let ?ship = "Ship from_resource (beside_consumer in_process_consumer) shape (\<lambda>order. on_second (demo_pack order))"
  have reads: "env_Read (next_envelope shape (sent_to_it body type tag again)) =
      (case DecodeJSON shape body of Inl why \<Rightarrow> Inl (faultOf ''decode a delivery'' Placed why) | Inr order \<Rightarrow> Inr order)"
    for body type tag again by (simp add: next_envelope_def decodeDelivery_def sent_to_it_def split: sum.split)
  have refuse: "?ship (demo_broker (demo_queue [sent_to_it unreadable [] 1 False, d] []) [] [] [], 0) =
      ((demo_broker (demo_queue [d] []) [] [1] [], 0), Inr (Emit []))" for d
    by (simp add: demo_step [OF assms(1)] shipOrder_def reads assms(2) flat_map_def as_value_def shipping_settles)
  have busy: "?ship (demo_broker (demo_queue [sent_to_it document type 2 False] []) [] [1] [], 0) =
      ((demo_broker (demo_queue [sent_to_it document type 2 True] []) [] [1] [2], 1), Inr (Emit []))" for type
    by (simp add: demo_step [OF assms(1)] shipOrder_def reads assms(3) flat_map_def as_value_def catch_all_def on_second_def
        demo_pack_def shipping_settles capacity_def)
  have packed: "?ship (demo_broker (demo_queue [sent_to_it document type 2 True] []) [] [1] [2], 1) =
      ((demo_broker (demo_queue [] []) [2] [1] [2], 2), Inr (Emit [demo_order]))" for type
    by (simp add: demo_step [OF assms(1)] shipOrder_def reads assms(3) flat_map_def as_value_def catch_all_def on_second_def
        demo_pack_def shipping_settles)
  show ?thesis
    unfolding run_take_steps(1) [of ?ship, OF refuse] run_take_steps(1) [of ?ship, OF busy]
    by (rule run_take_steps(2) [of ?ship, OF packed])
qed

text \<open>The demonstration shows what it says it shows: with a schema that refuses the message nobody can read
and reads back the order it writes, three pulls of the queue ship one order, and what is printed is one
order shipped, one delivery accepted, one discarded and one sent back.\<close>

theorem dispatch_is_demonstrated:
  assumes "opens from_resource" and "EncodeJSON shape demo_order = Inr document"
    and "DecodeJSON shape document = Inr demo_order" and "DecodeJSON shape unreadable = Inl err"
  shows "runDispatch from_resource shape printed (3 + extra) =
    Some (Inr [''dispatch: shipped 1, accepted 1, discarded 1, sent back 1'', ''  lamp x2 (8f14e45f-ceea-467a-a4fb-1a9c73d0f2b1)''])"
proof -
  have "dispatch_lines (demo_broker (demo_queue [] []) [2] [1] [2]) [demo_order] =
      [''dispatch: shipped 1, accepted 1, discarded 1, sent back 1'', ''  lamp x2 (8f14e45f-ceea-467a-a4fb-1a9c73d0f2b1)'']"
    by code_simp
  then show ?thesis
    using dispatch_sends_both [OF assms(2)] shipping_pulls [OF assms(1,4,3), of extra]
    by (simp add: runDispatch_def on_first_def numeral_3_eq_3)
qed

text \<open>A schema that reads one order and no other document: an instance of the parameters.\<close>

definition one_order :: "Order Schema" where
  "one_order =
     \<lparr>EncodeJSON = (\<lambda>order. Inr (Reference order)),
      DecodeJSON = (\<lambda>document. if document = Reference demo_order then Inr demo_order else Inl ''not an order'')\<rparr>"

theorem dispatch_is_demonstrated_witness:
  "runDispatch plain_resource one_order (\<lambda>_. ''failed'') 3 =
     Some (Inr [''dispatch: shipped 1, accepted 1, discarded 1, sent back 1'', ''  lamp x2 (8f14e45f-ceea-467a-a4fb-1a9c73d0f2b1)''])"
proof -
  have opened: "opens (plain_resource :: (Broker \<times> nat, (Broker \<times> nat, Order) Envelope) from_resource)"
    by (simp add: opens_def plain_resource_def)
  have schema: "EncodeJSON one_order demo_order = Inr (Reference demo_order)"
    "DecodeJSON one_order (Reference demo_order) = Inr demo_order" "DecodeJSON one_order unreadable = Inl ''not an order''"
    by (simp_all add: one_order_def demo_order_def unreadable_def)
  from dispatch_is_demonstrated [OF opened schema, of _ 0] show ?thesis by simp
qed

end
