(* ===== verification/Webdemo_Consign.thy ===== *)
theory Webdemo_Consign
  imports Example_Consign
begin

text \<open>
  The demonstration of the consignment program (\<open>examples/cmd/webdemo/consign.go\<close>): a message nobody can
  read and a shipment are sent to a node of the broker in this process, and one shipment is collected by
  a carrier that has no room the first time it is asked.

  What is printed is the list of its lines, and a failure the text that \<open>fail\<close> is given; the printing of
  the runtime's exit is an argument, and so is the \<open>float64\<close> that is written 12.5. Collecting is pulled
  with a bound; nothing is printed when it does not suffice.
\<close>

section \<open>The scenario\<close>

text \<open>The carrier counts its attempts in a variable of the scenario.\<close>

definition demo_carrier :: "Shipment \<Rightarrow> nat \<Rightarrow> nat \<times> (Fault, Outcome option) result" where
  "demo_carrier shipment tries =
     (let tries = tries + 1 in
      if tries > 1 then (tries, Inr (Some Collection))
      else (tries, Inr (Some (Refusal NotNow (''no room on today'' @ [CHR 0x27] @ ''s van'')))))"

definition demo_shipment :: "float64 \<Rightarrow> Shipment" where
  "demo_shipment weight = \<lparr>Reference = ''8f14e45f-ceea-467a-a4fb-1a9c73d0f2b1'', Carrier = ''overland'', Weight = weight\<rparr>"

definition unreadable :: string where
  "unreadable = ''{\"reference\":\"not a uuid\",\"carrier\":\"\",\"weight\":0}''"

definition consign_sends :: "sender \<Rightarrow> Shipment Schema \<Rightarrow> float64 \<Rightarrow> (Broker \<times> receiver, Fault, unit) fx" where
  "consign_sends out_link ShipmentSchema weight =
     flat_map (send (in_process_sender out_link)
        \<lparr>msg_Body = unreadable, msg_ContentType = [], msg_Subject = [], msg_Properties = [], msg_Durability = Transient\<rparr>)
       (\<lambda>_. Hand (in_process_sender out_link) ShipmentSchema (demo_shipment weight))"

definition shown_bool :: "bool \<Rightarrow> string" where
  "shown_bool b = (if b then ''true'' else ''false'')"

definition consign_lines :: "Broker \<Rightarrow> Shipment list \<Rightarrow> string list" where
  "consign_lines broker shipments =
     (''consign: collected '' @ digits (length shipments) @ '', accepted '' @ digits (length (accepted broker)) @
      '', rejected '' @ digits (length (rejected broker)) @ '', given back '' @ digits (length (modified broker))) #
     map (\<lambda>(tag, reason). ''  rejected: '' @ reason) (rejected broker) @
     map (\<lambda>(tag, change). ''  given back: delivery failed='' @ shown_bool (DeliveryFailed change) @
            '' undeliverable here='' @ shown_bool (UndeliverableHere change)) (modified broker)"

definition runConsign :: "Shipment Schema \<Rightarrow> float64 \<Rightarrow> (Fault \<Rightarrow> string) \<Rightarrow> nat \<Rightarrow> (string, string list) result option" where
  "runConsign ShipmentSchema weight printed pulls =
     (let broker = Declare NewBroker Consignments in
      case Sender broker Consignments of
        Inl err \<Rightarrow> Some (Inl err)
      | Inr out_link \<Rightarrow>
          (case Receiver broker Consignments of
             Inl err \<Rightarrow> Some (Inl err)
           | Inr in_link \<Rightarrow>
               (case on_first (consign_sends out_link ShipmentSchema weight) ((broker, in_link), 0) of
                  (w, Inl fault) \<Rightarrow> Some (Inl (''consign: '' @ printed fault))
                | (w, Inr _) \<Rightarrow>
                    (case run_take pulls 1
                            (Collect (beside_receiver Consignments) ShipmentSchema (\<lambda>shipment. on_second (demo_carrier shipment))) w of
                       (w', None) \<Rightarrow> None
                     | (w', Some (Inl fault)) \<Rightarrow> Some (Inl (''consign: '' @ printed fault))
                     | (w', Some (Inr shipments)) \<Rightarrow> Some (Inr (consign_lines (fst (fst w')) shipments))))))"

section \<open>What it prints\<close>

definition sent_to_it :: "string \<Rightarrow> string \<Rightarrow> string \<Rightarrow> nat \<Rightarrow> 32 word \<Rightarrow> Delivery" where
  "sent_to_it document type about n tried =
     \<lparr>del_Body = document, del_ContentType = type, del_Subject = about, del_Properties = [],
      del_Tag = delivery_tag Consignments n, Attempts = tried\<rparr>"

definition demo_node :: "Delivery list \<Rightarrow> string list \<Rightarrow> (string \<times> string) list \<Rightarrow> (string \<times> Change) list \<Rightarrow> Broker" where
  "demo_node ds taken refused returned =
     \<lparr>nodes = [Consignments \<mapsto> ds], last_tag = 2, accepted = taken, rejected = refused, released = [], modified = returned\<rparr>"

lemma consign_sends_both:
  assumes "EncodeJSON shape (demo_shipment weight) = Inr document"
  shows "consign_sends \<lparr>s_address = Consignments, s_detached = False\<rparr> shape weight (Declare NewBroker Consignments, fresh_link) =
     ((demo_node [sent_to_it unreadable [] [] 1 0,
                  sent_to_it document ''application/json'' (Reference (demo_shipment weight)) 2 0] [] [] [], fresh_link), Inr ())"
  using assms
  by (simp add: consign_sends_def Declare_def NewBroker_def Hand_def Encode_def send_def in_process_sender_def try_fx_def
      Send_def Let_def flat_map_def demo_node_def sent_to_it_def numeral_2_eq_2)

lemma demo_receives:
  "Collect (beside_receiver Consignments) shape carrier ((demo_node (d # ds) taken refused returned, fresh_link), p) =
     flat_map (collectConsignment (decodeDelivery (beside_receiver Consignments) d shape) carrier) (\<lambda>ys w. (w, Inr (Emit ys)))
       ((demo_node ds taken refused returned, fresh_link\<lparr>unsettled := [del_Tag d \<mapsto> d]\<rparr>), p)"
  unfolding Collect_def
  by (rule collect_stream_effect_one)
    (simp add: Values_def map_stream_def flat_map_def receive_def beside_receiver_def in_process_receiver_def
      Let_def on_first_def Receive_def demo_node_def fresh_link_def)

lemma collecting_settles:
  fixes shape :: "Shipment Schema" and p :: 'p
  defines "e \<equiv> \<lambda>d. decodeDelivery (beside_receiver Consignments :: ((Broker \<times> receiver) \<times> 'p) ReceiverLink) d shape"
  shows "accept (e d) ((demo_node ds taken refused returned, fresh_link\<lparr>unsettled := [del_Tag d \<mapsto> d]\<rparr>), p) =
      (((demo_node ds (taken @ [del_Tag d]) refused returned, fresh_link), p), Inr ())"
    and "reject (e d) why ((demo_node ds taken refused returned, fresh_link\<lparr>unsettled := [del_Tag d \<mapsto> d]\<rparr>), p) =
      (((demo_node ds taken (refused @ [(del_Tag d, why)]) returned, fresh_link), p), Inr ())"
    and "\<not> UndeliverableHere change \<Longrightarrow>
      modify (e d) change ((demo_node ds taken refused returned, fresh_link\<lparr>unsettled := [del_Tag d \<mapsto> d]\<rparr>), p) =
      (((demo_node (ds @ [d\<lparr>Attempts := Attempts d + 1\<rparr>]) taken refused (returned @ [(del_Tag d, change)]), fresh_link), p), Inr ())"
  by (simp_all add: e_def accept_def reject_def modify_def settleDelivery_def decodeDelivery_def beside_receiver_def
      in_process_receiver_def Let_def try_fx_def on_first_def Accept_def Reject_def Modify_def settle_def redeliver_def
      demo_node_def fresh_link_def)

text \<open>What the carrier's refusal becomes on the message given back.\<close>

definition demo_change :: Change where
  "demo_change = change_for 0 (Inr (Some (Refusal NotNow (''no room on today'' @ [CHR 0x27] @ ''s van''))))"

definition why_unreadable :: "string \<Rightarrow> string" where
  "why_unreadable err = ''the shipment cannot be read: amqp10: decode a message: '' @ err"

lemma why_unreadable_is:
  "''the shipment cannot be read: '' @ Amqp10_Client.Error (Amqp10_Client.faultOf ''decode a message'' [] err) = why_unreadable err"
  by (simp add: Amqp10_Client.Error_def Amqp10_Client.faultOf_def why_unreadable_def)

lemma collecting_pulls:
  assumes "DecodeJSON shape unreadable = Inl err" and "DecodeJSON shape document = Inr (demo_shipment weight)"
  shows "run_take (Suc (Suc (Suc extra))) (Suc 0)
      (Collect (beside_receiver Consignments) shape (\<lambda>shipment. on_second (demo_carrier shipment)))
      ((demo_node [sent_to_it unreadable [] [] 1 0, sent_to_it document type about 2 0] [] [] [], fresh_link), 0) =
    (((demo_node [] [delivery_tag Consignments 2] [(delivery_tag Consignments 1, why_unreadable err)]
        [(delivery_tag Consignments 2, demo_change)], fresh_link), 2), Some (Inr [demo_shipment weight]))"
proof -
  let ?collect = "Collect (beside_receiver Consignments) shape (\<lambda>shipment. on_second (demo_carrier shipment))"
  have reads: "env_Read (decodeDelivery link (sent_to_it content type about n tried) shape) =
      (case DecodeJSON shape content of Inl why \<Rightarrow> Inl (faultOf ''decode a message'' about why) | Inr v \<Rightarrow> Inr v)"
    "env_Delivery (decodeDelivery link (sent_to_it content type about n tried) shape) = sent_to_it content type about n tried"
    for link :: "((Broker \<times> receiver) \<times> nat) ReceiverLink" and content type about n tried
    by (simp_all add: decodeDelivery_def sent_to_it_def split: sum.split)
  have parts: "Attempts (sent_to_it content type about n tried) = tried" "del_Tag (sent_to_it content type about n tried) = delivery_tag Consignments n"
    "sent_to_it content type about n tried\<lparr>Attempts := again\<rparr> = sent_to_it content type about n again" for content type about n tried again
    by (simp_all add: sent_to_it_def)
  note settles = collecting_settles [where d = "sent_to_it content type about n tried" for content type about n tried, unfolded parts]
  have final: "NotNow \<noteq> Never" "NotNow \<noteq> NotMe" by (simp_all add: NotNow_def Never_def NotMe_def)
  have refuse: "?collect ((demo_node [sent_to_it unreadable [] [] 1 0, d] [] [] [], fresh_link), 0) =
      (((demo_node [d] [] [(delivery_tag Consignments 1, why_unreadable err)] [], fresh_link), 0), Inr (Emit []))" for d
    by (simp add: demo_receives collectConsignment_def reads assms(1) flat_map_def as_value_def settles parts
        why_unreadable_is [simplified])
  have returned_once: "?collect ((demo_node [sent_to_it document type about 2 0] [] refused [], fresh_link), 0) =
      (((demo_node [sent_to_it document type about 2 1] [] refused [(delivery_tag Consignments 2, demo_change)], fresh_link), 1),
       Inr (Emit []))" for refused
    by (simp add: demo_receives collectConsignment_def reads assms(2) flat_map_def as_value_def on_second_def demo_carrier_def
        settleConsignment_def final settles parts demo_change_def)
  have taken: "?collect ((demo_node [sent_to_it document type about 2 1] [] refused returned, fresh_link), 1) =
      (((demo_node [] [delivery_tag Consignments 2] refused returned, fresh_link), 2), Inr (Emit [demo_shipment weight]))"
    for refused returned
    by (simp add: demo_receives collectConsignment_def reads assms(2) flat_map_def as_value_def on_second_def demo_carrier_def
        settleConsignment_def settles parts)
  show ?thesis
    unfolding run_take_steps(1) [of ?collect, OF refuse] run_take_steps(1) [of ?collect, OF returned_once]
    by (rule run_take_steps(2) [of ?collect, OF taken])
qed

text \<open>The demonstration of the dispositions shows each: with a schema that refuses the message nobody can
read and reads back the shipment it writes, three pulls of the node collect one shipment, and what is
printed is one accepted, one rejected with the reason it could not be read, and one given back as a
delivery that failed.\<close>

theorem consign_is_demonstrated:
  assumes "EncodeJSON shape (demo_shipment weight) = Inr document"
    and "DecodeJSON shape document = Inr (demo_shipment weight)" and "DecodeJSON shape unreadable = Inl err"
  shows "runConsign shape weight printed (3 + extra) =
    Some (Inr [''consign: collected 1, accepted 1, rejected 1, given back 1'',
               ''  rejected: the shipment cannot be read: amqp10: decode a message: '' @ err,
               ''  given back: delivery failed=true undeliverable here=false''])"
proof -
  have "''consign: collected '' @ digits 1 @ '', accepted '' @ digits 1 @ '', rejected '' @ digits 1 @ '', given back '' @ digits 1 =
      ''consign: collected 1, accepted 1, rejected 1, given back 1''" by code_simp
  then have printed: "consign_lines (demo_node [] [t] [(t', why_unreadable err)] [(t, demo_change)]) [x] =
      [''consign: collected 1, accepted 1, rejected 1, given back 1'',
       ''  rejected: the shipment cannot be read: amqp10: decode a message: '' @ err,
       ''  given back: delivery failed=true undeliverable here=false'']" for t t' x
    by (simp add: consign_lines_def demo_node_def why_unreadable_def demo_change_def NotNow_def NotMe_def shown_bool_def)
  have "Sender (Declare NewBroker Consignments) Consignments = Inr \<lparr>s_address = Consignments, s_detached = False\<rparr>"
    "Receiver (Declare NewBroker Consignments) Consignments = Inr fresh_link"
    by (simp_all add: Sender_def Receiver_def Declare_def NewBroker_def fresh_link_def)
  then show ?thesis
    using consign_sends_both [OF assms(1)] collecting_pulls [OF assms(3,2), of extra "''application/json''"] printed
    by (simp add: runConsign_def on_first_def numeral_3_eq_3)
qed

text \<open>A schema that reads one shipment and no other document: an instance of the parameters.\<close>

definition one_shipment :: "float64 \<Rightarrow> Shipment Schema" where
  "one_shipment weight =
     \<lparr>EncodeJSON = (\<lambda>shipment. Inr (Reference shipment)),
      DecodeJSON = (\<lambda>document. if document = Reference (demo_shipment weight) then Inr (demo_shipment weight)
                               else Inl ''not a shipment'')\<rparr>"

theorem consign_is_demonstrated_witness:
  "\<forall>weight. runConsign (one_shipment weight) weight (\<lambda>_. ''failed'') 3 =
    Some (Inr [''consign: collected 1, accepted 1, rejected 1, given back 1'',
               ''  rejected: the shipment cannot be read: amqp10: decode a message: not a shipment'',
               ''  given back: delivery failed=true undeliverable here=false''])"
proof
  fix weight
  have schema: "EncodeJSON (one_shipment weight) (demo_shipment weight) = Inr (Reference (demo_shipment weight))"
    "DecodeJSON (one_shipment weight) (Reference (demo_shipment weight)) = Inr (demo_shipment weight)"
    "DecodeJSON (one_shipment weight) unreadable = Inl ''not a shipment''"
    by (simp_all add: one_shipment_def demo_shipment_def unreadable_def)
  from consign_is_demonstrated [OF schema, of _ 0]
  show "runConsign (one_shipment weight) weight (\<lambda>_. ''failed'') 3 =
    Some (Inr [''consign: collected 1, accepted 1, rejected 1, given back 1'',
               ''  rejected: the shipment cannot be read: amqp10: decode a message: not a shipment'',
               ''  given back: delivery failed=true undeliverable here=false''])" by simp
qed

end
