(* ===== verification/Webdemo_Quote.thy ===== *)
theory Webdemo_Quote
  imports Example_Quote
begin

text \<open>
  The demonstration of the pricing service (\<open>examples/cmd/webdemo/quote.go\<close>): the procedure is answered
  at a boundary, the boundary's handler is served at an address, and three enquiries are asked of it
  over Connect; then the contract it implies is printed.

  What is printed is the list of its lines, with the text that \<open>fail\<close> is given when it ends early;
  there is no value where the multiplexer is given a pattern that is not modelled. The listener, the
  network that reaches a handler at an address, the runtime and the schema module's contract are
  arguments; shutting the server down at the end of the function is not modelled.
\<close>

section \<open>The scenario\<close>

definition rates :: "string \<rightharpoonup> Rate" where
  "rates = [''Kiel-Hamburg'' \<mapsto> \<lparr>Carrier = ''overland'', Currency = ''EUR'', Cents = 4000\<rparr>]"

definition demo_enquiries :: "Enquiry list" where
  "demo_enquiries =
     [\<lparr>Origin = ''Kiel'', Destination = ''Hamburg'', Kilos = Finite 100 0\<rparr>,
      \<lparr>Origin = ''Kiel'', Destination = ''Lima'', Kilos = Finite 100 0\<rparr>,
      \<lparr>Origin = ''Kiel'', Destination = ''Hamburg'', Kilos = Finite 30000 0\<rparr>]"

definition enquiry_line :: "('k, Failure) cause_ops \<Rightarrow> Enquiry \<Rightarrow> ('k, Rate) result \<Rightarrow> string" where
  "enquiry_line causes enquiry exit =
     ''  '' @ padded 22 (Destination enquiry) @ '' '' @
     (case exit of
        Inr rate \<Rightarrow> Currency rate @ '' '' @ itoa (sint (Cents rate)) @ '' '' @ Carrier rate
      | Inl cause \<Rightarrow>
          (case cause_Failure causes cause of
             None \<Rightarrow> cause_String causes cause
           | Some failure \<Rightarrow> ''code '' @ digits (unat (failure_Code failure)) @ '': '' @ failure_Message failure))"

text \<open>How the runtime runs the effect of a call.\<close>

type_synonym ('w, 'k) run_call = "('w \<Rightarrow> 'w \<times> (Failure, Rate) result) \<Rightarrow> 'w \<Rightarrow> 'w \<times> ('k, Rate) result"

definition askFor ::
  "('k, Failure) cause_ops \<Rightarrow> ('w, 'k) run_call \<Rightarrow> 'x \<Rightarrow> ('x, 'w) ClientTransport \<Rightarrow>
   (Enquiry, Rate, 'n) Procedure \<Rightarrow> Enquiry \<Rightarrow> 'w \<Rightarrow> 'w \<times> string" where
  "askFor causes runs background client procedure enquiry w =
     map_prod (\<lambda>w. w) (enquiry_line causes enquiry) (runs (Ask client procedure enquiry background) w)"

text \<open>One enquiry after the other, and the lines they print.\<close>

fun asked_in_turn :: "('e \<Rightarrow> 'w \<Rightarrow> 'w \<times> 'l) \<Rightarrow> 'e list \<Rightarrow> 'w \<Rightarrow> 'w \<times> 'l list" where
  "asked_in_turn ask [] w = (w, [])"
| "asked_in_turn ask (e # es) w =
     (let (w1, l) = ask e w; (w2, ls) = asked_in_turn ask es w1 in (w2, l # ls))"

definition runQuote ::
  "('c, Refusal) cause_ops \<Rightarrow> (string \<Rightarrow> 'w \<Rightarrow> 'w) \<Rightarrow> ('x, unit, (Refusal, Rate) result, 'w, 'c, Rate) Run \<Rightarrow>
   (Enquiry, 'n) proto_schema \<Rightarrow> (Rate, 'n) proto_schema \<Rightarrow> (float \<Rightarrow> 64 word) \<Rightarrow>
   (rpc_fault, string) result \<Rightarrow>
   (string \<Rightarrow> (string \<times> (('x, 'w, unit, 'c, Refusal) settings \<times> 'x, 'w) rpc_handler) list \<Rightarrow> ('x, 'w) CallUnary) \<Rightarrow>
   ('k, Failure) cause_ops \<Rightarrow> ('w, 'k) run_call \<Rightarrow> 'x \<Rightarrow> ('n, 'd) contract_ops \<Rightarrow> ('d \<Rightarrow> string) \<Rightarrow> 'w \<Rightarrow>
   ('w \<times> string list \<times> rpc_fault option) option" where
  "runQuote ops stderr run es rs other listener network causes runs background contract_lib Render w =
     (case NewBoundary ops stderr True () (Some NewConnectServer) (Some FailureFor) of
        Inl err \<Rightarrow> Some (w, [], Some err)
      | Inr boundary \<Rightarrow>
     (case quote_Answer ops run es rs other (Some boundary) rates of
        None \<Rightarrow> None
      | Some (Inl err) \<Rightarrow> Some (w, [], Some err)
      | Some (Inr boundary) \<Rightarrow>
     (case boundary_Handler boundary of
        Inl err \<Rightarrow> Some (w, [], Some err)
      | Inr handler \<Rightarrow>
     (case listener of
        Inl err \<Rightarrow> Some (w, [], Some err)
      | Inr listening \<Rightarrow>
          (let base = ''http://'' @ listening;
               serving = ''quote: serving '' @ Path (Quote es rs) @ '' on '' @ base;
               client = Call (network base handler) (DialConnect base);
               (w, lines) = asked_in_turn (askFor causes runs background client (Quote es rs)) demo_enquiries w
           in case Contract contract_lib ''logistics.v1'' [declared (Quote es rs)] of
                Inl err \<Rightarrow> Some (w, serving # lines, Some err)
              | Inr document \<Rightarrow>
                  Some (w, serving # lines @ [''published contract:'' @ [CHR 0x0A] @ Render document], None))))))"

section \<open>What it prints\<close>

definition runs_calls :: "('k, Failure) cause_ops \<Rightarrow> ('w, 'k) run_call \<Rightarrow> (Failure \<Rightarrow> 'k) \<Rightarrow> bool" where
  "runs_calls causes runs failing \<longleftrightarrow>
     (\<forall>fx w. runs fx w = map_prod (\<lambda>w. w) (map_sum failing (\<lambda>rate. rate)) (fx w)) \<and>
     (\<forall>failure. cause_Failure causes (failing failure) = Some failure)"

definition demo_prices :: "(Refusal, Rate) result list" where
  "demo_prices =
     [Inr \<lparr>Carrier = ''overland'', Currency = ''EUR'', Cents = 5000\<rparr>,
      Inl \<lparr>refusal_Reason = NoRoute, Details = ''nobody carries Kiel to Lima''\<rparr>,
      Inl \<lparr>refusal_Reason = TooHeavy, Details = ''no carrier takes more than 24 tonnes''\<rparr>]"

lemma hundred_kilos: "to_int64 other (float_times (Finite 100 0) (Finite 10 0)) = 1000"
proof -
  have "float_times (Finite 100 0) (Finite 10 0) = Finite 1000 0" by code_simp
  then show ?thesis by (simp only: to_int64_def float.case Let_def) (simp add: dropped_fraction_def)
qed

lemma demo_priced: "map (Price other rates) demo_enquiries = demo_prices"
  by (simp add: Price_def demo_enquiries_def demo_prices_def rates_def quoteRefusal_def maxKilos_def hundred_kilos
      del: float_times.simps)

text \<open>What the three exits are printed as.\<close>

definition demo_lines :: "string list" where
  "demo_lines =
     [''  Hamburg                EUR 5000 overland'', ''  Lima                   code 5: nobody carries Kiel to Lima'',
      ''  Hamburg                code 9: no carrier takes more than 24 tonnes'']"

lemma demo_printed:
  assumes "\<And>failure. cause_Failure causes (failing failure) = Some failure"
  shows "map2 (enquiry_line causes) demo_enquiries (map (map_sum (failing \<circ> FailureFor) (\<lambda>rate. rate)) demo_prices) = demo_lines"
proof -
  have "digits 5 = ''5''" "digits 9 = ''9''" by code_simp+
  moreover have "digits 5000 = ''5000''" by (simp add: digits.simps char_of_def bit_Suc_0_iff)
  moreover have "padded 22 ''Hamburg'' = ''Hamburg               ''" "padded 22 ''Lima'' = ''Lima                  ''"
    by code_simp+
  moreover have "sint (5000 :: 64 word) = 5000" "unat (5 :: Code) = 5" "unat (9 :: Code) = 9" by simp_all
  ultimately show ?thesis using assms
    by (simp add: enquiry_line_def demo_enquiries_def demo_prices_def demo_lines_def itoa_def FailureFor_def code_defs
        NoRoute_def TooHeavy_def NoCapacity_def)
qed

lemma map2_same: "map2 h xs (map f xs) = map (\<lambda>x. h x (f x)) xs"
  by (induction xs) simp_all

lemma asked_in_turn_pure:
  assumes "\<And>e. e \<in> set es \<Longrightarrow> ask e w = (w, line e)"
  shows "asked_in_turn ask es w = (w, map line es)"
  using assms by (induction es) simp_all

text \<open>The demonstration shows what it says it shows: with schemas that read back what they write and can
write the three enquiries and the one price, served on a network that gets through, it prints the
price of the route in the table, the code that says nobody carries the second, and the one that
says no carrier takes the third, and then the contract.\<close>

theorem quote_is_demonstrated:
  assumes "runs_exits ops run refusing" and "runs_calls causes runs failing"
    and "proto_Validate es = None" and "proto_Validate rs = None" and "proto_lawful es" and "proto_lawful rs"
    and "\<And>enquiry. enquiry \<in> set demo_enquiries \<Longrightarrow> \<exists>m. proto_Encode es enquiry = Inr m"
    and "\<And>rate. Inr rate \<in> set demo_prices \<Longrightarrow> \<exists>m. proto_Encode rs rate = Inr m"
    and "\<And>mux. delivers (network (''http://'' @ listening) mux) arriving (''http://'' @ listening) mux"
    and "fst (arriving background) =
      \<lparr>environment = (), onFailure = FailureFor, onDefect = defectFailure ops, report = reportToStandardError stderr\<rparr>"
    and "Contract contract_lib ''logistics.v1'' [declared (Quote es rs)] = Inr document"
  shows "runQuote ops stderr run es rs other (Inr listening) network causes runs background contract_lib Render w =
    Some (w, (''quote: serving /logistics.v1.Rates/Quote on http://'' @ listening) # demo_lines @
      [''published contract:'' @ [CHR 0x0A] @ Render document], None)"
proof -
  let ?b = "\<lparr>settings_of = \<lparr>environment = (), onFailure = FailureFor, onDefect = defectFailure ops,
                            report = reportToStandardError stderr\<rparr>,
             transport = NewConnectServer\<rparr>"
  let ?base = "''http://'' @ listening"
  obtain t where mounted: "quote_Answer ops run es rs other (Some ?b) rates = Some (Inr (?b\<lparr>transport := t\<rparr>))"
    and handler: "server_Handler t = Inr (srv_mux t)"
    using quote_mounts [of ?b es rs ops run other rates] assms(3,4) by auto
  let ?client = "Call (network ?base (srv_mux t)) (DialConnect ?base)"
  have d: "delivers (network ?base (srv_mux t)) arriving (client_address (DialConnect ?base)) (srv_mux (transport (?b\<lparr>transport := t\<rparr>)))"
    using assms(9) by (simp add: DialConnect_def)
  have arrives: "arriving background = (settings_of (?b\<lparr>transport := t\<rparr>), snd (arriving background))"
    using assms(10) by (simp add: prod_eq_iff)
  have asked: "Ask ?client (Quote es rs) enquiry background w =
      (w, map_sum FailureFor (\<lambda>rate. rate) (Price other rates enquiry))" if enquiry: "enquiry \<in> set demo_enquiries" for enquiry
  proof -
    obtain m where "proto_Encode es enquiry = Inr m" using assms(7) [OF enquiry] by blast
    moreover have "\<exists>m. proto_Encode rs rate = Inr m" if "Price other rates enquiry = Inr rate" for rate
    proof -
      have "Inr rate \<in> set (map (Price other rates) demo_enquiries)" using that enquiry by force
      then show ?thesis using assms(8) by (simp only: demo_priced)
    qed
    ultimately show ?thesis
      by (intro quote_priced [OF _ _ mounted assms(1) d arrives assms(5,6)]) (simp_all add: server_ok_new)
  qed
  have printed: "askFor causes runs background ?client (Quote es rs) enquiry w =
      (w, enquiry_line causes enquiry (map_sum (failing \<circ> FailureFor) (\<lambda>rate. rate) (Price other rates enquiry)))"
    if "enquiry \<in> set demo_enquiries" for enquiry
    using asked [OF that] assms(2) by (simp add: askFor_def runs_calls_def sum.map_comp comp_def)
  have "map (\<lambda>enquiry. enquiry_line causes enquiry (map_sum (failing \<circ> FailureFor) (\<lambda>rate. rate) (Price other rates enquiry)))
      demo_enquiries = demo_lines"
    using demo_printed [of causes failing] assms(2)
    by (simp add: runs_calls_def map2_same comp_def flip: demo_priced [of other])
  then have "asked_in_turn (askFor causes runs background ?client (Quote es rs)) demo_enquiries w = (w, demo_lines)"
    using asked_in_turn_pure [of demo_enquiries "askFor causes runs background ?client (Quote es rs)" w
      "\<lambda>enquiry. enquiry_line causes enquiry (map_sum (failing \<circ> FailureFor) (\<lambda>rate. rate) (Price other rates enquiry))"] printed
    by simp
  then show ?thesis
    using assms(11) mounted handler
    by (simp add: runQuote_def NewBoundary_def boundary_Handler_def Let_def Quote_path)
qed

text \<open>Schemas that number the values of a list, and a contract that is the names of its methods: instances of the
parameters.\<close>

definition listed :: "'a list \<Rightarrow> ('a, unit) proto_schema" where
  "listed vs =
     \<lparr>proto_Structure = (), proto_Validate = None,
      proto_Encode = (\<lambda>v. if v \<in> set vs then Inr (replicate (length (takeWhile (\<lambda>u. u \<noteq> v) vs)) (CHR ''.'')) else Inl (Reason [])),
      proto_Decode = (\<lambda>m. if length m < length vs then Inr (vs ! length m) else Inl (Reason []))\<rparr>"

lemma takeWhile_before: "v \<in> set vs \<Longrightarrow> length (takeWhile (\<lambda>u. u \<noteq> v) vs) < length vs"
  by (induction vs) auto

lemma listed_lawful: "proto_lawful (listed vs)"
  unfolding proto_lawful_def
proof (intro allI impI)
  fix v m
  assume "proto_Encode (listed vs) v = Inr m"
  then have "v \<in> set vs" "length m = length (takeWhile (\<lambda>u. u \<noteq> v) vs)" by (auto simp: listed_def split: if_splits)
  then show "proto_Decode (listed vs) m = Inr v"
    using nth_length_takeWhile [of "\<lambda>u. u \<noteq> v" vs] takeWhile_before by (force simp: listed_def)
qed

definition method_names :: "(unit, string list) contract_ops" where
  "method_names = \<lparr>ProjectServices = (\<lambda>_ procedures. Inr (map pp_Method procedures)), Quote = (\<lambda>s. s)\<rparr>"

definition call_causes :: "(Failure, Failure) cause_ops" where
  "call_causes = \<lparr>ContainsDefect = (\<lambda>_. False), cause_Failure = Some, HasInterruptsOnly = (\<lambda>_. False), cause_String = failure_Message\<rparr>"

definition call_exit :: "(nat, Failure) run_call" where
  "call_exit fx w = fx w"

definition demo_settings :: "(unit, nat, unit, Refusal, Refusal) settings" where
  "demo_settings = \<lparr>environment = (), onFailure = FailureFor, onDefect = defectFailure exit_causes,
     report = reportToStandardError (\<lambda>_ w. w)\<rparr>"

theorem quote_is_demonstrated_witness:
  "runQuote exit_causes (\<lambda>_ w. w) exit_run (listed demo_enquiries)
       (listed [\<lparr>Carrier = ''overland'', Currency = ''EUR'', Cents = 5000\<rparr>]) (\<lambda>_. 0) (Inr ''localhost:1'')
       (\<lambda>base mux grpc path. local_connection (Pair demo_settings) mux grpc (TrimPrefix path base))
       call_causes call_exit () method_names concat 7 =
     Some (7, ''quote: serving /logistics.v1.Rates/Quote on http://localhost:1'' # demo_lines @
       [''published contract:'' @ [CHR 0x0A] @ ''Quote''], None)"
proof -
  let ?es = "listed demo_enquiries" and ?rs = "listed [\<lparr>Carrier = ''overland'', Currency = ''EUR'', Cents = 5000\<rparr> :: Rate]"
  let ?network = "\<lambda>base mux grpc path. local_connection (Pair demo_settings) mux grpc (TrimPrefix path base)"
  have runs: "runs_exits exit_causes exit_run (\<lambda>r. r)" "runs_calls call_causes call_exit (\<lambda>f. f)"
    by (auto simp: runs_exits_def exit_causes_def exit_run_def runs_calls_def call_causes_def call_exit_def
        map_sum.identity [unfolded id_def] split: sum.splits)
  have valid: "proto_Validate ?es = None" "proto_Validate ?rs = None" by (simp_all add: listed_def)
  have written: "\<exists>m. proto_Encode ?es enquiry = Inr m" if "enquiry \<in> set demo_enquiries" for enquiry
    using that by (simp add: listed_def)
  have priced: "\<exists>m. proto_Encode ?rs rate = Inr m" if "Inr rate \<in> set demo_prices" for rate
    using that by (auto simp: listed_def demo_prices_def)
  have d: "delivers (?network base mux) (Pair demo_settings) base mux" for mux and base :: string
    using local_delivers [of "Pair demo_settings" mux] by (simp add: delivers_def TrimPrefix_append)
  have "TrimSpace ''logistics.v1.Rates'' \<noteq> []" "TrimSpace ''Quote'' \<noteq> []" by code_simp+
  then have "declared (Quote ?es ?rs) = \<lparr>Declaration.Service = ''logistics.v1.Rates'', Method = ''Quote'',
      Description = ''Quote prices one shipment, or says why it cannot be priced.'', Shapes = ((), ()), declaration_Fault = None\<rparr>"
    by (simp add: declared_def Quote_def procedure_WithDescription_def Unary_def firstSchemaFault_def Service_def Let_def)
      (simp add: listed_def)
  moreover have "bareServiceName method_names ''logistics.v1'' ''logistics.v1.Rates'' = Inr ''Rates''" by code_simp
  ultimately have "Contract method_names ''logistics.v1'' [declared (Quote ?es ?rs)] = Inr [''Quote'']"
    by (simp add: Contract_def method_names_def)
  then show ?thesis
    using quote_is_demonstrated [where es = "?es" and rs = "?rs" and network = "?network" and listening = "''localhost:1''" and w = 7
        and Render = concat and contract_lib = method_names and other = "\<lambda>_. 0", OF runs valid listed_lawful listed_lawful written priced d]
    by (simp add: demo_settings_def)
qed

end
