(* ===== verification/Spec2Isabelle.thy ===== *)
theory Spec2Isabelle
  imports Web_Remote Web_Serve Web_Inflight Amqp091_Runs Amqp091_Adapter Amqp10_Client Openapi_Render Grpc_Calls Websocket
    Bookstore_Contract Shelf_Serve Example_Dispatch Example_Consign Example_Quote Tally_Route
    Webdemo_Bookstore Webdemo_Dispatch Webdemo_Consign Webdemo_Quote
begin

text \<open>
  \<^bold>\<open>A verification of effect-golang-web\<close>

  The repository is a Go library for programs that speak HTTP, websockets, gRPC and AMQP through
  effects: values that say what a program will do, that a runtime of another module interprets.
  This development translates its packages into HOL and proves what makes each correct, and
  what they make of each other. Its root is this theory.

  \<^bold>\<open>The program\<close>

  \<^item> \<open>web\<close> is the core. A path is parsed to a pattern; an endpoint is a method, a pattern, a codec
    that reads its input from a request and an output that writes its value to a response. A route
    is an endpoint with a handler, or an upgrade; routes are assembled to a surface, which keeps
    them in a tree and dispatches a request to the best one. An adapter runs the handler of a
    surface as an \<open>http.Handler\<close> and decides what a failure answers with and with whom an answer is
    shared; a server runs an \<open>http.Handler\<close> until its scope closes. On the other side a client
    fills the pattern of an endpoint, sends a request and reads the answer through the same
    output, and an upstream client does so on terms: it keeps answers, waits for its turn, asks
    again and reads one answer for all who wait for it.
  \<^item> \<open>openapi\<close> projects the declarations of a surface to a document and renders it as JSON.
  \<^item> \<open>grpc\<close> declares procedures, answers them over a transport and calls them.
  \<^item> \<open>websocket\<close> gives the two sides of a conversation: a stream of what is received and a sink.
  \<^item> \<open>amqp091\<close> and \<open>amqp10\<close> publish to and consume from brokers of the two protocols, each with an
    adapter to a client library and a broker of its own inside the process.

  \<^bold>\<open>Theories\<close>

  \<^item> \<open>Prelude\<close>: results, and the functions of \<open>strings\<close>, \<open>strconv\<close> and \<open>slices\<close> the code calls, with how
    they undo each other. \<open>Effects\<close>: effects and streams as what running them does.
  \<^item> \<open>Web_Fault\<close> (\<open>web/fault.go\<close>): errors, faults, refusals and their kinds. \<open>Web_Message\<close>
    (\<open>request.go\<close>, \<open>response.go\<close>, \<open>response_browser.go\<close>): requests, responses and what a
    response does to an \<open>http.ResponseWriter\<close>. \<open>Web_Codec\<close> and \<open>Web_Codec_Laws\<close> (\<open>codec*.go\<close>,
    \<open>text_source.go\<close>): parameters, entities, combinators, structs and pages, when they are usable
    and what they accept.
  \<^item> \<open>Web_Path\<close> (\<open>path.go\<close>): the grammar of patterns. \<open>Web_Tree\<close> (\<open>route_tree.go\<close>): insertion and
    resolution, and that a resolution is the best match. \<open>Web_Endpoint\<close> (\<open>endpoint*.go\<close>, \<open>call.go\<close>):
    outputs and declarations. \<open>Web_Route\<close> (\<open>route*.go\<close>, \<open>phase.go\<close>, \<open>naming.go\<close>, \<open>handler.go\<close>,
    \<open>middleware.go\<close>): handlers and their settings. \<open>Web_Routes\<close> (\<open>routes.go\<close>): assembling.
    \<open>Web_Dispatch\<close>: dispatch equals a scan of the routes. \<open>Web_Fill\<close>: what a client fills is what the
    server matches. \<open>Web_Settings\<close>: what phases, spans and middleware change of a request, which is
    nothing but what they say.
  \<^item> \<open>Web_Boundary\<close> (\<open>adapter.go\<close>, \<open>cross_origin.go\<close>): answers of a boundary. \<open>Web_Serve\<close> (\<open>server.go\<close>,
    \<open>serve_loop.go\<close>): the loop of a server beside what runs with it, as a step relation.
  \<^item> \<open>Net_Url\<close>: what the code uses of \<open>net/url\<close>. \<open>Web_Client\<close> (\<open>client.go\<close>, \<open>call.go\<close>): sending
    and calling. \<open>Web_Remote\<close>: a client and a surface over a network. \<open>Web_Upstream\<close>
    (\<open>upstream_client.go\<close>, \<open>upstream_cache.go\<close>, \<open>upstream_refusal.go\<close>) and \<open>Web_Inflight\<close>
    (\<open>upstream_inflight.go\<close>): terms, keys, what is kept, and one reading for a key as a step relation.
  \<^item> \<open>Openapi_Project\<close> (\<open>openapi/document.go\<close>, \<open>project*.go\<close>) and \<open>Openapi_Render\<close> (\<open>render*.go\<close>).
  \<^item> \<open>Grpc_Transport\<close> (\<open>grpc/connect_*.go\<close>, \<open>port.go\<close>, \<open>fault.go\<close>) and \<open>Grpc_Calls\<close> (\<open>procedure.go\<close>,
    \<open>contract.go\<close>, \<open>boundary.go\<close>). \<open>Websocket\<close> (\<open>websocket/*.go\<close>).
  \<^item> \<open>Amqp_Values\<close> and \<open>Amqp_Settling\<close>: what the two protocols share. \<open>Amqp091_Fields\<close>
    (\<open>field_values.go\<close>), \<open>Amqp091_Broker\<close> and \<open>Amqp091_Runs\<close> (\<open>inprocess\<close>), \<open>Amqp091_Client\<close>
    (\<open>publish.go\<close>, \<open>consume.go\<close>, \<open>topology.go\<close>, \<open>port.go\<close>) and \<open>Amqp091_Adapter\<close> (\<open>channel.go\<close>,
    \<open>connect.go\<close>, \<open>deliveries.go\<close>). \<open>Amqp10_Values\<close> (\<open>property_values.go\<close>, \<open>message_values.go\<close>),
    \<open>Amqp10_Broker\<close> (\<open>inprocess\<close>) and \<open>Amqp10_Client\<close> (\<open>send.go\<close>, \<open>receive.go\<close>, \<open>links.go\<close>).
  \<^item> The programs under \<open>examples\<close>, which put the packages together: \<open>Bookstore\<close> and
    \<open>Bookstore_Contract\<close> (\<open>bookstore\<close>: a store served over HTTP, called and documented), \<open>Shelf_Book\<close>,
    \<open>Shelf_Api\<close> and \<open>Shelf_Serve\<close> (\<open>shelf/domain\<close>, \<open>shelf/api\<close>, \<open>shelf/store\<close>, \<open>shelf/serve\<close> and its command: a
    catalogue over a database, and the program that makes its tables and serves it), \<open>Example_Dispatch\<close> (\<open>dispatch\<close>: orders through a queue),
    \<open>Example_Consign\<close> (\<open>consign\<close>: shipments and their dispositions), \<open>Example_Quote\<close> (\<open>quote\<close>: a
    procedure that prices by weight, with \<open>Go_Float\<close> for the arithmetic of \<open>float64\<close>) and
    \<open>Example_Tally\<close> and \<open>Tally_Route\<close> (\<open>tally\<close>: a conversation that keeps a sum, and its route).
  \<^item> The demonstration \<open>examples/cmd/webdemo\<close>, which runs them: \<open>Webdemo_Bookstore\<close> and \<open>Webdemo_Client\<close>
    (\<open>main.go\<close>, \<open>client.go\<close>), \<open>Webdemo_Dispatch\<close>, \<open>Webdemo_Consign\<close> and \<open>Webdemo_Quote\<close>. A scenario is
    the list of the lines it prints, and its theorem says which lines these are.

  Definitions have the names of the code, with a suffix or a prefix where HOL has the name already.
  A struct is a record, a closed set of constants a datatype, a pair of a value and an error a sum
  whose left side is the error, a map a function to options or, where its order shows, a list of
  entries. Strings are lists of bytes. A call through a nil function is kept as an error of its own
  (\<open>nil_call\<close>), so that it can be shown not to happen.

  \<^bold>\<open>What the groups of lemmas show\<close>

  \<^item> Round trips: patterns are parsed to what renders to them, queries and field tables and messages are
    read as they were written, canonical codes survive the wire.
  \<^item> Equivalence and refinement: dispatch through the tree is a scan, a measured route is the plain
    one, the streaming writer of a document writes its tree or fails when the tree is invalid.
  \<^item> Invariants by rule induction over interleavings: of producers and consumers of a broker, of the
    callers of one reading, of a server's loop and its requests; and what becomes of those who
    wait in a history that keeps going.
  \<^item> Errors: each check is characterised as an equivalence (\<open>endpoint_usable\<close>, \<open>assembling_accepts\<close>,
    \<open>page_accepted\<close>, \<open>described_document_renders\<close>).
  \<^item> Composition: a call over a network gives the handler's value, over HTTP
    (\<open>Web_Remote\<close>) and gRPC (\<open>Grpc_Calls\<close>), or the failure it ends with as the boundary answers it; a value published is the value read, once. The
    examples rest on these: what was added is found, what was placed is shipped, what was asked is
    priced, what was asked to be added is counted.

  Interfaces are locales: settling deliveries (\<open>Amqp_Settling\<close>), pulled sources (\<open>Effects\<close>) and
  others beside the components that provide them, each interpreted on the code's own definitions.

  \<^bold>\<open>Bounds and fuel\<close>

  Recursion is structural or has a measure, with two exceptions. \<open>TrimSpace\<close> peels runes with the
  length of its text as fuel, and every peel shortens the text. \<open>collect\<close>, \<open>run_for_each\<close> and
  \<open>run_take\<close> pull a stream a given number of times; the theorems about them say how many pulls give the end. Durations and statuses
  are integers; codes and counters that wrap are words or have the wrapping written out; the delivery tags of
  the in-process brokers, counted from one in 64 bits, are natural numbers.

  \<^bold>\<open>What is assumed, by name\<close>

  Code of other modules is an argument. What is relied on is stated where it is used:
  \<open>lawful\<close> and \<open>succeeds\<close> (running effects; \<open>Web_Settings\<close>, \<open>Web_Remote\<close>), \<open>hosts\<close> (a network;
  \<open>Web_Client\<close>), \<open>cache_keeps\<close> (a cache) and \<open>reads_back\<close> (what \<open>net/http\<close> reads of a response it
  wrote; \<open>Web_Upstream\<close>), the projection and the writer of
  \<open>openapi\<close>, \<open>delivers\<close> of \<open>grpc\<close> and \<open>proto_lawful\<close>, \<open>carries\<close> and \<open>delivers\<close> of \<open>websocket\<close>
  (what a successful write and read do to what is on its way), \<open>duplex\<close> (a connection that stands; \<open>Example_Tally\<close>),
  \<open>schema_lawful\<close> (a schema reads what it writes). Definitions called \<open>example_\<close>, \<open>direct_\<close>, \<open>plain_\<close>,
  \<open>echo_\<close>, \<open>counting_\<close> and the like are instances that show the assumptions can hold.

  \<^bold>\<open>Not modelled\<close>

  The runtime of effects, schemas, \<open>net/http\<close> beyond writers, headers and addresses, the broker
  and socket libraries: they are not in this repository. An effect that is passed on is a function
  on a state or a value of a type variable, so fibers are modelled where the code forks them
  (the server's loop, the readings in flight) and nowhere else. Contexts are the interpretation's.
  Logging is what is handed to the log. \<open>WriteHeader\<close> of a status out of range, which panics, is not
  modelled, and neither is what the wire of AMQP does to a message between two programs. Of the examples, the
  structures of the schemas and the declarations of \<open>shelf/store\<close> for a database module are
  arguments. Of the demonstration, \<open>main\<close>, which runs the scenarios one after another, the report
  of the runtime at its end and the stopping of the servers are not modelled.
\<close>

text \<open>A call of a declared endpoint runs its handler: a request for the path that a client fills from
the endpoint, with the endpoint's method, is dispatched to the endpoint's route, and what comes of
it is what the handler does with the decoded input, its value encoded as the endpoint's output --
if the codec accepts the captures and no other route serves the path as well.\<close>

theorem call_runs_its_handler:
  fixes verb path input outp
  defines "endpoint \<equiv> Web_Endpoint.Declare verb path input outp"
  assumes "lawful ops obs" and "ValidateEndpoint endpoint = None"
    and "NewRoutesWithRejection (Some rejects) rs = Inr surface"
    and "Handle ops endpoint (Some handle) \<in> set rs"
    and "fits (segments endpoint) vals" and "fillPattern (segments endpoint) vals = Inr (Web_Message.Path request)"
    and "Web_Message.Method request = verb"
    and "\<And>s. s \<in> set rs \<Longrightarrow> serves verb (pathSegments (Web_Message.Path request)) s \<Longrightarrow>
           s \<noteq> Handle ops endpoint (Some handle) \<Longrightarrow> map kind (segments endpoint) < kinds s"
    and "\<And>caps. restrict_map caps (set (capture_names (segments endpoint))) =
             restrict_map vals (set (capture_names (segments endpoint))) \<Longrightarrow>
           Decode input (request_withNaming (WithCaptures request caps) None) = Inr v"
  shows "see_response obs (Routes_Handler succeed surface request) =
         see_response obs (FlatMap ops (handle v) (encodeOutput ops outp None))"
  using call_dispatched [of ops obs endpoint rejects rs surface handle vals request v succeed] assms(2-10)
  by (simp add: endpoint_def)

theorem call_runs_its_handler_witness:
  "\<exists>surface. NewRoutesWithRejection (Some rejectRequest) [echo_route] = Inr surface \<and>
     Routes_Handler (\<lambda>r w. (w, Done r)) surface (example_request ''GET'' ''/x'') (3 :: nat) =
       (4, Done (Web_Message.Bytes 200 ''application/json'' ''x''))"
proof -
  let ?r = "example_request ''GET'' ''/x''"
  have usable: "usable echo_route"
    using echo_valid(1) by (simp add: usable_def echo_route_def Handle_def firstRouteFault_def)
  then obtain surface where s: "NewRoutesWithRejection (Some rejectRequest) [echo_route] = Inr surface"
    using NewRoutesWithRejection_ok [of "Some rejectRequest" "[echo_route]"] by auto
  note call = call_runs_its_handler [OF direct_lawful, where verb = "''GET''" and path = "''/{id}''"
    and input = "PathParam plain_library ''id'' verbatim" and outp = "Returns 200 verbatim",
    folded echo_endpoint_def, OF echo_valid(1) s, where handle = "\<lambda>text_value w. (Suc w, Done text_value)",
    folded echo_route_def, unfolded echo_valid(2)]
  have fault: "parameterFault ''id'' verbatim = None" by (simp add: parameterFault_def TrimSpace_visible)
  have filled: "fits [capturing ''id''] [''id'' \<mapsto> ''x'']" "fillPattern [capturing ''id''] [''id'' \<mapsto> ''x''] = Inr ''/x''"
    by (simp_all add: fits_def fillPattern_def go_results)
  have decoded: "Decode (PathParam plain_library ''id'' verbatim)
      (request_withNaming (WithCaptures ?r caps) None) = Inr ''x''"
    if "restrict_map caps {''id''} = [''id'' \<mapsto> ''x'']" for caps
  proof -
    have "caps ''id'' = Some ''x''" using fun_cong [OF that, of "''id''"] by simp
    with fault show ?thesis
      by (simp add: PathParam_def requiredParameter_def Decode_def ValidateCodec_def Let_def Capture_def
          request_withNaming_def WithCaptures_def textSource_def)
  qed
  have "Routes_Handler (\<lambda>r w. (w, Done r)) surface ?r 3 = (4, Done (Web_Message.Bytes 200 ''application/json'' ''x''))"
    using call [of "[''id'' \<mapsto> ''x'']" ?r "''x''" "\<lambda>r w. (w, Done r)"] filled decoded
    by (simp add: direct_observer_def direct_ops_def encodeOutput_def Returns_def JSON_def)
  with s show ?thesis by blast
qed

end
